(* ===== verification/JsPrelude.thy ===== *)
theory JsPrelude
  imports Complex_Main "HOL-Library.AList" "HOL-Library.Char_ord" "HOL-Library.List_Lexorder"
    "HOL-Library.Multiset"
begin

text \<open>
  Prelude of the agentbootup development: the JavaScript values that the code parses,
  validates and stores, the parts of the JavaScript standard library that the modelled
  functions use (truthiness, property access, \<^verbatim>\<open>String.prototype.trim\<close>,
  \<^verbatim>\<open>Number\<close>, \<^verbatim>\<open>path.posix.normalize\<close>, ...), results with thrown errors as the left
  summand, transition systems with their reachable states, and the locales shared by the
  components.

  Conventions.  A JavaScript number is a rational, NaN or an infinity; rounding to doubles
  and the sign of zero are not modelled.  A string is a list of 8-bit characters, that is, of
  the UTF-16 code units below 256, unless a definition says otherwise.  An object is an
  association list of its own enumerable properties in insertion order; inherited properties,
  accessors, symbols and array holes are not values of the model.
\<close>

section \<open>Values\<close>

datatype jsnum = Fin rat | NaN | PosInf | NegInf

datatype js =
    JUndef
  | JNull
  | JBool bool
  | JNum jsnum
  | JStr string
  | JArr "js list"
  | JObj "(string \<times> js) list"

type_synonym env = "string \<Rightarrow> string option"

abbreviation jint :: "int \<Rightarrow> js" where
  "jint n \<equiv> JNum (Fin (of_int n))"

named_theorems js_simps
named_theorems result_simps

fun truthy :: "js \<Rightarrow> bool" where
  "truthy JUndef = False"
| "truthy JNull = False"
| "truthy (JBool b) = b"
| "truthy (JNum (Fin q)) = (q \<noteq> 0)"
| "truthy (JNum NaN) = False"
| "truthy (JNum _) = True"
| "truthy (JStr s) = (s \<noteq> [])"
| "truthy (JArr _) = True"
| "truthy (JObj _) = True"

text \<open>Property access on a value that is not null: the own property or undefined; it is also
  the optional access \<^verbatim>\<open>v?.k\<close>.\<close>

fun js_get :: "js \<Rightarrow> string \<Rightarrow> js" where
  "js_get (JObj kvs) k = (case map_of kvs k of None \<Rightarrow> JUndef | Some v \<Rightarrow> v)"
| "js_get _ k = JUndef"

fun js_keys :: "js \<Rightarrow> string list" where
  "js_keys (JObj kvs) = map fst kvs"
| "js_keys _ = []"

fun js_has_own :: "js \<Rightarrow> string \<Rightarrow> bool" where
  "js_has_own (JObj kvs) k = (k \<in> fst ` set kvs)"
| "js_has_own _ k = False"

fun js_is_str :: "js \<Rightarrow> bool" where
  "js_is_str (JStr _) = True"
| "js_is_str _ = False"

fun js_is_bool :: "js \<Rightarrow> bool" where
  "js_is_bool (JBool _) = True"
| "js_is_bool _ = False"

fun js_is_arr :: "js \<Rightarrow> bool" where
  "js_is_arr (JArr _) = True"
| "js_is_arr _ = False"

text \<open>A truthy value of \<^verbatim>\<open>typeof\<close> object that is not an array.\<close>

fun js_is_record :: "js \<Rightarrow> bool" where
  "js_is_record (JObj _) = True"
| "js_is_record _ = False"

text \<open>\<^verbatim>\<open>value == null\<close>.\<close>

fun js_nullish :: "js \<Rightarrow> bool" where
  "js_nullish JUndef = True"
| "js_nullish JNull = True"
| "js_nullish _ = False"

lemma js_nullish_iff: "js_nullish v \<longleftrightarrow> v = JUndef \<or> v = JNull"
  by (cases v) auto

definition js_coalesce :: "js \<Rightarrow> js \<Rightarrow> js" where
  "js_coalesce a b = (if js_nullish a then b else a)"

definition js_or :: "js \<Rightarrow> js \<Rightarrow> js" where
  "js_or a b = (if truthy a then a else b)"

fun js_str :: "js \<Rightarrow> string option" where
  "js_str (JStr s) = Some s"
| "js_str _ = None"

fun js_elems :: "js \<Rightarrow> js list" where
  "js_elems (JArr vs) = vs"
| "js_elems _ = []"

fun js_entries :: "js \<Rightarrow> (string \<times> js) list" where
  "js_entries (JObj kvs) = kvs"
| "js_entries _ = []"

lemma js_keys_entries: "js_keys v = map fst (js_entries v)"
  by (cases v) auto

text \<open>\<^verbatim>\<open>a === b\<close> where the two sides, if they are objects, are not the same object.\<close>

definition same_value :: "js \<Rightarrow> js \<Rightarrow> bool" where
  "same_value a b \<longleftrightarrow> a = b \<and> \<not> js_is_arr a \<and> \<not> js_is_record a"

text \<open>The entries of \<^verbatim>\<open>{ ...kvs, ...upd }\<close>: a key keeps its place and takes its last value.\<close>

definition put_all :: "(string \<times> 'a) list \<Rightarrow> (string \<times> 'a) list \<Rightarrow> (string \<times> 'a) list" where
  "put_all kvs upd = foldl (\<lambda>kvs (k, v). AList.update k v kvs) kvs upd"

lemma map_of_put_all:
  "map_of (put_all kvs upd) k = (case map_of (rev upd) k of None \<Rightarrow> map_of kvs k | Some v \<Rightarrow> Some v)"
proof (induction upd arbitrary: kvs)
  case (Cons kv upd)
  obtain x v where kv: "kv = (x, v)" by force
  have "put_all kvs (kv # upd) = put_all (AList.update x v kvs) upd" by (simp add: put_all_def kv)
  then show ?case by (simp add: Cons.IH kv update_conv' map_add_def split: option.splits)
qed (simp add: put_all_def)

lemma map_of_filter_fst: "map_of (filter (\<lambda>kv. P (fst kv)) kvs) k = (if P k then map_of kvs k else None)"
  by (induction kvs) auto

lemma map_of_rev_distinct: "distinct (map fst kvs) \<Longrightarrow> map_of (rev kvs) k = map_of kvs k"
  by (metis map_of_inject_set set_rev distinct_rev rev_map)

lemma distinct_put_all: "distinct (map fst kvs) \<Longrightarrow> distinct (map fst (put_all kvs upd))"
  by (induction upd arbitrary: kvs) (auto simp: put_all_def distinct_update)

text \<open>\<^verbatim>\<open>allowed.includes(v)\<close> for a list of texts.\<close>

definition field_in :: "string list \<Rightarrow> js \<Rightarrow> bool" where
  "field_in allowed v = (case v of JStr s \<Rightarrow> s \<in> set allowed | _ \<Rightarrow> False)"

section \<open>Numbers\<close>

definition rat_is_int :: "rat \<Rightarrow> bool" where
  "rat_is_int q \<longleftrightarrow> of_int \<lfloor>q\<rfloor> = q"

fun num_is_finite :: "jsnum \<Rightarrow> bool" where
  "num_is_finite (Fin _) = True"
| "num_is_finite _ = False"

text \<open>\<^verbatim>\<open>JSON.parse(JSON.stringify(v))\<close>: what has no JSON text is dropped from objects and is null elsewhere.\<close>

fun json_stored :: "js \<Rightarrow> js" where
  "json_stored JUndef = JUndef"
| "json_stored JNull = JNull"
| "json_stored (JBool b) = JBool b"
| "json_stored (JStr s) = JStr s"
| "json_stored (JNum n) = (if num_is_finite n then JNum n else JNull)"
| "json_stored (JArr vs) = JArr (map (\<lambda>v. if v = JUndef then JNull else json_stored v) vs)"
| "json_stored (JObj kvs) = JObj (filter (\<lambda>kv. snd kv \<noteq> JUndef) (map (\<lambda>(k, v). (k, json_stored v)) kvs))"

lemma json_stored_undef [simp]: "json_stored v = JUndef \<longleftrightarrow> v = JUndef"
  by (cases v) auto

lemma json_stored_twice: "json_stored (json_stored v) = json_stored v"
proof (induction v rule: json_stored.induct)
  case (6 vs)
  then show ?case by (auto simp: comp_def)
next
  case (7 kvs)
  have "filter (\<lambda>kv. snd kv \<noteq> JUndef) (map (\<lambda>(k, v). (k, json_stored v)) (filter (\<lambda>kv. snd kv \<noteq> JUndef) (map (\<lambda>(k, v). (k, json_stored v)) kvs))) =
      filter (\<lambda>kv. snd kv \<noteq> JUndef) (map (\<lambda>(k, v). (k, json_stored v)) kvs)"
    using 7 by (induction kvs) auto
  then show ?case by simp
qed auto

lemma map_of_defined:
  "distinct (map fst kvs) \<Longrightarrow>
   map_of (filter (\<lambda>kv. snd kv \<noteq> JUndef) kvs) k = (case map_of kvs k of None \<Rightarrow> None | Some v \<Rightarrow> if v = JUndef then None else Some v)"
proof (induction kvs)
  case (Cons kv kvs)
  show ?case
  proof (cases "fst kv = k")
    case True
    with Cons.prems have "map_of kvs k = None" by (auto simp: map_of_eq_None_iff)
    with True Cons show ?thesis by (cases kv) simp
  next
    case False
    with Cons show ?thesis by (cases kv) simp
  qed
qed simp

lemma js_get_stored:
  assumes "distinct (js_keys v)"
  shows "js_get (json_stored v) k = json_stored (js_get v k)"
proof (cases v)
  case (JObj kvs)
  have "distinct (map fst (map (\<lambda>(k, v). (k, json_stored v)) kvs))" using assms by (simp add: JObj comp_def case_prod_unfold)
  from map_of_defined [OF this, of k] show ?thesis by (simp add: JObj map_of_map split: option.splits)
qed auto

lemma distinct_stored: "distinct (js_keys v) \<Longrightarrow> distinct (js_keys (json_stored v))"
proof (cases v)
  case (JObj kvs)
  have "map fst (filter (\<lambda>kv. snd kv \<noteq> JUndef) (map (\<lambda>(k, v). (k, json_stored v)) kvs)) = map fst (filter (\<lambda>kv. snd kv \<noteq> JUndef) kvs)"
    by (induction kvs) auto
  then show "distinct (js_keys v) \<Longrightarrow> ?thesis" by (simp add: JObj distinct_map_filter)
qed auto

fun js_is_integer :: "js \<Rightarrow> bool" where
  "js_is_integer (JNum (Fin q)) = rat_is_int q"
| "js_is_integer _ = False"

definition max_safe_integer :: rat where
  "max_safe_integer = 9007199254740991"

fun js_is_safe_integer :: "js \<Rightarrow> bool" where
  "js_is_safe_integer (JNum (Fin q)) = (rat_is_int q \<and> \<bar>q\<bar> \<le> max_safe_integer)"
| "js_is_safe_integer _ = False"

text \<open>\<^verbatim>\<open>Number.isFinite\<close>: no coercion.\<close>

fun js_is_finite :: "js \<Rightarrow> bool" where
  "js_is_finite (JNum n) = num_is_finite n"
| "js_is_finite _ = False"

text \<open>\<^verbatim>\<open>Number.isInteger(v) && lo <= v && v <= hi\<close>.\<close>

fun js_int_between :: "rat \<Rightarrow> rat \<Rightarrow> js \<Rightarrow> bool" where
  "js_int_between lo hi (JNum (Fin q)) = (rat_is_int q \<and> lo \<le> q \<and> q \<le> hi)"
| "js_int_between lo hi _ = False"

lemma rat_is_int_of_int [simp]: "rat_is_int (of_int n)"
  by (simp add: rat_is_int_def)

lemma rat_is_int_iff: "rat_is_int q \<longleftrightarrow> (\<exists>n. q = of_int n)"
  by (metis rat_is_int_def floor_of_int)

lemma rat_is_int_numeral [simp]:
  "rat_is_int 0" "rat_is_int 1" "rat_is_int (numeral k)" "rat_is_int (- numeral k)" "rat_is_int (-1)"
proof -
  show "rat_is_int 0" using rat_is_int_of_int [of 0] by simp
  show "rat_is_int 1" using rat_is_int_of_int [of 1] by simp
  show "rat_is_int (numeral k)" using rat_is_int_of_int [of "numeral k"] by simp
  show "rat_is_int (- numeral k)" using rat_is_int_of_int [of "- numeral k"] by simp
  show "rat_is_int (-1)" using rat_is_int_of_int [of "-1"] by simp
qed

section \<open>Strings\<close>

definition starts_with :: "string \<Rightarrow> string \<Rightarrow> bool" where
  "starts_with s p \<longleftrightarrow> take (length p) s = p"

definition ends_with :: "string \<Rightarrow> string \<Rightarrow> bool" where
  "ends_with s p \<longleftrightarrow> length p \<le> length s \<and> drop (length s - length p) s = p"

fun has_sub :: "string \<Rightarrow> string \<Rightarrow> bool" where
  "has_sub [] p = (p = [])"
| "has_sub (c # s) p = (starts_with (c # s) p \<or> has_sub s p)"

definition nul :: char where
  "nul = CHR 0x00"

text \<open>The white space and line terminators of \<^verbatim>\<open>String.prototype.trim\<close> below 256.\<close>

definition is_js_space :: "char \<Rightarrow> bool" where
  "is_js_space c \<longleftrightarrow>
     c \<in> {CHR 0x09, CHR 0x0A, CHR 0x0B, CHR 0x0C, CHR 0x0D, CHR 0x20, CHR 0xA0}"

definition js_trim :: "string \<Rightarrow> string" where
  "js_trim s = rev (dropWhile is_js_space (rev (dropWhile is_js_space s)))"

definition is_ascii_upper :: "char \<Rightarrow> bool" where
  "is_ascii_upper c \<longleftrightarrow> CHR ''A'' \<le> c \<and> c \<le> CHR ''Z''"

definition is_ascii_lower :: "char \<Rightarrow> bool" where
  "is_ascii_lower c \<longleftrightarrow> CHR ''a'' \<le> c \<and> c \<le> CHR ''z''"

definition is_ascii_alpha :: "char \<Rightarrow> bool" where
  "is_ascii_alpha c \<longleftrightarrow> is_ascii_upper c \<or> is_ascii_lower c"

definition is_digit_char :: "char \<Rightarrow> bool" where
  "is_digit_char c \<longleftrightarrow> CHR ''0'' \<le> c \<and> c \<le> CHR ''9''"

definition is_alnum_char :: "char \<Rightarrow> bool" where
  "is_alnum_char c \<longleftrightarrow> is_ascii_alpha c \<or> is_digit_char c"

text \<open>\<^verbatim>\<open>toLowerCase\<close> on the code units below 256.\<close>

definition lower_char :: "char \<Rightarrow> char" where
  "lower_char c =
     (if is_ascii_upper c \<or> (CHR 0xC0 \<le> c \<and> c \<le> CHR 0xDE \<and> c \<noteq> CHR 0xD7)
      then char_of (of_char c + (32::nat)) else c)"

definition to_lower :: "string \<Rightarrow> string" where
  "to_lower s = map lower_char s"

text \<open>\<^verbatim>\<open>s.split(c)\<close> on a one-character separator: never empty.\<close>

fun split_on :: "char \<Rightarrow> string \<Rightarrow> string list" where
  "split_on c [] = [[]]"
| "split_on c (x # xs) =
     (if x = c then [] # split_on c xs
      else (case split_on c xs of [] \<Rightarrow> [[x]] | y # ys \<Rightarrow> (x # y) # ys))"

fun join_with :: "string \<Rightarrow> string list \<Rightarrow> string" where
  "join_with sep [] = []"
| "join_with sep [x] = x"
| "join_with sep (x # y # ys) = x @ sep @ join_with sep (y # ys)"

definition non_empty_string :: "js \<Rightarrow> bool" where
  "non_empty_string v = (case v of JStr s \<Rightarrow> js_trim s \<noteq> [] | _ \<Rightarrow> False)"

lemma split_on_not_Nil [simp]: "split_on c s \<noteq> []"
  by (induction s) (auto split: list.splits)

lemma join_split [simp]: "join_with [c] (split_on c s) = s"
proof (induction s)
  case (Cons x xs)
  obtain y ys where "split_on c xs = y # ys"
    by (cases "split_on c xs") auto
  with Cons show ?case
    by (cases ys) auto
qed simp

lemma starts_with_iff: "starts_with s p \<longleftrightarrow> (\<exists>r. s = p @ r)"
proof
  assume "starts_with s p"
  then have "s = p @ drop (length p) s"
    by (metis append_take_drop_id starts_with_def)
  then show "\<exists>r. s = p @ r" by blast
qed (auto simp: starts_with_def)

lemma starts_with_Nil [simp]: "starts_with s []"
  by (simp add: starts_with_def)

lemma starts_with_append [simp]: "starts_with (p @ r) p"
  by (simp add: starts_with_def)

lemma has_sub_iff: "has_sub s p \<longleftrightarrow> (\<exists>a b. s = a @ p @ b)"
proof (induction s)
  case (Cons c s)
  show ?case
  proof
    assume "has_sub (c # s) p"
    then show "\<exists>a b. c # s = a @ p @ b"
    proof (cases "starts_with (c # s) p")
      case True
      then obtain r where "c # s = p @ r" by (auto simp: starts_with_iff)
      then show ?thesis by (intro exI [of _ "[]"] exI [of _ r]) simp
    next
      case False
      with \<open>has_sub (c # s) p\<close> Cons.IH obtain a b where "s = a @ p @ b" by auto
      then show ?thesis by (intro exI [of _ "c # a"] exI [of _ b]) simp
    qed
  next
    assume "\<exists>a b. c # s = a @ p @ b"
    then obtain a b where eq: "c # s = a @ p @ b" by blast
    show "has_sub (c # s) p"
    proof (cases a)
      case Nil
      with eq have "starts_with (c # s) p" by (simp only: append_Nil starts_with_append)
      then show ?thesis by simp
    next
      case (Cons d a')
      with eq have "s = a' @ p @ b" by simp
      with Cons.IH show ?thesis by auto
    qed
  qed
qed auto

section \<open>Number of a string\<close>

text \<open>
  \<^verbatim>\<open>Number(s)\<close>: the string grammar of the language (trimmed; empty is 0; signed Infinity;
  unsigned 0x, 0o and 0b literals; decimal literals with fraction and exponent), with the
  exact rational value in place of the nearest double.
\<close>

definition digit_val :: "char \<Rightarrow> nat" where
  "digit_val c =
     (if is_digit_char c then of_char c - 48
      else if is_ascii_upper c then of_char c - 55
      else if is_ascii_lower c then of_char c - 87
      else 99)"

definition digits_value :: "nat \<Rightarrow> string \<Rightarrow> nat" where
  "digits_value b ds = foldl (\<lambda>acc c. acc * b + digit_val c) 0 ds"

definition radix_literal :: "nat \<Rightarrow> string \<Rightarrow> jsnum" where
  "radix_literal b ds =
     (if ds \<noteq> [] \<and> list_all (\<lambda>c. digit_val c < b) ds
      then Fin (of_nat (digits_value b ds)) else NaN)"

definition exponent_part :: "string \<Rightarrow> int option" where
  "exponent_part s =
     (case s of
        [] \<Rightarrow> Some 0
      | c # r \<Rightarrow>
          if c = CHR ''e'' \<or> c = CHR ''E'' then
            (let neg = (case r of d # _ \<Rightarrow> d = CHR ''-'' | [] \<Rightarrow> False);
                 ds = (case r of d # r' \<Rightarrow> if d = CHR ''-'' \<or> d = CHR ''+'' then r' else r | [] \<Rightarrow> [])
             in if ds \<noteq> [] \<and> list_all is_digit_char ds
                then Some ((if neg then -1 else 1) * int (digits_value 10 ds)) else None)
          else None)"

definition scale10 :: "rat \<Rightarrow> int \<Rightarrow> rat" where
  "scale10 q e = (if 0 \<le> e then q * 10 ^ nat e else q / 10 ^ nat (- e))"

definition decimal_literal :: "string \<Rightarrow> jsnum" where
  "decimal_literal s =
     (let ip = takeWhile is_digit_char s;
          r1 = dropWhile is_digit_char s;
          dotted = (case r1 of c # _ \<Rightarrow> c = CHR ''.'' | [] \<Rightarrow> False);
          fp = (if dotted then takeWhile is_digit_char (tl r1) else []);
          r2 = (if dotted then dropWhile is_digit_char (tl r1) else r1)
      in if ip = [] \<and> fp = [] then NaN
         else (case exponent_part r2 of
                 None \<Rightarrow> NaN
               | Some e \<Rightarrow> Fin (scale10 (of_nat (digits_value 10 (ip @ fp))) (e - int (length fp)))))"

fun num_neg :: "jsnum \<Rightarrow> jsnum" where
  "num_neg (Fin q) = Fin (- q)"
| "num_neg NaN = NaN"
| "num_neg PosInf = NegInf"
| "num_neg NegInf = PosInf"

definition unsigned_literal :: "string \<Rightarrow> jsnum" where
  "unsigned_literal s = (if s = ''Infinity'' then PosInf else decimal_literal s)"

definition number_of_string :: "string \<Rightarrow> jsnum" where
  "number_of_string s0 =
     (let s = js_trim s0 in
      case s of
        [] \<Rightarrow> Fin 0
      | [c] \<Rightarrow> unsigned_literal s
      | c # d # r \<Rightarrow>
          if c = CHR ''0'' \<and> (d = CHR ''x'' \<or> d = CHR ''X'') then radix_literal 16 r
          else if c = CHR ''0'' \<and> (d = CHR ''o'' \<or> d = CHR ''O'') then radix_literal 8 r
          else if c = CHR ''0'' \<and> (d = CHR ''b'' \<or> d = CHR ''B'') then radix_literal 2 r
          else if c = CHR ''-'' then num_neg (unsigned_literal (d # r))
          else if c = CHR ''+'' then unsigned_literal (d # r)
          else unsigned_literal s)"

text \<open>\<^verbatim>\<open>Number(v)\<close>: an array is read through its string, which is that of its only
  element or contains a comma.\<close>

fun js_number :: "js \<Rightarrow> jsnum" where
  "js_number JUndef = NaN"
| "js_number JNull = Fin 0"
| "js_number (JBool b) = Fin (if b then 1 else 0)"
| "js_number (JNum n) = n"
| "js_number (JStr s) = number_of_string s"
| "js_number (JArr []) = Fin 0"
| "js_number (JArr [v]) =
     (case v of
        JUndef \<Rightarrow> Fin 0 | JBool _ \<Rightarrow> NaN | _ \<Rightarrow> js_number v)"
| "js_number (JArr (_ # _ # _)) = NaN"
| "js_number (JObj _) = NaN"

text \<open>\<^verbatim>\<open>Number(process.env.X)\<close>: an unset variable is undefined, whose number is NaN.\<close>

definition env_number :: "env \<Rightarrow> string \<Rightarrow> jsnum" where
  "env_number e k = (case e k of None \<Rightarrow> NaN | Some s \<Rightarrow> number_of_string s)"

section \<open>Text of a value\<close>

text \<open>\<^verbatim>\<open>String(v)\<close>; the text of a number is the parameter \<open>nt\<close>.\<close>

fun js_to_string :: "(jsnum \<Rightarrow> string) \<Rightarrow> js \<Rightarrow> string" where
  "js_to_string nt JUndef = ''undefined''"
| "js_to_string nt JNull = ''null''"
| "js_to_string nt (JBool b) = (if b then ''true'' else ''false'')"
| "js_to_string nt (JNum n) = nt n"
| "js_to_string nt (JStr s) = s"
| "js_to_string nt (JArr vs) = join_with '','' (map (\<lambda>v. if js_nullish v then [] else js_to_string nt v) vs)"
| "js_to_string nt (JObj _) = ''[object Object]''"

definition is_hex_char :: "char \<Rightarrow> bool" where
  "is_hex_char c \<longleftrightarrow> is_digit_char c \<or> (CHR ''a'' \<le> c \<and> c \<le> CHR ''f'')"

text \<open>\<^verbatim>\<open>/^[a-f0-9]{n}$/\<close>.\<close>

definition hex_text :: "nat \<Rightarrow> string \<Rightarrow> bool" where
  "hex_text n s \<longleftrightarrow> length s = n \<and> list_all is_hex_char s"

definition git_commit_text :: "string \<Rightarrow> bool" where
  "git_commit_text s \<longleftrightarrow> hex_text 40 s \<or> hex_text 64 s"

section \<open>Decimal numerals\<close>

definition digit_char :: "nat \<Rightarrow> char" where
  "digit_char d = char_of (48 + d)"

fun nat_to_string :: "nat \<Rightarrow> string" where
  "nat_to_string n =
     (if n < 10 then [digit_char n] else nat_to_string (n div 10) @ [digit_char (n mod 10)])"

declare nat_to_string.simps [simp del]

section \<open>Comparators and sorting\<close>

text \<open>\<^verbatim>\<open>Array.prototype.sort\<close> with a comparator: the stable sort.\<close>

fun insert_by :: "('a \<Rightarrow> 'a \<Rightarrow> int) \<Rightarrow> 'a \<Rightarrow> 'a list \<Rightarrow> 'a list" where
  "insert_by cmp x [] = [x]"
| "insert_by cmp x (y # ys) = (if cmp y x \<le> 0 then y # insert_by cmp x ys else x # y # ys)"

definition sort_by :: "('a \<Rightarrow> 'a \<Rightarrow> int) \<Rightarrow> 'a list \<Rightarrow> 'a list" where
  "sort_by cmp xs = fold (insert_by cmp) xs []"

lemma mset_insert_by [simp]: "mset (insert_by cmp x xs) = add_mset x (mset xs)"
  by (induction xs) auto

lemma mset_fold_insert_by: "mset (fold (insert_by cmp) xs acc) = mset xs + mset acc"
  by (induction xs arbitrary: acc) auto

lemma mset_sort_by [simp]: "mset (sort_by cmp xs) = mset xs"
  by (simp add: sort_by_def mset_fold_insert_by)

lemma set_sort_by [simp]: "set (sort_by cmp xs) = set xs"
  by (metis mset_sort_by set_mset_mset)

lemma length_sort_by [simp]: "length (sort_by cmp xs) = length xs"
  by (metis mset_sort_by size_mset)

lemma sort_by_Nil_iff [simp]: "sort_by cmp xs = [] \<longleftrightarrow> xs = []"
  by (metis length_0_conv length_sort_by)

lemma distinct_sort_by [simp]: "distinct (sort_by cmp xs) = distinct xs"
  by (metis mset_sort_by mset_eq_imp_distinct_iff)

lemma sorted_wrt_distinct:
  "sorted_wrt P xs \<Longrightarrow> distinct xs \<Longrightarrow> sorted_wrt (\<lambda>a b. P a b \<and> a \<noteq> b) xs"
  by (induction xs) auto

lemma sorted_wrt_perm:
  assumes "mset xs = mset ys" and "sorted_wrt R xs" and "sorted_wrt R ys"
    and "\<And>x y. x \<in> set xs \<Longrightarrow> y \<in> set xs \<Longrightarrow> R x y \<Longrightarrow> R y x \<Longrightarrow> x = y"
  shows "xs = ys"
  using assms
proof (induction xs arbitrary: ys)
  case (Cons x xs)
  obtain y zs where ys: "ys = y # zs"
    using Cons.prems(1) by (cases ys) auto
  have sets: "insert x (set xs) = insert y (set zs)"
    using arg_cong [OF Cons.prems(1), of set_mset] by (simp add: ys)
  have xy: "x = y"
  proof (rule ccontr)
    assume "x \<noteq> y"
    have "x \<in> insert y (set zs)" and "y \<in> insert x (set xs)" using sets by blast+
    with \<open>x \<noteq> y\<close> have x: "x \<in> set zs" and y: "y \<in> set xs" by simp_all
    have "R x y" using Cons.prems(2) y by simp
    moreover have "R y x" using Cons.prems(3) x by (simp add: ys)
    ultimately show False using Cons.prems(4) [of x y] y \<open>x \<noteq> y\<close> by simp
  qed
  have "xs = zs"
  proof (rule Cons.IH)
    show "mset xs = mset zs" using Cons.prems(1) ys xy by simp
  qed (use Cons.prems ys in auto)
  with xy ys show ?case by simp
qed simp

lemma sort_by_sorted: "sorted_wrt (\<lambda>x y. cmp x y \<le> 0) xs \<Longrightarrow> sort_by cmp xs = xs"
proof -
  have last_place: "\<forall>y \<in> set ys. cmp y x \<le> 0 \<Longrightarrow> insert_by cmp x ys = ys @ [x]" for x ys
    by (induction ys) auto
  have "sorted_wrt (\<lambda>x y. cmp x y \<le> 0) (acc @ xs) \<Longrightarrow> fold (insert_by cmp) xs acc = acc @ xs" for acc
  proof (induction xs arbitrary: acc)
    case (Cons x xs)
    then have "insert_by cmp x acc = acc @ [x]"
      by (intro last_place) (auto simp: sorted_wrt_append)
    with Cons.IH [of "acc @ [x]"] Cons.prems show ?case by simp
  qed simp
  from this [of "[]"] show "sorted_wrt (\<lambda>x y. cmp x y \<le> 0) xs \<Longrightarrow> sort_by cmp xs = xs"
    by (simp add: sort_by_def)
qed

text \<open>What \<^verbatim>\<open>sort\<close> asks of its comparator: a total preorder.\<close>

locale comparator =
  fixes cmp :: "'a \<Rightarrow> 'a \<Rightarrow> int"
  assumes cmp_total: "cmp x y \<le> 0 \<or> cmp y x \<le> 0"
    and cmp_trans: "cmp x y \<le> 0 \<Longrightarrow> cmp y z \<le> 0 \<Longrightarrow> cmp x z \<le> 0"
begin

lemma sorted_insert_by:
  "sorted_wrt (\<lambda>x y. cmp x y \<le> 0) ys \<Longrightarrow> sorted_wrt (\<lambda>x y. cmp x y \<le> 0) (insert_by cmp x ys)"
proof (induction ys)
  case (Cons y ys)
  have sub: "set (insert_by cmp x ys) = insert x (set ys)"
    by (metis mset_insert_by set_mset_add_mset_insert set_mset_mset)
  show ?case
  proof (cases "cmp y x \<le> 0")
    case True
    with Cons sub show ?thesis by auto
  next
    case False
    then have "cmp x y \<le> 0" using cmp_total by blast
    with False Cons.prems show ?thesis by (auto intro: cmp_trans)
  qed
qed simp

lemma sorted_sort_by: "sorted_wrt (\<lambda>x y. cmp x y \<le> 0) (sort_by cmp xs)"
proof -
  have "sorted_wrt (\<lambda>x y. cmp x y \<le> 0) acc \<Longrightarrow>
        sorted_wrt (\<lambda>x y. cmp x y \<le> 0) (fold (insert_by cmp) xs acc)" for acc
    by (induction xs arbitrary: acc) (auto intro: sorted_insert_by)
  then show ?thesis by (simp add: sort_by_def)
qed

text \<open>Where the comparator separates the elements, the result does not depend on their order.\<close>

lemma sort_by_perm:
  assumes "mset xs = mset ys"
    and "\<And>x y. x \<in> set xs \<Longrightarrow> y \<in> set xs \<Longrightarrow> cmp x y \<le> 0 \<Longrightarrow> cmp y x \<le> 0 \<Longrightarrow> x = y"
  shows "sort_by cmp xs = sort_by cmp ys"
proof (rule sorted_wrt_perm [where R = "\<lambda>x y. cmp x y \<le> 0"])
  show "mset (sort_by cmp xs) = mset (sort_by cmp ys)" using assms(1) by simp
qed (auto intro: sorted_sort_by assms(2))

end

text \<open>A comparator that calls only equal elements equal: the sorted list is a function of the multiset.\<close>

locale separating_comparator = comparator +
  assumes cmp_separates: "cmp x y \<le> 0 \<Longrightarrow> cmp y x \<le> 0 \<Longrightarrow> x = y"
begin

lemma sort_by_canonical: "mset xs = mset ys \<Longrightarrow> sort_by cmp xs = sort_by cmp ys"
  by (rule sort_by_perm) (auto intro: cmp_separates)

end

sublocale separating_comparator \<subseteq> cmp_order: ordering "\<lambda>x y. cmp x y \<le> 0" "\<lambda>x y. cmp x y \<le> 0 \<and> x \<noteq> y"
  by unfold_locales (use cmp_total in blast, auto intro: cmp_trans cmp_separates)

text \<open>The comparison of strings by code units, \<^verbatim>\<open>left < right\<close> of the language.\<close>

definition compare_code_units :: "string \<Rightarrow> string \<Rightarrow> int" where
  "compare_code_units a b = (if a < b then -1 else if b < a then 1 else 0)"

interpretation code_units: separating_comparator compare_code_units
  by unfold_locales (auto simp: compare_code_units_def split: if_splits)

text \<open>The comparison of pairs by first and then by second component,
  \<^verbatim>\<open>cmp(a.x, b.x) || cmp(a.y, b.y)\<close>.\<close>

definition lex_cmp :: "('a \<Rightarrow> 'a \<Rightarrow> int) \<Rightarrow> 'a \<times> 'a \<Rightarrow> 'a \<times> 'a \<Rightarrow> int" where
  "lex_cmp cmp a b =
     (if cmp (fst a) (fst b) \<noteq> 0 then cmp (fst a) (fst b) else cmp (snd a) (snd b))"

section \<open>Results\<close>

text \<open>A computation that may throw: \<open>Inl\<close> the error, \<open>Inr\<close> the value.\<close>

definition throw_if :: "bool \<Rightarrow> 'e \<Rightarrow> 'e + 'a \<Rightarrow> 'e + 'a" where
  "throw_if c e k = (if c then Inl e else k)"

definition bind_r :: "'e + 'a \<Rightarrow> ('a \<Rightarrow> 'e + 'b) \<Rightarrow> 'e + 'b" where
  "bind_r m f = (case m of Inl e \<Rightarrow> Inl e | Inr a \<Rightarrow> f a)"

text \<open>A loop whose body may throw: it stops at the first error.\<close>

fun map_r :: "('a \<Rightarrow> 'e + 'b) \<Rightarrow> 'a list \<Rightarrow> 'e + 'b list" where
  "map_r f [] = Inr []"
| "map_r f (x # xs) = bind_r (f x) (\<lambda>y. bind_r (map_r f xs) (\<lambda>ys. Inr (y # ys)))"

fun fold_r :: "('s \<Rightarrow> 'a \<Rightarrow> 'e + 's) \<Rightarrow> 's \<Rightarrow> 'a list \<Rightarrow> 'e + 's" where
  "fold_r f s [] = Inr s"
| "fold_r f s (x # xs) = bind_r (f s x) (\<lambda>s'. fold_r f s' xs)"

fun is_ok :: "'e + 'a \<Rightarrow> bool" where
  "is_ok (Inl _) = False"
| "is_ok (Inr _) = True"

lemma throw_if_Inr [simp, result_simps]: "throw_if c e k = Inr x \<longleftrightarrow> \<not> c \<and> k = Inr x"
  by (simp add: throw_if_def)

lemma throw_if_False [simp]: "throw_if False e k = k"
  by (simp add: throw_if_def)

lemma throw_if_True [simp]: "throw_if True e k = Inl e"
  by (simp add: throw_if_def)

lemma bind_r_Inr [simp, result_simps]: "bind_r m f = Inr y \<longleftrightarrow> (\<exists>x. m = Inr x \<and> f x = Inr y)"
  by (cases m) (auto simp: bind_r_def)

lemma bind_r_simps [simp]: "bind_r (Inr a) f = f a" "bind_r (Inl e) f = Inl e"
  by (simp_all add: bind_r_def)

lemma map_r_Inr_iff:
  "map_r f xs = Inr ys \<longleftrightarrow> list_all2 (\<lambda>x y. f x = Inr y) xs ys"
  by (induction xs arbitrary: ys) (auto simp: list_all2_Cons1)

lemma map_r_length: "map_r f xs = Inr ys \<Longrightarrow> length ys = length xs"
  by (auto simp: map_r_Inr_iff dest: list_all2_lengthD)

lemma map_r_same:
  assumes "\<And>x y. x \<in> set xs \<Longrightarrow> f x = Inr y \<Longrightarrow> y = x" and "map_r f xs = Inr ys"
  shows "ys = xs"
  using assms by (induction xs arbitrary: ys) auto

section \<open>Transition systems\<close>

inductive reach :: "('s \<Rightarrow> bool) \<Rightarrow> ('s \<Rightarrow> 's \<Rightarrow> bool) \<Rightarrow> 's \<Rightarrow> bool"
  for start :: "'s \<Rightarrow> bool" and move :: "'s \<Rightarrow> 's \<Rightarrow> bool" where
  reach_start: "start s \<Longrightarrow> reach start move s"
| reach_move: "reach start move s \<Longrightarrow> move s t \<Longrightarrow> reach start move t"

text \<open>The interface of every component that is a transition system: an inductive invariant and
  the safety property that it implies.\<close>

locale guarded_system =
  fixes start :: "'s \<Rightarrow> bool"
    and move :: "'s \<Rightarrow> 's \<Rightarrow> bool"
    and inv :: "'s \<Rightarrow> bool"
  assumes inv_start: "start s \<Longrightarrow> inv s"
    and inv_move: "inv s \<Longrightarrow> move s t \<Longrightarrow> inv t"
begin

lemma reachable_inv: "reach start move s \<Longrightarrow> inv s"
  by (induction rule: reach.induct) (auto intro: inv_start inv_move)

end

text \<open>A lock as a transition system: while it is held, the shared file names the holder.\<close>

locale owned_lock = guarded_system start move inv
  for start :: "'s \<Rightarrow> bool" and move :: "'s \<Rightarrow> 's \<Rightarrow> bool" and inv :: "'s \<Rightarrow> bool" +
  fixes holds :: "'s \<Rightarrow> 'p \<Rightarrow> bool"
    and owner :: "'s \<Rightarrow> 'p option"
  assumes holds_owner: "inv s \<Longrightarrow> holds s p \<Longrightarrow> owner s = Some p"
begin

lemma mutual_exclusion: "reach start move s \<Longrightarrow> holds s p \<Longrightarrow> holds s q \<Longrightarrow> p = q"
  by (metis holds_owner option.inject reachable_inv)

end

text \<open>A process that always finishes: as long as it is not idle it can move, and every move uses up work.\<close>

locale settling =
  fixes move :: "'s \<Rightarrow> 's \<Rightarrow> bool"
    and work :: "'s \<Rightarrow> nat"
    and idle :: "'s \<Rightarrow> bool"
  assumes move_works: "move s t \<Longrightarrow> work t < work s"
    and move_unless_idle: "\<not> idle s \<Longrightarrow> \<exists>t. move s t"
begin

lemma moves_bounded: "(move ^^ n) s t \<Longrightarrow> n + work t \<le> work s"
proof (induction n arbitrary: t)
  case (Suc n)
  then obtain u where "(move ^^ n) s u" "move u t" by auto
  with Suc.IH move_works show ?case by fastforce
qed simp

lemma settles: "\<exists>n t. (move ^^ n) s t \<and> idle t"
proof (induction s rule: measure_induct_rule [of work])
  case (less s)
  show ?case
  proof (cases "idle s")
    case False
    then obtain s' where s': "move s s'" using move_unless_idle by blast
    with less [OF move_works] obtain n t where "(move ^^ n) s' t" "idle t" by blast
    with s' show ?thesis by (blast intro: relpowp_Suc_I2)
  qed (blast intro: relpowp_0_I)
qed

lemma settles_within: "\<exists>n t. n \<le> work s \<and> (move ^^ n) s t \<and> idle t"
  using settles moves_bounded by (metis le_add1 le_trans)

end

section \<open>Snapshots of untrusted records\<close>

text \<open>
  Several components accept an untrusted value only through a function that re-reads every field
  and returns an owned copy (\<^verbatim>\<open>snapshotNormalizedMemoryConflict\<close>,
  \<^verbatim>\<open>snapshotMemoryConvergenceFailure\<close>, \<^verbatim>\<open>validateBootstrapPlan\<close>, ...).  The contract:
  what comes out is accepted again, unchanged.
\<close>

locale owned_snapshot =
  fixes snap :: "js \<Rightarrow> 'r option"
    and render :: "'r \<Rightarrow> js"
  assumes snap_render: "snap v = Some r \<Longrightarrow> snap (render r) = Some r"
begin

lemma snap_twice: "snap v = Some r \<Longrightarrow> Option.bind (snap v) (snap \<circ> render) = snap v"
  by (simp add: snap_render)

lemma render_inj: "snap v = Some r \<Longrightarrow> snap w = Some r' \<Longrightarrow> render r = render r' \<Longrightarrow> r = r'"
  by (metis snap_render option.inject)

end

end
