(* ===== verification/ConvergeSafety.thy ===== *)
theory ConvergeSafety
  imports JsPrelude
begin

text \<open>
  The memory-convergence safety contract, \<^verbatim>\<open>lib/memory/converge-safety.js\<close>: how the
  converge setting is resolved from the environment and the persisted configuration, when raw
  memory publication is allowed, and which health report counts as safe.  The health report is
  an arbitrary JavaScript value; \<^verbatim>\<open>Date.parse\<close> is the parameter \<open>dp\<close>.
\<close>

section \<open>The converge setting\<close>

record converge_setting =
  cs_enabled :: bool
  cs_source :: string

definition safe_converge_states :: "string list" where
  "safe_converge_states = [''ok'', ''never_synced'']"

definition safe_freshness_states :: "string list" where
  "safe_freshness_states = [''ok'', ''idle'', ''never_synced'']"

definition parse_boolean_override :: "string option \<Rightarrow> bool option" where
  "parse_boolean_override value =
     (let normalized = to_lower (js_trim (case value of None \<Rightarrow> [] | Some s \<Rightarrow> s))
      in if normalized \<in> set [''1'', ''true'', ''on'', ''yes''] then Some True
         else if normalized \<in> set [''0'', ''false'', ''off'', ''no''] then Some False
         else None)"

definition resolve_converge_setting :: "js \<Rightarrow> env \<Rightarrow> converge_setting" where
  "resolve_converge_setting config env =
     (if parse_boolean_override (env ''AGENTBOOTUP_MEMORY_CONVERGE_DISABLED'') = Some True
      then \<lparr>cs_enabled = False, cs_source = ''env:AGENTBOOTUP_MEMORY_CONVERGE_DISABLED''\<rparr>
      else (case parse_boolean_override (env ''AGENTBOOTUP_MEMORY_CONVERGE_ENABLED'') of
              Some b \<Rightarrow> \<lparr>cs_enabled = b, cs_source = ''env:AGENTBOOTUP_MEMORY_CONVERGE_ENABLED''\<rparr>
            | None \<Rightarrow>
                (case js_get config ''memoryConvergeEnabled'' of
                   JBool b \<Rightarrow> \<lparr>cs_enabled = b, cs_source = ''persisted''\<rparr>
                 | _ \<Rightarrow> \<lparr>cs_enabled = True, cs_source = ''default''\<rparr>)))"

definition is_raw_memory_publication_allowed :: "converge_setting option \<Rightarrow> bool \<Rightarrow> bool" where
  "is_raw_memory_publication_allowed setting gate_open =
     (case setting of
        None \<Rightarrow> False
      | Some s \<Rightarrow> if \<not> cs_enabled s then True else gate_open)"

section \<open>Health reports\<close>

definition common_fields_complete :: "js \<Rightarrow> bool" where
  "common_fields_complete h \<longleftrightarrow>
     truthy h \<and> js_is_str (js_get h ''state'') \<and> js_is_bool (js_get h ''enabled'') \<and>
     js_is_str (js_get h ''configSource'') \<and> js_is_str (js_get h ''store'') \<and>
     js_is_bool (js_get h ''gateOpen'')"

text \<open>A string field that holds a parseable date.\<close>

definition dated_field :: "(string \<Rightarrow> jsnum) \<Rightarrow> js \<Rightarrow> string \<Rightarrow> bool" where
  "dated_field dp h k = (case js_get h k of JStr s \<Rightarrow> num_is_finite (dp s) | _ \<Rightarrow> False)"

definition has_complete_converge_health :: "(string \<Rightarrow> jsnum) \<Rightarrow> js \<Rightarrow> bool" where
  "has_complete_converge_health dp h =
     (if common_fields_complete h \<and> js_get h ''state'' = JStr ''disabled'' \<and>
         js_get h ''enabled'' = JBool False \<and> js_get h ''gateOpen'' = JBool True
      then True
      else common_fields_complete h \<and> dated_field dp h ''lastCycleAt'' \<and>
           (case js_get h ''freshnessState'' of
              JStr s \<Rightarrow> s \<in> set safe_freshness_states | _ \<Rightarrow> False) \<and>
           dated_field dp h ''freshnessCheckedAt'')"

definition is_converge_health_safe :: "(string \<Rightarrow> jsnum) \<Rightarrow> js \<Rightarrow> bool" where
  "is_converge_health_safe dp h \<longleftrightarrow>
     has_complete_converge_health dp h \<and> js_get h ''enabled'' = JBool True \<and>
     js_get h ''gateOpen'' = JBool True \<and>
     (case js_get h ''state'' of JStr s \<Rightarrow> s \<in> set safe_converge_states | _ \<Rightarrow> False)"

section \<open>Lemmas\<close>

text \<open>The evidence that a safe report must carry.\<close>

definition health_evidence_fields :: "string list" where
  "health_evidence_fields =
     [''state'', ''enabled'', ''configSource'', ''store'', ''gateOpen'', ''lastCycleAt'',
      ''freshnessState'', ''freshnessCheckedAt'']"

definition drop_field :: "string \<Rightarrow> js \<Rightarrow> js" where
  "drop_field k h = (case h of JObj kvs \<Rightarrow> JObj (filter (\<lambda>(k', _). k' \<noteq> k) kvs) | _ \<Rightarrow> h)"

lemma js_get_drop_field [simp]: "js_get (drop_field k h) k = JUndef"
proof (cases h)
  case (JObj kvs)
  have "map_of (filter (\<lambda>(k', _). k' \<noteq> k) kvs) k = None"
    by (auto simp: map_of_eq_None_iff)
  with JObj show ?thesis by (simp add: drop_field_def)
qed (simp_all add: drop_field_def)

lemma safe_health_fields:
  assumes "is_converge_health_safe dp h" and "k \<in> set health_evidence_fields"
  shows "js_get h k \<noteq> JUndef"
  using assms
  by (auto simp: is_converge_health_safe_def has_complete_converge_health_def
      common_fields_complete_def dated_field_def health_evidence_fields_def
      split: if_splits js.splits)

text \<open>Convergence is off only when an operator said so: by the kill switch, by the legacy
  variable, or, when that variable does not parse, by the persisted configuration.  Every other
  environment and configuration, malformed ones included, leaves it on.\<close>

theorem converge_off_only_explicitly:
  "cs_enabled (resolve_converge_setting config env) = False \<longleftrightarrow>
     parse_boolean_override (env ''AGENTBOOTUP_MEMORY_CONVERGE_DISABLED'') = Some True \<or>
     parse_boolean_override (env ''AGENTBOOTUP_MEMORY_CONVERGE_ENABLED'') = Some False \<or>
     (parse_boolean_override (env ''AGENTBOOTUP_MEMORY_CONVERGE_ENABLED'') = None \<and>
      js_get config ''memoryConvergeEnabled'' = JBool False)"
  by (auto simp: resolve_converge_setting_def split: option.splits js.splits)

text \<open>Missing evidence never counts as safe: a health report without any one of the eight
  fields is not safe, whatever the rest of it says.\<close>

theorem partial_health_is_unsafe:
  assumes "k \<in> set health_evidence_fields"
  shows "\<not> is_converge_health_safe dp (drop_field k h)"
  using safe_health_fields [OF _ assms] js_get_drop_field by blast

definition sample_safe_health :: js where
  "sample_safe_health =
     JObj [(''state'', JStr ''ok''), (''enabled'', JBool True), (''configSource'', JStr ''default''),
           (''store'', JStr ''server://b''), (''gateOpen'', JBool True), (''lastCycleAt'', JStr ''t''),
           (''freshnessState'', JStr ''idle''), (''freshnessCheckedAt'', JStr ''t'')]"

theorem partial_health_is_unsafe_witness:
  "is_converge_health_safe (\<lambda>_. Fin 0) sample_safe_health \<and>
   \<not> is_converge_health_safe (\<lambda>_. Fin 0) (drop_field ''freshnessState'' sample_safe_health)"
proof
  show "is_converge_health_safe (\<lambda>_. Fin 0) sample_safe_health"
    by (simp add: sample_safe_health_def is_converge_health_safe_def has_complete_converge_health_def
        common_fields_complete_def dated_field_def safe_converge_states_def safe_freshness_states_def)
  show "\<not> is_converge_health_safe (\<lambda>_. Fin 0) (drop_field ''freshnessState'' sample_safe_health)"
    by (rule partial_health_is_unsafe) (simp add: health_evidence_fields_def)
qed

end
