(* ===== verification/PosixPath.thy ===== *)
theory PosixPath
  imports JsPrelude
begin

text \<open>
  Relative paths: the segment normalisation of \<^verbatim>\<open>path.posix\<close> that the code relies on, and the
  one shared containment gate of the program, \<^verbatim>\<open>assertContainedRelativePath\<close> of
  \<^verbatim>\<open>lib/util/contained-path.js\<close>, through which every manifest source, install target and
  payload path goes.  Path functions are those of a POSIX host.
\<close>

section \<open>Normalisation\<close>

definition path_is_absolute :: "string \<Rightarrow> bool" where
  "path_is_absolute p \<longleftrightarrow> starts_with p ''/''"

text \<open>The segment loop of \<^verbatim>\<open>path.posix.normalize\<close>; \<open>up\<close> allows leading \<^verbatim>\<open>..\<close> segments.\<close>

fun norm_segs :: "bool \<Rightarrow> string list \<Rightarrow> string list \<Rightarrow> string list" where
  "norm_segs up acc [] = rev acc"
| "norm_segs up acc (s # ss) =
     (if s = [] \<or> s = ''.'' then norm_segs up acc ss
      else if s = ''..'' then
        (case acc of
           [] \<Rightarrow> norm_segs up (if up then [''..''] else []) ss
         | a # as \<Rightarrow> if a = ''..'' then norm_segs up (''..'' # acc) ss else norm_segs up as ss)
      else norm_segs up (s # acc) ss)"

definition posix_normalize :: "string \<Rightarrow> string" where
  "posix_normalize p =
     (if p = [] then ''.''
      else let absolute = path_is_absolute p;
               trailing = (last p = CHR ''/'');
               body = join_with ''/'' (norm_segs (\<not> absolute) [] (split_on (CHR ''/'') p))
           in if body = [] then (if absolute then ''/'' else if trailing then ''./'' else ''.'')
              else (if absolute then ''/'' else []) @ body @ (if trailing then ''/'' else []))"

text \<open>\<^verbatim>\<open>path.resolve\<close> against an absolute directory, and the directory of a path that it returns.\<close>

definition path_resolve :: "string \<Rightarrow> string \<Rightarrow> string" where
  "path_resolve base p =
     ''/'' @ join_with ''/'' (norm_segs False [] (split_on (CHR ''/'') (if path_is_absolute p then p else base @ ''/'' @ p)))"

definition resolved_dirname :: "string \<Rightarrow> string" where
  "resolved_dirname p = ''/'' @ join_with ''/'' (butlast (tl (split_on (CHR ''/'') p)))"

lemma path_resolve_absolute [simp]: "path_is_absolute (path_resolve base p)"
  by (simp add: path_resolve_def path_is_absolute_def starts_with_def)

section \<open>The containment gate\<close>

datatype path_error = NotNonEmptyString | NulRejected | AbsoluteRejected | TraversalRejected | EmptyRejected

definition fold_backslashes :: "string \<Rightarrow> string" where
  "fold_backslashes s = map (\<lambda>c. if c = CHR 0x5C then CHR ''/'' else c) s"

definition has_drive_prefix :: "string \<Rightarrow> bool" where
  "has_drive_prefix s = (case s of c # d # e # _ \<Rightarrow> is_ascii_alpha c \<and> d = CHR '':'' \<and> e = CHR ''/'' | _ \<Rightarrow> False)"

text \<open>\<^verbatim>\<open>replace(/^\.\/+/, '')\<close> and \<^verbatim>\<open>replace(/\/+$/, '')\<close>.\<close>

definition strip_dot_slashes :: "string \<Rightarrow> string" where
  "strip_dot_slashes s =
     (if starts_with s ''./'' then dropWhile (\<lambda>c. c = CHR ''/'') (tl s) else s)"

definition strip_trailing_slashes :: "string \<Rightarrow> string" where
  "strip_trailing_slashes s = rev (dropWhile (\<lambda>c. c = CHR ''/'') (rev s))"

definition assert_contained_relative_path :: "js \<Rightarrow> path_error + string" where
  "assert_contained_relative_path v =
     (case v of
        JStr value \<Rightarrow>
          throw_if (js_trim value = []) NotNonEmptyString (
          throw_if (nul \<in> set value) NulRejected (
          let normalized = fold_backslashes value in
          throw_if (path_is_absolute normalized \<or> has_drive_prefix normalized \<or> starts_with normalized ''//'')
            AbsoluteRejected (
          let stripped = strip_dot_slashes normalized in
          throw_if (stripped = ''..'' \<or> starts_with stripped ''../'' \<or> has_sub stripped ''/../'' \<or>
                    ends_with stripped ''/..'') TraversalRejected (
          let canonical = strip_trailing_slashes (posix_normalize stripped) in
          throw_if (canonical = [] \<or> canonical = ''.'') EmptyRejected (Inr canonical)))))
      | _ \<Rightarrow> Inl NotNonEmptyString)"

section \<open>Segments\<close>

definition segments :: "string \<Rightarrow> string list" where
  "segments s = split_on (CHR ''/'') s"

definition plain_segment :: "string \<Rightarrow> bool" where
  "plain_segment s \<longleftrightarrow> s \<noteq> [] \<and> s \<noteq> ''.'' \<and> s \<noteq> ''..'' \<and> CHR ''/'' \<notin> set s"

lemma split_on_no_sep: "x \<in> set (split_on c s) \<Longrightarrow> c \<notin> set x"
proof (induction s arbitrary: x)
  case (Cons a s)
  then show ?case by (cases "split_on c s") (auto split: if_splits)
qed simp

lemma split_on_chars: "x \<in> set (split_on c s) \<Longrightarrow> set x \<subseteq> set s"
proof (induction s arbitrary: x)
  case (Cons a s)
  then show ?case by (cases "split_on c s") (fastforce split: if_splits)+
qed simp

lemma split_on_plain: "c \<notin> set s \<Longrightarrow> split_on c s = [s]"
  by (induction s) auto

lemma split_on_append: "split_on c (a @ c # b) = split_on c a @ split_on c b"
proof (induction a)
  case (Cons x a)
  then show ?case by (cases "split_on c a") auto
qed simp

lemma split_join_with:
  "ss \<noteq> [] \<Longrightarrow> \<forall>s \<in> set ss. c \<notin> set s \<Longrightarrow> split_on c (join_with [c] ss) = ss"
proof (induction ss)
  case (Cons x ss)
  then show ?case by (cases ss) (auto simp: split_on_plain split_on_append)
qed simp

lemma segments_join [simp]:
  "ss \<noteq> [] \<Longrightarrow> \<forall>s \<in> set ss. plain_segment s \<Longrightarrow> segments (join_with ''/'' ss) = ss"
  by (simp add: segments_def split_join_with plain_segment_def)

lemma join_segments [simp]: "join_with ''/'' (segments s) = s"
  by (simp add: segments_def)

lemma segments_append: "segments (a @ CHR ''/'' # b) = segments a @ segments b"
  by (simp add: segments_def split_on_append)

lemma segments_Nil [simp]: "segments [] = [[]]"
  by (simp add: segments_def)

lemma segments_nonempty [simp]: "segments s \<noteq> []"
  by (simp add: segments_def)

lemma join_with_append:
  "xs \<noteq> [] \<Longrightarrow> ys \<noteq> [] \<Longrightarrow> join_with sep (xs @ ys) = join_with sep xs @ sep @ join_with sep ys"
  by (induction sep xs rule: join_with.induct) (auto simp: neq_Nil_conv)

lemma set_join_with: "set (join_with sep ss) \<subseteq> set sep \<union> (\<Union>s \<in> set ss. set s)"
  by (induction sep ss rule: join_with.induct) auto

lemma set_segments: "x \<in> set (segments s) \<Longrightarrow> set x \<subseteq> set s"
  by (simp add: segments_def split_on_chars)

text \<open>The four traversal tests of the gate together say that no segment is \<^verbatim>\<open>..\<close>.\<close>

definition traversal_test :: "string \<Rightarrow> bool" where
  "traversal_test s \<longleftrightarrow>
     s = ''..'' \<or> starts_with s ''../'' \<or> has_sub s ''/../'' \<or> ends_with s ''/..''"

lemma ends_with_iff: "ends_with s p \<longleftrightarrow> (\<exists>r. s = r @ p)"
proof
  assume "ends_with s p"
  then have "s = take (length s - length p) s @ p"
    by (metis append_take_drop_id ends_with_def)
  then show "\<exists>r. s = r @ p" by blast
qed (auto simp: ends_with_def)

lemma segments_dotdot [simp]: "segments ''..'' = [''..'']"
  by (simp add: segments_def)

lemma traversal_test_iff: "traversal_test s \<longleftrightarrow> ''..'' \<in> set (segments s)"
proof
  assume "traversal_test s"
  then consider "s = ''..''" | r where "s = ''..'' @ CHR ''/'' # r"
    | a b where "s = a @ CHR ''/'' # ''..'' @ CHR ''/'' # b" | a where "s = a @ CHR ''/'' # ''..''"
    by (auto simp: traversal_test_def starts_with_iff has_sub_iff ends_with_iff)
  then show "''..'' \<in> set (segments s)"
    by cases (simp_all only: segments_append segments_dotdot set_append list.set Un_iff insert_iff simp_thms)
next
  assume "''..'' \<in> set (segments s)"
  then obtain xs ys where seg: "segments s = xs @ ''..'' # ys" by (meson split_list)
  then have s: "s = join_with ''/'' (xs @ [''..''] @ ys)" by (metis append_Cons append_Nil join_segments)
  show "traversal_test s"
  proof (cases "xs = []"; cases "ys = []")
    assume "xs = []" "ys \<noteq> []"
    then have "s = ''../'' @ join_with ''/'' ys"
      using s join_with_append [of "[''..'']" ys "''/''"] by simp
    then show ?thesis by (metis starts_with_append traversal_test_def)
  next
    assume "xs \<noteq> []" "ys = []"
    then have "s = join_with ''/'' xs @ ''/..''"
      using s join_with_append [of xs "[''..'']" "''/''"] by simp
    then show ?thesis by (auto simp: traversal_test_def ends_with_iff)
  next
    assume "xs \<noteq> []" "ys \<noteq> []"
    then have "s = join_with ''/'' xs @ ''/../'' @ join_with ''/'' ys"
      using s join_with_append [of xs "[''..''] @ ys" "''/''"] join_with_append [of "[''..'']" ys "''/''"] by simp
    then show ?thesis by (metis has_sub_iff traversal_test_def)
  qed (use s in \<open>simp add: traversal_test_def\<close>)
qed

section \<open>Normal form without \<^verbatim>\<open>..\<close>\<close>

lemma norm_segs_no_dotdot:
  "''..'' \<notin> set ss \<Longrightarrow> norm_segs up acc ss = rev acc @ filter (\<lambda>s. s \<noteq> [] \<and> s \<noteq> ''.'') ss"
  by (induction up acc ss rule: norm_segs.induct) auto

definition real_segments :: "string \<Rightarrow> string list" where
  "real_segments s = filter (\<lambda>x. x \<noteq> [] \<and> x \<noteq> ''.'') (segments s)"

lemma real_segments_plain:
  "''..'' \<notin> set (segments s) \<Longrightarrow> x \<in> set (real_segments s) \<Longrightarrow> plain_segment x"
  by (auto simp: real_segments_def plain_segment_def segments_def split_on_no_sep)

lemma join_plain_nonempty:
  assumes "ss \<noteq> []" "\<forall>s \<in> set ss. plain_segment s"
  shows "join_with ''/'' ss \<noteq> []" and "hd (join_with ''/'' ss) \<noteq> CHR ''/''"
    and "last (join_with ''/'' ss) \<noteq> CHR ''/''"
proof -
  have "join_with ''/'' ss \<noteq> [] \<and> hd (join_with ''/'' ss) \<noteq> CHR ''/'' \<and> last (join_with ''/'' ss) \<noteq> CHR ''/''"
    using assms
  proof (induction ss)
    case (Cons x ss)
    then have "x \<noteq> []" "CHR ''/'' \<notin> set x" by (auto simp: plain_segment_def)
    then have "hd x \<noteq> CHR ''/''" "last x \<noteq> CHR ''/''" by (metis hd_in_set, metis last_in_set)
    with Cons \<open>x \<noteq> []\<close> show ?case by (cases ss) auto
  qed simp
  then show "join_with ''/'' ss \<noteq> []" and "hd (join_with ''/'' ss) \<noteq> CHR ''/''"
    and "last (join_with ''/'' ss) \<noteq> CHR ''/''" by simp_all
qed

lemma starts_with_single: "starts_with s [c] \<longleftrightarrow> s \<noteq> [] \<and> hd s = c"
  by (cases s) (auto simp: starts_with_def)

lemma posix_normalize_relative:
  assumes "''..'' \<notin> set (segments s)" and "\<not> path_is_absolute s" and "s \<noteq> []"
  shows "posix_normalize s =
    (if real_segments s = [] then (if last s = CHR ''/'' then ''./'' else ''.'')
     else join_with ''/'' (real_segments s) @ (if last s = CHR ''/'' then ''/'' else []))"
proof -
  have body: "norm_segs True [] (split_on (CHR ''/'') s) = real_segments s"
    using assms(1) by (simp add: norm_segs_no_dotdot real_segments_def segments_def)
  have "real_segments s \<noteq> [] \<Longrightarrow> join_with ''/'' (real_segments s) \<noteq> []"
    using join_plain_nonempty(1) real_segments_plain [OF assms(1)] by blast
  with assms body show ?thesis by (simp add: posix_normalize_def)
qed

lemma strip_trailing_id: "s \<noteq> [] \<Longrightarrow> last s \<noteq> CHR ''/'' \<Longrightarrow> strip_trailing_slashes s = s"
  by (cases s rule: rev_cases) (auto simp: strip_trailing_slashes_def)

lemma strip_trailing_one:
  "s \<noteq> [] \<Longrightarrow> last s \<noteq> CHR ''/'' \<Longrightarrow> strip_trailing_slashes (s @ ''/'') = s"
  by (cases s rule: rev_cases) (auto simp: strip_trailing_slashes_def)

section \<open>Normal form of relative paths\<close>

definition wt :: "(char \<Rightarrow> nat) \<Rightarrow> string list \<Rightarrow> nat" where
  "wt w ss = (\<Sum>s\<leftarrow>ss. 1 + (\<Sum>c\<leftarrow>s. w c))"

lemma wt_simps [simp]: "wt w [] = 0" "wt w (s # ss) = 1 + (\<Sum>c\<leftarrow>s. w c) + wt w ss"
  "wt w (xs @ ys) = wt w xs + wt w ys" "wt w (rev xs) = wt w xs"
  by (simp_all add: wt_def rev_map [symmetric])

lemma wt_norm_segs: "wt w (norm_segs up acc ss) \<le> wt w acc + wt w ss"
proof (induction up acc ss rule: norm_segs.induct)
  case (2 up acc s ss)
  then show ?case
    by (cases acc) (fastforce split: if_splits)+
qed simp

lemma wt_join: "ss \<noteq> [] \<Longrightarrow> w (CHR ''/'') = 1 \<Longrightarrow> (\<Sum>c\<leftarrow>join_with ''/'' ss. w c) + 1 = wt w ss"
proof (induction ss)
  case (Cons x ss)
  then show ?case by (cases ss) auto
qed simp

lemma norm_segs_snoc_Nil: "norm_segs up acc (ss @ [[]]) = norm_segs up acc ss"
  by (induction up acc ss rule: norm_segs.induct) (auto split: list.splits)

lemma norm_segs_form:
  assumes "\<forall>s \<in> set ss. CHR ''/'' \<notin> set s" and "\<forall>q \<in> set qs. plain_segment q"
  shows "\<exists>m qs'. norm_segs True (qs @ replicate n ''..'') ss = replicate m ''..'' @ qs' \<and>
           (\<forall>q \<in> set qs'. plain_segment q)"
  using assms
proof (induction ss arbitrary: qs n)
  case Nil
  then show ?case by (intro exI [of _ n] exI [of _ "rev qs"]) (auto simp: rev_append)
next
  case (Cons s ss)
  consider "s = [] \<or> s = ''.''" | "s = ''..''" "qs = []" | q r where "s = ''..''" "qs = q # r"
    | "plain_segment s"
    using Cons.prems(1) by (cases qs) (auto simp: plain_segment_def)
  then show ?case
  proof cases
    case 2
    then have "norm_segs True (qs @ replicate n ''..'') (s # ss) = norm_segs True ([] @ replicate (Suc n) ''..'') ss"
      by (cases n) auto
    then show ?thesis using Cons.IH [of "[]" "Suc n"] Cons.prems by simp
  next
    case 3
    then have "q \<noteq> ''..''" using Cons.prems(2) by (auto simp: plain_segment_def)
    with 3 show ?thesis using Cons.IH [of r n] Cons.prems by auto
  next
    case 4
    then have "norm_segs True (qs @ replicate n ''..'') (s # ss) = norm_segs True ((s # qs) @ replicate n ''..'') ss"
      by (auto simp: plain_segment_def)
    then show ?thesis using Cons.IH [of "s # qs" n] Cons.prems 4 by simp
  qed (use Cons in auto)
qed

lemma segments_trailing: "s \<noteq> [] \<Longrightarrow> last s = CHR ''/'' \<Longrightarrow> segments s = segments (butlast s) @ [[]]"
  using segments_append [of "butlast s" "[]"] append_butlast_last_id [of s]
  by (simp add: segments_def)

text \<open>A relative path whose normal form has no leading \<^verbatim>\<open>..\<close>: the form is a fixed point, and it
  is not longer than the path in any weight that counts a slash as one.\<close>

lemma posix_normalize_descending:
  assumes rel: "\<not> path_is_absolute s" and start: "starts_with (posix_normalize s) (x @ ''/'')"
    and x: "plain_segment x"
  obtains qs where "\<forall>q \<in> set qs. plain_segment q"
    and "posix_normalize s = join_with ''/'' (x # qs) @ (if last s = CHR ''/'' then ''/'' else [])"
    and "norm_segs True [] (segments s) = x # qs" and "s \<noteq> []"
proof -
  have x0: "x \<noteq> []" "hd x \<noteq> CHR ''/''" "x \<noteq> ''.''" "CHR ''/'' \<notin> set x" "x \<noteq> ''..''"
    using x by (auto simp: plain_segment_def dest: hd_in_set)
  have dot: "\<not> starts_with ''.'' (x @ ''/'')" "\<not> starts_with ''./'' (x @ ''/'')"
    using x0 by (auto simp: starts_with_iff append_eq_Cons_conv Cons_eq_append_conv)
  then have ne: "s \<noteq> []" using start by (auto simp: posix_normalize_def)
  obtain m qs where form: "norm_segs True [] (segments s) = replicate m ''..'' @ qs"
    and plain: "\<forall>q \<in> set qs. plain_segment q"
    using norm_segs_form [of "segments s" "[]" 0] by (auto simp: segments_def split_on_no_sep)
  let ?b = "join_with ''/'' (replicate m ''..'' @ qs)"
  have body: "posix_normalize s = ?b @ (if last s = CHR ''/'' then ''/'' else [])" "?b \<noteq> []"
    using start dot ne rel form by (auto simp: posix_normalize_def segments_def Let_def split: if_splits)
  then have ss: "replicate m ''..'' @ qs \<noteq> []" by auto
  have "segments (posix_normalize s) = (replicate m ''..'' @ qs) @ (if last s = CHR ''/'' then [[]] else [])"
  proof -
    have "\<forall>s \<in> set (replicate m ''..'' @ qs). CHR ''/'' \<notin> set s"
    proof
      fix s assume "s \<in> set (replicate m ''..'' @ qs)"
      then consider "s = ''..''" | "s \<in> set qs" by (auto simp: set_replicate_conv_if split: if_splits)
      then show "CHR ''/'' \<notin> set s" by cases (use plain in \<open>simp_all add: plain_segment_def\<close>)
    qed
    with ss have "segments ?b = replicate m ''..'' @ qs"
      unfolding segments_def by (rule split_join_with)
    moreover have "segments (?b @ ''/'') = segments ?b @ [[]]"
      using segments_append [of ?b "[]"] by simp
    ultimately show ?thesis by (simp add: body(1))
  qed
  moreover obtain r where "posix_normalize s = x @ CHR ''/'' # r"
    using start by (auto simp: starts_with_iff)
  then have "segments (posix_normalize s) = x # segments r"
    using x0 by (simp add: segments_append) (simp add: segments_def split_on_plain)
  ultimately have eq: "x # segments r = (replicate m ''..'' @ qs) @ (if last s = CHR ''/'' then [[]] else [])"
    by simp
  have "m = 0" using eq x0 by (cases m) auto
  moreover obtain qs' where "qs = x # qs'" using eq ss \<open>m = 0\<close> by (cases qs) auto
  ultimately show thesis using that [of qs'] plain body form ne by auto
qed

lemma posix_normalize_fixed:
  assumes "\<forall>q \<in> set ss. plain_segment q" "ss \<noteq> []" "t = [] \<or> t = ''/''"
  shows "posix_normalize (join_with ''/'' ss @ t) = join_with ''/'' ss @ t"
proof -
  let ?s = "join_with ''/'' ss @ t"
  note ne = join_plain_nonempty [OF assms(2,1)]
  have seg: "segments ?s = ss @ (if t = [] then [] else [[]])"
    using assms segments_append [of "join_with ''/'' ss" "[]"] by auto
  then have "''..'' \<notin> set (segments ?s)" using assms by (auto simp: plain_segment_def)
  moreover have "real_segments ?s = ss"
    using assms(1) by (auto simp: real_segments_def seg plain_segment_def intro: filter_True)
  moreover have "\<not> path_is_absolute ?s" using ne by (auto simp: path_is_absolute_def starts_with_single)
  ultimately show ?thesis
    using posix_normalize_relative [of ?s] assms ne by auto
qed

lemma norm_segs_chars:
  "x \<in> set (norm_segs up acc ss) \<Longrightarrow> x \<in> set acc \<or> x \<in> set ss"
  by (induction up acc ss rule: norm_segs.induct) (auto split: if_splits list.splits)

lemma wt_posix_normalize:
  fixes w :: "char \<Rightarrow> nat"
  assumes "norm_segs True [] (segments s) = ss" "ss \<noteq> []" "s \<noteq> []" "w (CHR ''/'') = 1"
  shows "(\<Sum>c\<leftarrow>join_with ''/'' ss @ (if last s = CHR ''/'' then ''/'' else []). w c) \<le> (\<Sum>c\<leftarrow>s. w c)"
proof (cases "last s = CHR ''/''")
  case True
  have "norm_segs True [] (segments (butlast s)) = ss"
    using assms(1) by (simp add: segments_trailing [OF assms(3) True] norm_segs_snoc_Nil)
  then have "wt w ss \<le> wt w (segments (butlast s))"
    using wt_norm_segs [of w True "[]" "segments (butlast s)"] by simp
  moreover have "wt w (segments (butlast s)) = (\<Sum>c\<leftarrow>butlast s. w c) + 1"
    using wt_join [of "segments (butlast s)" w] assms(4) by simp
  moreover have "s = butlast s @ ''/''"
    using append_butlast_last_id [OF assms(3)] True by simp
  then have "(\<Sum>c\<leftarrow>s. w c) = (\<Sum>c\<leftarrow>butlast s @ ''/''. w c)" by (rule arg_cong)
  then have "(\<Sum>c\<leftarrow>s. w c) = (\<Sum>c\<leftarrow>butlast s. w c) + 1" using assms(4) by simp
  ultimately show ?thesis using wt_join [of ss w, OF assms(2,4)] True assms(4) by simp
next
  case False
  have "wt w ss \<le> wt w (segments s)"
    using wt_norm_segs [of w True "[]" "segments s"] assms(1) by simp
  moreover have "wt w (segments s) = (\<Sum>c\<leftarrow>s. w c) + 1"
    using wt_join [of "segments s" w] assms(4) by simp
  ultimately show ?thesis using wt_join [of ss w, OF assms(2,4)] False by simp
qed

section \<open>What the gate lets through\<close>

lemma strip_dot_slashes_relative:
  "\<not> path_is_absolute s \<Longrightarrow> \<not> path_is_absolute (strip_dot_slashes s)"
  using hd_dropWhile [of "\<lambda>c. c = CHR ''/''" "tl s"]
  by (auto simp: path_is_absolute_def strip_dot_slashes_def starts_with_single)

lemma set_strip_dot_slashes: "set (strip_dot_slashes s) \<subseteq> set s"
  by (cases s) (auto simp: strip_dot_slashes_def dest: set_dropWhileD)

lemma no_backslash_fold: "CHR 0x5C \<notin> set (fold_backslashes s)"
  by (auto simp: fold_backslashes_def)

lemma nul_fold: "nul \<notin> set s \<Longrightarrow> nul \<notin> set (fold_backslashes s)"
  by (auto simp: fold_backslashes_def nul_def)

lemma canonical_of_stripped:
  assumes "\<not> traversal_test s" and "\<not> path_is_absolute s"
    and "strip_trailing_slashes (posix_normalize s) \<noteq> ''.''"
  shows "real_segments s \<noteq> []"
    and "strip_trailing_slashes (posix_normalize s) = join_with ''/'' (real_segments s)"
proof -
  have nd: "''..'' \<notin> set (segments s)" using assms(1) by (simp add: traversal_test_iff)
  have ne: "s \<noteq> []"
    using assms(3) by (auto simp: posix_normalize_def strip_trailing_slashes_def)
  show real: "real_segments s \<noteq> []"
    using assms(3) posix_normalize_relative [OF nd assms(2) ne]
    by (auto simp: strip_trailing_slashes_def split: if_splits)
  note plain = real_segments_plain [OF nd]
  show "strip_trailing_slashes (posix_normalize s) = join_with ''/'' (real_segments s)"
    using real posix_normalize_relative [OF nd assms(2) ne] join_plain_nonempty [OF real] plain
    by (simp add: strip_trailing_id strip_trailing_one)
qed

text \<open>The shape of an accepted path, with the segments it keeps.\<close>

lemma contained_path_shape:
  assumes "assert_contained_relative_path v = Inr c"
  obtains ss where "ss \<noteq> []" "\<forall>s \<in> set ss. plain_segment s" "c = join_with ''/'' ss"
    "nul \<notin> set c" "CHR 0x5C \<notin> set c"
proof -
  obtain w where v: "v = JStr w"
    using assms by (cases v) (simp_all add: assert_contained_relative_path_def)
  define s where "s = strip_dot_slashes (fold_backslashes w)"
  have facts: "nul \<notin> set w" "\<not> path_is_absolute (fold_backslashes w)" "\<not> traversal_test s"
    "c = strip_trailing_slashes (posix_normalize s)" "c \<noteq> ''.''"
    using assms by (auto simp: v assert_contained_relative_path_def s_def traversal_test_def Let_def)
  have abs: "\<not> path_is_absolute s"
    using facts(2) by (simp add: s_def strip_dot_slashes_relative)
  note canon = canonical_of_stripped [OF facts(3) abs facts(5) [unfolded facts(4)]]
  have c: "c = join_with ''/'' (real_segments s)" using facts(4) canon(2) by simp
  have plain: "\<forall>x \<in> set (real_segments s). plain_segment x"
    using facts(3) real_segments_plain by (simp add: traversal_test_iff)
  have chars: "set c \<subseteq> insert (CHR ''/'') (set s)"
    using set_join_with [of "''/''" "real_segments s"] set_segments [of _ s]
    by (fastforce simp: c real_segments_def)
  have "set s \<subseteq> set (fold_backslashes w)"
    by (simp add: s_def set_strip_dot_slashes)
  then have "nul \<notin> set c" "CHR 0x5C \<notin> set c"
    using chars nul_fold [OF facts(1)] no_backslash_fold [of w] by (auto simp: nul_def)
  with canon(1) plain c show thesis using that by blast
qed

lemma fold_backslashes_id: "CHR 0x5C \<notin> set s \<Longrightarrow> fold_backslashes s = s"
  by (auto simp: fold_backslashes_def intro: map_idI)

lemma contained_path_accepts_plain:
  assumes "ss \<noteq> []" and plain: "\<forall>s \<in> set ss. plain_segment s" and c: "c = join_with ''/'' ss"
    and "nul \<notin> set c" "CHR 0x5C \<notin> set c" "js_trim c \<noteq> []" "\<not> has_drive_prefix c"
  shows "assert_contained_relative_path (JStr c) = Inr c"
proof -
  note ne = join_plain_nonempty [OF assms(1,2), folded c]
  have seg: "segments c = ss" using assms(1,2) by (simp add: c)
  have nd: "''..'' \<notin> set (segments c)" using plain by (auto simp: seg plain_segment_def)
  have real: "real_segments c = ss"
    using plain by (auto simp: real_segments_def seg plain_segment_def intro: filter_True)
  have abs: "\<not> path_is_absolute c" using ne by (simp add: path_is_absolute_def starts_with_single)
  then have "\<not> starts_with c ''//''" by (auto simp: path_is_absolute_def starts_with_iff)
  have "\<not> starts_with c ''./''"
  proof
    assume "starts_with c ''./''"
    then obtain r where "c = ''.'' @ CHR ''/'' # r" by (auto simp: starts_with_iff)
    then have "''.'' \<in> set (segments c)" by (simp only: segments_append) (simp add: segments_def)
    then show False using plain by (auto simp: seg plain_segment_def)
  qed
  then have strip: "strip_dot_slashes c = c" by (simp add: strip_dot_slashes_def)
  have norm: "posix_normalize c = c"
    using posix_normalize_relative [OF nd abs ne(1)] ne(3) assms(1) real c by simp
  have fin: "strip_trailing_slashes (posix_normalize c) = c"
    using norm ne by (simp add: strip_trailing_id)
  have "c \<noteq> ''.''"
  proof
    assume "c = ''.''"
    then have "segments c = [''.'']" by (simp add: segments_def)
    with seg have "ss = [''.'']" by simp
    with plain have "plain_segment ''.''" by simp
    then show False by (simp add: plain_segment_def)
  qed
  moreover have "\<not> traversal_test c" using nd by (simp add: traversal_test_iff)
  ultimately show ?thesis
    using assms abs strip fin ne(1) \<open>\<not> starts_with c ''//''\<close> fold_backslashes_id [OF assms(5)]
    by (simp add: assert_contained_relative_path_def Let_def traversal_test_def)
qed

text \<open>C2. The containment gate returns a path that stays inside its root: every segment is
  non-empty and neither \<^verbatim>\<open>.\<close> nor \<^verbatim>\<open>..\<close>, it has no NUL and no backslash and is not absolute;
  and, unless it is blank or begins with a drive letter, it is canonical: passing it through
  the gate again returns it unchanged.\<close>

theorem contained_path_is_canonical:
  assumes "assert_contained_relative_path v = Inr c"
  shows "(\<forall>s \<in> set (segments c). plain_segment s) \<and> nul \<notin> set c \<and> CHR 0x5C \<notin> set c \<and>
    \<not> path_is_absolute c \<and>
    (js_trim c = [] \<or> has_drive_prefix c \<or> assert_contained_relative_path (JStr c) = Inr c)"
proof -
  obtain ss where ss: "ss \<noteq> []" "\<forall>s \<in> set ss. plain_segment s" "c = join_with ''/'' ss"
    "nul \<notin> set c" "CHR 0x5C \<notin> set c"
    using contained_path_shape [OF assms] by blast
  then show ?thesis
    using join_plain_nonempty [OF ss(1,2)] contained_path_accepts_plain [OF ss]
    by (auto simp: path_is_absolute_def starts_with_single)
qed

theorem contained_path_is_canonical_witness:
  "assert_contained_relative_path (JStr ''./memory//a/./b.md/'') = Inr ''memory/a/b.md'' \<and>
   assert_contained_relative_path (JStr ''memory/a/b.md'') = Inr ''memory/a/b.md''"
proof -
  have run: "assert_contained_relative_path (JStr ''./memory//a/./b.md/'') = Inr ''memory/a/b.md''"
    by code_simp
  moreover have "js_trim ''memory/a/b.md'' \<noteq> []" "\<not> has_drive_prefix ''memory/a/b.md''"
    by code_simp+
  ultimately show ?thesis
    using contained_path_is_canonical [OF run] by blast
qed

text \<open>The drive-letter test looks at the path before the leading \<^verbatim>\<open>./\<close> is removed: a drive
  path is refused as it stands and returned, as a path with a drive, when \<^verbatim>\<open>./\<close> precedes it.\<close>

theorem drive_path_escapes_after_dot_slash:
  "assert_contained_relative_path (JStr ''C:/x'') = Inl AbsoluteRejected \<and>
   assert_contained_relative_path (JStr ''./C:/x'') = Inr ''C:/x'' \<and> has_drive_prefix ''C:/x''"
  by code_simp

end
