(* ===== verification/MemoryConflict.thy ===== *)
theory MemoryConflict
  imports PosixPath
begin

text \<open>
  Durable memory-conflict records, \<^verbatim>\<open>lib/memory/conflict.js\<close>: the escaping of JSON strings
  and the byte accounting over owned strings, the normaliser of caller data, and the strict
  validator of the wire form.  Escaping works on UTF-16 code units (numbers below 65536), so that
  surrogates are covered; the rest of the component works on strings of the prelude.
  \<^verbatim>\<open>localeCompare\<close> is the parameter \<open>lc\<close>.
\<close>

section \<open>JSON string escaping and byte lengths\<close>

definition codes :: "string \<Rightarrow> nat list" where
  "codes s = map of_char s"

abbreviation high_surrogate :: "nat \<Rightarrow> bool" where
  "high_surrogate c \<equiv> 0xD800 \<le> c \<and> c \<le> 0xDBFF"

abbreviation low_surrogate :: "nat \<Rightarrow> bool" where
  "low_surrogate c \<equiv> 0xDC00 \<le> c \<and> c \<le> 0xDFFF"

text \<open>\<^verbatim>\<open>TextEncoder.encode(value).byteLength\<close>; a lone surrogate is encoded as U+FFFD.\<close>

definition unit_bytes :: "nat \<Rightarrow> nat" where
  "unit_bytes c = (if c < 0x80 then 1 else if c < 0x800 then 2 else 3)"

fun utf8_byte_length :: "nat list \<Rightarrow> nat" where
  "utf8_byte_length [] = 0"
| "utf8_byte_length [c] = unit_bytes c"
| "utf8_byte_length (c # d # r) =
     (if high_surrogate c \<and> low_surrogate d then 4 + utf8_byte_length r
      else unit_bytes c + utf8_byte_length (d # r))"

definition hex_unit :: "nat \<Rightarrow> nat" where
  "hex_unit n = (if n < 10 then 48 + n else 87 + n)"

text \<open>The escape sequences \<^verbatim>\<open>\u00XX\<close> and \<^verbatim>\<open>\uXXXX\<close>; \<^verbatim>\<open>0x5c\<close> is the
  backslash and \<^verbatim>\<open>0x75\<close> the letter u.\<close>

definition escape2 :: "nat \<Rightarrow> nat list" where
  "escape2 c = [0x5c, 0x75, 48, 48, hex_unit (c div 16 mod 16), hex_unit (c mod 16)]"

definition escape4 :: "nat \<Rightarrow> nat list" where
  "escape4 c =
     [0x5c, 0x75, hex_unit (c div 4096 mod 16), hex_unit (c div 256 mod 16),
      hex_unit (c div 16 mod 16), hex_unit (c mod 16)]"

text \<open>The two-character escapes: quote, backslash, \<^verbatim>\<open>\b \t \n \f \r\<close>.\<close>

definition short_escape :: "nat \<Rightarrow> nat option" where
  "short_escape c =
     (if c = 0x22 then Some 0x22 else if c = 0x5c then Some 0x5c
      else if c = 0x08 then Some 0x62 else if c = 0x09 then Some 0x74
      else if c = 0x0a then Some 0x6e else if c = 0x0c then Some 0x66
      else if c = 0x0d then Some 0x72 else None)"

fun quote_body :: "nat list \<Rightarrow> nat list" where
  "quote_body [] = []"
| "quote_body (c # r) =
     (case short_escape c of
        Some e \<Rightarrow> [0x5c, e] @ quote_body r
      | None \<Rightarrow>
          if c \<le> 0x1f then escape2 c @ quote_body r
          else if high_surrogate c then
            (case r of
               [] \<Rightarrow> escape4 c
             | d # r' \<Rightarrow> if low_surrogate d then c # d # quote_body r' else escape4 c @ quote_body r)
          else if low_surrogate c then escape4 c @ quote_body r
          else c # quote_body r)"

definition quote_json_string :: "nat list \<Rightarrow> nat list" where
  "quote_json_string value = 0x22 # quote_body value @ [0x22]"

text \<open>The literal of a string of 8-bit characters.\<close>

definition json_string :: "string \<Rightarrow> string" where
  "json_string s = map char_of (quote_json_string (codes s))"

text \<open>\<^verbatim>\<open>JSON.stringify\<close> of a value without white space, and the size of a text in UTF-8.\<close>

fun json_text :: "(jsnum \<Rightarrow> string) \<Rightarrow> js \<Rightarrow> string" where
  "json_text nt JUndef = ''null''"
| "json_text nt JNull = ''null''"
| "json_text nt (JBool b) = (if b then ''true'' else ''false'')"
| "json_text nt (JNum n) = (if num_is_finite n then nt n else ''null'')"
| "json_text nt (JStr s) = json_string s"
| "json_text nt (JArr vs) = ''['' @ join_with '','' (map (json_text nt) vs) @ '']''"
| "json_text nt (JObj kvs) =
     ''{'' @ join_with '',''
       (map (\<lambda>(k, v). json_string k @ '':'' @ json_text nt v) (filter (\<lambda>(_, v). v \<noteq> JUndef) kvs)) @ ''}''"

definition text_bytes :: "string \<Rightarrow> nat" where
  "text_bytes t = utf8_byte_length (codes t)"

text \<open>The specification of the escaping: the reader of JSON string literals, on code units.\<close>

definition unhex :: "nat \<Rightarrow> nat option" where
  "unhex c =
     (if 48 \<le> c \<and> c \<le> 57 then Some (c - 48)
      else if 97 \<le> c \<and> c \<le> 102 then Some (c - 87)
      else if 65 \<le> c \<and> c \<le> 70 then Some (c - 55) else None)"

definition simple_unescape :: "nat \<Rightarrow> nat option" where
  "simple_unescape c =
     (if c = 0x22 \<or> c = 0x5c \<or> c = 0x2f then Some c
      else if c = 0x62 then Some 0x08 else if c = 0x74 then Some 0x09
      else if c = 0x6e then Some 0x0a else if c = 0x66 then Some 0x0c
      else if c = 0x72 then Some 0x0d else None)"

definition unhex4 :: "nat \<Rightarrow> nat \<Rightarrow> nat \<Rightarrow> nat \<Rightarrow> nat option" where
  "unhex4 a b c d =
     (case (unhex a, unhex b, unhex c, unhex d) of
        (Some a', Some b', Some c', Some d') \<Rightarrow> Some (4096 * a' + 256 * b' + 16 * c' + d')
      | _ \<Rightarrow> None)"

fun read_body :: "nat list \<Rightarrow> nat list option" where
  "read_body [] = None"
| "read_body (c # r) =
     (if c = 0x22 then (if r = [] then Some [] else None)
      else if c = 0x5c then
        (case r of
           [] \<Rightarrow> None
         | e # r' \<Rightarrow>
             if e = 0x75 then
               (case r' of
                  h1 # h2 # h3 # h4 # r'' \<Rightarrow>
                    (case unhex4 h1 h2 h3 h4 of
                       None \<Rightarrow> None | Some u \<Rightarrow> map_option (Cons u) (read_body r''))
                | _ \<Rightarrow> None)
             else (case simple_unescape e of
                     None \<Rightarrow> None | Some u \<Rightarrow> map_option (Cons u) (read_body r')))
      else if c < 0x20 then None
      else map_option (Cons c) (read_body r))"

definition read_json_string :: "nat list \<Rightarrow> nat list option" where
  "read_json_string v = (case v of [] \<Rightarrow> None | c # r \<Rightarrow> if c = 0x22 then read_body r else None)"

text \<open>No lone surrogate: the text has a lossless UTF-8 encoding.\<close>

fun well_formed_utf16 :: "nat list \<Rightarrow> bool" where
  "well_formed_utf16 [] = True"
| "well_formed_utf16 (c # r) =
     (if high_surrogate c then (case r of [] \<Rightarrow> False | d # r' \<Rightarrow> low_surrogate d \<and> well_formed_utf16 r')
      else \<not> low_surrogate c \<and> well_formed_utf16 r)"

lemma unhex_hex_unit: "n < 16 \<Longrightarrow> unhex (hex_unit n) = Some n"
  by (auto simp: unhex_def hex_unit_def)

lemma hex_unit_bounds: "n < 16 \<Longrightarrow> 48 \<le> hex_unit n \<and> hex_unit n \<le> 102"
  by (auto simp: hex_unit_def)

lemma four_nibbles:
  assumes "c < (65536::nat)"
  shows "4096 * (c div 4096 mod 16) + 256 * (c div 256 mod 16) + 16 * (c div 16 mod 16) + c mod 16 = c"
proof -
  have "c div 4096 mod 16 = c div 4096" using assms by simp
  moreover have "c div 256 = 16 * (c div 4096) + c div 256 mod 16"
    using mult_div_mod_eq [of 16 "c div 256"] by (simp add: div_mult2_eq [symmetric])
  moreover have "c div 16 = 16 * (c div 256) + c div 16 mod 16"
    using mult_div_mod_eq [of 16 "c div 16"] by (simp add: div_mult2_eq [symmetric])
  moreover have "c = 16 * (c div 16) + c mod 16" by simp
  ultimately show ?thesis by linarith
qed

declare read_body.simps(2) [simp del]

lemma read_unicode_escape:
  assumes "a < 16" "b < 16" "d < 16" "e < 16"
  shows "read_body (0x5c # 0x75 # hex_unit a # hex_unit b # hex_unit d # hex_unit e # r)
         = map_option (Cons (4096 * a + 256 * b + 16 * d + e)) (read_body r)"
  using assms by (simp add: read_body.simps(2) unhex4_def unhex_hex_unit)

lemma read_escape4:
  assumes "c < 65536"
  shows "read_body (escape4 c @ r) = map_option (Cons c) (read_body r)"
  unfolding escape4_def append_Cons append_Nil
  by (subst read_unicode_escape) (simp_all only: four_nibbles [OF assms] mod_less_divisor zero_less_numeral)

lemma read_escape2:
  assumes "c \<le> 0x1f"
  shows "read_body (escape2 c @ r) = map_option (Cons c) (read_body r)"
proof -
  have "hex_unit 0 = 48" by (simp add: hex_unit_def)
  then have esc: "escape2 c = [0x5c, 0x75, hex_unit 0, hex_unit 0, hex_unit (c div 16 mod 16), hex_unit (c mod 16)]"
    by (simp only: escape2_def)
  have "c div 16 mod 16 = c div 16" using assms by simp
  then have "4096 * 0 + 256 * 0 + 16 * (c div 16 mod 16) + c mod 16 = c" by simp
  then show ?thesis
    unfolding esc append_Cons append_Nil
    by (subst read_unicode_escape) (simp_all only: mod_less_divisor zero_less_numeral)
qed

lemma short_escape_Some:
  "short_escape c = Some e \<Longrightarrow> e \<noteq> 0x75 \<and> e < 0x80 \<and> simple_unescape e = Some c"
  by (auto simp: short_escape_def simple_unescape_def split: if_splits)

lemma short_escape_None: "short_escape c = None \<Longrightarrow> c \<noteq> 0x22 \<and> c \<noteq> 0x5c"
  by (auto simp: short_escape_def split: if_splits)

lemma read_short_escape:
  "short_escape c = Some e \<Longrightarrow> read_body (0x5c # e # r) = map_option (Cons c) (read_body r)"
  using short_escape_Some [of c e] by (simp add: read_body.simps(2))

lemma read_plain:
  "c \<noteq> 0x22 \<Longrightarrow> c \<noteq> 0x5c \<Longrightarrow> 0x1f < c \<Longrightarrow> read_body (c # r) = map_option (Cons c) (read_body r)"
  by (simp add: read_body.simps(2))

lemma read_quote_body:
  "\<forall>c \<in> set s. c < 65536 \<Longrightarrow> read_body (quote_body s @ [0x22]) = Some s"
proof (induction s rule: quote_body.induct)
  case 1
  show ?case by (simp add: read_body.simps(2))
next
  case (2 c r)
  show ?case
  proof (cases "short_escape c")
    case (Some e)
    with 2 show ?thesis by (simp add: read_short_escape)
  next
    case None
    with 2 short_escape_None [OF None] show ?thesis
      by (auto simp: read_escape2 read_escape4 read_plain read_escape4 [where r = "[0x22]"]
          read_body.simps(2) [of "0x22" "[]"] split: list.splits)
  qed
qed

lemma well_formed_escape4: "well_formed_utf16 r \<Longrightarrow> well_formed_utf16 (escape4 c @ r)"
  using hex_unit_bounds [of "c div 4096 mod 16"] hex_unit_bounds [of "c div 256 mod 16"]
    hex_unit_bounds [of "c div 16 mod 16"] hex_unit_bounds [of "c mod 16"]
  by (simp add: escape4_def del: mod_less)

lemma well_formed_escape2: "well_formed_utf16 r \<Longrightarrow> well_formed_utf16 (escape2 c @ r)"
  using hex_unit_bounds [of "c div 16 mod 16"] hex_unit_bounds [of "c mod 16"]
  by (simp add: escape2_def del: mod_less)

lemma well_formed_quote_body: "well_formed_utf16 (quote_body s @ [0x22])"
proof (induction s rule: quote_body.induct)
  case (2 c r)
  show ?case
  proof (cases "short_escape c")
    case (Some e)
    with 2 short_escape_Some [OF Some] show ?thesis by simp
  next
    case None
    with 2 show ?thesis
      by (auto simp: well_formed_escape2 well_formed_escape4 split: list.splits)
  qed
qed simp

section \<open>Conflict records\<close>

record mem_conflict =
  mc_items :: "(string \<times> string) list"
  mc_omitted :: nat

text \<open>A caller's record is either one of this module (it carries the private symbol) or foreign.\<close>

datatype conflict_input = Owned mem_conflict | Foreign js

definition memory_conflict_schema :: string where
  "memory_conflict_schema = ''memory-conflict/v1''"

definition reason_codes :: "string list" where
  "reason_codes =
     [''baseline_reference_missing'', ''local_not_strictly_newer'', ''local_page_unreadable'',
      ''merged_content_missing'', ''merged_view_unavailable'', ''store_bytes_unreadable'',
      ''store_changed_since_baseline'', ''store_merge_unreadable'', ''tombstone_resurrection'',
      ''shared_page_bytes_differ'']"

definition max_durable_conflicts :: nat where
  "max_durable_conflicts = 100"

definition max_omitted_conflicts :: nat where
  "max_omitted_conflicts = 1000000"

definition max_conflict_path_bytes :: nat where
  "max_conflict_path_bytes = 1024"

definition max_conflict_serialized_bytes :: nat where
  "max_conflict_serialized_bytes = 64 * 1024"

definition conflict_record_limit :: "env \<Rightarrow> nat" where
  "conflict_record_limit env =
     (case env_number env ''AGENTBOOTUP_MEMORY_CONFLICT_RECORD_LIMIT'' of
        Fin q \<Rightarrow> if rat_is_int q \<and> 1 \<le> q \<and> q \<le> 100 then nat \<lfloor>q\<rfloor> else 20
      | _ \<Rightarrow> 20)"

definition safe_memory_path :: "js \<Rightarrow> string option" where
  "safe_memory_path v =
     (case v of
        JStr value \<Rightarrow>
          if utf8_byte_length (codes value) > max_conflict_path_bytes \<or>
             \<not> starts_with value ''memory/'' \<or> path_is_absolute value \<or> nul \<in> set value
          then None
          else let normalized = posix_normalize value
               in if starts_with normalized ''memory/'' \<and> \<not> has_sub normalized ''../''
                  then Some normalized else None
      | _ \<Rightarrow> None)"

definition exact_own_keys :: "js \<Rightarrow> string list \<Rightarrow> bool" where
  "exact_own_keys v expected \<longleftrightarrow>
     length (js_keys v) = length expected \<and> list_all (\<lambda>k. k \<in> set expected) (js_keys v)"

definition conflict_identity :: "string \<Rightarrow> string \<Rightarrow> string" where
  "conflict_identity rel reason = rel @ [nul] @ reason"

definition canonical_conflict_byte_length :: "(string \<times> string) list \<Rightarrow> nat \<Rightarrow> nat" where
  "canonical_conflict_byte_length conflicts omitted =
     utf8_byte_length
       (codes ''{\"schema\":\"memory-conflict/v1\",\"conflicts\":['' @
        concat (map (\<lambda>(i, (p, r)).
            (if i > 0 then codes '','' else []) @ codes ''{\"path\":'' @ quote_json_string (codes p) @
            codes '',\"reason_code\":'' @ quote_json_string (codes r) @ codes ''}'')
          (zip [0..<length conflicts] conflicts)) @
        codes ''],\"omitted_count\":'' @ codes (nat_to_string omitted) @ codes ''}'')"

section \<open>Normalisation\<close>

definition accepted_item :: "js \<Rightarrow> (string \<times> string) option" where
  "accepted_item item =
     (case (safe_memory_path (js_get item ''path''), js_get item ''reason_code'') of
        (Some rel, JStr reason) \<Rightarrow> if reason \<in> set reason_codes then Some (rel, reason) else None
      | _ \<Rightarrow> None)"

definition dedupe_items :: "js list \<Rightarrow> (string \<times> string \<times> string) list" where
  "dedupe_items values =
     foldl (\<lambda>m item. case accepted_item item of
              None \<Rightarrow> m | Some (rel, reason) \<Rightarrow> AList.update (conflict_identity rel reason) (rel, reason) m)
       [] values"

definition normalize_memory_conflict ::
    "(string \<Rightarrow> string \<Rightarrow> int) \<Rightarrow> env \<Rightarrow> conflict_input \<Rightarrow> mem_conflict" where
  "normalize_memory_conflict lc env input =
     (case input of
        Owned r \<Rightarrow> r
      | Foreign v \<Rightarrow>
          let vals = (if js_get v ''schema'' = JStr memory_conflict_schema
                      then js_elems (js_get v ''conflicts'') else []);
              conflicts = sort_by (lex_cmp lc) (map snd (dedupe_items vals));
              retained = min (length conflicts) (conflict_record_limit env)
          in \<lparr>mc_items = take retained conflicts, mc_omitted = length conflicts - retained\<rparr>)"

definition create_memory_conflict ::
    "(string \<Rightarrow> string \<Rightarrow> int) \<Rightarrow> env \<Rightarrow> js \<Rightarrow> mem_conflict" where
  "create_memory_conflict lc env conflicts =
     normalize_memory_conflict lc env
       (Foreign (JObj [(''schema'', JStr memory_conflict_schema), (''conflicts'', conflicts)]))"

section \<open>Strict validation of the wire form\<close>

record snapshot_state =
  sn_previous :: "string option"
  sn_identities :: "string list"
  sn_items :: "(string \<times> string) list"

definition snapshot_item :: "(string \<Rightarrow> string \<Rightarrow> int) \<Rightarrow> snapshot_state \<Rightarrow> js \<Rightarrow> snapshot_state option" where
  "snapshot_item lc st item =
     (if \<not> js_is_record item \<or> \<not> exact_own_keys item [''path'', ''reason_code''] then None
      else case (js_get item ''path'', js_get item ''reason_code'') of
        (JStr item_path, JStr reason) \<Rightarrow>
          if safe_memory_path (JStr item_path) \<noteq> Some item_path \<or> reason \<notin> set reason_codes then None
          else let identity = conflict_identity item_path reason
               in if identity \<in> set (sn_identities st) then None
                  else if (case sn_previous st of None \<Rightarrow> False | Some p \<Rightarrow> lc p identity \<ge> 0) then None
                  else Some \<lparr>sn_previous = Some identity, sn_identities = identity # sn_identities st,
                             sn_items = sn_items st @ [(item_path, reason)]\<rparr>
      | _ \<Rightarrow> None)"

fun snapshot_items :: "(string \<Rightarrow> string \<Rightarrow> int) \<Rightarrow> snapshot_state \<Rightarrow> js list \<Rightarrow> snapshot_state option" where
  "snapshot_items lc st [] = Some st"
| "snapshot_items lc st (x # xs) = Option.bind (snapshot_item lc st x) (\<lambda>st'. snapshot_items lc st' xs)"

definition snapshot_start :: snapshot_state where
  "snapshot_start = \<lparr>sn_previous = None, sn_identities = [], sn_items = []\<rparr>"

text \<open>\<^verbatim>\<open>omitted_count\<close> as a natural number, when it is a safe integer in range.\<close>

definition omitted_in_range :: "js \<Rightarrow> nat option" where
  "omitted_in_range v =
     (if js_is_safe_integer v then
        (case v of
           JNum (Fin q) \<Rightarrow> if 0 \<le> q \<and> q \<le> of_nat max_omitted_conflicts then Some (nat \<lfloor>q\<rfloor>) else None
         | _ \<Rightarrow> None)
      else None)"

definition snapshot_normalized_memory_conflict ::
    "(string \<Rightarrow> string \<Rightarrow> int) \<Rightarrow> js \<Rightarrow> mem_conflict option" where
  "snapshot_normalized_memory_conflict lc v =
     (if \<not> js_is_record v \<or> \<not> exact_own_keys v [''conflicts'', ''omitted_count'', ''schema''] then None
      else if js_get v ''schema'' \<noteq> JStr memory_conflict_schema \<or> \<not> js_is_arr (js_get v ''conflicts'') then None
      else let caller = js_elems (js_get v ''conflicts'')
           in if length caller > max_durable_conflicts then None
              else case omitted_in_range (js_get v ''omitted_count'') of
                None \<Rightarrow> None
              | Some omitted \<Rightarrow>
                  if omitted > 0 \<and> caller = [] then None
                  else case snapshot_items lc snapshot_start caller of
                    None \<Rightarrow> None
                  | Some st \<Rightarrow>
                      if canonical_conflict_byte_length (sn_items st) omitted > max_conflict_serialized_bytes
                      then None
                      else Some \<lparr>mc_items = sn_items st, mc_omitted = omitted\<rparr>)"

definition is_normalized_memory_conflict :: "(string \<Rightarrow> string \<Rightarrow> int) \<Rightarrow> js \<Rightarrow> bool" where
  "is_normalized_memory_conflict lc v \<longleftrightarrow> snapshot_normalized_memory_conflict lc v \<noteq> None"

text \<open>The closed record as a value: \<^verbatim>\<open>closedConflictItem\<close>, \<^verbatim>\<open>closedConflictRecord\<close>.\<close>

definition closed_conflict_item :: "string \<times> string \<Rightarrow> js" where
  "closed_conflict_item pr = JObj [(''path'', JStr (fst pr)), (''reason_code'', JStr (snd pr))]"

definition closed_conflict_record :: "mem_conflict \<Rightarrow> js" where
  "closed_conflict_record r =
     JObj [(''schema'', JStr memory_conflict_schema),
           (''conflicts'', JArr (map closed_conflict_item (mc_items r))),
           (''omitted_count'', jint (int (mc_omitted r)))]"


section \<open>Escaping\<close>

text \<open>C27. The hand-written escaper of durable conflict records is correct JSON: reading the literal
  back gives the same code units, for every string of UTF-16 code units, and the literal itself
  contains no lone surrogate, so that its UTF-8 encoding loses nothing.\<close>

theorem quote_json_round_trip:
  assumes "\<forall>c \<in> set s. c < 65536"
  shows "read_json_string (quote_json_string s) = Some s \<and> well_formed_utf16 (quote_json_string s)"
  using read_quote_body [OF assms] well_formed_quote_body [of s]
  by (simp add: read_json_string_def quote_json_string_def)

text \<open>A quote, a control character, a lone high surrogate, a surrogate pair and a letter.\<close>

theorem quote_json_round_trip_witness:
  "read_json_string (quote_json_string [0x22, 0x1f, 0xD800, 0xD83D, 0xDE00, 97]) =
     Some [0x22, 0x1f, 0xD800, 0xD83D, 0xDE00, 97] \<and>
   well_formed_utf16 (quote_json_string [0x22, 0x1f, 0xD800, 0xD83D, 0xDE00, 97])"
  by (rule quote_json_round_trip) simp

section \<open>Stored paths\<close>

lemma utf8_codes: "utf8_byte_length (codes s) = (\<Sum>c\<leftarrow>s. unit_bytes (of_char c))"
proof (induction s)
  case (Cons c s)
  have "of_char c < (256::nat)" by (rule nat_of_char_less_256)
  then have "\<not> high_surrogate (of_char c :: nat)" by linarith
  with Cons show ?case by (cases s) (auto simp: codes_def)
qed (simp add: codes_def)

lemma plain_memory: "plain_segment ''memory''"
  by (simp add: plain_segment_def)

lemma nul_not_slash: "nul \<notin> set ''/''"
  by (simp add: nul_def)

lemma safe_memory_path_fixed:
  assumes "safe_memory_path v = Some p"
  shows "safe_memory_path (JStr p) = Some p"
proof -
  obtain s where v: "v = JStr s" and bytes: "utf8_byte_length (codes s) \<le> max_conflict_path_bytes"
    and rel: "\<not> path_is_absolute s" and nul: "nul \<notin> set s" and p: "p = posix_normalize s"
    and pre: "starts_with p ''memory/''" and sub: "\<not> has_sub p ''../''"
    using assms by (cases v) (auto simp: safe_memory_path_def Let_def split: if_splits)
  from pre have "starts_with (posix_normalize s) (''memory'' @ ''/'')" by (simp add: p)
  then obtain qs where qs: "\<forall>q \<in> set qs. plain_segment q" and s: "s \<noteq> []"
    and form: "posix_normalize s = join_with ''/'' (''memory'' # qs) @ (if last s = CHR ''/'' then ''/'' else [])"
    and segs: "norm_segs True [] (segments s) = ''memory'' # qs"
    by (rule posix_normalize_descending [OF rel _ plain_memory])
  have fixed: "posix_normalize p = p"
    unfolding p form using qs plain_memory by (intro posix_normalize_fixed) auto
  have "(\<Sum>c\<leftarrow>p. unit_bytes (of_char c)) \<le> (\<Sum>c\<leftarrow>s. unit_bytes (of_char c))"
    unfolding p form using segs s by (intro wt_posix_normalize) (simp_all add: unit_bytes_def)
  then have "utf8_byte_length (codes p) \<le> max_conflict_path_bytes"
    using bytes by (simp add: utf8_codes)
  moreover have "\<not> path_is_absolute p"
    using pre by (auto simp: path_is_absolute_def starts_with_iff)
  moreover have "nul \<notin> set p"
  proof -
    have "nul \<notin> set q" if "q \<in> set (''memory'' # qs)" for q
    proof -
      have "q \<in> set (segments s)"
        using that norm_segs_chars [of q True "[]" "segments s"] unfolding segs by simp
      then show ?thesis using nul set_segments by blast
    qed
    then have "nul \<notin> set (join_with ''/'' (''memory'' # qs))"
      using set_join_with [of "''/''" "''memory'' # qs"] nul_not_slash by blast
    then show ?thesis unfolding p form using nul_not_slash by simp
  qed
  ultimately show ?thesis
    using pre sub fixed by (simp add: safe_memory_path_def)
qed

lemma safe_memory_path_no_nul: "safe_memory_path (JStr p) = Some p \<Longrightarrow> nul \<notin> set p"
  by (auto simp: safe_memory_path_def Let_def split: if_splits)

section \<open>What the normaliser keeps\<close>

abbreviation ident :: "string \<times> string \<Rightarrow> string" where
  "ident pr \<equiv> conflict_identity (fst pr) (snd pr)"

definition well_formed_pair :: "string \<times> string \<Rightarrow> bool" where
  "well_formed_pair pr \<longleftrightarrow> safe_memory_path (JStr (fst pr)) = Some (fst pr) \<and> snd pr \<in> set reason_codes"

lemma accepted_well_formed: "accepted_item v = Some pr \<Longrightarrow> well_formed_pair pr"
  by (auto simp: accepted_item_def well_formed_pair_def safe_memory_path_fixed
      split: option.splits js.splits if_splits)

lemma reason_no_nul: "r \<in> set reason_codes \<Longrightarrow> nul \<notin> set r"
  by (auto simp: reason_codes_def nul_def)

lemma last_nul_unique:
  assumes "nul \<notin> set r" "nul \<notin> set r'" "p @ nul # r = p' @ nul # r'"
  shows "p = p' \<and> r = r'"
proof -
  have "takeWhile (\<lambda>c. c \<noteq> nul) (rev (q @ nul # t)) = rev t" if "nul \<notin> set t" for q t
    using that by (subst rev_append) (auto simp: takeWhile_append)
  from this [OF assms(1), of p] this [OF assms(2), of p'] assms(3) show ?thesis by simp
qed

lemma ident_inject:
  assumes "well_formed_pair a" "well_formed_pair b" "ident a = ident b"
  shows "a = b"
proof -
  have "nul \<notin> set (snd a)" "nul \<notin> set (snd b)"
    using assms(1,2) reason_no_nul by (auto simp: well_formed_pair_def)
  from last_nul_unique [OF this] assms(3) show ?thesis
    by (simp add: conflict_identity_def prod_eq_iff)
qed


lemma dedupe_step:
  assumes "distinct (map fst m)" "\<forall>e \<in> set m. well_formed_pair (snd e) \<and> fst e = ident (snd e)"
    and "well_formed_pair pr"
  shows "set (AList.update (ident pr) pr m) = insert (ident pr, pr) (set m)"
proof -
  have "set (AList.update (ident pr) pr m) = insert (ident pr, pr) {e \<in> set m. fst e \<noteq> ident pr}"
    using assms(1) by (induction m) (auto simp: image_iff)
  moreover have "e = (ident pr, pr)" if "e \<in> set m" "fst e = ident pr" for e
    using that assms ident_inject [of "snd e" pr] by (auto simp: prod_eq_iff)
  ultimately show ?thesis by auto
qed

definition dedupe_from ::
    "(string \<times> string \<times> string) list \<Rightarrow> js list \<Rightarrow> (string \<times> string \<times> string) list" where
  "dedupe_from = foldl (\<lambda>m item. case accepted_item item of
     None \<Rightarrow> m | Some (rel, reason) \<Rightarrow> AList.update (conflict_identity rel reason) (rel, reason) m)"

lemma dedupe_from_invariant:
  assumes "distinct (map fst m)" "\<forall>e \<in> set m. well_formed_pair (snd e) \<and> fst e = ident (snd e)"
  shows "distinct (map fst (dedupe_from m values)) \<and>
    (\<forall>e \<in> set (dedupe_from m values). well_formed_pair (snd e) \<and> fst e = ident (snd e)) \<and>
    snd ` set (dedupe_from m values) = snd ` set m \<union> {pr. Some pr \<in> accepted_item ` set values}"
  using assms
proof (induction "values" arbitrary: m)
  case (Cons v vs)
  show ?case
  proof (cases "accepted_item v")
    case (Some pr)
    have wf: "well_formed_pair pr" using accepted_well_formed [OF Some] .
    let ?m = "AList.update (ident pr) pr m"
    have step: "dedupe_from m (v # vs) = dedupe_from ?m vs"
      by (simp add: dedupe_from_def Some split: prod.splits)
    have up: "set ?m = insert (ident pr, pr) (set m)" by (rule dedupe_step [OF Cons.prems wf])
    have "distinct (map fst ?m)" using Cons.prems(1) by (rule distinct_update)
    then have ih: "distinct (map fst (dedupe_from ?m vs)) \<and>
        (\<forall>e \<in> set (dedupe_from ?m vs). well_formed_pair (snd e) \<and> fst e = ident (snd e)) \<and>
        snd ` set (dedupe_from ?m vs) = snd ` set ?m \<union> {pr. Some pr \<in> accepted_item ` set vs}"
      using Cons.prems(2) wf by (intro Cons.IH) (simp_all add: up)
    show ?thesis
    proof -
      have "snd ` set ?m \<union> {pr. Some pr \<in> accepted_item ` set vs} =
            snd ` set m \<union> {pr. Some pr \<in> accepted_item ` set (v # vs)}"
        by (auto simp: up Some)
      with ih show ?thesis unfolding step by simp
    qed
  next
    case None
    then have "dedupe_from m (v # vs) = dedupe_from m vs" by (simp add: dedupe_from_def)
    moreover have "{pr. Some pr \<in> accepted_item ` set (v # vs)} = {pr. Some pr \<in> accepted_item ` set vs}"
      by (simp add: None)
    ultimately show ?thesis using Cons.IH [OF Cons.prems] by metis
  qed
qed (simp add: dedupe_from_def)

lemma dedupe_items_facts:
  "distinct (map snd (dedupe_items vs))"
  "set (map snd (dedupe_items vs)) = {pr. Some pr \<in> accepted_item ` set vs}"
  "pr \<in> set (map snd (dedupe_items vs)) \<Longrightarrow> well_formed_pair pr"
proof -
  have eq: "dedupe_items vs = dedupe_from [] vs" by (simp add: dedupe_items_def dedupe_from_def)
  note inv = dedupe_from_invariant [of "[]" vs, folded eq, simplified]
  have "inj_on snd (set (dedupe_items vs))"
    using inv by (intro inj_onI) (metis prod.collapse)
  moreover have "distinct (dedupe_items vs)" using inv distinct_map by blast
  ultimately show "distinct (map snd (dedupe_items vs))" by (simp add: distinct_map)
  show "set (map snd (dedupe_items vs)) = {pr. Some pr \<in> accepted_item ` set vs}"
    using inv by simp
  show "pr \<in> set (map snd (dedupe_items vs)) \<Longrightarrow> well_formed_pair pr"
  proof -
    assume "pr \<in> set (map snd (dedupe_items vs))"
    then obtain v where "accepted_item v = Some pr" using inv by (simp add: image_iff) metis
    then show "well_formed_pair pr" by (rule accepted_well_formed)
  qed
qed

lemma conflict_record_limit_bounds: "1 \<le> conflict_record_limit env \<and> conflict_record_limit env \<le> 100"
proof (cases "env_number env ''AGENTBOOTUP_MEMORY_CONFLICT_RECORD_LIMIT''")
  case (Fin q)
  show ?thesis
  proof (cases "rat_is_int q \<and> 1 \<le> q \<and> q \<le> 100")
    case True
    then obtain n where "q = of_int n" by (auto simp: rat_is_int_iff)
    moreover from this True have "1 \<le> n \<and> n \<le> 100" by simp
    ultimately show ?thesis using True by (auto simp: conflict_record_limit_def Fin nat_le_iff Suc_le_eq)
  qed (auto simp: conflict_record_limit_def Fin)
qed (simp_all add: conflict_record_limit_def)

text \<open>The caller's items that the normaliser accepts.\<close>

definition accepted_pairs :: "js \<Rightarrow> (string \<times> string) set" where
  "accepted_pairs conflicts = {pr. Some pr \<in> accepted_item ` set (js_elems conflicts)}"

lemma create_memory_conflict_eq:
  "create_memory_conflict lc env conflicts =
     (let all = sort_by (lex_cmp lc) (map snd (dedupe_items (js_elems conflicts)));
          retained = min (length all) (conflict_record_limit env)
      in \<lparr>mc_items = take retained all, mc_omitted = length all - retained\<rparr>)"
  by (simp add: create_memory_conflict_def normalize_memory_conflict_def Let_def)

text \<open>C30. Whatever data the caller passes, the durable record holds at most a hundred distinct
  pairs, each one an accepted pair of the input, and its omitted count is exact: retained and
  omitted together are the number of distinct accepted pairs.\<close>

theorem conflict_record_exact:
  "let r = create_memory_conflict lc env conflicts
   in set (mc_items r) \<subseteq> accepted_pairs conflicts \<and> distinct (mc_items r) \<and>
      length (mc_items r) \<le> conflict_record_limit env \<and> conflict_record_limit env \<le> max_durable_conflicts \<and>
      length (mc_items r) + mc_omitted r = card (accepted_pairs conflicts)"
proof -
  let ?all = "sort_by (lex_cmp lc) (map snd (dedupe_items (js_elems conflicts)))"
  have set: "set ?all = accepted_pairs conflicts" and dist: "distinct ?all"
    by (simp_all only: accepted_pairs_def set_sort_by distinct_sort_by dedupe_items_facts)
  have "card (accepted_pairs conflicts) = length ?all"
    using distinct_card [OF dist] set by metis
  moreover have "set (take n ?all) \<subseteq> accepted_pairs conflicts" for n
    using set_take_subset [of n ?all] set by blast
  ultimately show ?thesis
    using dist conflict_record_limit_bounds [of env]
    by (auto simp: create_memory_conflict_eq Let_def max_durable_conflicts_def simp del: length_sort_by)
qed

section \<open>The validator\<close>

lemma closed_item_fields [simp]:
  "js_is_record (closed_conflict_item pr)"
  "exact_own_keys (closed_conflict_item pr) [''path'', ''reason_code'']"
  "js_get (closed_conflict_item pr) ''path'' = JStr (fst pr)"
  "js_get (closed_conflict_item pr) ''reason_code'' = JStr (snd pr)"
  by (simp_all add: closed_conflict_item_def exact_own_keys_def)

lemma closed_record_fields [simp]:
  "js_is_record (closed_conflict_record r)"
  "exact_own_keys (closed_conflict_record r) [''conflicts'', ''omitted_count'', ''schema'']"
  "js_get (closed_conflict_record r) ''schema'' = JStr memory_conflict_schema"
  "js_get (closed_conflict_record r) ''conflicts'' = JArr (map closed_conflict_item (mc_items r))"
  "js_get (closed_conflict_record r) ''omitted_count'' = jint (int (mc_omitted r))"
  by (simp_all add: closed_conflict_record_def exact_own_keys_def)

lemma omitted_in_range_jint:
  "omitted_in_range (jint (int n)) = (if n \<le> max_omitted_conflicts then Some n else None)"
proof -
  have "(of_int (int n) :: rat) \<le> of_nat max_omitted_conflicts \<longleftrightarrow> n \<le> max_omitted_conflicts"
    by simp
  moreover have "n \<le> max_omitted_conflicts \<Longrightarrow> \<bar>of_int (int n) :: rat\<bar> \<le> max_safe_integer"
    by (simp add: max_omitted_conflicts_def max_safe_integer_def)
  moreover have "rat_is_int (of_int (int n))" by (rule rat_is_int_of_int)
  ultimately show ?thesis
    by (simp add: omitted_in_range_def del: of_int_of_nat_eq)
qed

lemmas omitted_in_range_nat = omitted_in_range_jint [unfolded of_int_of_nat_eq]

lemma omitted_in_range_bound: "omitted_in_range v = Some n \<Longrightarrow> n \<le> max_omitted_conflicts"
  by (auto simp: omitted_in_range_def nat_le_iff floor_le_iff split: if_splits js.splits jsnum.splits)

text \<open>One accepted item: what it stores, and that its closed copy is accepted in its place.\<close>

lemma snapshot_item_Some:
  assumes "snapshot_item lc st v = Some st'"
  obtains pr where "sn_items st' = sn_items st @ [pr]" "well_formed_pair pr"
    "snapshot_item lc st (closed_conflict_item pr) = Some st'"
proof -
  obtain p r where v: "js_get v ''path'' = JStr p" "js_get v ''reason_code'' = JStr r"
    using assms by (auto simp: snapshot_item_def split: if_splits js.splits)
  have "sn_items st' = sn_items st @ [(p, r)]" "well_formed_pair (p, r)"
    "snapshot_item lc st (closed_conflict_item (p, r)) = Some st'"
    using assms by (auto simp: snapshot_item_def v well_formed_pair_def Let_def split: if_splits)
  then show thesis by (rule that)
qed

lemma snapshot_items_Some:
  assumes "snapshot_items lc st vs = Some st'"
  shows "\<exists>prs. sn_items st' = sn_items st @ prs \<and> length prs = length vs \<and>
    snapshot_items lc st (map closed_conflict_item prs) = Some st' \<and> (\<forall>pr \<in> set prs. well_formed_pair pr)"
  using assms
proof (induction vs arbitrary: st)
  case (Cons v vs)
  then obtain st1 where one: "snapshot_item lc st v = Some st1" and more: "snapshot_items lc st1 vs = Some st'"
    by (auto simp: bind_eq_Some_conv)
  obtain pr where pr: "sn_items st1 = sn_items st @ [pr]" "well_formed_pair pr"
    "snapshot_item lc st (closed_conflict_item pr) = Some st1"
    by (rule snapshot_item_Some [OF one])
  obtain prs where "sn_items st' = sn_items st1 @ prs" "length prs = length vs"
    "snapshot_items lc st1 (map closed_conflict_item prs) = Some st'" "\<forall>pr \<in> set prs. well_formed_pair pr"
    using Cons.IH [OF more] by blast
  with pr show ?case by (intro exI [of _ "pr # prs"]) simp
qed simp

lemma snapshot_closed_again:
  assumes "snapshot_normalized_memory_conflict lc v = Some r"
  shows "snapshot_normalized_memory_conflict lc (closed_conflict_record r) = Some r"
proof -
  obtain vs n st where vs: "length vs \<le> max_durable_conflicts" "n \<le> max_omitted_conflicts"
      "\<not> (n > 0 \<and> vs = [])" "snapshot_items lc snapshot_start vs = Some st"
    and bytes: "canonical_conflict_byte_length (sn_items st) n \<le> max_conflict_serialized_bytes"
    and r: "r = \<lparr>mc_items = sn_items st, mc_omitted = n\<rparr>"
    using assms omitted_in_range_bound [of "js_get v ''omitted_count''"]
    by (simp add: snapshot_normalized_memory_conflict_def Let_def not_less split: if_splits option.splits)
  obtain prs where prs: "sn_items st = prs" "length prs = length vs"
    "snapshot_items lc snapshot_start (map closed_conflict_item prs) = Some st"
    using snapshot_items_Some [OF vs(4)] by (auto simp: snapshot_start_def)
  have "(prs = []) = (vs = [])" using prs(2) by auto
  with prs vs bytes show ?thesis
    by (auto simp: snapshot_normalized_memory_conflict_def r omitted_in_range_nat Let_def)
qed

interpretation conflict_wire: owned_snapshot "snapshot_normalized_memory_conflict lc" closed_conflict_record
  by unfold_locales (rule snapshot_closed_again)

text \<open>A record that passed the validator passes it again, unchanged: re-validating a durable
  conflict at every process boundary never loses or changes it.\<close>

theorem conflict_snapshot_idempotent:
  "Option.bind (snapshot_normalized_memory_conflict lc v)
     (snapshot_normalized_memory_conflict lc \<circ> closed_conflict_record)
   = snapshot_normalized_memory_conflict lc v"
  using conflict_wire.snap_twice by (cases "snapshot_normalized_memory_conflict lc v") auto

section \<open>Normaliser and validator\<close>

definition pair_before :: "(string \<Rightarrow> string \<Rightarrow> int) \<Rightarrow> string \<times> string \<Rightarrow> string \<times> string \<Rightarrow> bool" where
  "pair_before lc a b \<longleftrightarrow> lc (ident a) (ident b) < 0"

lemma snapshot_items_accepts:
  assumes "\<forall>pr \<in> set prs. well_formed_pair pr" and "distinct (map ident prs)"
    and "sorted_wrt (pair_before lc) prs"
    and "\<forall>i \<in> set (sn_identities st). i \<notin> set (map ident prs)"
    and "\<forall>i. sn_previous st = Some i \<longrightarrow> (\<forall>pr \<in> set prs. lc i (ident pr) < 0)"
  shows "\<exists>st'. snapshot_items lc st (map closed_conflict_item prs) = Some st' \<and> sn_items st' = sn_items st @ prs"
  using assms
proof (induction prs arbitrary: st)
  case (Cons pr prs)
  let ?st = "\<lparr>sn_previous = Some (ident pr), sn_identities = ident pr # sn_identities st,
              sn_items = sn_items st @ [pr]\<rparr>"
  have "snapshot_item lc st (closed_conflict_item pr) = Some ?st"
    using Cons.prems by (auto simp: snapshot_item_def well_formed_pair_def Let_def split: option.splits)
  moreover have "\<exists>st'. snapshot_items lc ?st (map closed_conflict_item prs) = Some st' \<and>
      sn_items st' = sn_items ?st @ prs"
    using Cons.prems by (intro Cons.IH) (auto simp: pair_before_def)
  ultimately show ?case by auto
qed simp

text \<open>Under a comparison of code units, the order of the stored pairs is the order of their
  identities, because no path contains NUL, the smallest code unit.\<close>

lemma append_nul_less:
  "nul \<notin> set p \<Longrightarrow> nul \<notin> set q \<Longrightarrow> p < q \<Longrightarrow> p @ nul # r < q @ nul # r'"
proof (induction p arbitrary: q)
  case Nil
  then obtain c q' where "q = c # q'" "c \<noteq> nul" by (cases q) auto
  moreover have "nul \<le> c" by (simp add: nul_def less_eq_char_def)
  ultimately show ?case by simp
next
  case (Cons c p)
  then show ?case by (cases q) auto
qed

lemma append_same_less: "(r::string) < r' \<Longrightarrow> p @ r < p @ r'"
  by (induction p) auto

lemma code_unit_pairs_before:
  assumes "well_formed_pair a" "well_formed_pair b" "lex_cmp compare_code_units a b \<le> 0" "a \<noteq> b"
  shows "pair_before compare_code_units a b"
proof -
  have "nul \<notin> set (fst a)" "nul \<notin> set (fst b)"
    using assms safe_memory_path_no_nul by (auto simp: well_formed_pair_def)
  moreover have "fst a < fst b \<or> fst a = fst b \<and> snd a < snd b"
    using assms(3,4) by (auto simp: lex_cmp_def compare_code_units_def prod_eq_iff split: if_splits)
  ultimately have "ident a < ident b"
    by (auto simp add: conflict_identity_def append_nul_less append_same_less simp del: less_list_code)
  then show ?thesis by (simp add: pair_before_def compare_code_units_def)
qed

interpretation code_unit_pairs: comparator "lex_cmp compare_code_units"
  by unfold_locales (auto simp: lex_cmp_def compare_code_units_def split: if_splits)

lemma created_items_sorted:
  fixes conflicts :: js and env :: env
  defines "prs \<equiv> mc_items (create_memory_conflict compare_code_units env conflicts)"
  shows "sorted_wrt (pair_before compare_code_units) prs" and "\<forall>pr \<in> set prs. well_formed_pair pr"
    and "distinct (map ident prs)"
proof -
  let ?all = "sort_by (lex_cmp compare_code_units) (map snd (dedupe_items (js_elems conflicts)))"
  have wf: "\<forall>pr \<in> set ?all. well_formed_pair pr"
    using dedupe_items_facts(3) by simp
  have dist: "distinct ?all" using dedupe_items_facts(1) by simp
  have "sorted_wrt (\<lambda>a b. lex_cmp compare_code_units a b \<le> 0 \<and> a \<noteq> b) ?all"
    by (rule sorted_wrt_distinct [OF code_unit_pairs.sorted_sort_by dist])
  then have "sorted_wrt (pair_before compare_code_units) ?all"
    by (rule sorted_wrt_mono_rel [rotated]) (use wf code_unit_pairs_before in blast)
  moreover have prs: "prs = take (min (length ?all) (conflict_record_limit env)) ?all"
    by (simp add: prs_def create_memory_conflict_eq Let_def)
  ultimately show "sorted_wrt (pair_before compare_code_units) prs"
    by (simp only: sorted_wrt_take)
  show wf': "\<forall>pr \<in> set prs. well_formed_pair pr"
    using wf by (auto simp only: prs dest: in_set_takeD)
  have "distinct prs" using dist by (simp only: prs distinct_take)
  then show "distinct (map ident prs)"
    using wf' ident_inject by (simp add: distinct_map inj_on_def)
qed

lemma created_nonempty:
  "mc_omitted (create_memory_conflict lc env conflicts) > 0 \<Longrightarrow> mc_items (create_memory_conflict lc env conflicts) \<noteq> []"
  using conflict_record_limit_bounds [of env] by (auto simp: create_memory_conflict_eq Let_def min_def split: if_splits)

text \<open>Under the comparison of code units the normaliser and the strict validator agree: the
  record made from any caller data is accepted, unchanged, exactly when its omitted count and its
  serialised size are in bounds.\<close>

theorem created_record_validates:
  "let r = create_memory_conflict compare_code_units env conflicts
   in snapshot_normalized_memory_conflict compare_code_units (closed_conflict_record r) =
      (if mc_omitted r \<le> max_omitted_conflicts \<and>
          canonical_conflict_byte_length (mc_items r) (mc_omitted r) \<le> max_conflict_serialized_bytes
       then Some r else None)"
proof -
  define r where "r = create_memory_conflict compare_code_units env conflicts"
  obtain st where st: "snapshot_items compare_code_units snapshot_start (map closed_conflict_item (mc_items r)) = Some st"
      "sn_items st = mc_items r"
    using snapshot_items_accepts [of "mc_items r" compare_code_units snapshot_start] created_items_sorted [of env conflicts]
    by (auto simp: r_def snapshot_start_def)
  have len: "length (mc_items r) \<le> max_durable_conflicts"
    using conflict_record_limit_bounds [of env]
    by (simp add: r_def create_memory_conflict_eq Let_def max_durable_conflicts_def min.coboundedI2)
  have "mc_omitted r > 0 \<longrightarrow> mc_items r \<noteq> []" using created_nonempty by (simp add: r_def)
  then have "snapshot_normalized_memory_conflict compare_code_units (closed_conflict_record r) =
    (if mc_omitted r \<le> max_omitted_conflicts \<and>
        canonical_conflict_byte_length (mc_items r) (mc_omitted r) \<le> max_conflict_serialized_bytes
     then Some r else None)"
    using st len by (auto simp: snapshot_normalized_memory_conflict_def omitted_in_range_nat Let_def)
  then show ?thesis by (simp add: r_def Let_def)
qed

section \<open>Collation\<close>

text \<open>What the validator asks of well-formed, distinct pairs: each identity is below the next.\<close>

lemma snapshot_items_exact:
  assumes "\<forall>pr \<in> set prs. well_formed_pair pr" and "distinct (map ident prs)"
    and "\<forall>i \<in> set (sn_identities st). i \<notin> set (map ident prs)"
  shows "if successively (pair_before lc) prs \<and>
            (case sn_previous st of None \<Rightarrow> True | Some i \<Rightarrow> prs = [] \<or> lc i (ident (hd prs)) < 0)
         then \<exists>st'. snapshot_items lc st (map closed_conflict_item prs) = Some st' \<and> sn_items st' = sn_items st @ prs
         else snapshot_items lc st (map closed_conflict_item prs) = None"
  using assms
proof (induction prs arbitrary: st)
  case (Cons pr prs)
  let ?st = "\<lparr>sn_previous = Some (ident pr), sn_identities = ident pr # sn_identities st,
              sn_items = sn_items st @ [pr]\<rparr>"
  have step: "snapshot_item lc st (closed_conflict_item pr) =
      (if (case sn_previous st of None \<Rightarrow> True | Some i \<Rightarrow> lc i (ident pr) < 0) then Some ?st else None)"
    using Cons.prems by (auto simp: snapshot_item_def well_formed_pair_def Let_def split: option.splits)
  have chain: "successively (pair_before lc) (pr # prs) \<longleftrightarrow>
      successively (pair_before lc) prs \<and> (prs = [] \<or> lc (ident pr) (ident (hd prs)) < 0)"
    by (cases prs) (auto simp: pair_before_def)
  have rest: "if successively (pair_before lc) prs \<and> (prs = [] \<or> lc (ident pr) (ident (hd prs)) < 0)
         then \<exists>st'. snapshot_items lc ?st (map closed_conflict_item prs) = Some st' \<and> sn_items st' = sn_items ?st @ prs
         else snapshot_items lc ?st (map closed_conflict_item prs) = None"
    using Cons.IH [of ?st] Cons.prems by auto
  show ?case using step rest unfolding chain by (auto split: option.splits if_splits)
qed (auto split: option.splits)

lemma created_items_well_formed:
  "(\<forall>pr \<in> set (mc_items (create_memory_conflict lc env conflicts)). well_formed_pair pr) \<and>
   distinct (map ident (mc_items (create_memory_conflict lc env conflicts)))"
proof -
  let ?all = "sort_by (lex_cmp lc) (map snd (dedupe_items (js_elems conflicts)))"
  let ?prs = "mc_items (create_memory_conflict lc env conflicts)"
  have prs: "?prs = take (min (length ?all) (conflict_record_limit env)) ?all"
    by (simp add: create_memory_conflict_eq Let_def)
  have wf: "\<forall>pr \<in> set ?prs. well_formed_pair pr"
    using dedupe_items_facts(3) by (auto simp only: prs set_sort_by dest: in_set_takeD)
  have "distinct ?prs" using dedupe_items_facts(1) by (simp only: prs distinct_take distinct_sort_by)
  with wf ident_inject show ?thesis by (simp add: distinct_map inj_on_def)
qed

text \<open>C34. What the strict validator asks of the normaliser's output, for any collation: the record made
  from any caller data is accepted, unchanged, exactly when the collation puts the identities (path,
  NUL, reason) of its conflicts in ascending order, its omitted count is in range, and its
  serialised size is within the bound; otherwise the whole record is rejected.\<close>

theorem created_record_validates_exactly:
  "let r = create_memory_conflict lc env conflicts
   in snapshot_normalized_memory_conflict lc (closed_conflict_record r) =
      (if successively (\<lambda>a b. lc (conflict_identity (fst a) (snd a)) (conflict_identity (fst b) (snd b)) < 0) (mc_items r) \<and>
          mc_omitted r \<le> max_omitted_conflicts \<and>
          canonical_conflict_byte_length (mc_items r) (mc_omitted r) \<le> max_conflict_serialized_bytes
       then Some r else None)"
proof -
  define r where "r = create_memory_conflict lc env conflicts"
  have start: "sn_identities snapshot_start = []" "sn_previous snapshot_start = None" "sn_items snapshot_start = []"
    by (simp_all add: snapshot_start_def)
  have items: "if successively (pair_before lc) (mc_items r)
      then \<exists>st. snapshot_items lc snapshot_start (map closed_conflict_item (mc_items r)) = Some st \<and> sn_items st = mc_items r
      else snapshot_items lc snapshot_start (map closed_conflict_item (mc_items r)) = None"
    using snapshot_items_exact [of "mc_items r" snapshot_start lc] created_items_well_formed [of lc env conflicts, folded r_def]
    by (auto simp: start split: if_splits)
  have len: "length (mc_items r) \<le> max_durable_conflicts"
    using conflict_record_limit_bounds [of env]
    by (simp add: r_def create_memory_conflict_eq Let_def max_durable_conflicts_def min.coboundedI2)
  have before: "pair_before lc = (\<lambda>a b. lc (conflict_identity (fst a) (snd a)) (conflict_identity (fst b) (snd b)) < 0)"
    by (simp add: fun_eq_iff pair_before_def)
  have "mc_omitted r > 0 \<longrightarrow> mc_items r \<noteq> []" using created_nonempty by (simp add: r_def)
  then have "snapshot_normalized_memory_conflict lc (closed_conflict_record r) =
    (if successively (pair_before lc) (mc_items r) \<and> mc_omitted r \<le> max_omitted_conflicts \<and>
        canonical_conflict_byte_length (mc_items r) (mc_omitted r) \<le> max_conflict_serialized_bytes
     then Some r else None)"
    using items len
    by (cases "successively (pair_before lc) (mc_items r)")
      (auto simp: snapshot_normalized_memory_conflict_def omitted_in_range_nat Let_def)
  then show ?thesis by (simp add: r_def Let_def before)
qed

text \<open>A collation in which U+0000 has no weight, as ICU gives it none; otherwise letters by code.  Not the
  collation of a host, but one that the code may meet in this respect.\<close>

definition ignoring_nul :: "string \<Rightarrow> string \<Rightarrow> int" where
  "ignoring_nul a b = compare_code_units (filter (\<lambda>c. c \<noteq> nul) a) (filter (\<lambda>c. c \<noteq> nul) b)"

interpretation ignoring_nul: comparator ignoring_nul
  by unfold_locales (auto simp: ignoring_nul_def compare_code_units_def split: if_splits)

definition sibling_conflicts :: js where
  "sibling_conflicts =
     JArr [closed_conflict_item (''memory/note.md'', ''local_page_unreadable''),
           closed_conflict_item (''memory/note.md.bak'', ''local_page_unreadable'')]"

definition sibling_record :: mem_conflict where
  "sibling_record =
     \<lparr>mc_items = [(''memory/note.md'', ''local_page_unreadable''), (''memory/note.md.bak'', ''local_page_unreadable'')],
      mc_omitted = 0\<rparr>"

lemma utf8_short: "2 * length s \<le> n \<Longrightarrow> utf8_byte_length (codes s) \<le> n"
proof -
  have "utf8_byte_length (codes s) \<le> 2 * length s"
  proof (induction s)
    case (Cons c s)
    have "of_char c < (256::nat)" by (rule nat_of_char_less_256)
    then have "of_char c < (2048::nat)" by linarith
    then have "unit_bytes (of_char c) \<le> 2" by (simp add: unit_bytes_def)
    with Cons show ?case by (simp add: utf8_codes)
  qed (simp add: codes_def)
  then show "2 * length s \<le> n \<Longrightarrow> ?thesis" by simp
qed

lemma sibling_paths:
  "posix_normalize ''memory/note.md'' = ''memory/note.md''"
  "posix_normalize ''memory/note.md.bak'' = ''memory/note.md.bak''"
  by code_simp+

lemma sibling_safe [simp]:
  "safe_memory_path (JStr ''memory/note.md'') = Some ''memory/note.md''"
  "safe_memory_path (JStr ''memory/note.md.bak'') = Some ''memory/note.md.bak''"
  using utf8_short [of "''memory/note.md''" 1024] utf8_short [of "''memory/note.md.bak''" 1024]
  by (simp_all add: safe_memory_path_def sibling_paths max_conflict_path_bytes_def not_less
      path_is_absolute_def starts_with_def nul_def)

lemma sibling_accepted:
  "dedupe_items (js_elems sibling_conflicts) =
     [(ident pr1, pr1), (ident pr2, pr2)]"
  if "pr1 = (''memory/note.md'', ''local_page_unreadable'')"
    and "pr2 = (''memory/note.md.bak'', ''local_page_unreadable'')"
  using that by (simp add: dedupe_items_def sibling_conflicts_def accepted_item_def reason_codes_def
      conflict_identity_def)

lemma sibling_order:
  "sort_by (lex_cmp ignoring_nul) (mc_items sibling_record) = mc_items sibling_record"
  "\<not> ignoring_nul (conflict_identity ''memory/note.md'' ''local_page_unreadable'')
        (conflict_identity ''memory/note.md.bak'' ''local_page_unreadable'') < 0"
  by code_simp+

text \<open>The validator compares whole identities where the normaliser compares paths first: with a
  collation that ignores NUL the record that the normaliser makes for a page and its backup is
  rejected, so the whole hint is lost.\<close>

theorem sibling_conflict_record_is_lost:
  "create_memory_conflict ignoring_nul Map.empty sibling_conflicts = sibling_record \<and>
   snapshot_normalized_memory_conflict ignoring_nul
     (closed_conflict_record (create_memory_conflict ignoring_nul Map.empty sibling_conflicts)) = None"
proof -
  have "conflict_record_limit Map.empty = 20"
    by (simp add: conflict_record_limit_def env_number_def)
  then have "create_memory_conflict ignoring_nul Map.empty sibling_conflicts = sibling_record"
    using sibling_order(1) sibling_accepted [OF refl refl]
    by (simp add: create_memory_conflict_eq sibling_record_def)
  moreover have "snapshot_items ignoring_nul snapshot_start (map closed_conflict_item (mc_items sibling_record)) = None"
    using sibling_order(2)
    by (simp add: snapshot_item_def snapshot_start_def sibling_record_def reason_codes_def Let_def)
  ultimately show ?thesis
    by (simp add: snapshot_normalized_memory_conflict_def Let_def split: option.splits)
qed

end
