(* ===== verification/ConvergenceFailure.thy ===== *)
theory ConvergenceFailure
  imports MemoryConflict
begin

text \<open>
  Closed convergence-failure records, \<^verbatim>\<open>lib/memory/convergence-failure.js\<close>: the strict
  snapshot of a record, its total constructor, the mapping from evidence (exit code, structured
  hint, legacy text) to a category, the legacy text classifier and the operator message.
  \<^verbatim>\<open>localeCompare\<close> is the parameter \<open>lc\<close>; \<^verbatim>\<open>String(value)\<close> of an output line is the
  parameter \<open>to_text\<close>.
\<close>

section \<open>Records\<close>

definition failure_schema :: string where
  "failure_schema = ''memory-convergence-failure/v1''"

definition convergence_phases :: "string list" where
  "convergence_phases =
     [''config'', ''freshness'', ''replay'', ''refresh'', ''queue_inspect'', ''head_compare'',
      ''publish'', ''cycle'', ''startup'']"

definition failure_categories :: "string list" where
  "failure_categories =
     [''conflict'', ''invalid_payload'', ''timeout'', ''unreachable'', ''lock_held'',
      ''local_precondition'', ''authorization'', ''unknown'']"

definition child_phases :: "string list" where
  "child_phases = [''replay'', ''refresh'', ''publish'']"

record conv_failure =
  cf_phase :: string
  cf_category :: string
  cf_exit :: js
  cf_conflict :: "mem_conflict option"

record failure_hint =
  fh_category :: string
  fh_conflict :: "mem_conflict option"

definition failure_record :: "conv_failure \<Rightarrow> js" where
  "failure_record r =
     JObj ([(''schema'', JStr failure_schema), (''phase'', JStr (cf_phase r)),
            (''category'', JStr (cf_category r)), (''exit_code'', cf_exit r)] @
           (case cf_conflict r of None \<Rightarrow> [] | Some c \<Rightarrow> [(''conflict'', closed_conflict_record c)]))"

definition exact_keys :: "js \<Rightarrow> string list \<Rightarrow> bool" where
  "exact_keys v expected \<longleftrightarrow>
     js_is_record v \<and> length (js_keys v) = length expected \<and> list_all (\<lambda>k. k \<in> set expected) (js_keys v)"

definition in_phases :: "js \<Rightarrow> bool" where
  "in_phases v = (case v of JStr s \<Rightarrow> s \<in> set convergence_phases | _ \<Rightarrow> False)"

definition normalize_exit :: "string \<Rightarrow> js \<Rightarrow> js" where
  "normalize_exit phase v =
     (if phase \<notin> set child_phases then JNull else if js_int_between 1 255 v then v else JNull)"

definition exit_allowed :: "string \<Rightarrow> js \<Rightarrow> bool" where
  "exit_allowed phase v = (if phase \<in> set child_phases then js_int_between 1 255 v else v = JNull)"

definition category_allowed :: "string \<Rightarrow> js \<Rightarrow> bool" where
  "category_allowed phase v =
     (case v of
        JStr c \<Rightarrow> c \<in> set failure_categories \<and> (c \<noteq> ''conflict'' \<or> phase \<in> set child_phases)
      | _ \<Rightarrow> False)"

section \<open>Snapshot, constructor, normaliser\<close>

definition snapshot_convergence_failure ::
    "(string \<Rightarrow> string \<Rightarrow> int) \<Rightarrow> js \<Rightarrow> conv_failure option" where
  "snapshot_convergence_failure lc v =
     (let has_conflict = js_has_own v ''conflict'' in
      if \<not> exact_keys v (if has_conflict
            then [''schema'', ''phase'', ''category'', ''exit_code'', ''conflict'']
            else [''schema'', ''phase'', ''category'', ''exit_code'']) then None
      else let conflict = (if has_conflict then snapshot_normalized_memory_conflict lc (js_get v ''conflict'') else None) in
      if js_get v ''schema'' \<noteq> JStr failure_schema \<or> \<not> in_phases (js_get v ''phase'') then None
      else (case (js_get v ''phase'', js_get v ''category'') of
        (JStr phase, JStr category) \<Rightarrow>
          if \<not> category_allowed phase (JStr category) then None
          else if \<not> exit_allowed phase (js_get v ''exit_code'') then None
          else if has_conflict \<and> (category \<noteq> ''conflict'' \<or> conflict = None) then None
          else Some \<lparr>cf_phase = phase, cf_category = category, cf_exit = js_get v ''exit_code'', cf_conflict = conflict\<rparr>
      | _ \<Rightarrow> None))"

definition is_valid_convergence_failure :: "(string \<Rightarrow> string \<Rightarrow> int) \<Rightarrow> js \<Rightarrow> bool" where
  "is_valid_convergence_failure lc v \<longleftrightarrow> snapshot_convergence_failure lc v \<noteq> None"

text \<open>The arguments of the constructor; an absent argument is undefined.\<close>

definition default_null :: "js \<Rightarrow> js" where
  "default_null v = (if v = JUndef then JNull else v)"

definition conflict_argument :: "(string \<Rightarrow> string \<Rightarrow> int) \<Rightarrow> js \<Rightarrow> mem_conflict option" where
  "conflict_argument lc conflict =
     (if conflict \<noteq> JUndef then snapshot_normalized_memory_conflict lc conflict else None)"

definition safe_category :: "(string \<Rightarrow> string \<Rightarrow> int) \<Rightarrow> string \<Rightarrow> js \<Rightarrow> js \<Rightarrow> string" where
  "safe_category lc phase category conflict =
     (case category of
        JStr c \<Rightarrow> if category_allowed phase category \<and>
                     (conflict = JUndef \<or> (c = ''conflict'' \<and> conflict_argument lc conflict \<noteq> None))
                  then c else ''unknown''
      | _ \<Rightarrow> ''unknown'')"

definition create_convergence_failure ::
    "(string \<Rightarrow> string \<Rightarrow> int) \<Rightarrow> js \<Rightarrow> js \<Rightarrow> js \<Rightarrow> js \<Rightarrow> conv_failure" where
  "create_convergence_failure lc phase category exit_code0 conflict =
     (let exit_code = default_null exit_code0;
          valid_phase = in_phases phase;
          safe_phase = (case phase of JStr s \<Rightarrow> if valid_phase then s else ''cycle'' | _ \<Rightarrow> ''cycle'')
      in if \<not> valid_phase \<or> (safe_phase \<in> set child_phases \<and> \<not> exit_allowed safe_phase exit_code)
         then \<lparr>cf_phase = ''cycle'', cf_category = ''unknown'', cf_exit = JNull, cf_conflict = None\<rparr>
         else let category' = safe_category lc safe_phase category conflict
              in \<lparr>cf_phase = safe_phase, cf_category = category',
                  cf_exit = normalize_exit safe_phase exit_code,
                  cf_conflict = (if category' = ''conflict'' then conflict_argument lc conflict else None)\<rparr>)"

definition normalize_convergence_failure ::
    "(string \<Rightarrow> string \<Rightarrow> int) \<Rightarrow> js \<Rightarrow> js \<Rightarrow> js \<Rightarrow> conv_failure" where
  "normalize_convergence_failure lc v fallback_phase observed_exit =
     (case snapshot_convergence_failure lc v of
        None \<Rightarrow> create_convergence_failure lc
                  (if in_phases fallback_phase then fallback_phase else JStr ''cycle'')
                  (JStr ''unknown'') observed_exit JUndef
      | Some r \<Rightarrow> r)"

definition normalize_failure_hint :: "(string \<Rightarrow> string \<Rightarrow> int) \<Rightarrow> js \<Rightarrow> failure_hint option" where
  "normalize_failure_hint lc v =
     (let has_conflict = js_has_own v ''conflict'' in
      if \<not> exact_keys v (if has_conflict then [''category'', ''conflict''] else [''category'']) then None
      else let conflict = (if has_conflict then snapshot_normalized_memory_conflict lc (js_get v ''conflict'') else None) in
      (case js_get v ''category'' of
         JStr category \<Rightarrow>
           if category \<notin> set failure_categories then None
           else if has_conflict \<and> (category \<noteq> ''conflict'' \<or> conflict = None) then None
           else Some \<lparr>fh_category = category, fh_conflict = conflict\<rparr>
       | _ \<Rightarrow> None))"

definition failure_from_evidence ::
    "(string \<Rightarrow> string \<Rightarrow> int) \<Rightarrow> js \<Rightarrow> js \<Rightarrow> js \<Rightarrow> js \<Rightarrow> conv_failure" where
  "failure_from_evidence lc phase exit_code hint legacy =
     (if \<not> in_phases phase then create_convergence_failure lc phase (JStr ''unknown'') exit_code JUndef
      else let safe_phase = (case phase of JStr s \<Rightarrow> s | _ \<Rightarrow> []);
               safe_exit = normalize_exit safe_phase exit_code;
               make = (\<lambda>category conflict. create_convergence_failure lc (JStr safe_phase) category safe_exit conflict)
           in case normalize_failure_hint lc hint of
                Some h \<Rightarrow>
                  if category_allowed safe_phase (JStr (fh_category h))
                  then make (JStr (fh_category h))
                         (case fh_conflict h of None \<Rightarrow> JUndef | Some c \<Rightarrow> closed_conflict_record c)
                  else if safe_exit = jint 3 then make (JStr ''conflict'') JUndef
                  else if safe_exit = jint 5 then make (JStr ''lock_held'') JUndef
                  else if category_allowed safe_phase legacy then make legacy JUndef
                  else make (JStr ''unknown'') JUndef
              | None \<Rightarrow>
                  if safe_exit = jint 3 then make (JStr ''conflict'') JUndef
                  else if safe_exit = jint 5 then make (JStr ''lock_held'') JUndef
                  else if category_allowed safe_phase legacy then make legacy JUndef
                  else make (JStr ''unknown'') JUndef)"

section \<open>The legacy text classifier\<close>

text \<open>A word of the regular expressions: \<^verbatim>\<open>\bw\b\<close> for a word of word characters; \<open>prev\<close> says
  whether the character before is one.\<close>

definition is_word_char :: "char \<Rightarrow> bool" where
  "is_word_char c \<longleftrightarrow> is_alnum_char c \<or> c = CHR ''_''"

definition boundary_after :: "string \<Rightarrow> bool" where
  "boundary_after s = (case s of [] \<Rightarrow> True | c # _ \<Rightarrow> \<not> is_word_char c)"

fun find_word :: "string \<Rightarrow> bool \<Rightarrow> string \<Rightarrow> (string \<Rightarrow> bool) \<Rightarrow> bool" where
  "find_word w prev [] after = False"
| "find_word w prev (c # s) after =
     ((\<not> prev \<and> starts_with (c # s) w \<and> boundary_after (drop (length w) (c # s)) \<and>
       after (drop (length w) (c # s))) \<or>
      find_word w (is_word_char c) s after)"

definition has_word :: "string \<Rightarrow> string \<Rightarrow> bool" where
  "has_word s w = find_word w False s (\<lambda>_. True)"

text \<open>\<^verbatim>\<open>.*auth\<close>: later on the same line.\<close>

definition rest_of_line :: "string \<Rightarrow> string" where
  "rest_of_line s = takeWhile (\<lambda>c. c \<noteq> CHR 0x0A \<and> c \<noteq> CHR 0x0D) s"

definition has_word_then :: "string \<Rightarrow> string \<Rightarrow> string \<Rightarrow> bool" where
  "has_word_then s w t = find_word w False s (\<lambda>r. has_sub (rest_of_line r) t)"

fun gather_text :: "(js \<Rightarrow> string) \<Rightarrow> nat \<Rightarrow> string \<Rightarrow> js list \<Rightarrow> string" where
  "gather_text to_text i text [] = text"
| "gather_text to_text i text (v # vs) =
     (if length text < 4096
      then gather_text to_text (Suc i) (text @ (if i > 0 then [CHR 0x0A] else []) @ take 512 (to_text v)) vs
      else text)"

definition any_sub :: "string \<Rightarrow> string list \<Rightarrow> bool" where
  "any_sub s ps \<longleftrightarrow> list_ex (has_sub s) ps"

definition classify_legacy_failure :: "(js \<Rightarrow> string) \<Rightarrow> js \<Rightarrow> string option" where
  "classify_legacy_failure to_text lines =
     (case lines of
        JArr vs \<Rightarrow>
          let text = to_lower (take 4096 (gather_text to_text 0 [] (take 32 vs))) in
          if any_sub text [''authorization'', ''unauthorized'', ''forbidden''] \<or>
             list_ex (has_word text) [''http401'', ''http_401'', ''http 401'', ''http403'', ''http_403'', ''http 403''] \<or>
             has_word_then text ''401'' ''auth'' \<or> has_word_then text ''403'' ''auth''
          then Some ''authorization''
          else if any_sub text [''invalid payload'', ''integrity'', ''malformed'', ''corrupt''] then Some ''invalid_payload''
          else if any_sub text [''conflict''] then Some ''conflict''
          else if any_sub text [''timeout'', ''timed out'', ''etimedout''] then Some ''timeout''
          else if any_sub text [''unreachable'', ''econn'', ''network'', ''fetch'', ''offline''] then Some ''unreachable''
          else if any_sub text [''lock held''] then Some ''lock_held''
          else if any_sub text [''local precondition'', ''precondition failed'', ''machine id unavailable'',
                   ''no pinned publisher'', ''could not persist'', ''permission denied''] \<or> has_word text ''eacces''
          then Some ''local_precondition''
          else None
      | _ \<Rightarrow> None)"

section \<open>The operator message\<close>

definition category_presentation :: "string \<Rightarrow> string" where
  "category_presentation c =
     (if c = ''conflict'' then ''memory conflict; merge the conflicting pages, then run agentbootup memory publish''
      else if c = ''invalid_payload'' then ''invalid memory sync payload; inspect the replay queue and shared-store integrity''
      else if c = ''timeout'' then ''timeout; check shared-store availability and retry''
      else if c = ''unreachable'' then ''shared store unreachable; restore connectivity and retry''
      else if c = ''lock_held'' then ''another memory sync operator owns the convergence lock; retry shortly''
      else if c = ''local_precondition'' then ''local safety precondition failure; repair local memory sync state and retry''
      else if c = ''authorization'' then ''authorization failure; restore shared-store authorization and retry''
      else ''unknown failure; inspect sanitized daemon health and retry'')"

text \<open>\<^verbatim>\<open>s.replace(';', t + ';')\<close>: the first semicolon.\<close>

definition before_semicolon :: "string \<Rightarrow> string \<Rightarrow> string" where
  "before_semicolon s t =
     takeWhile (\<lambda>c. c \<noteq> CHR '';'') s @ (if CHR '';'' \<in> set s then t else []) @ dropWhile (\<lambda>c. c \<noteq> CHR '';'') s"

definition exit_text :: "js \<Rightarrow> string" where
  "exit_text v =
     (case v of JNum (Fin q) \<Rightarrow> '' (exit '' @ nat_to_string (nat \<lfloor>q\<rfloor>) @ '')'' | _ \<Rightarrow> [])"

definition conflict_pages :: "mem_conflict \<Rightarrow> string" where
  "conflict_pages c =
     join_with '', ''
       (map (\<lambda>(p, r). p @ '' ('' @ r @ '')'') (mc_items c) @
        (if mc_omitted c > 0 then [''+'' @ nat_to_string (mc_omitted c) @ '' more''] else []))"

definition format_convergence_failure :: "(string \<Rightarrow> string \<Rightarrow> int) \<Rightarrow> js \<Rightarrow> string" where
  "format_convergence_failure lc v =
     (let n = normalize_convergence_failure lc v (JStr ''cycle'') JNull in
      if cf_category n = ''lock_held'' \<and> cf_phase n = ''cycle'' then category_presentation ''lock_held''
      else if cf_category n = ''timeout'' \<and> cf_phase n = ''cycle''
        then ''converge safety phase timeout; publication gate remains closed''
      else if cf_phase n = ''queue_inspect'' \<and> cf_category n = ''invalid_payload''
        then ''replay queue cannot be inspected safely''
      else if cf_phase n = ''queue_inspect'' \<and> cf_category n = ''local_precondition''
        then ''local replay queue blocks raw memory publication''
      else if cf_phase n = ''queue_inspect'' \<and> cf_category n = ''timeout''
        then ''local replay queue inspection timed out; publication gate remains closed''
      else let detail = cf_phase n @ '' '' @ before_semicolon (category_presentation (cf_category n)) (exit_text (cf_exit n))
           in case cf_conflict n of
                None \<Rightarrow> detail
              | Some c \<Rightarrow>
                  if cf_category n = ''conflict'' \<and> conflict_pages c \<noteq> []
                  then detail @ ''; conflicts: '' @ conflict_pages c else detail)"

section \<open>Lemmas\<close>

definition failure_ok :: "(string \<Rightarrow> string \<Rightarrow> int) \<Rightarrow> conv_failure \<Rightarrow> bool" where
  "failure_ok lc r \<longleftrightarrow>
     cf_phase r \<in> set convergence_phases \<and> category_allowed (cf_phase r) (JStr (cf_category r)) \<and>
     exit_allowed (cf_phase r) (cf_exit r) \<and>
     (case cf_conflict r of
        None \<Rightarrow> True
      | Some c \<Rightarrow> cf_category r = ''conflict'' \<and>
                  snapshot_normalized_memory_conflict lc (closed_conflict_record c) = Some c)"

lemma failure_record_simps [simp]:
  "js_get (failure_record r) ''schema'' = JStr failure_schema"
  "js_get (failure_record r) ''phase'' = JStr (cf_phase r)"
  "js_get (failure_record r) ''category'' = JStr (cf_category r)"
  "js_get (failure_record r) ''exit_code'' = cf_exit r"
  "js_has_own (failure_record r) ''conflict'' = (cf_conflict r \<noteq> None)"
  "cf_conflict r = Some c \<Longrightarrow> js_get (failure_record r) ''conflict'' = closed_conflict_record c"
  by (cases "cf_conflict r"; simp add: failure_record_def)+

lemma failure_record_keys:
  "cf_conflict r = None \<Longrightarrow> exact_keys (failure_record r) [''schema'', ''phase'', ''category'', ''exit_code'']"
  "cf_conflict r = Some c \<Longrightarrow>
     exact_keys (failure_record r) [''schema'', ''phase'', ''category'', ''exit_code'', ''conflict'']"
  by (simp_all add: exact_keys_def failure_record_def)

lemma snapshot_of_ok:
  assumes "failure_ok lc r"
  shows "snapshot_convergence_failure lc (failure_record r) = Some r"
proof (cases "cf_conflict r")
  case None
  with assms failure_record_keys(1) [OF None] show ?thesis
    by (simp add: snapshot_convergence_failure_def failure_ok_def in_phases_def Let_def)
next
  case (Some c)
  note keys = failure_record_keys(2) [OF Some]
  have r: "r = \<lparr>cf_phase = cf_phase r, cf_category = ''conflict'', cf_exit = cf_exit r, cf_conflict = Some c\<rparr>"
    using assms Some by (simp add: failure_ok_def)
  show ?thesis
    using assms Some keys r
    by (auto simp: snapshot_convergence_failure_def failure_ok_def in_phases_def Let_def)
qed

lemma snapshot_ok:
  assumes "snapshot_convergence_failure lc v = Some r"
  shows "failure_ok lc r"
  using assms
  by (auto simp: snapshot_convergence_failure_def failure_ok_def in_phases_def Let_def conflict_wire.snap_render
      split: if_splits js.splits option.splits)

interpretation failure_wire: owned_snapshot "snapshot_convergence_failure lc" failure_record
  by unfold_locales (rule snapshot_of_ok [OF snapshot_ok])

lemma fallback_ok [simp]:
  "failure_ok lc \<lparr>cf_phase = ''cycle'', cf_category = ''unknown'', cf_exit = JNull, cf_conflict = None\<rparr>"
  by (simp add: failure_ok_def convergence_phases_def category_allowed_def failure_categories_def
      exit_allowed_def child_phases_def)

lemma cycle_phase [simp]: "''cycle'' \<in> set convergence_phases" "exit_allowed ''cycle'' JNull"
  by (simp_all add: convergence_phases_def exit_allowed_def child_phases_def)

lemma category_unknown [simp]: "category_allowed phase (JStr ''unknown'')"
  by (simp add: category_allowed_def failure_categories_def)

lemma normalize_exit_allowed:
  "phase \<notin> set child_phases \<or> exit_allowed phase v \<Longrightarrow> exit_allowed phase (normalize_exit phase v)"
  by (auto simp: exit_allowed_def normalize_exit_def)

lemma safe_category_allowed [simp]: "category_allowed p (JStr (safe_category lc p category conflict))"
  by (auto simp: safe_category_def split: js.split)

lemma conflict_argument_closed:
  "conflict_argument lc conflict = Some c \<Longrightarrow>
   snapshot_normalized_memory_conflict lc (closed_conflict_record c) = Some c"
  by (auto simp: conflict_argument_def conflict_wire.snap_render split: if_splits)

text \<open>The constructor's result with a known phase.\<close>

lemma create_known_phase:
  assumes "p \<in> set convergence_phases"
  shows "create_convergence_failure lc (JStr p) category exit_code conflict =
    (if p \<in> set child_phases \<and> \<not> js_int_between 1 255 exit_code
     then \<lparr>cf_phase = ''cycle'', cf_category = ''unknown'', cf_exit = JNull, cf_conflict = None\<rparr>
     else \<lparr>cf_phase = p, cf_category = safe_category lc p category conflict,
           cf_exit = normalize_exit p exit_code,
           cf_conflict = (if safe_category lc p category conflict = ''conflict''
                          then conflict_argument lc conflict else None)\<rparr>)"
  using assms
  by (auto simp: create_convergence_failure_def in_phases_def exit_allowed_def normalize_exit_def
      default_null_def Let_def)

lemma create_ok: "failure_ok lc (create_convergence_failure lc phase category exit_code conflict)"
proof (cases "in_phases phase")
  case True
  then obtain p where p: "phase = JStr p" "p \<in> set convergence_phases"
    by (auto simp: in_phases_def split: js.splits)
  have "exit_allowed p (normalize_exit p exit_code)"
    if "\<not> (p \<in> set child_phases \<and> \<not> js_int_between 1 255 exit_code)"
    using that by (auto simp: exit_allowed_def normalize_exit_def)
  then show ?thesis
    by (auto simp: p create_known_phase [OF p(2)] failure_ok_def conflict_argument_closed split: option.split)
next
  case False
  then show ?thesis by (simp add: create_convergence_failure_def)
qed

lemma normalize_ok: "failure_ok lc (normalize_convergence_failure lc v fallback_phase observed_exit)"
  by (auto simp: normalize_convergence_failure_def create_ok snapshot_ok split: option.split)

lemma evidence_ok: "failure_ok lc (failure_from_evidence lc phase exit_code hint legacy)"
  by (simp add: failure_from_evidence_def create_ok Let_def split: option.split)

section \<open>Properties\<close>

text \<open>C32. Whatever arguments, caught value or evidence a failure is built from, the record is in
  the closed schema: the strict validator of the daemon's health channel accepts it unchanged, so
  no failure is ever dropped for being malformed.\<close>

theorem failure_records_always_valid:
  "snapshot_convergence_failure lc (failure_record (create_convergence_failure lc phase category exit_code conflict))
     = Some (create_convergence_failure lc phase category exit_code conflict) \<and>
   snapshot_convergence_failure lc (failure_record (normalize_convergence_failure lc v fallback_phase observed_exit))
     = Some (normalize_convergence_failure lc v fallback_phase observed_exit) \<and>
   snapshot_convergence_failure lc (failure_record (failure_from_evidence lc phase exit_code hint legacy))
     = Some (failure_from_evidence lc phase exit_code hint legacy)"
  by (simp add: snapshot_of_ok create_ok normalize_ok evidence_ok)

text \<open>The category that the structured hint gives, when it is one the phase allows.\<close>

definition hinted_category :: "(string \<Rightarrow> string \<Rightarrow> int) \<Rightarrow> string \<Rightarrow> js \<Rightarrow> string option" where
  "hinted_category lc phase hint =
     (case normalize_failure_hint lc hint of
        None \<Rightarrow> None
      | Some h \<Rightarrow> if category_allowed phase (JStr (fh_category h)) then Some (fh_category h) else None)"

lemma closed_record_defined: "closed_conflict_record c \<noteq> JUndef"
  by (simp add: closed_conflict_record_def)

lemma hint_conflict:
  assumes "normalize_failure_hint lc hint = Some h" "fh_conflict h = Some c"
  shows "fh_category h = ''conflict''" and "conflict_argument lc (closed_conflict_record c) = Some c"
proof -
  obtain v where "fh_category h = ''conflict''" "snapshot_normalized_memory_conflict lc v = Some c"
    using assms by (auto simp: normalize_failure_hint_def Let_def split: if_splits js.splits)
  then show "fh_category h = ''conflict''" and "conflict_argument lc (closed_conflict_record c) = Some c"
    by (simp_all add: conflict_argument_def conflict_wire.snap_render closed_record_defined)
qed

lemma safe_category_plain: "safe_category lc p (JStr c) JUndef = (if category_allowed p (JStr c) then c else ''unknown'')"
  by (simp add: safe_category_def)

lemma safe_category_hint:
  assumes "normalize_failure_hint lc hint = Some h" "category_allowed p (JStr (fh_category h))"
  shows "safe_category lc p (JStr (fh_category h))
           (case fh_conflict h of None \<Rightarrow> JUndef | Some c \<Rightarrow> closed_conflict_record c) = fh_category h"
  using assms hint_conflict [OF assms(1)] by (auto simp: safe_category_def split: option.split)

text \<open>A known phase, with the exit code that a child command must have.\<close>

definition evidence_usable :: "string \<Rightarrow> js \<Rightarrow> bool" where
  "evidence_usable phase exit_code \<longleftrightarrow>
     phase \<in> set convergence_phases \<and> (phase \<in> set child_phases \<longrightarrow> js_int_between 1 255 exit_code)"

text \<open>The order in which the evidence counts: the hint, exit codes 3 and 5, the legacy text.\<close>

definition evidence_order :: "(string \<Rightarrow> string \<Rightarrow> int) \<Rightarrow> string \<Rightarrow> js \<Rightarrow> js \<Rightarrow> js \<Rightarrow> string" where
  "evidence_order lc phase exit_code hint legacy =
     (case (hinted_category lc phase hint, legacy) of
        (Some c, _) \<Rightarrow> c
      | (None, l) \<Rightarrow>
          if phase \<in> set child_phases \<and> exit_code = jint 3 then ''conflict''
          else if phase \<in> set child_phases \<and> exit_code = jint 5 then ''lock_held''
          else (case l of JStr c \<Rightarrow> if category_allowed phase l then c else ''unknown'' | _ \<Rightarrow> ''unknown''))"

text \<open>How a failure is labelled, for every phase and all evidence: an unknown phase, or a child
  command without a usable exit code, is unknown; otherwise the structured hint wins where the
  phase allows its category, then exit codes 3 (conflict) and 5 (lock held), then the legacy text.\<close>

theorem evidence_precedence:
  "cf_category (failure_from_evidence lc (JStr p) exit_code hint legacy) =
     (if evidence_usable p exit_code then evidence_order lc p exit_code hint legacy else ''unknown'')"
proof (cases "p \<in> set convergence_phases")
  case True
  show ?thesis
  proof (cases "p \<in> set child_phases \<and> \<not> js_int_between 1 255 exit_code")
    case bad: True
    then have "normalize_exit p exit_code = JNull" by (simp add: normalize_exit_def)
    with bad True show ?thesis
      by (simp add: failure_from_evidence_def in_phases_def create_known_phase evidence_usable_def Let_def split: option.split)
  next
    case False
    then have ex: "\<not> (p \<in> set child_phases \<and> \<not> js_int_between 1 255 (normalize_exit p exit_code))"
      "normalize_exit p exit_code = (if p \<in> set child_phases then exit_code else JNull)"
      by (auto simp: normalize_exit_def)
    have usable: "evidence_usable p exit_code" using False True by (simp add: evidence_usable_def)
    show ?thesis
    proof (cases "hinted_category lc p hint")
      case None
      then have "failure_from_evidence lc (JStr p) exit_code hint legacy =
        (let e = normalize_exit p exit_code; make = (\<lambda>c. create_convergence_failure lc (JStr p) c e JUndef) in
         if e = jint 3 then make (JStr ''conflict'') else if e = jint 5 then make (JStr ''lock_held'')
         else if category_allowed p legacy then make legacy else make (JStr ''unknown''))"
        using True by (auto simp: failure_from_evidence_def hinted_category_def in_phases_def Let_def
            split: option.splits if_splits)
      with None False True ex usable show ?thesis
        by (auto simp: evidence_order_def create_known_phase safe_category_plain Let_def category_allowed_def
            failure_categories_def split: js.split)
    next
      case (Some c)
      then obtain h where h: "normalize_failure_hint lc hint = Some h"
        "category_allowed p (JStr (fh_category h))" "c = fh_category h"
        by (auto simp: hinted_category_def split: option.splits if_splits)
      then show ?thesis
        using True False ex usable safe_category_hint [OF h(1,2)] Some
        by (auto simp: failure_from_evidence_def in_phases_def evidence_order_def create_known_phase Let_def)
    qed
  qed
next
  case False
  then show ?thesis by (simp add: failure_from_evidence_def in_phases_def create_convergence_failure_def evidence_usable_def)
qed

end
