(* ===== verification/GlobMatch.thy ===== *)
theory GlobMatch
  imports JsPrelude
begin

text \<open>
  The selector matcher of brain backups, \<^verbatim>\<open>globMatches\<close> of
  \<^verbatim>\<open>lib/memory/brain-backup-selection.js\<close>: a depth-first search over states (index in the
  selector, index in the candidate) with an explicit stack, a set of visited keys and a bound on
  the visited states.  The stack is a list with its top first.
\<close>

section \<open>The search\<close>

definition max_selector_length :: nat where
  "max_selector_length = 512"

definition max_selector_wildcards :: nat where
  "max_selector_wildcards = 64"

definition max_candidate_path_length :: nat where
  "max_candidate_path_length = 4096"

definition max_glob_states :: nat where
  "max_glob_states = (max_selector_length + 1) * (max_candidate_path_length + 1) + 1"

datatype glob_error = BadSelector | CandidateTooLong | TooManyStates

type_synonym glob_state = "nat \<times> nat"

text \<open>The states pushed from a state that is not at the end of the selector, in push order.\<close>

definition glob_pushes :: "string \<Rightarrow> string \<Rightarrow> glob_state \<Rightarrow> glob_state list" where
  "glob_pushes glob cand st =
     (let (gi, ci) = st; rest = drop gi glob; more = ci < length cand in
      if starts_with rest ''**/'' then (gi + 3, ci) # (if more then [(gi, ci + 1)] else [])
      else if starts_with rest ''**'' then (gi + 2, ci) # (if more then [(gi, ci + 1)] else [])
      else if glob ! gi = CHR ''*'' then
        (gi + 1, ci) # (if more \<and> cand ! ci \<noteq> CHR ''/'' then [(gi, ci + 1)] else [])
      else if glob ! gi = CHR ''?'' then
        (if more \<and> cand ! ci \<noteq> CHR ''/'' then [(gi + 1, ci + 1)] else [])
      else if more \<and> cand ! ci = glob ! gi then [(gi + 1, ci + 1)] else [])"

function glob_search ::
    "string \<Rightarrow> string \<Rightarrow> glob_state list \<Rightarrow> nat set \<Rightarrow> nat \<Rightarrow> glob_error + bool" where
  "glob_search glob cand [] seen visited = Inr False"
| "glob_search glob cand ((gi, ci) # pending) seen visited =
     (let key = gi * (length cand + 1) + ci in
      if key \<in> seen then glob_search glob cand pending seen visited
      else if visited + 1 \<ge> max_glob_states then Inl TooManyStates
      else if gi = length glob then
        (if ci = length cand then Inr True
         else glob_search glob cand pending (insert key seen) (visited + 1))
      else glob_search glob cand (rev (glob_pushes glob cand (gi, ci)) @ pending)
             (insert key seen) (visited + 1))"
  by pat_completeness auto

termination
  by (relation "measures [\<lambda>(g, c, p, s, v). max_glob_states - v, \<lambda>(g, c, p, s, v). length p]") auto

definition glob_matches :: "string \<Rightarrow> string \<Rightarrow> glob_error + bool" where
  "glob_matches glob cand =
     (if glob = [] \<or> length glob > max_selector_length then Inl BadSelector
      else if length cand > max_candidate_path_length then Inl CandidateTooLong
      else glob_search glob cand [(0, 0)] {} 0)"

section \<open>The language of a selector\<close>

text \<open>What the matcher computes, stated without search: a selector is a list of tokens, each of
  which stands for a set of strings.\<close>

datatype glob_token = AnyDir | AnyText | AnyName | OneChar | Exactly char

function glob_tokens :: "string \<Rightarrow> glob_token list" where
  "glob_tokens [] = []"
| "glob_tokens (x # xs) =
     (if starts_with (x # xs) ''**/'' then AnyDir # glob_tokens (drop 2 xs)
      else if starts_with (x # xs) ''**'' then AnyText # glob_tokens (drop 1 xs)
      else if x = CHR ''*'' then AnyName # glob_tokens xs
      else if x = CHR ''?'' then OneChar # glob_tokens xs
      else Exactly x # glob_tokens xs)"
  by pat_completeness auto

termination
  by (relation "measure length") auto

fun token_covers :: "glob_token \<Rightarrow> string \<Rightarrow> bool" where
  "token_covers AnyDir u = True"
| "token_covers AnyText u = True"
| "token_covers AnyName u = (CHR ''/'' \<notin> set u)"
| "token_covers OneChar u = (length u = 1 \<and> u \<noteq> ''/'')"
| "token_covers (Exactly c) u = (u = [c])"

fun glob_denotes :: "glob_token list \<Rightarrow> string \<Rightarrow> bool" where
  "glob_denotes [] s = (s = [])"
| "glob_denotes (t # ts) s =
     (\<exists>i \<in> set [0..<Suc (length s)]. token_covers t (take i s) \<and> glob_denotes ts (drop i s))"

lemma denotes_Cons: "glob_denotes (t # ts) s \<longleftrightarrow> (\<exists>u v. s = u @ v \<and> token_covers t u \<and> glob_denotes ts v)"
proof
  assume "glob_denotes (t # ts) s"
  then show "\<exists>u v. s = u @ v \<and> token_covers t u \<and> glob_denotes ts v"
    by (auto simp del: upt_Suc) (metis append_take_drop_id)
next
  assume "\<exists>u v. s = u @ v \<and> token_covers t u \<and> glob_denotes ts v"
  then obtain u v where "s = u @ v" "token_covers t u" "glob_denotes ts v" by blast
  then show "glob_denotes (t # ts) s"
    by (auto simp del: upt_Suc intro!: bexI [of _ "length u"])
qed

text \<open>The tokens that may absorb one more character.\<close>

fun token_absorbs :: "glob_token \<Rightarrow> char \<Rightarrow> bool" where
  "token_absorbs AnyDir c = True"
| "token_absorbs AnyText c = True"
| "token_absorbs AnyName c = (c \<noteq> CHR ''/'')"
| "token_absorbs _ c = False"

lemma denotes_loop:
  assumes "t \<in> {AnyDir, AnyText, AnyName}"
  shows "glob_denotes (t # ts) s \<longleftrightarrow>
    glob_denotes ts s \<or> (\<exists>x s'. s = x # s' \<and> token_absorbs t x \<and> glob_denotes (t # ts) s')"
    (is "?l \<longleftrightarrow> ?r")
proof
  assume ?l
  then obtain u v where s: "s = u @ v" "token_covers t u" "glob_denotes ts v" unfolding denotes_Cons by blast
  show ?r
  proof (cases u)
    case Nil
    with s show ?thesis by simp
  next
    case (Cons x u')
    with s assms have "token_absorbs t x" "token_covers t u'" "s = x # (u' @ v)" by auto
    with s(3) show ?thesis unfolding denotes_Cons by blast
  qed
next
  assume ?r
  then consider "glob_denotes ts s"
    | x u v where "s = x # u @ v" "token_absorbs t x" "token_covers t u" "glob_denotes ts v"
    unfolding denotes_Cons by blast
  then show ?l
  proof cases
    case 1
    have "token_covers t []" using assms by auto
    with 1 show ?thesis unfolding denotes_Cons by (metis append_Nil)
  next
    case 2
    then have "token_covers t (x # u)" using assms by auto
    with 2 show ?thesis unfolding denotes_Cons by (metis append_Cons)
  qed
qed

lemma denotes_loop_simps:
  "glob_denotes (AnyDir # ts) [] = glob_denotes ts []"
  "glob_denotes (AnyText # ts) [] = glob_denotes ts []"
  "glob_denotes (AnyName # ts) [] = glob_denotes ts []"
  "glob_denotes (AnyDir # ts) (x # s) = (glob_denotes ts (x # s) \<or> glob_denotes (AnyDir # ts) s)"
  "glob_denotes (AnyText # ts) (x # s) = (glob_denotes ts (x # s) \<or> glob_denotes (AnyText # ts) s)"
  "glob_denotes (AnyName # ts) (x # s) =
     (glob_denotes ts (x # s) \<or> (x \<noteq> CHR ''/'' \<and> glob_denotes (AnyName # ts) s))"
proof -
  note [simp del] = glob_denotes.simps(2)
  have nil: "glob_denotes (t # ts) [] = glob_denotes ts []" if "t \<in> {AnyDir, AnyText, AnyName}" for t
    using denotes_loop [OF that, of ts "[]"] by simp
  have cons: "glob_denotes (t # ts) (x # s) =
      (glob_denotes ts (x # s) \<or> (token_absorbs t x \<and> glob_denotes (t # ts) s))"
    if "t \<in> {AnyDir, AnyText, AnyName}" for t
    using denotes_loop [OF that, of ts "x # s"] by blast
  show "glob_denotes (AnyDir # ts) [] = glob_denotes ts []"
    "glob_denotes (AnyText # ts) [] = glob_denotes ts []"
    "glob_denotes (AnyName # ts) [] = glob_denotes ts []" by (simp_all add: nil)
  show "glob_denotes (AnyDir # ts) (x # s) = (glob_denotes ts (x # s) \<or> glob_denotes (AnyDir # ts) s)"
    using cons [of AnyDir] by simp
  show "glob_denotes (AnyText # ts) (x # s) = (glob_denotes ts (x # s) \<or> glob_denotes (AnyText # ts) s)"
    using cons [of AnyText] by simp
  show "glob_denotes (AnyName # ts) (x # s) =
     (glob_denotes ts (x # s) \<or> (x \<noteq> CHR ''/'' \<and> glob_denotes (AnyName # ts) s))"
    using cons [of AnyName] by simp
qed

lemma denotes_OneChar: "glob_denotes (OneChar # ts) s \<longleftrightarrow> (\<exists>x s'. s = x # s' \<and> x \<noteq> CHR ''/'' \<and> glob_denotes ts s')"
proof
  assume "glob_denotes (OneChar # ts) s"
  then obtain u v where "s = u @ v" "length u = 1" "u \<noteq> ''/''" "glob_denotes ts v"
    unfolding denotes_Cons by auto
  then show "\<exists>x s'. s = x # s' \<and> x \<noteq> CHR ''/'' \<and> glob_denotes ts s'"
    by (cases u) auto
next
  assume "\<exists>x s'. s = x # s' \<and> x \<noteq> CHR ''/'' \<and> glob_denotes ts s'"
  then obtain x s' where "s = [x] @ s'" "token_covers OneChar [x]" "glob_denotes ts s'" by auto
  then show "glob_denotes (OneChar # ts) s" unfolding denotes_Cons by blast
qed

lemma denotes_Exactly: "glob_denotes (Exactly c # ts) s \<longleftrightarrow> (\<exists>s'. s = c # s' \<and> glob_denotes ts s')"
  unfolding denotes_Cons by auto

section \<open>Reachability of acceptance\<close>

definition glob_final :: "string \<Rightarrow> string \<Rightarrow> glob_state \<Rightarrow> bool" where
  "glob_final glob cand st \<longleftrightarrow> fst st = length glob \<and> snd st = length cand"

definition glob_next :: "string \<Rightarrow> string \<Rightarrow> glob_state \<Rightarrow> glob_state set" where
  "glob_next glob cand st = (if fst st = length glob then {} else set (glob_pushes glob cand st))"

inductive glob_accepts :: "string \<Rightarrow> string \<Rightarrow> glob_state \<Rightarrow> bool" for glob cand where
  accept_here: "glob_final glob cand st \<Longrightarrow> glob_accepts glob cand st"
| accept_step: "t \<in> glob_next glob cand st \<Longrightarrow> glob_accepts glob cand t \<Longrightarrow> glob_accepts glob cand st"

inductive_simps glob_accepts_unfold: "glob_accepts glob cand st"

definition glob_valid :: "string \<Rightarrow> string \<Rightarrow> glob_state \<Rightarrow> bool" where
  "glob_valid glob cand st \<longleftrightarrow> fst st \<le> length glob \<and> snd st \<le> length cand"

lemma starts_with_length: "starts_with s p \<Longrightarrow> length p \<le> length s"
  by (auto simp: starts_with_iff)

lemma glob_next_valid:
  assumes "glob_valid glob cand st" "t \<in> glob_next glob cand st"
  shows "glob_valid glob cand t"
proof -
  obtain gi ci where st: "st = (gi, ci)" by (cases st)
  have "starts_with (drop gi glob) ''**/'' \<Longrightarrow> gi + 3 \<le> length glob"
    "starts_with (drop gi glob) ''**'' \<Longrightarrow> gi + 2 \<le> length glob"
    by (auto dest: starts_with_length)
  with assms show ?thesis
    by (auto simp: st glob_valid_def glob_next_def glob_pushes_def Let_def split: if_splits)
qed

text \<open>Acceptance from a state is membership of the rest of the candidate in the language of the
  rest of the selector: both sides unfold in the same way.\<close>

lemma glob_accepts_denotes:
  "glob_valid glob cand (gi, ci) \<Longrightarrow>
   glob_accepts glob cand (gi, ci) = glob_denotes (glob_tokens (drop gi glob)) (drop ci cand)"
proof (induction "(length glob - gi) + (length cand - ci)" arbitrary: gi ci rule: less_induct)
  case less
  show ?case
  proof (cases "gi = length glob")
    case True
    with less.prems show ?thesis
      by (subst glob_accepts_unfold) (auto simp: glob_final_def glob_next_def glob_valid_def)
  next
    case False
    then have gi: "gi < length glob" using less.prems by (simp add: glob_valid_def)
    then have dg: "drop gi glob = glob ! gi # drop (gi + 1) glob" by (simp add: Cons_nth_drop_Suc)
    have ih: "t \<in> glob_next glob cand (gi, ci) \<Longrightarrow>
        glob_accepts glob cand t = glob_denotes (glob_tokens (drop (fst t) glob)) (drop (snd t) cand)" for t
    proof -
      assume t: "t \<in> glob_next glob cand (gi, ci)"
      then have "glob_valid glob cand t" using less.prems glob_next_valid by blast
      moreover from this t gi have "(length glob - fst t) + (length cand - snd t) < (length glob - gi) + (length cand - ci)"
        by (auto simp: glob_valid_def glob_next_def glob_pushes_def Let_def split: if_splits)
      ultimately show ?thesis using less.hyps [of "fst t" "snd t"] by simp
    qed
    have acc: "glob_accepts glob cand (gi, ci) \<longleftrightarrow>
        (\<exists>t \<in> glob_next glob cand (gi, ci). glob_denotes (glob_tokens (drop (fst t) glob)) (drop (snd t) cand))"
      using False ih by (subst glob_accepts_unfold) (auto simp: glob_final_def)
    have dc: "ci < length cand \<Longrightarrow> drop ci cand = cand ! ci # drop (Suc ci) cand"
      by (simp add: Cons_nth_drop_Suc)
    have nc: "\<not> ci < length cand \<Longrightarrow> drop ci cand = []" by simp
    have tok: "glob_tokens (drop gi glob) =
       (if starts_with (drop gi glob) ''**/'' then AnyDir # glob_tokens (drop (gi + 3) glob)
        else if starts_with (drop gi glob) ''**'' then AnyText # glob_tokens (drop (gi + 2) glob)
        else if glob ! gi = CHR ''*'' then AnyName # glob_tokens (drop (gi + 1) glob)
        else if glob ! gi = CHR ''?'' then OneChar # glob_tokens (drop (gi + 1) glob)
        else Exactly (glob ! gi) # glob_tokens (drop (gi + 1) glob))"
      unfolding dg glob_tokens.simps by (simp add: add.commute numeral_3_eq_3 numeral_2_eq_2)
    note den = denotes_loop_simps denotes_OneChar denotes_Exactly
    note [simp del] = glob_denotes.simps(2)
    consider (anydir) "starts_with (drop gi glob) ''**/''"
      | (deep) "\<not> starts_with (drop gi glob) ''**/''" "starts_with (drop gi glob) ''**''"
      | (seg) "\<not> starts_with (drop gi glob) ''**/''" "\<not> starts_with (drop gi glob) ''**''" "glob ! gi = CHR ''*''"
      | (single) "\<not> starts_with (drop gi glob) ''**/''" "\<not> starts_with (drop gi glob) ''**''" "glob ! gi = CHR ''?''"
      | (exact) "\<not> starts_with (drop gi glob) ''**/''" "\<not> starts_with (drop gi glob) ''**''"
          "glob ! gi \<noteq> CHR ''*''" "glob ! gi \<noteq> CHR ''?''"
      by blast
    then show ?thesis
      using False dc nc unfolding acc
      by cases (cases "ci < length cand"; simp add: tok den glob_next_def glob_pushes_def)+
  qed
qed

section \<open>The search decides acceptance\<close>

definition glob_key :: "string \<Rightarrow> glob_state \<Rightarrow> nat" where
  "glob_key cand st = fst st * (length cand + 1) + snd st"

lemma glob_key_inject:
  assumes "glob_valid glob cand a" "glob_valid glob cand b" "glob_key cand a = glob_key cand b"
  shows "a = b"
proof -
  define w where "w = length cand + 1"
  have lt: "snd a < w" "snd b < w" using assms by (auto simp: glob_valid_def w_def)
  have eq: "fst a * w + snd a = fst b * w + snd b" using assms(3) by (simp only: glob_key_def w_def)
  have "(fst a * w + snd a) div w = fst a" "(fst b * w + snd b) div w = fst b"
    using lt by (simp_all add: add.commute)
  with eq have "fst a = fst b" by metis
  with eq show ?thesis by (simp add: prod_eq_iff)
qed

text \<open>What holds of the states already visited: they are counted once each, none is final, and
  their successors are visited or pending.\<close>

definition search_inv ::
    "string \<Rightarrow> string \<Rightarrow> glob_state list \<Rightarrow> glob_state set \<Rightarrow> nat set \<Rightarrow> nat \<Rightarrow> bool" where
  "search_inv glob cand pending vs seen visited \<longleftrightarrow>
     seen = glob_key cand ` vs \<and> finite vs \<and> visited = card vs \<and>
     (\<forall>st \<in> vs \<union> set pending. glob_valid glob cand st) \<and>
     (\<forall>st \<in> vs. \<not> glob_final glob cand st \<and> glob_next glob cand st \<subseteq> vs \<union> set pending)"

lemma done_accepts_pending:
  assumes "glob_accepts glob cand st" and "search_inv glob cand pending vs seen visited" and "st \<in> vs"
  shows "\<exists>p \<in> set pending. glob_accepts glob cand p"
  using assms(1,3)
proof (induction rule: glob_accepts.induct)
  case (accept_step t st)
  then have "t \<in> vs \<union> set pending" using assms(2) by (auto simp: search_inv_def)
  with accept_step show ?case by blast
qed (use assms(2) in \<open>auto simp: search_inv_def\<close>)

lemma visited_bound:
  assumes "search_inv glob cand pending vs seen visited" and "glob_valid glob cand st" "st \<notin> vs"
  shows "visited + 1 \<le> (length glob + 1) * (length cand + 1)"
proof -
  have sub: "insert st vs \<subseteq> {0..length glob} \<times> {0..length cand}"
  proof
    fix x assume "x \<in> insert st vs"
    then have "glob_valid glob cand x" using assms unfolding search_inv_def by blast
    then show "x \<in> {0..length glob} \<times> {0..length cand}" by (simp add: glob_valid_def mem_Times_iff)
  qed
  have "card (insert st vs) \<le> card ({0..length glob} \<times> {0..length cand})"
    using sub by (intro card_mono) auto
  moreover have "card (insert st vs) = visited + 1" using assms by (simp add: search_inv_def)
  ultimately show ?thesis by (simp add: card_cartesian_product)
qed

lemma search_inv_seen:
  assumes "search_inv glob cand (st # pending) vs seen visited"
  shows "glob_key cand st \<in> seen \<longleftrightarrow> st \<in> vs"
proof
  assume "glob_key cand st \<in> seen"
  then obtain x where "x \<in> vs" "glob_key cand x = glob_key cand st"
    using assms by (auto simp: search_inv_def)
  moreover from this have "glob_valid glob cand x" "glob_valid glob cand st"
    using assms by (auto simp: search_inv_def)
  ultimately show "st \<in> vs" using glob_key_inject by blast
qed (use assms in \<open>auto simp: search_inv_def\<close>)

lemma search_inv_skip:
  "search_inv glob cand (st # pending) vs seen visited \<Longrightarrow> st \<in> vs \<Longrightarrow>
   search_inv glob cand pending vs seen visited"
  unfolding search_inv_def by auto

lemma search_inv_expand:
  assumes "search_inv glob cand (st # pending) vs seen visited" "st \<notin> vs" "\<not> glob_final glob cand st"
    and "set new = glob_next glob cand st"
  shows "search_inv glob cand (new @ pending) (insert st vs) (insert (glob_key cand st) seen) (visited + 1)"
proof -
  have "\<forall>x \<in> set new. glob_valid glob cand x"
    using assms(1) glob_next_valid unfolding assms(4) search_inv_def by (metis UnI2 list.set_intros(1))
  then show ?thesis using assms unfolding search_inv_def by auto
qed

lemma glob_search_correct:
  assumes "search_inv glob cand pending vs seen visited"
    and "(length glob + 1) * (length cand + 1) < max_glob_states"
  shows "glob_search glob cand pending seen visited = Inr (\<exists>p \<in> set pending. glob_accepts glob cand p)"
  using assms
proof (induction glob cand pending seen visited arbitrary: vs rule: glob_search.induct)
  case (2 glob cand gi ci pending seen visited)
  let ?st = "(gi, ci)" and ?key = "gi * (length cand + 1) + ci"
  note inv = 2(4) and small = 2(5)
  have valid: "glob_valid glob cand ?st" using inv by (auto simp: search_inv_def)
  have key: "?key = glob_key cand ?st" by (simp add: glob_key_def)
  show ?case
  proof (cases "?st \<in> vs")
    case True
    have seen: "?key \<in> seen" using search_inv_seen [OF inv] True by (simp only: key)
    note inv' = search_inv_skip [OF inv True]
    have "glob_search glob cand pending seen visited = Inr (\<exists>p \<in> set pending. glob_accepts glob cand p)"
      using 2(1) [OF refl seen inv' small] .
    then show ?thesis using seen done_accepts_pending [OF _ inv' True] by auto
  next
    case False
    have key': "?key \<notin> seen" using search_inv_seen [OF inv] False unfolding key by blast
    have bound: "\<not> max_glob_states \<le> visited + 1"
      using visited_bound [OF inv valid False] small by linarith
    show ?thesis
    proof (cases "gi = length glob")
      case end_glob: True
      show ?thesis
      proof (cases "ci = length cand")
        case True
        with end_glob have "glob_accepts glob cand ?st"
          by (intro accept_here) (simp add: glob_final_def)
        with True end_glob key' bound show ?thesis by simp
      next
        case no: False
        then have nf: "\<not> glob_final glob cand ?st" by (simp add: glob_final_def)
        have none: "glob_next glob cand ?st = {}" by (simp add: glob_next_def end_glob)
        have "search_inv glob cand pending (insert ?st vs) (insert ?key seen) (visited + 1)"
          using search_inv_expand [OF inv False nf, of "[]"] none by (simp only: key list.set append_Nil)
        note 2(2) [OF refl key' bound end_glob no this small]
        moreover have "\<not> glob_accepts glob cand ?st"
          using nf none by (subst glob_accepts_unfold) simp
        ultimately show ?thesis using key' bound end_glob no by simp
      qed
    next
      case mid: False
      then have nf: "\<not> glob_final glob cand ?st" by (simp add: glob_final_def)
      have new: "set (rev (glob_pushes glob cand ?st)) = glob_next glob cand ?st"
        using mid by (simp add: glob_next_def)
      have "search_inv glob cand (rev (glob_pushes glob cand ?st) @ pending) (insert ?st vs) (insert ?key seen) (visited + 1)"
        using search_inv_expand [OF inv False nf new] by (simp only: key)
      note 2(3) [OF refl key' bound mid this small]
      moreover have "glob_accepts glob cand ?st \<longleftrightarrow> (\<exists>t \<in> glob_next glob cand ?st. glob_accepts glob cand t)"
        using nf by (subst glob_accepts_unfold) auto
      ultimately show ?thesis using key' bound mid new by auto
    qed
  qed
qed simp

lemma glob_matches_eq:
  "glob_matches glob cand =
     (if glob = [] \<or> length glob > 512 then Inl BadSelector
      else if length cand > 4096 then Inl CandidateTooLong
      else Inr (glob_denotes (glob_tokens glob) cand))"
proof -
  have "glob_search glob cand [(0, 0)] {} 0 = Inr (glob_denotes (glob_tokens glob) cand)"
    if "length glob \<le> 512" "length cand \<le> 4096"
  proof -
    have "(length glob + 1) * (length cand + 1) \<le> (512 + 1) * (4096 + 1)"
      using that by (intro mult_le_mono) auto
    then have small: "(length glob + 1) * (length cand + 1) < max_glob_states"
      by (simp add: max_glob_states_def max_selector_length_def max_candidate_path_length_def)
    have "search_inv glob cand [(0, 0)] {} {} 0"
      by (simp add: search_inv_def glob_valid_def)
    from glob_search_correct [OF this small]
    have "glob_search glob cand [(0, 0)] {} 0 = Inr (glob_accepts glob cand (0, 0))"
      by (simp del: glob_search.simps)
    then show ?thesis
      using glob_accepts_denotes [of glob cand 0 0] by (simp add: glob_valid_def del: glob_search.simps)
  qed
  then show ?thesis
    by (simp add: glob_matches_def max_selector_length_def max_candidate_path_length_def
        del: glob_search.simps)
qed

text \<open>C5. The selector matcher is total and exact: for every selector and candidate that pass its
  length guards the search ends within its bound on states, which is never hit, and answers
  whether the candidate is in the language of the selector.\<close>

theorem glob_matches_exact:
  "glob_matches glob cand =
     (if glob = [] \<or> length glob > 512 then Inl BadSelector
      else if length cand > 4096 then Inl CandidateTooLong
      else Inr (glob_denotes (glob_tokens glob) cand))"
  by (rule glob_matches_eq)

lemma directory_tokens:
  "glob_tokens ''memory/**/MEMORY.md'' =
     map Exactly ''memory/'' @ AnyDir # map Exactly ''MEMORY.md''"
  by (simp add: starts_with_def)

lemma denotes_literal: "glob_denotes (map Exactly u @ ts) s \<longleftrightarrow> (\<exists>v. s = u @ v \<and> glob_denotes ts v)"
  by (induction u arbitrary: s) (auto simp: denotes_Exactly simp del: glob_denotes.simps(2))

text \<open>A double star does not stop at directory boundaries: \<^verbatim>\<open>**/\<close> stands for any text, so
  the selector that the tests and the documentation read as "MEMORY.md in any directory" also
  selects every path that ends in \<^verbatim>\<open>MEMORY.md\<close>, whatever the file's name.\<close>

theorem directory_glob_selects_any_suffix:
  "glob_matches ''memory/**/MEMORY.md'' ''memory/drafts/not-for-backup-MEMORY.md'' = Inr True \<and>
   glob_denotes (glob_tokens ''memory/**/MEMORY.md'') (''memory/'' @ u @ ''MEMORY.md'')"
proof -
  have den: "glob_denotes (glob_tokens ''memory/**/MEMORY.md'') (''memory/'' @ u @ ''MEMORY.md'')" for u
  proof -
    have "glob_denotes (AnyDir # map Exactly ''MEMORY.md'') (u @ ''MEMORY.md'')"
      unfolding denotes_Cons
      using denotes_literal [of "''MEMORY.md''" "[]" "''MEMORY.md''"]
      by (intro exI [of _ u] exI [of _ "''MEMORY.md''"]) (simp del: glob_denotes.simps(2))
    then show ?thesis unfolding directory_tokens denotes_literal by blast
  qed
  have "glob_matches ''memory/**/MEMORY.md'' (''memory/'' @ ''drafts/not-for-backup-'' @ ''MEMORY.md'') = Inr True"
    using den [of "''drafts/not-for-backup-''"] unfolding glob_matches_eq
    by (simp del: glob_tokens.simps glob_denotes.simps)
  then show ?thesis using den [of u] by simp
qed

end
