(* ===== verification/BackupSelection.thy ===== *)
theory BackupSelection
  imports GlobMatch PosixPath
begin

text \<open>
  The operator-owned selection of memory files, \<^verbatim>\<open>lib/memory/brain-backup-selection.js\<close> and
  \<^verbatim>\<open>lib/config/brain-id.js\<close>: validation of the manifest and of the ignore rules,
  classification of a path, the resolved selection and the assertions that guard publication.
  The secret guard is the function \<open>po_secret\<close> of the policy; the bytes of a selected file are
  given by the parameter \<open>read_file\<close>; the inventory is a list of repository paths.
\<close>

section \<open>Errors\<close>

datatype selection_error =
    EmptySelector
  | SelectorTooLong
  | TooManyWildcards
  | BadSelectorPath string
  | NotContainedSelector string
  | GlobFailure glob_error
  | ManifestNotObject
  | UnsupportedField string
  | BadManifestSchema
  | BrainIdMissing
  | BrainIdNotNormalized
  | BrainIdInvalid
  | BrainIdMismatch
  | IncludeNotArray
  | EntryNotObject
  | DuplicateSelector string
  | BadClass
  | IgnoreNegation nat
  | BadMemoryPath
  | FileUnreadable string
  | NoResolvedSelection
  | ManifestRequired
  | EmptyIncludePolicy
  | SecretBlockedPaths "string list"
  | EmptySelectionError
  | NotReady
  | HistoricalNotSelected "string list"

section \<open>Brain identifiers\<close>

definition brain_id_char :: "char \<Rightarrow> bool" where
  "brain_id_char c \<longleftrightarrow> is_alnum_char c \<or> c = CHR ''_'' \<or> c = CHR ''-''"

definition brain_id_segment :: "string \<Rightarrow> bool" where
  "brain_id_segment s \<longleftrightarrow>
     s \<noteq> [] \<and> list_all brain_id_char s \<and> hd s \<noteq> CHR ''-'' \<and> last s \<noteq> CHR ''-''"

definition is_valid_brain_id :: "js \<Rightarrow> bool" where
  "is_valid_brain_id v =
     (case v of
        JStr s \<Rightarrow> s \<noteq> [] \<and> length s \<le> 128 \<and> list_all brain_id_segment (split_on (CHR ''.'') s)
      | _ \<Rightarrow> False)"

section \<open>Selectors, manifest, ignore rules\<close>

definition drive_letter_prefix :: "string \<Rightarrow> bool" where
  "drive_letter_prefix s = (case s of c # d # _ \<Rightarrow> is_ascii_alpha c \<and> d = CHR '':'' | _ \<Rightarrow> False)"

definition is_wildcard :: "char \<Rightarrow> bool" where
  "is_wildcard c \<longleftrightarrow> c = CHR ''*'' \<or> c = CHR ''?''"

definition odd_segment :: "string \<Rightarrow> bool" where
  "odd_segment s \<longleftrightarrow> s = [] \<or> s = ''.'' \<or> s = ''..''"

definition assert_policy_glob :: "js \<Rightarrow> selection_error + string" where
  "assert_policy_glob v =
     (case v of
        JStr value \<Rightarrow>
          throw_if (value = []) EmptySelector (
          throw_if (length value > max_selector_length) SelectorTooLong (
          throw_if (length (filter is_wildcard value) > max_selector_wildcards) TooManyWildcards (
          throw_if (starts_with value ''!'' \<or> nul \<in> set value \<or> CHR 0x5C \<in> set value \<or>
                    starts_with value ''/'' \<or> drive_letter_prefix value) (BadSelectorPath value) (
          throw_if (list_ex odd_segment (segments value) \<or> hd (segments value) \<noteq> ''memory'' \<or>
                    length (segments value) < 2) (NotContainedSelector value) (Inr value)))))
      | _ \<Rightarrow> Inl EmptySelector)"

definition assert_known_fields :: "js \<Rightarrow> string list \<Rightarrow> selection_error + unit" where
  "assert_known_fields v allowed =
     (case filter (\<lambda>k. k \<notin> set allowed) (js_keys v) of [] \<Rightarrow> Inr () | k # _ \<Rightarrow> Inl (UnsupportedField k))"

record include_entry =
  ie_path :: string
  ie_class :: string

record policy_manifest =
  pm_brain_id :: string
  pm_include :: "include_entry list"

definition valid_classes :: "string list" where
  "valid_classes = [''canonical'', ''attachment'', ''configuration'', ''private'']"

text \<open>One entry of \<^verbatim>\<open>include\<close>; the state is the selectors seen with the entries made.\<close>

definition include_step ::
    "string list \<times> include_entry list \<Rightarrow> js \<Rightarrow> selection_error + (string list \<times> include_entry list)" where
  "include_step st entry =
     throw_if (\<not> js_is_record entry) EntryNotObject (
     bind_r (assert_known_fields entry [''path'', ''class'']) (\<lambda>_.
     bind_r (assert_policy_glob (js_get entry ''path'')) (\<lambda>selector.
     throw_if (selector \<in> set (fst st)) (DuplicateSelector selector) (
     case js_get entry ''class'' of
       JStr c \<Rightarrow> throw_if (c \<notin> set valid_classes) BadClass
                  (Inr (selector # fst st, snd st @ [\<lparr>ie_path = selector, ie_class = c\<rparr>]))
     | _ \<Rightarrow> Inl BadClass))))"

text \<open>\<^verbatim>\<open>readManifest\<close> from the parsed JSON on; \<open>project\<close> is the agent id of the project.\<close>

definition validate_manifest :: "string option \<Rightarrow> js \<Rightarrow> selection_error + policy_manifest" where
  "validate_manifest project manifest =
     throw_if (\<not> js_is_record manifest) ManifestNotObject (
     bind_r (assert_known_fields manifest [''schema'', ''brain_id'', ''include'']) (\<lambda>_.
     throw_if (js_get manifest ''schema'' \<noteq> JStr ''brain-backup/1'') BadManifestSchema (
     case js_get manifest ''brain_id'' of
       JStr b \<Rightarrow>
         throw_if (js_trim b = []) BrainIdMissing (
         throw_if (b \<noteq> js_trim b) BrainIdNotNormalized (
         throw_if (\<not> is_valid_brain_id (JStr b)) BrainIdInvalid (
         throw_if (case project of None \<Rightarrow> False | Some p \<Rightarrow> p \<noteq> [] \<and> b \<noteq> p) BrainIdMismatch (
         throw_if (\<not> js_is_arr (js_get manifest ''include'')) IncludeNotArray (
         bind_r (fold_r include_step ([], []) (js_elems (js_get manifest ''include''))) (\<lambda>st.
         Inr \<lparr>pm_brain_id = b, pm_include = snd st\<rparr>))))))
     | _ \<Rightarrow> Inl BrainIdMissing)))"

definition strip_cr :: "string \<Rightarrow> string" where
  "strip_cr s = (if s \<noteq> [] \<and> last s = CHR 0x0D then butlast s else s)"

text \<open>\<^verbatim>\<open>split(/\r?\n/)\<close>.\<close>

definition split_lines :: "string \<Rightarrow> string list" where
  "split_lines s =
     (let ps = split_on (CHR 0x0A) s in map strip_cr (butlast ps) @ [last ps])"

definition ignore_step :: "string list \<Rightarrow> nat \<times> string \<Rightarrow> selection_error + string list" where
  "ignore_step rules numbered =
     (let (index, raw) = numbered; line = js_trim raw in
      if line = [] \<or> starts_with line ''#'' then Inr rules
      else throw_if (starts_with line ''!'') (IgnoreNegation (index + 1))
             (bind_r (assert_policy_glob (JStr line)) (\<lambda>glob. Inr (rules @ [glob]))))"

definition parse_ignore_rules :: "string option \<Rightarrow> selection_error + string list" where
  "parse_ignore_rules contents =
     (case contents of
        None \<Rightarrow> Inr []
      | Some s \<Rightarrow> let ls = split_lines s in fold_r ignore_step [] (zip [0..<length ls] ls))"

section \<open>Classification\<close>

datatype path_status = SELECTED | IGNORED | SECRET_BLOCKED | UNSELECTED

record backup_policy =
  po_manifest :: "policy_manifest option"
  po_ignore :: "string list"
  po_secret :: "string \<Rightarrow> bool"

record classification =
  cl_path :: string
  cl_status :: path_status
  cl_selected_by :: "include_entry option"

definition assert_repository_memory_path :: "js \<Rightarrow> selection_error + string" where
  "assert_repository_memory_path v =
     (case v of
        JStr value \<Rightarrow>
          throw_if (\<not> starts_with value ''memory/'' \<or> nul \<in> set value \<or> CHR 0x5C \<in> set value \<or>
                    starts_with value ''/'' \<or> drive_letter_prefix value) BadMemoryPath (
          throw_if (list_ex odd_segment (segments value)) BadMemoryPath (Inr value))
      | _ \<Rightarrow> Inl BadMemoryPath)"

definition selector_matches :: "string \<Rightarrow> string \<Rightarrow> selection_error + bool" where
  "selector_matches glob cand = (case glob_matches glob cand of Inl e \<Rightarrow> Inl (GlobFailure e) | Inr b \<Rightarrow> Inr b)"

text \<open>\<^verbatim>\<open>find\<close> and \<^verbatim>\<open>some\<close>, with a predicate that may throw.\<close>

fun find_entry :: "include_entry list \<Rightarrow> string \<Rightarrow> selection_error + include_entry option" where
  "find_entry [] p = Inr None"
| "find_entry (e # es) p =
     bind_r (selector_matches (ie_path e) p) (\<lambda>b. if b then Inr (Some e) else find_entry es p)"

fun some_rule :: "string list \<Rightarrow> string \<Rightarrow> selection_error + bool" where
  "some_rule [] p = Inr False"
| "some_rule (g # gs) p = bind_r (selector_matches g p) (\<lambda>b. if b then Inr True else some_rule gs p)"

definition classify_with_policy :: "backup_policy \<Rightarrow> js \<Rightarrow> selection_error + classification" where
  "classify_with_policy policy repository_path =
     bind_r (assert_repository_memory_path repository_path) (\<lambda>p.
     bind_r (case po_manifest policy of None \<Rightarrow> Inr None | Some m \<Rightarrow> find_entry (pm_include m) p) (\<lambda>found.
     case found of
       None \<Rightarrow> Inr \<lparr>cl_path = p, cl_status = UNSELECTED, cl_selected_by = None\<rparr>
     | Some e \<Rightarrow>
         if po_secret policy p then Inr \<lparr>cl_path = p, cl_status = SECRET_BLOCKED, cl_selected_by = Some e\<rparr>
         else bind_r (some_rule (po_ignore policy) p) (\<lambda>ignored.
                Inr \<lparr>cl_path = p, cl_status = (if ignored then IGNORED else SELECTED), cl_selected_by = Some e\<rparr>)))"

section \<open>The resolved selection\<close>

datatype selection_state = MISSING_MANIFEST | EMPTY_SELECTION | READY

record selection_record =
  sr_class :: classification
  sr_content :: "(nat \<times> string) option"

record selection =
  se_policy :: backup_policy
  se_include_count :: nat
  se_state :: selection_state
  se_records :: "selection_record list"

definition record_of_file ::
    "(string \<Rightarrow> selection_error + (nat \<times> string)) \<Rightarrow> backup_policy \<Rightarrow> string \<Rightarrow> selection_error + selection_record" where
  "record_of_file read_file policy p =
     bind_r (classify_with_policy policy (JStr p)) (\<lambda>c.
       if cl_status c = SELECTED
       then bind_r (read_file p) (\<lambda>content. Inr \<lparr>sr_class = c, sr_content = Some content\<rparr>)
       else Inr \<lparr>sr_class = c, sr_content = None\<rparr>)"

definition records_with :: "path_status \<Rightarrow> selection_record list \<Rightarrow> selection_record list" where
  "records_with st rs = filter (\<lambda>r. cl_status (sr_class r) = st) rs"

definition resolve_selection ::
    "(string \<Rightarrow> selection_error + (nat \<times> string)) \<Rightarrow> backup_policy \<Rightarrow> string list \<Rightarrow> selection_error + selection" where
  "resolve_selection read_file policy inventory =
     bind_r (map_r (record_of_file read_file policy) inventory) (\<lambda>records.
     Inr \<lparr>se_policy = policy,
          se_include_count = (case po_manifest policy of None \<Rightarrow> 0 | Some m \<Rightarrow> length (pm_include m)),
          se_state = (if po_manifest policy = None then MISSING_MANIFEST
                      else if records_with SELECTED records = [] then EMPTY_SELECTION else READY),
          se_records = records\<rparr>)"

definition classify_backup_path :: "selection option \<Rightarrow> js \<Rightarrow> selection_error + classification" where
  "classify_backup_path result p =
     (case result of None \<Rightarrow> Inl NoResolvedSelection | Some r \<Rightarrow> classify_with_policy (se_policy r) p)"

fun selected_historical_paths :: "selection option \<Rightarrow> js list \<Rightarrow> string list" where
  "selected_historical_paths result [] = []"
| "selected_historical_paths result (p # ps) =
     (case classify_backup_path result p of
        Inl _ \<Rightarrow> selected_historical_paths result ps
      | Inr c \<Rightarrow> (if cl_status c = SELECTED then [cl_path c] else []) @ selected_historical_paths result ps)"

definition assert_policy_ready :: "selection option \<Rightarrow> selection_error + selection" where
  "assert_policy_ready result =
     (case result of
        None \<Rightarrow> Inl NoResolvedSelection
      | Some r \<Rightarrow>
          throw_if (se_state r = MISSING_MANIFEST) ManifestRequired (
          throw_if (se_include_count r < 1) EmptyIncludePolicy (
          let blocked = records_with SECRET_BLOCKED (se_records r) in
          throw_if (blocked \<noteq> []) (SecretBlockedPaths (map (cl_path \<circ> sr_class) blocked)) (Inr r))))"

definition assert_selection_ready :: "selection option \<Rightarrow> selection_error + selection" where
  "assert_selection_ready result =
     bind_r (assert_policy_ready result) (\<lambda>r.
     throw_if (se_state r = EMPTY_SELECTION) EmptySelectionError (
     throw_if (se_state r \<noteq> READY) NotReady (Inr r)))"

definition assert_historical_paths_selected :: "selection option \<Rightarrow> string list \<Rightarrow> selection_error + selection" where
  "assert_historical_paths_selected result ps =
     bind_r (assert_policy_ready result) (\<lambda>r.
     let sel = selected_historical_paths result (map JStr ps);
         rejected = filter (\<lambda>p. p \<notin> set sel) (rev (remdups (rev ps)))
     in throw_if (rejected \<noteq> []) (HistoricalNotSelected rejected) (Inr r))"

definition collect_selected_memory_paths ::
    "(string \<Rightarrow> selection_error + (nat \<times> string)) \<Rightarrow> backup_policy \<Rightarrow> bool \<Rightarrow> string list \<Rightarrow> selection_error + string list" where
  "collect_selected_memory_paths read_file policy allow_empty inventory =
     bind_r (resolve_selection read_file policy inventory) (\<lambda>r.
     bind_r (if allow_empty then assert_policy_ready (Some r) else assert_selection_ready (Some r)) (\<lambda>r.
     Inr (map (cl_path \<circ> sr_class) (records_with SELECTED (se_records r)))))"

definition is_publishable_memory_path :: "string \<Rightarrow> bool" where
  "is_publishable_memory_path p \<longleftrightarrow>
     last (segments (strip_trailing_slashes (fold_backslashes p))) \<noteq> ''.gitkeep''"

section \<open>Lemmas\<close>

text \<open>Selectors as the validators leave them.\<close>

definition good_selector :: "string \<Rightarrow> bool" where
  "good_selector g \<longleftrightarrow> g \<noteq> [] \<and> length g \<le> max_selector_length"

definition good_policy :: "backup_policy \<Rightarrow> bool" where
  "good_policy policy \<longleftrightarrow>
     (\<forall>m. po_manifest policy = Some m \<longrightarrow> (\<forall>e \<in> set (pm_include m). good_selector (ie_path e))) \<and>
     (\<forall>g \<in> set (po_ignore policy). good_selector g)"

lemma policy_glob_good: "assert_policy_glob v = Inr g \<Longrightarrow> v = JStr g \<and> good_selector g"
  by (cases v) (auto simp: assert_policy_glob_def good_selector_def)

definition denotes :: "string \<Rightarrow> string \<Rightarrow> bool" where
  "denotes g p \<longleftrightarrow> glob_denotes (glob_tokens g) p"

lemma selector_matches_Inr:
  "selector_matches g p = Inr b \<Longrightarrow> b = denotes g p"
  by (auto simp: selector_matches_def glob_matches_eq denotes_def simp del: glob_tokens.simps split: if_splits)

lemma find_entry_Inr:
  "find_entry es p = Inr found \<Longrightarrow> found = find (\<lambda>e. denotes (ie_path e) p) es"
  by (induction es p rule: find_entry.induct) (auto dest!: selector_matches_Inr split: if_splits)

lemma some_rule_Inr: "some_rule gs p = Inr b \<Longrightarrow> b = list_ex (\<lambda>g. denotes g p) gs"
  by (induction gs p rule: some_rule.induct) (auto dest!: selector_matches_Inr split: if_splits)

lemma selector_matches_good:
  "good_selector g \<Longrightarrow> length p \<le> max_candidate_path_length \<Longrightarrow> selector_matches g p = Inr (denotes g p)"
  by (simp add: selector_matches_def glob_matches_eq denotes_def good_selector_def max_selector_length_def
      max_candidate_path_length_def del: glob_tokens.simps)

lemma find_entry_good:
  "\<forall>e \<in> set es. good_selector (ie_path e) \<Longrightarrow> length p \<le> max_candidate_path_length \<Longrightarrow>
   find_entry es p = Inr (find (\<lambda>e. denotes (ie_path e) p) es)"
  by (induction es p rule: find_entry.induct) (auto simp: selector_matches_good)

lemma some_rule_good:
  "\<forall>g \<in> set gs. good_selector g \<Longrightarrow> length p \<le> max_candidate_path_length \<Longrightarrow>
   some_rule gs p = Inr (list_ex (\<lambda>g. denotes g p) gs)"
  by (induction gs p rule: some_rule.induct) (auto simp: selector_matches_good)

lemma fold_r_invariant:
  "fold_r f s xs = Inr s' \<Longrightarrow> P s \<Longrightarrow> (\<And>s x s'. P s \<Longrightarrow> f s x = Inr s' \<Longrightarrow> P s') \<Longrightarrow> P s'"
  by (induction f s xs rule: fold_r.induct) auto

lemma include_step_good:
  assumes "\<forall>e \<in> set (snd st). good_selector (ie_path e)" "include_step st entry = Inr st'"
  shows "\<forall>e \<in> set (snd st'). good_selector (ie_path e)"
proof -
  obtain selector c where "assert_policy_glob (js_get entry ''path'') = Inr selector"
    "snd st' = snd st @ [\<lparr>ie_path = selector, ie_class = c\<rparr>]"
    using assms(2) by (cases "js_get entry ''class''") (auto simp: include_step_def)
  with assms(1) policy_glob_good show ?thesis by auto
qed

lemma validated_manifest_good:
  assumes "validate_manifest project v = Inr m"
  shows "\<forall>e \<in> set (pm_include m). good_selector (ie_path e)"
proof -
  obtain st where "fold_r include_step ([], []) (js_elems (js_get v ''include'')) = Inr st" "pm_include m = snd st"
    using assms by (auto simp: validate_manifest_def split: js.splits)
  then show ?thesis
    using fold_r_invariant [where P = "\<lambda>st. \<forall>e \<in> set (snd st). good_selector (ie_path e)"] include_step_good
    by (metis empty_iff list.set(1) snd_conv)
qed

lemma parsed_rules_good:
  assumes "parse_ignore_rules contents = Inr rules"
  shows "\<forall>g \<in> set rules. good_selector g"
proof (cases contents)
  case None
  with assms show ?thesis by (simp add: parse_ignore_rules_def)
next
  case (Some s)
  have "\<forall>g \<in> set rules'. good_selector g"
    if "\<forall>g \<in> set rs. good_selector g" "ignore_step rs ln = Inr rules'" for rs ln rules'
    using that by (auto simp: ignore_step_def Let_def dest!: policy_glob_good split: prod.splits if_splits)
  then show ?thesis
    using assms fold_r_invariant [where P = "\<lambda>rs. \<forall>g \<in> set rs. good_selector g" and f = ignore_step]
    by (auto simp: Some parse_ignore_rules_def Let_def)
qed

text \<open>Deny overrides: the first covering selector, then secrets, then ignore rules.\<close>

definition expected_classification :: "backup_policy \<Rightarrow> string \<Rightarrow> classification" where
  "expected_classification policy p =
     (case (case po_manifest policy of None \<Rightarrow> None | Some m \<Rightarrow> find (\<lambda>e. denotes (ie_path e) p) (pm_include m)) of
        None \<Rightarrow> \<lparr>cl_path = p, cl_status = UNSELECTED, cl_selected_by = None\<rparr>
      | Some e \<Rightarrow> \<lparr>cl_path = p,
                  cl_status = (if po_secret policy p then SECRET_BLOCKED
                               else if list_ex (\<lambda>g. denotes g p) (po_ignore policy) then IGNORED else SELECTED),
                  cl_selected_by = Some e\<rparr>)"

lemma memory_path_Inr: "assert_repository_memory_path v = Inr p \<Longrightarrow> v = JStr p"
  by (cases v) (auto simp: assert_repository_memory_path_def)

lemma classify_Inr:
  assumes "classify_with_policy policy v = Inr c"
  shows "assert_repository_memory_path v = Inr (cl_path c) \<and> c = expected_classification policy (cl_path c)"
proof -
  obtain p found where p: "assert_repository_memory_path v = Inr p"
    and found: "(case po_manifest policy of None \<Rightarrow> Inr None | Some m \<Rightarrow> find_entry (pm_include m) p) = Inr found"
    using assms by (auto simp: classify_with_policy_def)
  have found_eq: "found = (case po_manifest policy of None \<Rightarrow> None | Some m \<Rightarrow> find (\<lambda>e. denotes (ie_path e) p) (pm_include m))"
    using found by (auto dest: find_entry_Inr split: option.splits)
  have eq: "c = expected_classification policy p" "cl_path c = p"
    using assms found some_rule_Inr
    by (auto simp: classify_with_policy_def p expected_classification_def found_eq [symmetric]
        split: option.splits if_splits)
  show ?thesis unfolding eq(2) using p eq(1) by simp
qed

lemma classify_good:
  assumes "good_policy policy" "assert_repository_memory_path v = Inr p" "length p \<le> max_candidate_path_length"
  shows "classify_with_policy policy v = Inr (expected_classification policy p)"
  using assms
  by (auto simp: classify_with_policy_def expected_classification_def good_policy_def find_entry_good
      some_rule_good split: option.split)

section \<open>Properties\<close>

text \<open>The decision on a path, under a manifest and ignore rules that passed validation: no
  covering selector means unselected, a secret-shaped path is blocked even when it is ignored too,
  an ignore rule beats the selector, and the first covering selector is the one reported.  The
  matcher never fails on the way.\<close>

theorem validated_policy_classification:
  assumes "validate_manifest project v = Inr m" and "parse_ignore_rules contents = Inr rules"
    and "assert_repository_memory_path (JStr p) = Inr p" and "length p \<le> 4096"
  shows "classify_with_policy \<lparr>po_manifest = Some m, po_ignore = rules, po_secret = secret\<rparr> (JStr p) =
    Inr (expected_classification \<lparr>po_manifest = Some m, po_ignore = rules, po_secret = secret\<rparr> p)"
  using assms validated_manifest_good [OF assms(1)] parsed_rules_good [OF assms(2)]
  by (intro classify_good) (auto simp: good_policy_def max_candidate_path_length_def)

definition sample_manifest :: js where
  "sample_manifest =
     JObj [(''schema'', JStr ''brain-backup/1''), (''brain_id'', JStr ''bootup''),
           (''include'', JArr [JObj [(''path'', JStr ''memory/daily/**''), (''class'', JStr ''canonical'')]])]"

definition sample_policy_manifest :: policy_manifest where
  "sample_policy_manifest =
     \<lparr>pm_brain_id = ''bootup'', pm_include = [\<lparr>ie_path = ''memory/daily/**'', ie_class = ''canonical''\<rparr>]\<rparr>"

lemma sample_validates: "validate_manifest (Some ''bootup'') sample_manifest = Inr sample_policy_manifest"
  by code_simp

lemma sample_path: "assert_repository_memory_path (JStr ''memory/daily/a.md'') = Inr ''memory/daily/a.md''"
  by code_simp

theorem validated_policy_classification_witness:
  "classify_with_policy \<lparr>po_manifest = Some sample_policy_manifest, po_ignore = [], po_secret = \<lambda>_. True\<rparr>
     (JStr ''memory/daily/a.md'') =
   Inr (expected_classification
     \<lparr>po_manifest = Some sample_policy_manifest, po_ignore = [], po_secret = \<lambda>_. True\<rparr> ''memory/daily/a.md'')"
  by (rule validated_policy_classification [OF sample_validates _ sample_path, of None])
    (simp_all add: parse_ignore_rules_def)

definition covered :: "backup_policy \<Rightarrow> string \<Rightarrow> bool" where
  "covered policy p \<longleftrightarrow>
     (\<exists>m. po_manifest policy = Some m \<and> (\<exists>e \<in> set (pm_include m). denotes (ie_path e) p))"

lemma find_None: "find P xs = None \<longleftrightarrow> \<not> (\<exists>x \<in> set xs. P x)"
  by (induction xs) auto

lemma expected_status:
  "cl_status (expected_classification policy p) =
     (if \<not> covered policy p then UNSELECTED else if po_secret policy p then SECRET_BLOCKED
      else if list_ex (\<lambda>g. denotes g p) (po_ignore policy) then IGNORED else SELECTED)"
proof -
  have "covered policy p \<longleftrightarrow> (case po_manifest policy of None \<Rightarrow> None
      | Some m \<Rightarrow> find (\<lambda>e. denotes (ie_path e) p) (pm_include m)) \<noteq> None"
    by (cases "po_manifest policy") (simp_all add: covered_def find_None del: not_None_eq)
  then show ?thesis by (auto simp: expected_classification_def split: option.splits)
qed

lemma records_of_inventory:
  assumes "map_r (record_of_file read_file policy) inventory = Inr records"
  shows "map (cl_path \<circ> sr_class) records = inventory \<and>
    (\<forall>r \<in> set records. sr_class r = expected_classification policy (cl_path (sr_class r)))"
  using assms
proof (induction inventory arbitrary: records)
  case (Cons p ps)
  then obtain r rs where r: "record_of_file read_file policy p = Inr r" and rs: "records = r # rs"
    "map_r (record_of_file read_file policy) ps = Inr rs"
    by auto
  obtain c where c: "classify_with_policy policy (JStr p) = Inr c" "sr_class r = c"
    using r by (auto simp: record_of_file_def split: if_splits)
  have "cl_path c = p" "c = expected_classification policy (cl_path c)"
    using classify_Inr [OF c(1)] memory_path_Inr by auto
  with Cons.IH [OF rs(2)] c rs show ?case by auto
qed simp

text \<open>C11. What a publication reads.  When the collector returns, every path it returns is in the
  inventory, covered by a selector, not secret-shaped and not ignored; and no file of the whole
  inventory that a selector covers is secret-shaped.  A publication that may not be empty is not.\<close>

theorem collected_paths_are_safe:
  assumes "collect_selected_memory_paths read_file policy allow_empty inventory = Inr ps"
  shows "set ps = {p \<in> set inventory. covered policy p \<and> \<not> list_ex (\<lambda>g. denotes g p) (po_ignore policy)} \<and>
    (\<forall>p \<in> set inventory. covered policy p \<longrightarrow> \<not> po_secret policy p) \<and> (ps = [] \<longrightarrow> allow_empty)"
proof -
  obtain r where r: "resolve_selection read_file policy inventory = Inr r"
    and ready: "(if allow_empty then assert_policy_ready (Some r) else assert_selection_ready (Some r)) = Inr r"
    and ps: "ps = map (cl_path \<circ> sr_class) (records_with SELECTED (se_records r))"
    using assms by (auto simp: collect_selected_memory_paths_def assert_policy_ready_def assert_selection_ready_def
        Let_def split: if_splits)
  have recs: "map (cl_path \<circ> sr_class) (se_records r) = inventory"
    "\<forall>x \<in> set (se_records r). sr_class x = expected_classification policy (cl_path (sr_class x))"
    using r records_of_inventory by (auto simp: resolve_selection_def)
  have inv: "set inventory = (cl_path \<circ> sr_class) ` set (se_records r)" using recs(1) by (metis list.set_map)
  have st: "cl_status (sr_class x) = cl_status (expected_classification policy (cl_path (sr_class x)))"
    if "x \<in> set (se_records r)" for x using recs(2) that by metis
  have none: "records_with SECRET_BLOCKED (se_records r) = []"
    using ready by (auto simp: assert_policy_ready_def assert_selection_ready_def Let_def split: if_splits)
  have secret: "\<not> po_secret policy p" if "p \<in> set inventory" "covered policy p" for p
    using none that st by (auto simp: inv records_with_def filter_empty_conv expected_status)
  have "set ps = {p \<in> set inventory. covered policy p \<and> \<not> list_ex (\<lambda>g. denotes g p) (po_ignore policy)}"
    using secret st unfolding ps inv records_with_def by (auto simp: expected_status split: if_splits)
  moreover have "ps = [] \<longrightarrow> allow_empty"
    using ready r by (auto simp: ps resolve_selection_def assert_selection_ready_def split: if_splits)
  ultimately show ?thesis using secret by blast
qed

definition sample_policy :: backup_policy where
  "sample_policy = \<lparr>po_manifest = Some sample_policy_manifest, po_ignore = [], po_secret = \<lambda>_. False\<rparr>"

lemma sample_collect:
  "collect_selected_memory_paths (\<lambda>_. Inr (1, ''00'')) sample_policy False [''memory/daily/a.md'', ''memory/b.md''] =
     Inr [''memory/daily/a.md'']"
proof -
  have good: "good_policy sample_policy"
    by (simp add: good_policy_def sample_policy_def sample_policy_manifest_def good_selector_def max_selector_length_def)
  have path: "assert_repository_memory_path (JStr ''memory/b.md'') = Inr ''memory/b.md''" by code_simp
  have cover: "denotes ''memory/daily/**'' ''memory/daily/a.md''" "\<not> denotes ''memory/daily/**'' ''memory/b.md''"
    unfolding denotes_def by code_simp+
  have "classify_with_policy sample_policy (JStr ''memory/daily/a.md'') = Inr (expected_classification sample_policy ''memory/daily/a.md'')"
    "classify_with_policy sample_policy (JStr ''memory/b.md'') = Inr (expected_classification sample_policy ''memory/b.md'')"
    using classify_good [OF good sample_path] classify_good [OF good path] by (simp_all add: max_candidate_path_length_def)
  then show ?thesis
    using cover
    by (simp add: collect_selected_memory_paths_def resolve_selection_def record_of_file_def records_with_def
        expected_classification_def sample_policy_def sample_policy_manifest_def assert_selection_ready_def
        assert_policy_ready_def)
qed

theorem collected_paths_are_safe_witness:
  "covered sample_policy ''memory/daily/a.md'' \<and> \<not> po_secret sample_policy ''memory/daily/a.md''"
proof -
  note safe = collected_paths_are_safe [OF sample_collect]
  have "''memory/daily/a.md'' \<in> {p \<in> set [''memory/daily/a.md'', ''memory/b.md'']. covered sample_policy p \<and>
      \<not> list_ex (\<lambda>g. denotes g p) (po_ignore sample_policy)}"
    using safe by (metis list.set_intros(1))
  then show ?thesis using safe by (simp add: sample_policy_def)
qed

end
