(* ===== verification/Tombstones.thy ===== *)
theory Tombstones
  imports BackupSelection
begin

text \<open>
  Deletion markers of a publisher head, \<^verbatim>\<open>calculateNextTombstones\<close> of
  \<^verbatim>\<open>lib/memory/tombstones.js\<close>: which pages are recorded as deleted by the next publication,
  and when a publication of an empty tree is refused.  Objects keyed by page are values of the
  prelude; the result is an association list from pages to times.
\<close>

datatype tombstone_error =
    NotAnObject
  | NotStringArray
  | InvalidMemoryPath string
  | UnselectedExtraDeletions
  | NoAuthoritativePrior
  | CannotNarrow nat

definition finite_or :: "js \<Rightarrow> jsnum \<Rightarrow> jsnum" where
  "finite_or v fallback = (if num_is_finite (js_number v) then js_number v else fallback)"

definition assert_record :: "js \<Rightarrow> tombstone_error + unit" where
  "assert_record v = throw_if (\<not> js_is_record v) NotAnObject (Inr ())"

definition assert_string_array :: "js \<Rightarrow> tombstone_error + string list" where
  "assert_string_array v =
     throw_if (\<not> js_is_arr v \<or> list_ex (\<lambda>e. \<not> js_is_str e) (js_elems v)) NotStringArray
       (Inr (List.map_filter js_str (js_elems v)))"

definition assert_memory_path :: "string \<Rightarrow> tombstone_error + unit" where
  "assert_memory_path p =
     throw_if (CHR 0x5C \<in> set p \<or> nul \<in> set p \<or> hd (segments p) \<noteq> ''memory'' \<or> length (segments p) < 2 \<or>
               list_ex odd_segment (segments p)) (InvalidMemoryPath p) (Inr ())"

definition assert_memory_paths :: "string list \<Rightarrow> tombstone_error + unit" where
  "assert_memory_paths ps = fold_r (\<lambda>_ p. assert_memory_path p) () ps"

record tombstone_input =
  ti_prev_markers :: js
  ti_prev_tombstones :: js
  ti_markers :: js
  ti_extra_deletions :: js
  ti_extra_times :: js
  ti_prior_pages :: js
  ti_selection :: "selection option"
  ti_now :: jsnum

definition defaulted :: "js \<Rightarrow> js \<Rightarrow> js" where
  "defaulted d v = (if v = JUndef then d else v)"

definition selected_strings :: "selection \<Rightarrow> string list \<Rightarrow> string list" where
  "selected_strings r ps = selected_historical_paths (Some r) (map JStr ps)"

definition first_occurrences :: "'a list \<Rightarrow> 'a list" where
  "first_occurrences xs = rev (remdups (rev xs))"

text \<open>The part under \<^verbatim>\<open>if (selection)\<close>: refusals, then the three collections narrowed to the
  selected pages.\<close>

definition narrow_to_selection ::
    "selection option \<Rightarrow> string list \<Rightarrow> string list \<Rightarrow> (string \<times> js) list \<Rightarrow> (string \<times> js) list \<Rightarrow> string list \<Rightarrow>
     tombstone_error + ((string \<times> js) list \<times> (string \<times> js) list \<times> string list)" where
  "narrow_to_selection sel prior_live current prev_markers prev_tombstones extra =
     (case sel of
        None \<Rightarrow> Inr (prev_markers, prev_tombstones, extra)
      | Some r \<Rightarrow>
          let prior_selected = selected_strings r prior_live;
              selected_extra = selected_strings r extra
          in throw_if (current = [] \<and> length selected_extra \<noteq> length extra) UnselectedExtraDeletions (
             throw_if (current = [] \<and> length prior_live < 1) NoAuthoritativePrior (
             throw_if (current = [] \<and> length prior_selected \<noteq> length prior_live)
               (CannotNarrow (length prior_live - length prior_selected)) (
             let marker_paths = selected_strings r (map fst prev_markers);
                 tombstone_paths = selected_strings r (map fst prev_tombstones)
             in Inr (filter (\<lambda>(page, _). page \<in> set marker_paths) prev_markers,
                     filter (\<lambda>(page, _). page \<in> set tombstone_paths) prev_tombstones,
                     selected_extra)))))"

definition put_if_absent :: "string list \<Rightarrow> (string \<times> jsnum) list \<Rightarrow> string \<times> jsnum \<Rightarrow> (string \<times> jsnum) list" where
  "put_if_absent current ts e =
     (if fst e \<notin> set current \<and> map_of ts (fst e) = None then AList.update (fst e) (snd e) ts else ts)"

definition build_tombstones ::
    "string list \<Rightarrow> js \<Rightarrow> jsnum \<Rightarrow> (string \<times> js) list \<Rightarrow> (string \<times> js) list \<Rightarrow> string list \<Rightarrow> (string \<times> jsnum) list" where
  "build_tombstones current del_times now prev_markers prev_tombstones extra =
     (let kept = foldl (\<lambda>ts (page, v). if page \<notin> set current then AList.update page (finite_or v now) ts else ts)
                   [] prev_tombstones;
          dropped = foldl (put_if_absent current) kept
                   (map (\<lambda>(page, _). (page, finite_or (js_get del_times page) now)) prev_markers)
      in foldl (put_if_absent current) dropped (map (\<lambda>page. (page, finite_or (js_get del_times page) now)) extra))"

definition calculate_next_tombstones :: "tombstone_input \<Rightarrow> tombstone_error + (string \<times> jsnum) list" where
  "calculate_next_tombstones a =
     (let prev_markers = defaulted (JObj []) (ti_prev_markers a);
          prev_tombstones = defaulted (JObj []) (ti_prev_tombstones a);
          markers = defaulted (JObj []) (ti_markers a);
          del_times = defaulted (JObj []) (ti_extra_times a) in
      bind_r (assert_record prev_markers) (\<lambda>_.
      bind_r (assert_record prev_tombstones) (\<lambda>_.
      bind_r (assert_record markers) (\<lambda>_.
      bind_r (assert_string_array (defaulted (JArr []) (ti_extra_deletions a))) (\<lambda>extra.
      bind_r (assert_record del_times) (\<lambda>_.
      bind_r (assert_string_array (defaulted (JArr []) (ti_prior_pages a))) (\<lambda>prior_pages.
      bind_r (assert_memory_paths (js_keys prev_markers)) (\<lambda>_.
      bind_r (assert_memory_paths (js_keys prev_tombstones)) (\<lambda>_.
      bind_r (assert_memory_paths (js_keys markers)) (\<lambda>_.
      bind_r (assert_memory_paths extra) (\<lambda>_.
      bind_r (assert_memory_paths (js_keys del_times)) (\<lambda>_.
      bind_r (assert_memory_paths prior_pages) (\<lambda>_.
      let prior_live = first_occurrences (js_keys prev_markers @ prior_pages) in
      bind_r (narrow_to_selection (ti_selection a) prior_live (js_keys markers)
                (js_entries prev_markers) (js_entries prev_tombstones) extra) (\<lambda>(pm, pt, ex).
      Inr (build_tombstones (js_keys markers) del_times (ti_now a) pm pt ex)))))))))))))))"

section \<open>Lemmas\<close>

text \<open>The pages the selection keeps; all of them without a selection.\<close>

definition selects :: "selection option \<Rightarrow> string \<Rightarrow> bool" where
  "selects sel p =
     (case sel of
        None \<Rightarrow> True
      | Some r \<Rightarrow> (case classify_with_policy (se_policy r) (JStr p) of Inl _ \<Rightarrow> False | Inr c \<Rightarrow> cl_status c = SELECTED))"

lemma selected_strings_filter: "selected_strings r ps = filter (selects (Some r)) ps"
proof (induction ps)
  case (Cons p ps)
  have "cl_path c = p" if "classify_with_policy (se_policy r) (JStr p) = Inr c" for c
    using classify_Inr [OF that] memory_path_Inr by auto
  with Cons show ?case
    by (auto simp: selected_strings_def selects_def classify_backup_path_def split: sum.split)
qed (simp add: selected_strings_def)

lemma keys_put_if_absent:
  "fst ` set (foldl (put_if_absent current) ts es) = fst ` set ts \<union> (fst ` set es - set current)"
proof (induction es arbitrary: ts)
  case (Cons e es)
  have "fst ` set (put_if_absent current ts e) = fst ` set ts \<union> ({fst e} - set current)"
    by (auto simp: put_if_absent_def dom_update map_of_eq_None_iff)
  with Cons show ?case by auto
qed simp

lemma put_keeps:
  "map_of ts p = Some v \<Longrightarrow> map_of (foldl (put_if_absent current) ts es) p = Some v"
proof (induction es arbitrary: ts)
  case (Cons e es)
  have "map_of (put_if_absent current ts e) p = Some v"
    using Cons.prems by (auto simp: put_if_absent_def update_conv')
  with Cons.IH show ?case by simp
qed simp

lemma keys_kept:
  "fst ` set (foldl (\<lambda>ts (page, v). if page \<notin> set current then AList.update page (f v) ts else ts) ts es) =
   fst ` set ts \<union> (fst ` set es - set current)"
proof (induction es arbitrary: ts)
  case (Cons e es)
  then show ?case by (cases e) (auto simp: dom_update)
qed simp

lemma kept_value:
  "(p, v) \<in> set es \<Longrightarrow> distinct (map fst es) \<Longrightarrow> p \<notin> set current \<Longrightarrow>
   map_of (foldl (\<lambda>ts (page, v). if page \<notin> set current then AList.update page (f v) ts else ts) ts es) p = Some (f v)"
proof (induction es arbitrary: ts)
  case (Cons e es)
  have skip: "map_of (foldl (\<lambda>ts (page, v). if page \<notin> set current then AList.update page (f v) ts else ts) ts es) p = map_of ts p"
    if "p \<notin> fst ` set es" for ts es
    using that by (induction es arbitrary: ts) (auto simp: update_conv')
  show ?case
  proof (cases "e = (p, v)")
    case True
    with Cons.prems skip [of es] show ?thesis by (simp add: update_conv' image_iff)
  next
    case False
    with Cons show ?thesis by (cases e) auto
  qed
qed simp

lemma keys_build:
  "fst ` set (build_tombstones current del_times now pm pt ex) =
   (fst ` set pt \<union> fst ` set pm \<union> set ex) - set current"
proof -
  have "fst ` (\<lambda>(page, u). (page, g page)) ` X = fst ` X" for g :: "string \<Rightarrow> jsnum" and X :: "(string \<times> js) set"
    by force
  moreover have "fst ` (\<lambda>page. (page, g page)) ` X = X" for g :: "string \<Rightarrow> jsnum" and X
    by force
  ultimately show ?thesis
    by (auto simp: build_tombstones_def keys_put_if_absent keys_kept)
qed

lemma distinct_keys_build: "distinct (map fst (build_tombstones current del_times now pm pt ex))"
proof -
  have put: "distinct (map fst ts) \<Longrightarrow> distinct (map fst (foldl (put_if_absent current) ts es))" for ts es
    by (induction es arbitrary: ts) (auto simp: put_if_absent_def distinct_update)
  have kept: "distinct (map fst ts) \<Longrightarrow> distinct (map fst
     (foldl (\<lambda>ts (page, v). if page \<notin> set current then AList.update page (f v) ts else ts) ts es))" for ts es f
    by (induction es arbitrary: ts) (auto simp: distinct_update)
  show ?thesis by (simp add: build_tombstones_def Let_def put kept)
qed

lemma narrow_keys:
  assumes "narrow_to_selection sel prior_live current pm0 pt0 ex0 = Inr (pm, pt, ex)"
  shows "pm = filter (\<lambda>(p, _). selects sel p) pm0 \<and> pt = filter (\<lambda>(p, _). selects sel p) pt0 \<and>
    ex = filter (selects sel) ex0"
proof (cases sel)
  case None
  then show ?thesis using assms by (auto simp: narrow_to_selection_def selects_def)
next
  case (Some r)
  have "filter (\<lambda>(p, _). p \<in> set (selected_strings r (map fst xs))) xs = filter (\<lambda>(p, _). selects (Some r) p) xs"
    for xs :: "(string \<times> js) list"
    by (rule filter_cong) (force simp: selected_strings_filter)+
  then show ?thesis
    using assms by (auto simp: narrow_to_selection_def Some Let_def selected_strings_filter)
qed

text \<open>The arguments with the defaults of the function.\<close>

definition live_pages :: "tombstone_input \<Rightarrow> string set" where
  "live_pages a = set (js_keys (defaulted (JObj []) (ti_markers a)))"

definition earlier_pages :: "tombstone_input \<Rightarrow> string set" where
  "earlier_pages a =
     set (js_keys (defaulted (JObj []) (ti_prev_markers a))) \<union>
     set (js_keys (defaulted (JObj []) (ti_prev_tombstones a))) \<union>
     set (List.map_filter js_str (js_elems (defaulted (JArr []) (ti_extra_deletions a))))"

lemma calculate_Inr:
  assumes "calculate_next_tombstones a = Inr ts"
  obtains pm pt ex prior where
    "ts = build_tombstones (js_keys (defaulted (JObj []) (ti_markers a))) (defaulted (JObj []) (ti_extra_times a))
            (ti_now a) pm pt ex"
    "narrow_to_selection (ti_selection a) prior (js_keys (defaulted (JObj []) (ti_markers a)))
       (js_entries (defaulted (JObj []) (ti_prev_markers a))) (js_entries (defaulted (JObj []) (ti_prev_tombstones a)))
       (List.map_filter js_str (js_elems (defaulted (JArr []) (ti_extra_deletions a)))) = Inr (pm, pt, ex)"
    "prior = first_occurrences (js_keys (defaulted (JObj []) (ti_prev_markers a)) @
       List.map_filter js_str (js_elems (defaulted (JArr []) (ti_prior_pages a))))"
  using assms
  by (auto simp: calculate_next_tombstones_def Let_def assert_string_array_def split: prod.splits)

section \<open>Properties\<close>

text \<open>C15. The next tombstones are exactly the pages known to the head before (live, deleted, or
  deleted by request) that the policy selects and that the new head does not contain: no page is
  both live and deleted, no deletion is lost, and none is invented.\<close>

theorem tombstones_exact:
  assumes "calculate_next_tombstones a = Inr ts"
  shows "fst ` set ts = {p \<in> earlier_pages a. selects (ti_selection a) p} - live_pages a \<and> distinct (map fst ts)"
proof -
  obtain pm pt ex prior where ts: "ts = build_tombstones (js_keys (defaulted (JObj []) (ti_markers a)))
      (defaulted (JObj []) (ti_extra_times a)) (ti_now a) pm pt ex"
    and n: "narrow_to_selection (ti_selection a) prior (js_keys (defaulted (JObj []) (ti_markers a)))
       (js_entries (defaulted (JObj []) (ti_prev_markers a))) (js_entries (defaulted (JObj []) (ti_prev_tombstones a)))
       (List.map_filter js_str (js_elems (defaulted (JArr []) (ti_extra_deletions a)))) = Inr (pm, pt, ex)"
    by (rule calculate_Inr [OF assms])
  show ?thesis
    using narrow_keys [OF n]
    by (auto simp: ts keys_build distinct_keys_build live_pages_def earlier_pages_def js_keys_entries image_iff)
qed

text \<open>An empty tree is published under a selection policy only when there is a prior live page
  and the policy still selects every prior live page and every requested deletion: narrowing the
  policy can never turn live pages into tombstones of an empty head.\<close>

theorem empty_publication_needs_authority:
  assumes "calculate_next_tombstones a = Inr ts" and "ti_selection a = Some r" and "live_pages a = {}"
  shows "(let prior = js_keys (defaulted (JObj []) (ti_prev_markers a)) @
               List.map_filter js_str (js_elems (defaulted (JArr []) (ti_prior_pages a)))
          in prior \<noteq> [] \<and> (\<forall>p \<in> set prior. selects (Some r) p)) \<and>
         (\<forall>p \<in> earlier_pages a. p \<notin> set (js_keys (defaulted (JObj []) (ti_prev_tombstones a))) \<longrightarrow>
            p \<in> fst ` set ts)"
proof -
  obtain pm pt ex prior where ts: "ts = build_tombstones (js_keys (defaulted (JObj []) (ti_markers a)))
      (defaulted (JObj []) (ti_extra_times a)) (ti_now a) pm pt ex"
    and n: "narrow_to_selection (ti_selection a) prior (js_keys (defaulted (JObj []) (ti_markers a)))
       (js_entries (defaulted (JObj []) (ti_prev_markers a))) (js_entries (defaulted (JObj []) (ti_prev_tombstones a)))
       (List.map_filter js_str (js_elems (defaulted (JArr []) (ti_extra_deletions a)))) = Inr (pm, pt, ex)"
    and prior: "prior = first_occurrences (js_keys (defaulted (JObj []) (ti_prev_markers a)) @
       List.map_filter js_str (js_elems (defaulted (JArr []) (ti_prior_pages a))))"
    by (rule calculate_Inr [OF assms(1)])
  have empty: "js_keys (defaulted (JObj []) (ti_markers a)) = []" using assms(3) by (simp add: live_pages_def)
  have none: "js_entries (defaulted (JObj []) (ti_markers a)) = []"
    using empty by (simp add: js_keys_entries)
  have all: "\<forall>p \<in> set xs. P p" if "length (filter P xs) = length xs" for P and xs :: "string list"
    using that by (metis filter_id_conv length_filter_less less_irrefl)
  have facts: "\<forall>p \<in> set prior. selects (Some r) p" "prior \<noteq> []"
    "\<forall>p \<in> set (List.map_filter js_str (js_elems (defaulted (JArr []) (ti_extra_deletions a)))). selects (Some r) p"
    using n all by (auto simp: narrow_to_selection_def assms(2) empty Let_def selected_strings_filter)
  have prior_set: "set prior = set (js_keys (defaulted (JObj []) (ti_prev_markers a)) @
       List.map_filter js_str (js_elems (defaulted (JArr []) (ti_prior_pages a))))"
    by (auto simp: prior first_occurrences_def)
  have "p \<in> fst ` set ts"
    if "p \<in> earlier_pages a" "p \<notin> set (js_keys (defaulted (JObj []) (ti_prev_tombstones a)))" for p
  proof -
    have "selects (Some r) p"
      using that facts prior_set by (auto simp: earlier_pages_def)
    then show ?thesis
      using that narrow_keys [OF n] by (auto simp: ts keys_build none earlier_pages_def js_keys_entries assms(2) image_iff)
  qed
  with facts prior_set show ?thesis by (auto simp: Let_def)
qed

section \<open>Concrete runs\<close>

definition sample_input :: tombstone_input where
  "sample_input =
     \<lparr>ti_prev_markers = JObj [(''memory/a.md'', jint 1), (''memory/b.md'', jint 2)],
      ti_prev_tombstones = JObj [(''memory/c.md'', jint 3)],
      ti_markers = JObj [(''memory/a.md'', jint 4)], ti_extra_deletions = JUndef, ti_extra_times = JUndef,
      ti_prior_pages = JUndef, ti_selection = None, ti_now = Fin 9\<rparr>"

lemma sample_run:
  "calculate_next_tombstones sample_input = Inr [(''memory/c.md'', Fin 3), (''memory/b.md'', Fin 9)]"
  by (simp add: calculate_next_tombstones_def sample_input_def defaulted_def assert_record_def
      assert_string_array_def assert_memory_paths_def assert_memory_path_def segments_def odd_segment_def nul_def
      narrow_to_selection_def build_tombstones_def put_if_absent_def finite_or_def map_filter_simps)

theorem tombstones_exact_witness:
  "fst ` set [(''memory/c.md'', Fin 3), (''memory/b.md'', Fin 9)] =
     {p \<in> earlier_pages sample_input. selects (ti_selection sample_input) p} - live_pages sample_input \<and>
   distinct (map fst [(''memory/c.md'', Fin 3), (''memory/b.md'', Fin 9)])"
  by (rule tombstones_exact [OF sample_run])

definition sample_selection :: selection where
  "sample_selection =
     \<lparr>se_policy = sample_policy, se_include_count = 1, se_state = EMPTY_SELECTION, se_records = []\<rparr>"

definition emptied_input :: tombstone_input where
  "emptied_input =
     \<lparr>ti_prev_markers = JObj [(''memory/daily/a.md'', jint 1)], ti_prev_tombstones = JUndef,
      ti_markers = JObj [], ti_extra_deletions = JUndef, ti_extra_times = JUndef,
      ti_prior_pages = JUndef, ti_selection = Some sample_selection, ti_now = Fin 9\<rparr>"

lemma daily_selected: "selects (Some sample_selection) ''memory/daily/a.md''"
proof -
  have "good_policy sample_policy"
    by (simp add: good_policy_def sample_policy_def sample_policy_manifest_def good_selector_def max_selector_length_def)
  then have "classify_with_policy sample_policy (JStr ''memory/daily/a.md'') =
      Inr (expected_classification sample_policy ''memory/daily/a.md'')"
    using classify_good [OF _ sample_path] by (simp add: max_candidate_path_length_def)
  moreover have "denotes ''memory/daily/**'' ''memory/daily/a.md''" unfolding denotes_def by code_simp
  ultimately show ?thesis
    by (simp add: selects_def sample_selection_def expected_classification_def sample_policy_def sample_policy_manifest_def)
qed

lemma emptied_run: "calculate_next_tombstones emptied_input = Inr [(''memory/daily/a.md'', Fin 9)]"
  using daily_selected
  by (simp add: calculate_next_tombstones_def emptied_input_def defaulted_def assert_record_def
      assert_string_array_def assert_memory_paths_def assert_memory_path_def segments_def odd_segment_def nul_def
      narrow_to_selection_def build_tombstones_def put_if_absent_def finite_or_def map_filter_simps
      selected_strings_filter first_occurrences_def)

theorem empty_publication_needs_authority_witness:
  "selects (Some sample_selection) ''memory/daily/a.md'' \<and>
   ''memory/daily/a.md'' \<in> fst ` set [(''memory/daily/a.md'', Fin 9)]"
  using empty_publication_needs_authority [OF emptied_run, of sample_selection]
  by (simp add: emptied_input_def live_pages_def earlier_pages_def defaulted_def map_filter_simps)

end
