(* ===== verification/SyncLock.thy ===== *)
theory SyncLock
  imports JsPrelude
begin

text \<open>
  The cross-process memory-sync mutex, \<^verbatim>\<open>lib/memory/sync-lock.js\<close>, as a transition system.  A
  step is one system call on the lock file (or one decision between two), by one process; the
  steps of different processes interleave freely.  A process is an instance with a pid, an
  identity token and a label given by the configuration; a pid may be used again by a later
  instance.  The parser of \<^verbatim>\<open>/proc/<pid>/stat\<close>, which gives the token, is a function.
\<close>

section \<open>Identity tokens\<close>

fun index_of :: "char \<Rightarrow> string \<Rightarrow> nat option" where
  "index_of c [] = None"
| "index_of c (x # xs) = (if x = c then Some 0 else map_option Suc (index_of c xs))"

definition last_index_of :: "char \<Rightarrow> string \<Rightarrow> nat option" where
  "last_index_of c s = map_option (\<lambda>i. length s - 1 - i) (index_of c (rev s))"

text \<open>\<^verbatim>\<open>split(/\s+/)\<close>.\<close>

function split_spaces :: "string \<Rightarrow> string list" where
  "split_spaces s =
     (let r = dropWhile (\<lambda>c. \<not> is_js_space c) s
      in takeWhile (\<lambda>c. \<not> is_js_space c) s #
         (if r = [] then [] else split_spaces (dropWhile is_js_space r)))"
  by pat_completeness auto

termination
proof (relation "measure length")
  fix s r :: string
  assume r: "r = dropWhile (\<lambda>c. \<not> is_js_space c) s" "r \<noteq> []"
  then have "is_js_space (hd r)" using hd_dropWhile [of "\<lambda>c. \<not> is_js_space c" s] by simp
  then have "length (dropWhile is_js_space r) < length r"
    using r(2) length_dropWhile_le [of is_js_space "tl r"] by (cases r) auto
  also have "length r \<le> length s" by (simp add: r(1) length_dropWhile_le)
  finally show "(dropWhile is_js_space r, s) \<in> measure length" by simp
qed simp

definition parse_linux_proc_stat_start_ticks :: "string \<Rightarrow> string option" where
  "parse_linux_proc_stat_start_ticks stat =
     (case (index_of (CHR ''('') stat, last_index_of (CHR '')'') stat) of
        (Some opening, Some closing) \<Rightarrow>
          if closing \<le> opening then None
          else let fields = split_spaces (js_trim (drop (closing + 1) stat)) in
            if length fields \<le> 19 \<or> \<not> (length (hd fields) = 1 \<and> is_ascii_alpha (hd (hd fields))) then None
            else let ticks = fields ! 19 in
              if ticks \<noteq> [] \<and> list_all is_digit_char ticks then Some ticks else None
      | _ \<Rightarrow> None)"

section \<open>The lock file and its users\<close>

record lock_payload =
  lp_pid :: nat
  lp_label :: string
  lp_token :: "string option"

text \<open>The lock file: the instance that created it, and its payload unless it is still empty.\<close>

record lock_file =
  lf_creator :: nat
  lf_payload :: "lock_payload option"

text \<open>The phases of a process: not started or dead; outside the lock; about to link the lock file;
  after a failed link, about to read the holder; about to ask whether the pid of the holder it read
  is alive; that pid being alive, about to read the identity token of the pid; having judged that
  holder stale, about to rename the lock file away; has created the file without links and not
  written its payload yet; inside the critical section; has found its own payload and is about to
  remove the file; running without a lock because the directory is not writable.  The three phases
  between the read and the rename carry the file as it was read: each of the four system calls sees
  the disk and the processes of its own moment.\<close>

datatype lock_phase =
  Unborn | Idle | Trying | Blocked | Judging lock_file | Comparing lock_file | Reclaiming lock_file
| Creating | Critical | Removing | Lockless

record lock_config =
  lc_pid :: "nat \<Rightarrow> nat"
  lc_token :: "nat \<Rightarrow> string option"
  lc_label :: "nat \<Rightarrow> string"
  lc_writable :: "nat \<Rightarrow> bool"
  lc_links :: bool

record lock_state =
  ls_file :: "lock_file option"
  ls_phase :: "nat \<Rightarrow> lock_phase"
  ls_dead :: "nat \<Rightarrow> bool"

definition live :: "lock_state \<Rightarrow> nat \<Rightarrow> bool" where
  "live s p \<longleftrightarrow> ls_phase s p \<noteq> Unborn"

definition set_phase :: "nat \<Rightarrow> lock_phase \<Rightarrow> lock_state \<Rightarrow> lock_state" where
  "set_phase p ph s = s\<lparr>ls_phase := (ls_phase s)(p := ph)\<rparr>"

definition set_file :: "lock_file option \<Rightarrow> lock_state \<Rightarrow> lock_state" where
  "set_file f s = s\<lparr>ls_file := f\<rparr>"

definition payload_of :: "lock_config \<Rightarrow> nat \<Rightarrow> lock_payload" where
  "payload_of cfg p = \<lparr>lp_pid = lc_pid cfg p, lp_label = lc_label cfg p, lp_token = lc_token cfg p\<rparr>"

text \<open>A holder that can be judged at all has a payload with a positive pid.  The two tests of the
  verdict: the pid runs no live process; it runs a process whose identity token is known and
  differs from the recorded one.  A process that died since the first test has no token.\<close>

definition readable_holder :: "lock_file \<Rightarrow> bool" where
  "readable_holder f = (case lf_payload f of None \<Rightarrow> False | Some h \<Rightarrow> lp_pid h > 0)"

definition holder_dead :: "lock_config \<Rightarrow> lock_state \<Rightarrow> lock_payload \<Rightarrow> bool" where
  "holder_dead cfg s h \<longleftrightarrow> \<not> (\<exists>q. live s q \<and> lc_pid cfg q = lp_pid h)"

definition pid_reused :: "lock_config \<Rightarrow> lock_state \<Rightarrow> lock_payload \<Rightarrow> bool" where
  "pid_reused cfg s h \<longleftrightarrow>
     (\<exists>q. live s q \<and> lc_pid cfg q = lp_pid h \<and> lp_token h \<noteq> None \<and> lc_token cfg q \<noteq> None \<and>
          lp_token h \<noteq> lc_token cfg q)"

text \<open>An attempt that fails for lack of permission (\<open>unlockable\<close>, and \<open>write_failed_unlockable\<close> after the file
  was created) runs without the lock; any other failure ends the wait (\<open>give_up\<close>, \<open>write_failed\<close>), as does
  the deadline.\<close>

definition owns_payload :: "lock_config \<Rightarrow> nat \<Rightarrow> lock_file \<Rightarrow> bool" where
  "owns_payload cfg p f \<longleftrightarrow> lf_payload f = Some (payload_of cfg p)"

inductive lock_step :: "lock_config \<Rightarrow> lock_state \<Rightarrow> lock_state \<Rightarrow> bool" for cfg :: lock_config where
  spawn: "ls_phase s p = Unborn \<Longrightarrow> \<not> ls_dead s p \<Longrightarrow> \<not> (\<exists>q. live s q \<and> lc_pid cfg q = lc_pid cfg p) \<Longrightarrow>
    lock_step cfg s (set_phase p Idle s)"
| begin_wait: "ls_phase s p = Idle \<Longrightarrow> lc_writable cfg p \<Longrightarrow> lock_step cfg s (set_phase p Trying s)"
| run_lockless: "ls_phase s p = Idle \<Longrightarrow> \<not> lc_writable cfg p \<Longrightarrow> lock_step cfg s (set_phase p Lockless s)"
| end_lockless: "ls_phase s p = Lockless \<Longrightarrow> lock_step cfg s (set_phase p Idle s)"
| link: "ls_phase s p = Trying \<Longrightarrow> lc_links cfg \<Longrightarrow> ls_file s = None \<Longrightarrow>
    lock_step cfg s (set_file (Some \<lparr>lf_creator = p, lf_payload = Some (payload_of cfg p)\<rparr>) (set_phase p Critical s))"
| create: "ls_phase s p = Trying \<Longrightarrow> \<not> lc_links cfg \<Longrightarrow> ls_file s = None \<Longrightarrow>
    lock_step cfg s (set_file (Some \<lparr>lf_creator = p, lf_payload = None\<rparr>) (set_phase p Creating s))"
| write_payload: "ls_phase s p = Creating \<Longrightarrow> ls_file s = Some f \<Longrightarrow> lf_creator f = p \<Longrightarrow>
    lock_step cfg s (set_file (Some (f\<lparr>lf_payload := Some (payload_of cfg p)\<rparr>)) (set_phase p Critical s))"
| write_orphan: "ls_phase s p = Creating \<Longrightarrow> (\<forall>f. ls_file s = Some f \<longrightarrow> lf_creator f \<noteq> p) \<Longrightarrow>
    lock_step cfg s (set_phase p Critical s)"
| write_failed: "ls_phase s p = Creating \<Longrightarrow> lock_step cfg s (set_file None (set_phase p Idle s))"
| write_failed_unlockable: "ls_phase s p = Creating \<Longrightarrow> lock_step cfg s (set_file None (set_phase p Lockless s))"
| unlockable: "ls_phase s p = Trying \<Longrightarrow> lock_step cfg s (set_phase p Lockless s)"
| taken: "ls_phase s p = Trying \<Longrightarrow> ls_file s = Some f \<Longrightarrow> lock_step cfg s (set_phase p Blocked s)"
| read_gone: "ls_phase s p = Blocked \<Longrightarrow> ls_file s = None \<Longrightarrow> lock_step cfg s (set_phase p Trying s)"
| read_unreadable: "ls_phase s p = Blocked \<Longrightarrow> ls_file s = Some f \<Longrightarrow> \<not> readable_holder f \<Longrightarrow>
    lock_step cfg s (set_phase p Trying s)"
| read_holder: "ls_phase s p = Blocked \<Longrightarrow> ls_file s = Some f \<Longrightarrow> readable_holder f \<Longrightarrow>
    lock_step cfg s (set_phase p (Judging f) s)"
| judge_dead: "ls_phase s p = Judging f \<Longrightarrow> lf_payload f = Some h \<Longrightarrow> holder_dead cfg s h \<Longrightarrow>
    lock_step cfg s (set_phase p (Reclaiming f) s)"
| judge_alive: "ls_phase s p = Judging f \<Longrightarrow> lf_payload f = Some h \<Longrightarrow> \<not> holder_dead cfg s h \<Longrightarrow>
    lock_step cfg s (set_phase p (Comparing f) s)"
| compare_reused: "ls_phase s p = Comparing f \<Longrightarrow> lf_payload f = Some h \<Longrightarrow> pid_reused cfg s h \<Longrightarrow>
    lock_step cfg s (set_phase p (Reclaiming f) s)"
| compare_same: "ls_phase s p = Comparing f \<Longrightarrow> lf_payload f = Some h \<Longrightarrow> \<not> pid_reused cfg s h \<Longrightarrow>
    lock_step cfg s (set_phase p Trying s)"
| reclaim: "ls_phase s p = Reclaiming f \<Longrightarrow> lock_step cfg s (set_file None (set_phase p Trying s))"
| give_up: "ls_phase s p = Trying \<Longrightarrow> lock_step cfg s (set_phase p Idle s)"
| release_own: "ls_phase s p = Critical \<Longrightarrow> ls_file s = Some f \<Longrightarrow> owns_payload cfg p f \<Longrightarrow>
    lock_step cfg s (set_phase p Removing s)"
| release_lost: "ls_phase s p = Critical \<Longrightarrow> (\<forall>f. ls_file s = Some f \<longrightarrow> \<not> owns_payload cfg p f) \<Longrightarrow>
    lock_step cfg s (set_phase p Idle s)"
| remove: "ls_phase s p = Removing \<Longrightarrow> lock_step cfg s (set_file None (set_phase p Idle s))"
| crash: "live s p \<Longrightarrow> lock_step cfg s ((set_phase p Unborn s)\<lparr>ls_dead := (ls_dead s)(p := True)\<rparr>)"

definition lock_start :: "lock_state \<Rightarrow> bool" where
  "lock_start s \<longleftrightarrow> s = \<lparr>ls_file = None, ls_phase = (\<lambda>_. Unborn), ls_dead = (\<lambda>_. False)\<rparr>"

definition holding :: "lock_state \<Rightarrow> nat \<Rightarrow> bool" where
  "holding s p \<longleftrightarrow> ls_phase s p \<in> {Creating, Critical, Removing}"

section \<open>Verdicts on stale holders\<close>

text \<open>The file a process carries from its read of the holder to its rename.\<close>

fun phase_copy :: "lock_phase \<Rightarrow> lock_file option" where
  "phase_copy (Judging f) = Some f"
| "phase_copy (Comparing f) = Some f"
| "phase_copy (Reclaiming f) = Some f"
| "phase_copy _ = None"

definition gone :: "lock_state \<Rightarrow> nat \<Rightarrow> bool" where
  "gone s p \<longleftrightarrow> ls_phase s p = Unborn \<and> ls_dead s p"

text \<open>A file whose payload is its creator's and whose creator runs or has died.\<close>

definition known :: "lock_config \<Rightarrow> lock_state \<Rightarrow> lock_file \<Rightarrow> bool" where
  "known cfg s f \<longleftrightarrow>
     (\<forall>h. lf_payload f = Some h \<longrightarrow> h = payload_of cfg (lf_creator f)) \<and>
     (live s (lf_creator f) \<or> gone s (lf_creator f))"

definition verdict_inv :: "lock_config \<Rightarrow> lock_state \<Rightarrow> bool" where
  "verdict_inv cfg s \<longleftrightarrow>
     (\<forall>f. ls_file s = Some f \<longrightarrow> known cfg s f) \<and>
     (\<forall>p f. phase_copy (ls_phase s p) = Some f \<longrightarrow> known cfg s f) \<and>
     (\<forall>p f. ls_phase s p = Reclaiming f \<longrightarrow> gone s (lf_creator f)) \<and>
     (\<forall>p q. live s p \<longrightarrow> live s q \<longrightarrow> lc_pid cfg p = lc_pid cfg q \<longrightarrow> p = q)"

lemma phase_simps [simp]:
  "ls_phase (set_phase p ph s) = (ls_phase s)(p := ph)" "ls_file (set_phase p ph s) = ls_file s"
  "ls_dead (set_phase p ph s) = ls_dead s" "ls_file (set_file f s) = f"
  "ls_phase (set_file f s) = ls_phase s" "ls_dead (set_file f s) = ls_dead s"
  by (simp_all add: set_phase_def set_file_def)

lemma verdict_dest:
  assumes "verdict_inv cfg s"
  shows "ls_file s = Some f \<Longrightarrow> known cfg s f"
    and "phase_copy (ls_phase s p) = Some f \<Longrightarrow> known cfg s f"
    and "ls_phase s p = Reclaiming f \<Longrightarrow> gone s (lf_creator f)"
    and "live s p \<Longrightarrow> live s q \<Longrightarrow> lc_pid cfg p = lc_pid cfg q \<Longrightarrow> p = q"
  using assms unfolding verdict_inv_def by blast+

text \<open>A holder that either test condemns is dead: its pid runs nobody, or somebody else.\<close>

lemma condemned_gone:
  assumes "verdict_inv cfg s" "phase_copy (ls_phase s p) = Some f" "lf_payload f = Some h"
    and "holder_dead cfg s h \<or> pid_reused cfg s h"
  shows "gone s (lf_creator f)"
proof -
  have k: "h = payload_of cfg (lf_creator f)" "live s (lf_creator f) \<or> gone s (lf_creator f)"
    using verdict_dest(2) [OF assms(1,2)] assms(3) by (simp_all add: known_def)
  have "\<not> live s (lf_creator f)"
    using assms(4) verdict_dest(4) [OF assms(1), of _ "lf_creator f"]
    by (auto simp: holder_dead_def pid_reused_def k(1) payload_of_def)
  with k(2) show ?thesis by simp
qed

lemma verdict_start: "lock_start s \<Longrightarrow> verdict_inv cfg s"
  by (simp add: lock_start_def verdict_inv_def live_def)

lemma verdict_set_phase:
  assumes inv: "verdict_inv cfg s" and p: "live s p" and ph: "ph \<noteq> Unborn"
    and copy: "\<And>f. phase_copy ph = Some f \<Longrightarrow> known cfg s f"
    and stale: "\<And>f. ph = Reclaiming f \<Longrightarrow> gone s (lf_creator f)"
  shows "verdict_inv cfg (set_phase p ph s)"
proof -
  have lv: "live (set_phase p ph s) q \<longleftrightarrow> live s q" for q using p ph by (auto simp: live_def)
  have gn: "gone (set_phase p ph s) q \<longleftrightarrow> gone s q" for q using p ph by (auto simp: live_def gone_def)
  have kn: "known cfg (set_phase p ph s) f \<longleftrightarrow> known cfg s f" for f by (simp add: known_def lv gn)
  show ?thesis
    unfolding verdict_inv_def lv gn kn
    using verdict_dest [OF inv] copy stale by (auto split: if_splits)
qed

lemma verdict_set_file:
  assumes "verdict_inv cfg s" and "\<And>f. g = Some f \<Longrightarrow> known cfg s f"
  shows "verdict_inv cfg (set_file g s)"
proof -
  have lv: "live (set_file g s) q = live s q" and gn: "gone (set_file g s) q = gone s q" for q
    by (simp_all add: live_def gone_def)
  have kn: "known cfg (set_file g s) f = known cfg s f" for f by (simp add: known_def lv gn)
  show ?thesis
    unfolding verdict_inv_def lv gn kn phase_simps using verdict_dest [OF assms(1)] assms(2) by blast
qed

lemma verdict_set_both:
  assumes "verdict_inv cfg s" "live s p" "ph \<noteq> Unborn" "phase_copy ph = None"
    and "\<And>f. g = Some f \<Longrightarrow> lf_creator f = p \<and> (\<forall>h. lf_payload f = Some h \<longrightarrow> h = payload_of cfg p)"
  shows "verdict_inv cfg (set_file g (set_phase p ph s))"
proof (rule verdict_set_file)
  show "verdict_inv cfg (set_phase p ph s)"
    using assms(4) by (intro verdict_set_phase [OF assms(1-3)]) auto
  show "known cfg (set_phase p ph s) f" if "g = Some f" for f
    using assms(3) assms(5) [OF that] by (simp add: known_def live_def)
qed

lemma verdict_step:
  assumes inv: "verdict_inv cfg s" and step: "lock_step cfg s t"
  shows "verdict_inv cfg t"
  using step
proof cases
  case (spawn p)
  have lv: "live t q \<longleftrightarrow> live s q \<or> q = p" for q by (auto simp: spawn(1) live_def)
  have "gone s q \<Longrightarrow> gone t q" "known cfg s f \<Longrightarrow> known cfg t f" for q f
    using spawn(3) by (auto simp: spawn(1) gone_def known_def live_def)
  moreover have "phase_copy (ls_phase t q) = Some f \<Longrightarrow> phase_copy (ls_phase s q) = Some f"
    "ls_phase t q = Reclaiming f \<Longrightarrow> ls_phase s q = Reclaiming f" for q f
    by (auto simp: spawn(1) split: if_splits)
  moreover have "ls_file t = ls_file s" by (simp add: spawn(1))
  moreover have "q = r" if "live t q" "live t r" "lc_pid cfg q = lc_pid cfg r" for q r
    using that verdict_dest(4) [OF inv] spawn(4) unfolding lv by metis
  ultimately show ?thesis using verdict_dest(1-3) [OF inv] unfolding verdict_inv_def by metis
next
  case (crash p)
  have ph: "ls_phase t = (ls_phase s)(p := Unborn)" "ls_file t = ls_file s" "ls_dead t = (ls_dead s)(p := True)"
    by (simp_all add: crash(1))
  have "live t q \<Longrightarrow> live s q" "gone s q \<Longrightarrow> gone t q" "known cfg s f \<Longrightarrow> known cfg t f" for q f
    by (auto simp: ph live_def gone_def known_def split: if_splits)
  moreover have "phase_copy (ls_phase t q) = Some f \<Longrightarrow> phase_copy (ls_phase s q) = Some f"
    "ls_phase t q = Reclaiming f \<Longrightarrow> ls_phase s q = Reclaiming f" for q f
    by (auto simp: ph split: if_splits)
  ultimately show ?thesis using verdict_dest [OF inv] ph(2) unfolding verdict_inv_def by metis
next
  case (read_holder p f)
  then show ?thesis
    using verdict_dest(1) [OF inv] by (auto intro!: verdict_set_phase [OF inv] simp: live_def)
next
  case (judge_dead p f h)
  then show ?thesis
    using verdict_dest(2) [OF inv, of p f] condemned_gone [OF inv, of p f h]
    by (auto intro!: verdict_set_phase [OF inv] simp: live_def)
next
  case (judge_alive p f h)
  then show ?thesis
    using verdict_dest(2) [OF inv, of p f] by (auto intro!: verdict_set_phase [OF inv] simp: live_def)
next
  case (compare_reused p f h)
  then show ?thesis
    using verdict_dest(2) [OF inv, of p f] condemned_gone [OF inv, of p f h]
    by (auto intro!: verdict_set_phase [OF inv] simp: live_def)
qed (use inv in \<open>auto intro!: verdict_set_phase verdict_set_both simp: live_def\<close>)

text \<open>C23. A verdict is never wrong: whatever interleaving of processes, crashes, reused pids and
  renames precedes it, a process about to rename a lock file away because its holder is stale has
  read the file of a holder that is dead, and stays dead.\<close>

theorem stale_verdict_is_sound:
  assumes "reach lock_start (lock_step cfg) s" and "ls_phase s p = Reclaiming f"
  shows "\<not> live s (lf_creator f) \<and> ls_dead s (lf_creator f)"
proof -
  have "verdict_inv cfg s" using assms(1) by induction (blast intro: verdict_start verdict_step)+
  from verdict_dest(3) [OF this assms(2)] show ?thesis by (simp add: gone_def live_def)
qed

section \<open>Exclusion while every rename is aimed\<close>

text \<open>The rename is by path: it takes away whatever lock file is there.  It is aimed when that is
  the very file whose holder was judged, or none; the judged holder can have been replaced
  meanwhile, since nothing is held between the read and the rename.\<close>

definition aimed_move :: "lock_config \<Rightarrow> lock_state \<Rightarrow> lock_state \<Rightarrow> bool" where
  "aimed_move cfg s t \<longleftrightarrow> lock_step cfg s t \<and>
     (\<forall>p f. ls_phase s p = Reclaiming f \<longrightarrow> ls_phase t p = Trying \<longrightarrow> ls_file s = None \<or> ls_file s = Some f)"

definition lock_inv :: "lock_config \<Rightarrow> lock_state \<Rightarrow> bool" where
  "lock_inv cfg s \<longleftrightarrow> verdict_inv cfg s \<and>
     (\<forall>p. holding s p \<longrightarrow> (\<exists>f. ls_file s = Some f \<and> lf_creator f = p))"

lemma lock_inv_start: "lock_start s \<Longrightarrow> lock_inv cfg s"
  using verdict_start [of s cfg] by (simp add: lock_inv_def lock_start_def holding_def)

lemma holding_live: "holding s p \<Longrightarrow> live s p"
  by (auto simp: holding_def live_def)

lemma holder_file:
  assumes "lock_inv cfg s" "holding s p"
  shows "\<exists>f. ls_file s = Some f \<and> lf_creator f = p"
  using assms by (simp add: lock_inv_def)

lemma holder_alone: "lock_inv cfg s \<Longrightarrow> holding s p \<Longrightarrow> holding s q \<Longrightarrow> q = p"
  using holder_file [of cfg s p] holder_file [of cfg s q] by auto

lemma lock_inv_step:
  assumes inv: "lock_inv cfg s" and move: "aimed_move cfg s t"
  shows "lock_inv cfg t"
proof -
  have step: "lock_step cfg s t" using move by (simp add: aimed_move_def)
  have verdict: "verdict_inv cfg s" using inv by (simp add: lock_inv_def)
  have "\<exists>f. ls_file t = Some f \<and> lf_creator f = q" if q: "holding t q" for q
    using step
  proof cases
    case (reclaim p f)
    have "q \<noteq> p" "holding s q" using q by (auto simp: reclaim(1) holding_def split: if_splits)
    then obtain g where g: "ls_file s = Some g" "lf_creator g = q" using holder_file [OF inv] by blast
    then have "g = f" using move reclaim by (auto simp: aimed_move_def)
    with g verdict_dest(3) [OF verdict reclaim(2)] holding_live [OF \<open>holding s q\<close>]
    show ?thesis by (simp add: gone_def live_def)
  next
    case (write_payload p f)
    then have "holding s p" by (simp add: holding_def)
    then have "q = p" using q holder_alone [OF inv, of p q] by (auto simp: write_payload(1) holding_def split: if_splits)
    then show ?thesis using write_payload by simp
  next
    case (write_orphan p)
    then have "holding s p" by (simp add: holding_def)
    then show ?thesis using holder_file [OF inv] write_orphan(3) by blast
  next
    case (write_failed p)
    then have "holding s p" by (simp add: holding_def)
    then show ?thesis using q holder_alone [OF inv, of p q] by (auto simp: write_failed(1) holding_def split: if_splits)
  next
    case (write_failed_unlockable p)
    then have "holding s p" by (simp add: holding_def)
    then show ?thesis
      using q holder_alone [OF inv, of p q] by (auto simp: write_failed_unlockable(1) holding_def split: if_splits)
  next
    case (remove p)
    then have "holding s p" by (simp add: holding_def)
    then show ?thesis using q holder_alone [OF inv, of p q] by (auto simp: remove(1) holding_def split: if_splits)
  next
    case (link p)
    then show ?thesis using q holder_file [OF inv, of q] by (auto simp: holding_def split: if_splits)
  next
    case (create p)
    then show ?thesis using q holder_file [OF inv, of q] by (auto simp: holding_def split: if_splits)
  next
    case (release_own p f)
    then show ?thesis using q holder_file [OF inv, of q] by (auto simp: holding_def split: if_splits)
  qed (use q holder_file [OF inv, of q] in \<open>auto simp: holding_def split: if_splits\<close>)
  then show ?thesis using verdict_step [OF verdict step] by (simp add: lock_inv_def)
qed

definition file_creator :: "lock_state \<Rightarrow> nat option" where
  "file_creator s = map_option lf_creator (ls_file s)"

interpretation sync_lock: owned_lock lock_start "aimed_move cfg" "lock_inv cfg" holding file_creator
proof unfold_locales
  show "lock_start s \<Longrightarrow> lock_inv cfg s" for s by (rule lock_inv_start)
  show "lock_inv cfg s \<Longrightarrow> aimed_move cfg s t \<Longrightarrow> lock_inv cfg t" for s t by (rule lock_inv_step)
  show "lock_inv cfg s \<Longrightarrow> holding s p \<Longrightarrow> file_creator s = Some p" for s p
    using holder_file [of cfg s p] by (auto simp: file_creator_def)
qed

text \<open>C1. Mutual exclusion.  As long as no rename of a stale lock hits another lock file than the
  one whose holder was read and judged, at most one process holds the lock, through every
  interleaving of link, read, liveness test, identity test, rename, release and crash of any number
  of processes, with reused pids; and the lock file is the holder's own, so that a release never
  removes another process's lock.  The code does not enforce the condition (a rename is by path),
  and without it exclusion is lost.\<close>

theorem sync_lock_exclusive:
  assumes "reach lock_start (aimed_move cfg) s" and "holding s p" and "holding s q"
  shows "p = q \<and> file_creator s = Some p"
  using sync_lock.mutual_exclusion [OF assms] sync_lock.holds_owner [OF sync_lock.reachable_inv [OF assms(1)] assms(2)]
  by simp

definition race_config :: lock_config where
  "race_config = \<lparr>lc_pid = Suc, lc_token = (\<lambda>_. None), lc_label = (\<lambda>_. ''cli''), lc_writable = (\<lambda>_. True), lc_links = True\<rparr>"

definition lock_initial :: lock_state where
  "lock_initial = \<lparr>ls_file = None, ls_phase = (\<lambda>_. Unborn), ls_dead = (\<lambda>_. False)\<rparr>"

definition lock_file_of :: "nat \<Rightarrow> lock_file" where
  "lock_file_of p = \<lparr>lf_creator = p, lf_payload = Some (payload_of race_config p)\<rparr>"

definition lock_of :: "nat \<Rightarrow> lock_file option" where
  "lock_of p = Some (lock_file_of p)"

text \<open>The state after process 0 took the lock, with further processes waiting in given phases.\<close>

definition with_phases :: "lock_file option \<Rightarrow> (nat \<Rightarrow> lock_phase) \<Rightarrow> bool \<Rightarrow> lock_state" where
  "with_phases f ph crashed0 = \<lparr>ls_file = f, ls_phase = ph, ls_dead = (\<lambda>p. crashed0 \<and> p = 0)\<rparr>"

lemma with_phases_step:
  "set_phase p x (with_phases f ph c) = with_phases f (ph(p := x)) c"
  "set_file g (with_phases f ph c) = with_phases g ph c"
  by (simp_all add: with_phases_def set_phase_def set_file_def)

lemma with_phases_sel [simp]:
  "ls_file (with_phases f ph c) = f" "ls_phase (with_phases f ph c) = ph"
  "live (with_phases f ph c) p = (ph p \<noteq> Unborn)"
  by (simp_all add: with_phases_def live_def)

text \<open>Steps of the concrete runs, on states given by the file and the phases.\<close>

lemma run_spawn:
  assumes "ph p = Unborn" "\<not> (c \<and> p = 0)"
  shows "lock_step race_config (with_phases f ph c) (with_phases f (ph(p := Idle)) c)"
  using lock_step.spawn [of "with_phases f ph c" p race_config] assms
  by (simp add: with_phases_def live_def race_config_def set_phase_def)

lemma run_begin:
  assumes "ph p = Idle"
  shows "lock_step race_config (with_phases f ph c) (with_phases f (ph(p := Trying)) c)"
  using lock_step.begin_wait [of "with_phases f ph c" p race_config] assms
  by (simp add: with_phases_step race_config_def)

lemma run_link:
  assumes "ph p = Trying"
  shows "lock_step race_config (with_phases None ph c) (with_phases (lock_of p) (ph(p := Critical)) c)"
  using lock_step.link [of "with_phases None ph c" p race_config] assms
  by (simp add: with_phases_step race_config_def lock_of_def lock_file_of_def)

lemma run_taken:
  assumes "ph p = Trying"
  shows "lock_step race_config (with_phases (lock_of q) ph c) (with_phases (lock_of q) (ph(p := Blocked)) c)"
  using lock_step.taken [of "with_phases (lock_of q) ph c" p _ race_config] assms
  by (simp add: with_phases_step lock_of_def)

lemma run_read:
  assumes "ph p = Blocked"
  shows "lock_step race_config (with_phases (lock_of q) ph c) (with_phases (lock_of q) (ph(p := Judging (lock_file_of q))) c)"
  using lock_step.read_holder [of "with_phases (lock_of q) ph c" p "lock_file_of q" race_config] assms
  by (simp add: with_phases_step lock_of_def lock_file_of_def readable_holder_def payload_of_def race_config_def)

lemma run_judge:
  assumes "ph p = Judging (lock_file_of q)" "ph q = Unborn"
  shows "lock_step race_config (with_phases f ph c) (with_phases f (ph(p := Reclaiming (lock_file_of q))) c)"
proof -
  have "holder_dead race_config (with_phases f ph c) (payload_of race_config q)"
    using assms(2) by (auto simp: holder_dead_def payload_of_def race_config_def)
  then show ?thesis
    using lock_step.judge_dead [of "with_phases f ph c" p "lock_file_of q" "payload_of race_config q" race_config] assms(1)
    by (simp add: with_phases_step lock_file_of_def)
qed

lemma run_release:
  assumes "ph p = Critical"
  shows "lock_step race_config (with_phases (lock_of p) ph c) (with_phases (lock_of p) (ph(p := Removing)) c)"
  using lock_step.release_own [of "with_phases (lock_of p) ph c" p "lock_file_of p" race_config] assms
  by (simp add: with_phases_step lock_of_def lock_file_of_def owns_payload_def)

lemma run_remove:
  assumes "ph p = Removing"
  shows "lock_step race_config (with_phases f ph c) (with_phases None (ph(p := Idle)) c)"
  using lock_step.remove [of "with_phases f ph c" p race_config] assms
  by (simp add: with_phases_step)

lemma run_reclaim:
  assumes "ph p = Reclaiming g"
  shows "lock_step race_config (with_phases f ph c) (with_phases None (ph(p := Trying)) c)"
  using lock_step.reclaim [of "with_phases f ph c" p g race_config] assms
  by (simp add: with_phases_step)

lemma run_crash:
  assumes "ph 0 \<noteq> Unborn"
  shows "lock_step race_config (with_phases f ph False) (with_phases f (ph(0 := Unborn)) True)"
proof -
  have "(set_phase 0 Unborn (with_phases f ph False))\<lparr>ls_dead := (ls_dead (with_phases f ph False))(0 := True)\<rparr> =
        with_phases f (ph(0 := Unborn)) True"
    by (simp add: with_phases_def set_phase_def fun_eq_iff)
  then show ?thesis
    using lock_step.crash [of "with_phases f ph False" 0 race_config] assms by simp
qed

lemma run_start: "reach lock_start M (with_phases None (\<lambda>_. Unborn) False)"
  by (rule reach_start) (simp add: lock_start_def with_phases_def)

lemma one_holder_reached:
  "reach lock_start (aimed_move race_config) (with_phases (lock_of 0) ((\<lambda>_. Unborn)(0 := Idle, 0 := Trying, 0 := Critical)) False)"
  by (rule reach_move [OF reach_move [OF reach_move [OF run_start]]];
      (unfold aimed_move_def, intro conjI)?;
      (rule run_spawn run_begin run_link)?; simp)

theorem sync_lock_exclusive_witness:
  "\<not> holding (with_phases (lock_of 0) ((\<lambda>_. Unborn)(0 := Idle, 0 := Trying, 0 := Critical)) False) 1 \<and>
   file_creator (with_phases (lock_of 0) ((\<lambda>_. Unborn)(0 := Idle, 0 := Trying, 0 := Critical)) False) = Some 0"
proof -
  let ?s = "with_phases (lock_of 0) ((\<lambda>_. Unborn)(0 := Idle, 0 := Trying, 0 := Critical)) False"
  have "holding ?s 0" by (simp add: holding_def)
  then show ?thesis
    using sync_lock_exclusive [OF one_holder_reached, of 0 1] sync_lock_exclusive [OF one_holder_reached, of 0 0]
    by auto
qed

lemma stale_verdict_reached:
  "reach lock_start (lock_step race_config)
     (with_phases (lock_of 0) ((\<lambda>_. Unborn)(0 := Idle, 0 := Trying, 0 := Critical, 0 := Unborn, 1 := Idle, 1 := Trying,
        1 := Blocked, 1 := Judging (lock_file_of 0), 1 := Reclaiming (lock_file_of 0))) True)"
  by (rule reach_move [OF reach_move [OF reach_move [OF reach_move [OF reach_move [OF reach_move [OF reach_move [OF reach_move
        [OF reach_move [OF run_start]]]]]]]]];
      (rule run_spawn run_begin run_link run_crash run_taken run_read run_judge)?; simp)

theorem stale_verdict_is_sound_witness:
  "let s = with_phases (lock_of 0) ((\<lambda>_. Unborn)(0 := Idle, 0 := Trying, 0 := Critical, 0 := Unborn, 1 := Idle, 1 := Trying,
        1 := Blocked, 1 := Judging (lock_file_of 0), 1 := Reclaiming (lock_file_of 0))) True
   in \<not> live s 0 \<and> ls_dead s 0"
proof -
  let ?s = "with_phases (lock_of 0) ((\<lambda>_. Unborn)(0 := Idle, 0 := Trying, 0 := Critical, 0 := Unborn, 1 := Idle, 1 := Trying,
        1 := Blocked, 1 := Judging (lock_file_of 0), 1 := Reclaiming (lock_file_of 0))) True"
  have "ls_phase ?s 1 = Reclaiming (lock_file_of 0)" by simp
  from stale_verdict_is_sound [OF stale_verdict_reached this] show ?thesis by (simp add: lock_file_of_def Let_def)
qed

text \<open>The rename does not make the reclaim exclusive: it takes away whatever lock is there.
  After a crash, two waiters that both read the dead holder end up in the critical section
  together: the second renames away the fresh, live lock of the first.\<close>

theorem two_reclaimers_both_enter:
  "\<exists>s. reach lock_start (lock_step race_config) s \<and> ls_phase s 1 = Critical \<and> ls_phase s 2 = Critical"
proof -
  let ?p0 = "\<lambda>_::nat. Unborn"
  let ?p1 = "?p0(0 := Idle)"
  let ?p2 = "?p1(0 := Trying)"
  let ?p3 = "?p2(0 := Critical)"
  let ?p4 = "?p3(0 := Unborn)"
  let ?p5 = "?p4(1 := Idle)"
  let ?p6 = "?p5(2 := Idle)"
  let ?p7 = "?p6(1 := Trying)"
  let ?p8 = "?p7(2 := Trying)"
  let ?p9 = "?p8(1 := Blocked)"
  let ?p10 = "?p9(2 := Blocked)"
  let ?p11 = "?p10(1 := Judging (lock_file_of 0))"
  let ?p12 = "?p11(2 := Judging (lock_file_of 0))"
  let ?p13 = "?p12(1 := Reclaiming (lock_file_of 0))"
  let ?p14 = "?p13(2 := Reclaiming (lock_file_of 0))"
  let ?p15 = "?p14(1 := Trying)"
  let ?p16 = "?p15(1 := Critical)"
  let ?p17 = "?p16(2 := Trying)"
  let ?p18 = "?p17(2 := Critical)"
  have "reach lock_start (lock_step race_config) (with_phases None ?p0 False)" by (rule run_start)
  then have "reach lock_start (lock_step race_config) (with_phases None ?p1 False)"
    by (rule reach_move) (rule run_spawn; simp)
  then have "reach lock_start (lock_step race_config) (with_phases None ?p2 False)"
    by (rule reach_move) (rule run_begin; simp)
  then have "reach lock_start (lock_step race_config) (with_phases (lock_of 0) ?p3 False)"
    by (rule reach_move) (rule run_link; simp)
  then have "reach lock_start (lock_step race_config) (with_phases (lock_of 0) ?p4 True)"
    by (rule reach_move) (rule run_crash; simp)
  then have "reach lock_start (lock_step race_config) (with_phases (lock_of 0) ?p5 True)"
    by (rule reach_move) (rule run_spawn; simp)
  then have "reach lock_start (lock_step race_config) (with_phases (lock_of 0) ?p6 True)"
    by (rule reach_move) (rule run_spawn; simp)
  then have "reach lock_start (lock_step race_config) (with_phases (lock_of 0) ?p7 True)"
    by (rule reach_move) (rule run_begin; simp)
  then have "reach lock_start (lock_step race_config) (with_phases (lock_of 0) ?p8 True)"
    by (rule reach_move) (rule run_begin; simp)
  then have "reach lock_start (lock_step race_config) (with_phases (lock_of 0) ?p9 True)"
    by (rule reach_move) (rule run_taken; simp)
  then have "reach lock_start (lock_step race_config) (with_phases (lock_of 0) ?p10 True)"
    by (rule reach_move) (rule run_taken; simp)
  then have "reach lock_start (lock_step race_config) (with_phases (lock_of 0) ?p11 True)"
    by (rule reach_move) (rule run_read; simp)
  then have "reach lock_start (lock_step race_config) (with_phases (lock_of 0) ?p12 True)"
    by (rule reach_move) (rule run_read; simp)
  then have "reach lock_start (lock_step race_config) (with_phases (lock_of 0) ?p13 True)"
    by (rule reach_move) (rule run_judge; simp)
  then have "reach lock_start (lock_step race_config) (with_phases (lock_of 0) ?p14 True)"
    by (rule reach_move) (rule run_judge; simp)
  then have "reach lock_start (lock_step race_config) (with_phases None ?p15 True)"
    by (rule reach_move) (rule run_reclaim; simp)
  then have "reach lock_start (lock_step race_config) (with_phases (lock_of 1) ?p16 True)"
    by (rule reach_move) (rule run_link; simp)
  then have "reach lock_start (lock_step race_config) (with_phases None ?p17 True)"
    by (rule reach_move) (rule run_reclaim; simp)
  then have "reach lock_start (lock_step race_config) (with_phases (lock_of 2) ?p18 True)"
    by (rule reach_move) (rule run_link; simp)
  then show ?thesis by (intro exI [of _ "with_phases (lock_of 2) ?p18 True"]) simp
qed

text \<open>Two reclaimers are not even needed.  While the only one of the run is between reading the
  holder and testing its pid, the holder releases and exits and another process takes the lock; the
  verdict on the old holder is right, and the rename takes away the new one's live lock.\<close>

definition lone_reclaimer :: "nat \<Rightarrow> lock_state \<Rightarrow> lock_state \<Rightarrow> bool" where
  "lone_reclaimer r s t \<longleftrightarrow> lock_step race_config s t \<and>
     (\<forall>p. p \<noteq> r \<longrightarrow> phase_copy (ls_phase t p) = None)"

lemma lone_move:
  "reach lock_start (lone_reclaimer r) s \<Longrightarrow> lock_step race_config s t \<Longrightarrow>
   (\<forall>p. p \<noteq> r \<longrightarrow> phase_copy (ls_phase t p) = None) \<Longrightarrow> reach lock_start (lone_reclaimer r) t"
  by (rule reach_move) (auto simp: lone_reclaimer_def)

theorem one_reclaimer_steals_live_lock:
  "\<exists>s. reach lock_start (lone_reclaimer 1) s \<and> ls_phase s 1 = Critical \<and> ls_phase s 2 = Critical"
proof -
  let ?p0 = "\<lambda>_::nat. Unborn"
  let ?p1 = "?p0(0 := Idle)"
  let ?p2 = "?p1(1 := Idle)"
  let ?p3 = "?p2(2 := Idle)"
  let ?p4 = "?p3(0 := Trying)"
  let ?p5 = "?p4(0 := Critical)"
  let ?p6 = "?p5(1 := Trying)"
  let ?p7 = "?p6(1 := Blocked)"
  let ?p8 = "?p7(1 := Judging (lock_file_of 0))"
  let ?p9 = "?p8(0 := Removing)"
  let ?p10 = "?p9(0 := Idle)"
  let ?p11 = "?p10(0 := Unborn)"
  let ?p12 = "?p11(2 := Trying)"
  let ?p13 = "?p12(2 := Critical)"
  let ?p14 = "?p13(1 := Reclaiming (lock_file_of 0))"
  let ?p15 = "?p14(1 := Trying)"
  let ?p16 = "?p15(1 := Critical)"
  have "reach lock_start (lone_reclaimer 1) (with_phases None ?p0 False)" by (rule run_start)
  then have "reach lock_start (lone_reclaimer 1) (with_phases None ?p1 False)"
    by - (rule lone_move, assumption, rule run_spawn, simp_all)
  then have "reach lock_start (lone_reclaimer 1) (with_phases None ?p2 False)"
    by - (rule lone_move, assumption, rule run_spawn, simp_all)
  then have "reach lock_start (lone_reclaimer 1) (with_phases None ?p3 False)"
    by - (rule lone_move, assumption, rule run_spawn, simp_all)
  then have "reach lock_start (lone_reclaimer 1) (with_phases None ?p4 False)"
    by - (rule lone_move, assumption, rule run_begin, simp_all)
  then have "reach lock_start (lone_reclaimer 1) (with_phases (lock_of 0) ?p5 False)"
    by - (rule lone_move, assumption, rule run_link, simp_all)
  then have "reach lock_start (lone_reclaimer 1) (with_phases (lock_of 0) ?p6 False)"
    by - (rule lone_move, assumption, rule run_begin, simp_all)
  then have "reach lock_start (lone_reclaimer 1) (with_phases (lock_of 0) ?p7 False)"
    by - (rule lone_move, assumption, rule run_taken, simp_all)
  then have "reach lock_start (lone_reclaimer 1) (with_phases (lock_of 0) ?p8 False)"
    by - (rule lone_move, assumption, rule run_read, simp_all)
  then have "reach lock_start (lone_reclaimer 1) (with_phases (lock_of 0) ?p9 False)"
    by - (rule lone_move, assumption, rule run_release, simp_all)
  then have "reach lock_start (lone_reclaimer 1) (with_phases None ?p10 False)"
    by - (rule lone_move, assumption, rule run_remove, simp_all)
  then have "reach lock_start (lone_reclaimer 1) (with_phases None ?p11 True)"
    by - (rule lone_move, assumption, rule run_crash, simp_all)
  then have "reach lock_start (lone_reclaimer 1) (with_phases None ?p12 True)"
    by - (rule lone_move, assumption, rule run_begin, simp_all)
  then have "reach lock_start (lone_reclaimer 1) (with_phases (lock_of 2) ?p13 True)"
    by - (rule lone_move, assumption, rule run_link, simp_all)
  then have "reach lock_start (lone_reclaimer 1) (with_phases (lock_of 2) ?p14 True)"
    by - (rule lone_move, assumption, rule run_judge, simp_all)
  then have "reach lock_start (lone_reclaimer 1) (with_phases None ?p15 True)"
    by - (rule lone_move, assumption, rule run_reclaim, simp_all)
  then have "reach lock_start (lone_reclaimer 1) (with_phases (lock_of 1) ?p16 True)"
    by - (rule lone_move, assumption, rule run_link, simp_all)
  then show ?thesis by (intro exI [of _ "with_phases (lock_of 1) ?p16 True"]) simp
qed

section \<open>Parsing the start time\<close>

lemma index_of_append: "c \<notin> set xs \<Longrightarrow> index_of c (xs @ c # ys) = Some (length xs)"
  by (induction xs) auto

lemma last_index_of_append: "c \<notin> set ys \<Longrightarrow> last_index_of c (xs @ c # ys) = Some (length xs)"
  by (simp add: last_index_of_def index_of_append)

definition word_field :: "string \<Rightarrow> bool" where
  "word_field f \<longleftrightarrow> f \<noteq> [] \<and> list_all (\<lambda>c. \<not> is_js_space c) f"

lemma space_is_space: "is_js_space (CHR '' '')"
  by (simp add: is_js_space_def)

declare split_spaces.simps [simp del]

lemma split_spaces_word: "word_field f \<Longrightarrow> split_spaces f = [f]"
  by (subst split_spaces.simps) (simp add: word_field_def list_all_iff)

lemma split_spaces_Cons:
  assumes "word_field f" "word_field g"
  shows "split_spaces (f @ '' '' @ g @ r) = f # split_spaces (g @ r)"
proof -
  have "dropWhile is_js_space (g @ r) = g @ r"
    using assms(2) by (cases g) (auto simp: word_field_def)
  moreover have "takeWhile (\<lambda>c. \<not> is_js_space c) (f @ '' '' @ g @ r) = f"
    "dropWhile (\<lambda>c. \<not> is_js_space c) (f @ '' '' @ g @ r) = '' '' @ g @ r"
    using assms(1) space_is_space by (auto simp: word_field_def list_all_iff takeWhile_append dropWhile_append)
  ultimately show ?thesis
    using space_is_space by (subst split_spaces.simps) simp
qed

lemma split_spaces_join:
  "fs \<noteq> [] \<Longrightarrow> \<forall>f \<in> set fs. word_field f \<Longrightarrow> split_spaces (join_with '' '' fs) = fs"
proof (induction fs rule: induct_list012)
  case (3 f g fs)
  have "join_with '' '' (g # fs) = g @ (case fs of [] \<Rightarrow> [] | _ \<Rightarrow> '' '' @ join_with '' '' fs)"
    by (cases fs) simp_all
  with 3 split_spaces_Cons [of f g] show ?case by (auto split: list.splits)
qed (simp_all add: split_spaces_word)

lemma trim_join:
  assumes "fs \<noteq> []" "\<forall>f \<in> set fs. word_field f"
  shows "js_trim ('' '' @ join_with '' '' fs @ [CHR 0x0A]) = join_with '' '' fs"
proof -
  have ends: "xs \<noteq> [] \<Longrightarrow> \<forall>f \<in> set xs. word_field f \<Longrightarrow> join_with '' '' xs \<noteq> [] \<and>
      \<not> is_js_space (hd (join_with '' '' xs)) \<and> \<not> is_js_space (last (join_with '' '' xs))" for xs
  proof (induction xs)
    case (Cons x xs)
    then have "x \<noteq> []" "\<not> is_js_space (hd x)" "\<not> is_js_space (last x)"
      by (auto simp: word_field_def list_all_iff)
    with Cons show ?case by (cases xs) auto
  qed simp
  obtain c cs where j: "join_with '' '' fs = c # cs" "\<not> is_js_space c"
    using ends [OF assms] by (cases "join_with '' '' fs") auto
  obtain d ds where k: "rev (join_with '' '' fs) = d # ds" "\<not> is_js_space d"
    using ends [OF assms] by (cases "rev (join_with '' '' fs)") (auto simp: last_rev hd_rev [symmetric] rev_swap)
  have "is_js_space (CHR 0x0A)" by (simp add: is_js_space_def)
  then have "dropWhile is_js_space (rev (join_with '' '' fs @ [CHR 0x0A])) = rev (join_with '' '' fs)"
    using k by simp
  moreover have "dropWhile is_js_space ('' '' @ join_with '' '' fs @ [CHR 0x0A]) = join_with '' '' fs @ [CHR 0x0A]"
    using space_is_space j by simp
  ultimately show ?thesis by (simp add: js_trim_def)
qed

text \<open>The start time that identifies a process is read correctly from its stat line whatever its
  command name contains: spaces, digits and parentheses of the name are never taken for fields.\<close>

theorem proc_stat_ticks_correct:
  assumes "CHR ''('' \<notin> set pid" and "\<forall>f \<in> set fs. word_field f \<and> CHR '')'' \<notin> set f"
    and "19 < length fs" and "length (hd fs) = 1" and "is_ascii_alpha (hd (hd fs))" and "list_all is_digit_char (fs ! 19)"
  shows "parse_linux_proc_stat_start_ticks (pid @ ''('' @ comm @ '')'' @ '' '' @ join_with '' '' fs @ [CHR 0x0A]) = Some (fs ! 19)"
proof -
  let ?t = "'' '' @ join_with '' '' fs @ [CHR 0x0A]"
  have "fs \<noteq> []" using assms(3) by auto
  have "CHR '')'' \<notin> set (join_with '' '' xs)" if "\<forall>f \<in> set xs. CHR '')'' \<notin> set f" for xs
    using that by (induction "'' ''" xs rule: join_with.induct) auto
  then have "CHR '')'' \<notin> set ?t" using assms(2) by simp
  then have closing: "last_index_of (CHR '')'') ((pid @ ''('' @ comm) @ CHR '')'' # ?t) = Some (length (pid @ ''('' @ comm))"
    by (rule last_index_of_append)
  have op: "index_of (CHR ''('') (pid @ CHR ''('' # (comm @ '')'' @ ?t)) = Some (length pid)"
    by (rule index_of_append) (rule assms(1))
  have fields: "split_spaces (js_trim ?t) = fs"
    using assms(2) \<open>fs \<noteq> []\<close> trim_join split_spaces_join by simp
  have ticks: "fs ! 19 \<noteq> []" using assms(2,3) by (simp add: word_field_def)
  show ?thesis
    using op closing fields ticks assms(3-6)
    by (simp add: parse_linux_proc_stat_start_ticks_def)
qed

theorem proc_stat_ticks_correct_witness:
  "parse_linux_proc_stat_start_ticks
     (''7 '' @ ''('' @ ''a) S (1'' @ '')'' @ '' '' @ join_with '' '' (''R'' # replicate 18 ''0'' @ [''4711'']) @ [CHR 0x0A])
   = Some ((''R'' # replicate 18 ''0'' @ [''4711'']) ! 19)"
  by (rule proc_stat_ticks_correct)
    (auto simp: word_field_def is_js_space_def is_ascii_alpha_def is_ascii_upper_def is_digit_char_def nth_append)

end
