(* ===== verification/FileLock.thy ===== *)
theory FileLock
  imports JsPrelude
begin

text \<open>
  The advisory file lock, \<^verbatim>\<open>withFileLock\<close> and \<^verbatim>\<open>withFileLockSync\<close> of
  \<^verbatim>\<open>lib/util/file-lock.js\<close>, as a transition system over system calls on the lock file.  Both
  functions make the same calls; only the asynchronous one has the heartbeat.  Time is a counter,
  the clock of the processes and of the file system; the lock file carries the token of the call
  that created it, once written, and its modification time.
\<close>

section \<open>The lock\<close>

text \<open>A participant is one call of the lock function.  (A call draws a token per attempt, but
  creates a lock file in its last attempt only, so the call stands for its token.)  Its phases: not
  started; about to open the lock file exclusively; found it, about to stat it; has its
  modification time, about to read the clock; judged that time stale, about to rename the file
  away; opened it, about to write the token; inside the critical section; found its own token, about
  to remove the file; returned, thrown or dead.\<close>

datatype file_phase =
  Outside | Opening | Statting | Aging nat | Stealing nat | Writing | Inside | Leaving | Ended

record lock_entry =
  le_creator :: nat
  le_written :: bool
  le_mtime :: nat

text \<open>The touches are the times of heartbeats that were issued and have not reached the file yet:
  \<^verbatim>\<open>fsp.utimes\<close> is not awaited, so a touch can land late, after the release of the lock or on
  the lock of a successor.\<close>

record file_world =
  fw_entry :: "lock_entry option"
  fw_phase :: "nat \<Rightarrow> file_phase"
  fw_now :: nat
  fw_touches :: "nat list"

definition to_phase :: "nat \<Rightarrow> file_phase \<Rightarrow> file_world \<Rightarrow> file_world" where
  "to_phase p ph w = w\<lparr>fw_phase := (fw_phase w)(p := ph)\<rparr>"

definition put_entry :: "lock_entry option \<Rightarrow> file_world \<Rightarrow> file_world" where
  "put_entry e w = w\<lparr>fw_entry := e\<rparr>"

definition own_token :: "nat \<Rightarrow> lock_entry \<Rightarrow> bool" where
  "own_token p e \<longleftrightarrow> le_creator e = p \<and> le_written e"

text \<open>The step \<open>give_up\<close> is every way a call ends early: the deadline, an error that is thrown
  (\<^verbatim>\<open>open\<close>, \<^verbatim>\<open>stat\<close>, \<^verbatim>\<open>rename\<close> or the write of the token), a failed read or removal at the
  release, which leaves the lock file behind, and the death of the process.  The step \<open>stat_none\<close>
  is a stat that fails, whatever the reason: the asynchronous variant tries again after each.\<close>

inductive file_step :: "nat \<Rightarrow> file_world \<Rightarrow> file_world \<Rightarrow> bool" for stale_ms :: nat where
  enter: "fw_phase w p = Outside \<Longrightarrow> file_step stale_ms w (to_phase p Opening w)"
| open_new: "fw_phase w p = Opening \<Longrightarrow> fw_entry w = None \<Longrightarrow>
    file_step stale_ms w
      (put_entry (Some \<lparr>le_creator = p, le_written = False, le_mtime = fw_now w\<rparr>) (to_phase p Writing w))"
| open_exists: "fw_phase w p = Opening \<Longrightarrow> fw_entry w = Some e \<Longrightarrow> file_step stale_ms w (to_phase p Statting w)"
| stat_none: "fw_phase w p = Statting \<Longrightarrow> file_step stale_ms w (to_phase p Opening w)"
| stat_found: "fw_phase w p = Statting \<Longrightarrow> fw_entry w = Some e \<Longrightarrow>
    file_step stale_ms w (to_phase p (Aging (le_mtime e)) w)"
| age_fresh: "fw_phase w p = Aging m \<Longrightarrow> fw_now w - m \<le> stale_ms \<Longrightarrow> file_step stale_ms w (to_phase p Opening w)"
| age_stale: "fw_phase w p = Aging m \<Longrightarrow> stale_ms < fw_now w - m \<Longrightarrow> file_step stale_ms w (to_phase p (Stealing m) w)"
| steal: "fw_phase w p = Stealing m \<Longrightarrow> file_step stale_ms w (put_entry None (to_phase p Opening w))"
| write_token: "fw_phase w p = Writing \<Longrightarrow> fw_entry w = Some e \<Longrightarrow> le_creator e = p \<Longrightarrow>
    file_step stale_ms w (put_entry (Some (e\<lparr>le_written := True, le_mtime := fw_now w\<rparr>)) (to_phase p Inside w))"
| write_stolen: "fw_phase w p = Writing \<Longrightarrow> (\<forall>e. fw_entry w = Some e \<longrightarrow> le_creator e \<noteq> p) \<Longrightarrow>
    file_step stale_ms w (to_phase p Inside w)"
| heartbeat: "fw_phase w p = Inside \<Longrightarrow> file_step stale_ms w (w\<lparr>fw_touches := fw_now w # fw_touches w\<rparr>)"
| touch: "fw_touches w = us @ u # vs \<Longrightarrow>
    file_step stale_ms w
      (put_entry (map_option (\<lambda>e. e\<lparr>le_mtime := u\<rparr>) (fw_entry w)) (w\<lparr>fw_touches := us @ vs\<rparr>))"
| finish_own: "fw_phase w p = Inside \<Longrightarrow> fw_entry w = Some e \<Longrightarrow> own_token p e \<Longrightarrow>
    file_step stale_ms w (to_phase p Leaving w)"
| finish_lost: "fw_phase w p = Inside \<Longrightarrow> (\<forall>e. fw_entry w = Some e \<longrightarrow> \<not> own_token p e) \<Longrightarrow>
    file_step stale_ms w (to_phase p Ended w)"
| unlink: "fw_phase w p = Leaving \<Longrightarrow> file_step stale_ms w (put_entry None (to_phase p Ended w))"
| give_up: "fw_phase w p \<noteq> Outside \<Longrightarrow> file_step stale_ms w (to_phase p Ended w)"
| tick: "file_step stale_ms w (w\<lparr>fw_now := Suc (fw_now w)\<rparr>)"

definition file_start :: "file_world \<Rightarrow> bool" where
  "file_start w \<longleftrightarrow> fw_entry w = None \<and> fw_phase w = (\<lambda>_. Outside) \<and> fw_touches w = []"

definition in_lock :: "file_world \<Rightarrow> nat \<Rightarrow> bool" where
  "in_lock w p \<longleftrightarrow> fw_phase w p \<in> {Writing, Inside, Leaving}"

definition entry_creator :: "file_world \<Rightarrow> nat option" where
  "entry_creator w = map_option le_creator (fw_entry w)"

section \<open>Exclusion\<close>

text \<open>What the header of the code asks of its environment: the lock file of a live holder never
  looks stale.  What it does not ask: a rename finds the modification time that was judged, so that
  neither a touch nor a hand-over came between the stat and the rename.\<close>

definition timely :: "nat \<Rightarrow> file_world \<Rightarrow> bool" where
  "timely stale_ms w \<longleftrightarrow>
     (\<forall>e. fw_entry w = Some e \<longrightarrow> in_lock w (le_creator e) \<longrightarrow> fw_now w - le_mtime e \<le> stale_ms)"

definition timely_step :: "nat \<Rightarrow> file_world \<Rightarrow> file_world \<Rightarrow> bool" where
  "timely_step stale_ms w v \<longleftrightarrow> file_step stale_ms w v \<and> timely stale_ms v"

definition aimed_steal :: "file_world \<Rightarrow> file_world \<Rightarrow> bool" where
  "aimed_steal w v \<longleftrightarrow>
     (\<forall>p m e. fw_phase w p = Stealing m \<longrightarrow> fw_phase v p = Opening \<longrightarrow> fw_entry w = Some e \<longrightarrow> le_mtime e = m)"

definition calm_step :: "nat \<Rightarrow> file_world \<Rightarrow> file_world \<Rightarrow> bool" where
  "calm_step stale_ms w v \<longleftrightarrow> timely_step stale_ms w v \<and> aimed_steal w v"

definition file_inv :: "nat \<Rightarrow> file_world \<Rightarrow> bool" where
  "file_inv stale_ms w \<longleftrightarrow>
     timely stale_ms w \<and>
     (\<forall>p. in_lock w p \<longrightarrow> (\<exists>e. fw_entry w = Some e \<and> le_creator e = p \<and> (le_written e \<or> fw_phase w p = Writing))) \<and>
     (\<forall>p m. fw_phase w p = Stealing m \<longrightarrow> stale_ms < fw_now w - m)"

lemma world_simps [simp]:
  "fw_phase (to_phase p ph w) = (fw_phase w)(p := ph)" "fw_entry (to_phase p ph w) = fw_entry w"
  "fw_now (to_phase p ph w) = fw_now w" "fw_phase (put_entry e w) = fw_phase w"
  "fw_entry (put_entry e w) = e" "fw_now (put_entry e w) = fw_now w"
  by (simp_all add: to_phase_def put_entry_def)

lemma file_inv_dest:
  assumes "file_inv stale_ms w"
  shows "in_lock w p \<Longrightarrow> \<exists>e. fw_entry w = Some e \<and> le_creator e = p \<and> (le_written e \<or> fw_phase w p = Writing)"
    and "fw_phase w p = Stealing m \<Longrightarrow> stale_ms < fw_now w - m"
    and "timely stale_ms w"
  using assms by (simp_all add: file_inv_def)

lemma in_lock_alone:
  assumes "file_inv stale_ms w" "in_lock w p" "in_lock w q"
  shows "q = p"
  using file_inv_dest(1) [OF assms(1,2)] file_inv_dest(1) [OF assms(1,3)] by auto

lemma file_inv_start: "file_start w \<Longrightarrow> file_inv stale_ms w"
  by (simp add: file_start_def file_inv_def timely_def in_lock_def)

text \<open>A rename that finds the time it judged finds nobody's lock.\<close>

lemma aimed_steal_free:
  assumes inv: "file_inv stale_ms w" and p: "fw_phase w p = Stealing m"
    and aimed: "\<And>e. fw_entry w = Some e \<Longrightarrow> le_mtime e = m"
  shows "\<not> in_lock w q"
proof
  assume q: "in_lock w q"
  then obtain e where e: "fw_entry w = Some e" "le_creator e = q" using file_inv_dest(1) [OF inv] by blast
  then have "fw_now w - m \<le> stale_ms" using file_inv_dest(3) [OF inv] q aimed by (auto simp: timely_def)
  with file_inv_dest(2) [OF inv p] show False by simp
qed

lemma stealing_stays_stale:
  assumes "file_inv stale_ms w" "file_step stale_ms w v" "fw_phase v p = Stealing m"
  shows "stale_ms < fw_now v - m"
  using assms(2)
  by cases (use assms(3) file_inv_dest(2) [OF assms(1), of p m] in \<open>auto split: if_splits\<close>)

lemma file_inv_step:
  assumes inv: "file_inv stale_ms w" and step: "file_step stale_ms w v"
    and timely: "timely stale_ms v" and aimed: "aimed_steal w v"
  shows "file_inv stale_ms v"
proof -
  have "\<exists>e. fw_entry v = Some e \<and> le_creator e = q \<and> (le_written e \<or> fw_phase v q = Writing)"
    if q: "in_lock v q" for q
    using step
  proof cases
    case (open_new p)
    have "\<not> in_lock w r" for r using file_inv_dest(1) [OF inv, of r] open_new(3) by auto
    then show ?thesis using q by (auto simp: open_new(1) in_lock_def split: if_splits)
  next
    case (steal p m)
    then have "\<not> in_lock w q"
      using aimed by (intro aimed_steal_free [OF inv steal(2)]) (auto simp: aimed_steal_def)
    then show ?thesis using q by (auto simp: steal(1) in_lock_def split: if_splits)
  next
    case (write_token p e)
    then have "in_lock w p" by (simp add: in_lock_def)
    then have "q = p" using q in_lock_alone [OF inv, of p q] by (auto simp: write_token(1) in_lock_def split: if_splits)
    then show ?thesis using write_token by simp
  next
    case (write_stolen p)
    then have "in_lock w p" by (simp add: in_lock_def)
    then show ?thesis using file_inv_dest(1) [OF inv] write_stolen(3) by blast
  next
    case (touch us u vs)
    then have "in_lock w q" using q by (simp add: in_lock_def)
    then show ?thesis using file_inv_dest(1) [OF inv, of q] by (auto simp: touch(1))
  next
    case (finish_own p e)
    then show ?thesis
      using q file_inv_dest(1) [OF inv, of q] by (auto simp: in_lock_def own_token_def split: if_splits)
  next
    case (unlink p)
    then have "in_lock w p" by (simp add: in_lock_def)
    then show ?thesis using q in_lock_alone [OF inv, of p q] by (auto simp: unlink(1) in_lock_def split: if_splits)
  qed (use q file_inv_dest(1) [OF inv, of q] in \<open>auto simp: in_lock_def split: if_splits\<close>)
  then show ?thesis using timely stealing_stays_stale [OF inv step] by (simp add: file_inv_def)
qed

interpretation file_lock: owned_lock file_start "calm_step stale_ms" "file_inv stale_ms" in_lock entry_creator
proof unfold_locales
  show "file_start w \<Longrightarrow> file_inv stale_ms w" for w by (rule file_inv_start)
  show "file_inv stale_ms w \<Longrightarrow> calm_step stale_ms w v \<Longrightarrow> file_inv stale_ms v" for w v
    unfolding calm_step_def timely_step_def using file_inv_step by blast
  show "file_inv stale_ms w \<Longrightarrow> in_lock w p \<Longrightarrow> entry_creator w = Some p" for w p
    using file_inv_dest(1) [of stale_ms w p] by (auto simp: entry_creator_def)
qed

text \<open>C20. The file lock excludes, provided that the lock file of a live holder never looks stale and
  that each rename of a stale lock still finds the modification time it judged: at most one call is
  between opening the lock file and removing it, and the file is that call's own.  Every system call
  is a step of its own, the stat and the reading of the clock included, and heartbeats may land
  late.\<close>

theorem file_lock_exclusive:
  assumes "reach file_start (calm_step stale_ms) w" and "in_lock w p" and "in_lock w q"
  shows "p = q \<and> entry_creator w = Some p"
  using file_lock.mutual_exclusion [OF assms] file_lock.holds_owner [OF file_lock.reachable_inv [OF assms(1)] assms(2)]
  by simp

section \<open>Runs\<close>

definition world :: "lock_entry option \<Rightarrow> (nat \<Rightarrow> file_phase) \<Rightarrow> nat \<Rightarrow> nat list \<Rightarrow> file_world" where
  "world e ph t us = \<lparr>fw_entry = e, fw_phase = ph, fw_now = t, fw_touches = us\<rparr>"

definition entry_of :: "nat \<Rightarrow> bool \<Rightarrow> nat \<Rightarrow> lock_entry option" where
  "entry_of p wr t = Some \<lparr>le_creator = p, le_written = wr, le_mtime = t\<rparr>"

lemma world_sel [simp]:
  "fw_entry (world e ph t us) = e" "fw_phase (world e ph t us) = ph" "fw_now (world e ph t us) = t"
  "fw_touches (world e ph t us) = us"
  "to_phase p x (world e ph t us) = world e (ph(p := x)) t us" "put_entry g (world e ph t us) = world g ph t us"
  "(world e ph t us)\<lparr>fw_now := u\<rparr> = world e ph u us" "(world e ph t us)\<lparr>fw_touches := vs\<rparr> = world e ph t vs"
  by (simp_all add: world_def to_phase_def put_entry_def)

lemma timely_world:
  "timely n (world None ph t us)"
  "t - u \<le> n \<or> ph p \<notin> {Writing, Inside, Leaving} \<Longrightarrow> timely n (world (entry_of p wr u) ph t us)"
  by (auto simp: timely_def entry_of_def in_lock_def)

lemma go_enter: "ph p = Outside \<Longrightarrow> file_step n (world e ph t us) (world e (ph(p := Opening)) t us)"
  using file_step.enter [of "world e ph t us" p n] by simp

lemma go_open: "ph p = Opening \<Longrightarrow> file_step n (world None ph t us) (world (entry_of p False t) (ph(p := Writing)) t us)"
  using file_step.open_new [of "world None ph t us" p n] by (simp add: entry_of_def)

lemma go_write: "ph p = Writing \<Longrightarrow>
    file_step n (world (entry_of p False u) ph t us) (world (entry_of p True t) (ph(p := Inside)) t us)"
  using file_step.write_token [of "world (entry_of p False u) ph t us" p _ n] by (simp add: entry_of_def)

lemma go_exists: "ph p = Opening \<Longrightarrow>
    file_step n (world (entry_of q wr u) ph t us) (world (entry_of q wr u) (ph(p := Statting)) t us)"
  using file_step.open_exists [of "world (entry_of q wr u) ph t us" p _ n] by (simp add: entry_of_def)

lemma go_stat: "ph p = Statting \<Longrightarrow>
    file_step n (world (entry_of q wr u) ph t us) (world (entry_of q wr u) (ph(p := Aging u)) t us)"
  using file_step.stat_found [of "world (entry_of q wr u) ph t us" p _ n] by (simp add: entry_of_def)

lemma go_stale: "ph p = Aging m \<Longrightarrow> n < t - m \<Longrightarrow> file_step n (world e ph t us) (world e (ph(p := Stealing m)) t us)"
  using file_step.age_stale [of "world e ph t us" p m n] by simp

lemma go_steal: "ph p = Stealing m \<Longrightarrow> file_step n (world e ph t us) (world None (ph(p := Opening)) t us)"
  using file_step.steal [of "world e ph t us" p m n] by simp

lemma go_finish: "ph p = Inside \<Longrightarrow>
    file_step n (world (entry_of p True u) ph t us) (world (entry_of p True u) (ph(p := Leaving)) t us)"
  using file_step.finish_own [of "world (entry_of p True u) ph t us" p _ n] by (simp add: entry_of_def own_token_def)

lemma go_unlink: "ph p = Leaving \<Longrightarrow> file_step n (world e ph t us) (world None (ph(p := Ended)) t us)"
  using file_step.unlink [of "world e ph t us" p n] by simp

lemma go_end: "ph p \<noteq> Outside \<Longrightarrow> file_step n (world e ph t us) (world e (ph(p := Ended)) t us)"
  using file_step.give_up [of "world e ph t us" p n] by simp

lemma go_tick: "u = Suc t \<Longrightarrow> file_step n (world e ph t us) (world e ph u us)"
  using file_step.tick [of n "world e ph t us"] by simp

lemma go_start: "reach file_start M (world None (\<lambda>_. Outside) 0 [])"
  by (rule reach_start) (simp add: file_start_def)

lemma timelyI: "file_step n w v \<Longrightarrow> timely n v \<Longrightarrow> timely_step n w v"
  by (simp add: timely_step_def)

lemma calmI: "file_step n w v \<Longrightarrow> timely n v \<Longrightarrow> (\<And>p m. fw_phase w p \<noteq> Stealing m) \<Longrightarrow> calm_step n w v"
  by (simp add: calm_step_def timely_step_def aimed_steal_def)

lemma one_inside:
  "reach file_start (calm_step 1) (world (entry_of 0 True 0) ((\<lambda>_. Outside)(0 := Opening, 0 := Writing, 0 := Inside)) 0 [])"
proof -
  let ?p0 = "\<lambda>_::nat. Outside"
  let ?p1 = "?p0(0 := Opening)"
  let ?p2 = "?p1(0 := Writing)"
  let ?p3 = "?p2(0 := Inside)"
  have "reach file_start (calm_step 1) (world None ?p0 0 [])" by (rule go_start)
  then have "reach file_start (calm_step 1) (world None ?p1 0 [])"
    by (rule reach_move) (rule calmI, rule go_enter; simp add: timely_world)
  then have "reach file_start (calm_step 1) (world (entry_of 0 False 0) ?p2 0 [])"
    by (rule reach_move) (rule calmI, rule go_open; simp add: timely_world)
  then have "reach file_start (calm_step 1) (world (entry_of 0 True 0) ?p3 0 [])"
    by (rule reach_move) (rule calmI, rule go_write; simp add: timely_world)
  then show ?thesis by simp
qed

theorem file_lock_exclusive_witness:
  "\<not> in_lock (world (entry_of 0 True 0) ((\<lambda>_. Outside)(0 := Opening, 0 := Writing, 0 := Inside)) 0 []) 1"
  using file_lock_exclusive [OF one_inside, of 0 1] by (auto simp: in_lock_def)

text \<open>Stealing is not exclusive, with every heartbeat on time: after a crash two waiters see the
  same stale lock; the first renames it away and enters, the second then renames away the fresh
  lock of the first and enters too.\<close>

theorem stealing_is_not_exclusive:
  "\<exists>w. reach file_start (timely_step 1) w \<and> fw_phase w 1 = Inside \<and> fw_phase w 2 = Inside"
proof -
  let ?p0 = "\<lambda>_::nat. Outside"
  let ?p1 = "?p0(0 := Opening)"
  let ?p2 = "?p1(0 := Writing)"
  let ?p3 = "?p2(0 := Ended)"
  let ?p4 = "?p3(1 := Opening)"
  let ?p5 = "?p4(2 := Opening)"
  let ?p6 = "?p5(1 := Statting)"
  let ?p7 = "?p6(2 := Statting)"
  let ?p8 = "?p7(1 := Aging 0)"
  let ?p9 = "?p8(2 := Aging 0)"
  let ?p10 = "?p9(1 := Stealing 0)"
  let ?p11 = "?p10(2 := Stealing 0)"
  let ?p12 = "?p11(1 := Opening)"
  let ?p13 = "?p12(1 := Writing)"
  let ?p14 = "?p13(1 := Inside)"
  let ?p15 = "?p14(2 := Opening)"
  let ?p16 = "?p15(2 := Writing)"
  let ?p17 = "?p16(2 := Inside)"
  have "reach file_start (timely_step 1) (world None ?p0 0 [])" by (rule go_start)
  then have "reach file_start (timely_step 1) (world None ?p1 0 [])"
    by (rule reach_move) (rule timelyI, rule go_enter; simp add: timely_world)
  then have "reach file_start (timely_step 1) (world (entry_of 0 False 0) ?p2 0 [])"
    by (rule reach_move) (rule timelyI, rule go_open; simp add: timely_world)
  then have "reach file_start (timely_step 1) (world (entry_of 0 False 0) ?p3 0 [])"
    by (rule reach_move) (rule timelyI, rule go_end; simp add: timely_world)
  then have "reach file_start (timely_step 1) (world (entry_of 0 False 0) ?p3 1 [])"
    by (rule reach_move) (rule timelyI, rule go_tick; simp add: timely_world)
  then have "reach file_start (timely_step 1) (world (entry_of 0 False 0) ?p3 2 [])"
    by (rule reach_move) (rule timelyI, rule go_tick; simp add: timely_world)
  then have "reach file_start (timely_step 1) (world (entry_of 0 False 0) ?p4 2 [])"
    by (rule reach_move) (rule timelyI, rule go_enter; simp add: timely_world)
  then have "reach file_start (timely_step 1) (world (entry_of 0 False 0) ?p5 2 [])"
    by (rule reach_move) (rule timelyI, rule go_enter; simp add: timely_world)
  then have "reach file_start (timely_step 1) (world (entry_of 0 False 0) ?p6 2 [])"
    by (rule reach_move) (rule timelyI, rule go_exists; simp add: timely_world)
  then have "reach file_start (timely_step 1) (world (entry_of 0 False 0) ?p7 2 [])"
    by (rule reach_move) (rule timelyI, rule go_exists; simp add: timely_world)
  then have "reach file_start (timely_step 1) (world (entry_of 0 False 0) ?p8 2 [])"
    by (rule reach_move) (rule timelyI, rule go_stat; simp add: timely_world)
  then have "reach file_start (timely_step 1) (world (entry_of 0 False 0) ?p9 2 [])"
    by (rule reach_move) (rule timelyI, rule go_stat; simp add: timely_world)
  then have "reach file_start (timely_step 1) (world (entry_of 0 False 0) ?p10 2 [])"
    by (rule reach_move) (rule timelyI, rule go_stale; simp add: timely_world)
  then have "reach file_start (timely_step 1) (world (entry_of 0 False 0) ?p11 2 [])"
    by (rule reach_move) (rule timelyI, rule go_stale; simp add: timely_world)
  then have "reach file_start (timely_step 1) (world None ?p12 2 [])"
    by (rule reach_move) (rule timelyI, rule go_steal; simp add: timely_world)
  then have "reach file_start (timely_step 1) (world (entry_of 1 False 2) ?p13 2 [])"
    by (rule reach_move) (rule timelyI, rule go_open; simp add: timely_world)
  then have "reach file_start (timely_step 1) (world (entry_of 1 True 2) ?p14 2 [])"
    by (rule reach_move) (rule timelyI, rule go_write; simp add: timely_world)
  then have "reach file_start (timely_step 1) (world None ?p15 2 [])"
    by (rule reach_move) (rule timelyI, rule go_steal; simp add: timely_world)
  then have "reach file_start (timely_step 1) (world (entry_of 2 False 2) ?p16 2 [])"
    by (rule reach_move) (rule timelyI, rule go_open; simp add: timely_world)
  then have "reach file_start (timely_step 1) (world (entry_of 2 True 2) ?p17 2 [])"
    by (rule reach_move) (rule timelyI, rule go_write; simp add: timely_world)
  then show ?thesis by (intro exI [of _ "(world (entry_of 2 True 2) ?p17 2 [])"]) simp
qed

text \<open>One waiter is enough: when it is held up for the stale time between the stat and the
  clock, it steals the lock that was handed over in between, though nobody crashed.\<close>

theorem late_clock_steals_fresh_lock:
  "\<exists>w. reach file_start (timely_step 1) w \<and> fw_phase w 1 = Inside \<and> fw_phase w 2 = Inside \<and> fw_now w = 2"
proof -
  let ?p0 = "\<lambda>_::nat. Outside"
  let ?p1 = "?p0(0 := Opening)"
  let ?p2 = "?p1(0 := Writing)"
  let ?p3 = "?p2(0 := Inside)"
  let ?p4 = "?p3(1 := Opening)"
  let ?p5 = "?p4(1 := Statting)"
  let ?p6 = "?p5(1 := Aging 0)"
  let ?p7 = "?p6(0 := Leaving)"
  let ?p8 = "?p7(0 := Ended)"
  let ?p9 = "?p8(2 := Opening)"
  let ?p10 = "?p9(2 := Writing)"
  let ?p11 = "?p10(2 := Inside)"
  let ?p12 = "?p11(1 := Stealing 0)"
  let ?p13 = "?p12(1 := Opening)"
  let ?p14 = "?p13(1 := Writing)"
  let ?p15 = "?p14(1 := Inside)"
  have "reach file_start (timely_step 1) (world None ?p0 0 [])" by (rule go_start)
  then have "reach file_start (timely_step 1) (world None ?p1 0 [])"
    by (rule reach_move) (rule timelyI, rule go_enter; simp add: timely_world)
  then have "reach file_start (timely_step 1) (world (entry_of 0 False 0) ?p2 0 [])"
    by (rule reach_move) (rule timelyI, rule go_open; simp add: timely_world)
  then have "reach file_start (timely_step 1) (world (entry_of 0 True 0) ?p3 0 [])"
    by (rule reach_move) (rule timelyI, rule go_write; simp add: timely_world)
  then have "reach file_start (timely_step 1) (world (entry_of 0 True 0) ?p4 0 [])"
    by (rule reach_move) (rule timelyI, rule go_enter; simp add: timely_world)
  then have "reach file_start (timely_step 1) (world (entry_of 0 True 0) ?p5 0 [])"
    by (rule reach_move) (rule timelyI, rule go_exists; simp add: timely_world)
  then have "reach file_start (timely_step 1) (world (entry_of 0 True 0) ?p6 0 [])"
    by (rule reach_move) (rule timelyI, rule go_stat; simp add: timely_world)
  then have "reach file_start (timely_step 1) (world (entry_of 0 True 0) ?p7 0 [])"
    by (rule reach_move) (rule timelyI, rule go_finish; simp add: timely_world)
  then have "reach file_start (timely_step 1) (world None ?p8 0 [])"
    by (rule reach_move) (rule timelyI, rule go_unlink; simp add: timely_world)
  then have "reach file_start (timely_step 1) (world None ?p8 1 [])"
    by (rule reach_move) (rule timelyI, rule go_tick; simp add: timely_world)
  then have "reach file_start (timely_step 1) (world None ?p8 2 [])"
    by (rule reach_move) (rule timelyI, rule go_tick; simp add: timely_world)
  then have "reach file_start (timely_step 1) (world None ?p9 2 [])"
    by (rule reach_move) (rule timelyI, rule go_enter; simp add: timely_world)
  then have "reach file_start (timely_step 1) (world (entry_of 2 False 2) ?p10 2 [])"
    by (rule reach_move) (rule timelyI, rule go_open; simp add: timely_world)
  then have "reach file_start (timely_step 1) (world (entry_of 2 True 2) ?p11 2 [])"
    by (rule reach_move) (rule timelyI, rule go_write; simp add: timely_world)
  then have "reach file_start (timely_step 1) (world (entry_of 2 True 2) ?p12 2 [])"
    by (rule reach_move) (rule timelyI, rule go_stale; simp add: timely_world)
  then have "reach file_start (timely_step 1) (world None ?p13 2 [])"
    by (rule reach_move) (rule timelyI, rule go_steal; simp add: timely_world)
  then have "reach file_start (timely_step 1) (world (entry_of 1 False 2) ?p14 2 [])"
    by (rule reach_move) (rule timelyI, rule go_open; simp add: timely_world)
  then have "reach file_start (timely_step 1) (world (entry_of 1 True 2) ?p15 2 [])"
    by (rule reach_move) (rule timelyI, rule go_write; simp add: timely_world)
  then show ?thesis by (intro exI [of _ "(world (entry_of 1 True 2) ?p15 2 [])"]) simp
qed

end
