(* ===== verification/ConvergeRunner.thy ===== *)
theory ConvergeRunner
  imports ConvergeSafety ConvergenceFailure
begin

text \<open>
  The convergence runner of the daemon, \<^verbatim>\<open>createConvergeRunner\<close> of
  \<^verbatim>\<open>lib/daemon/memory-converge.mjs\<close>.  The runner's variables are a record; a cycle is the
  locals that it keeps across its awaits with the await it is suspended at; the code between two
  awaits is one step.  Cycles that were timed out stay in the world and may still resume.  The
  process environment may change between any two steps.  What the awaited operations answer is
  given with the step.  Operator texts (\<^verbatim>\<open>detail\<close>, log lines, timestamps of the last cycle) are
  not modelled; \<open>lc\<close> is \<^verbatim>\<open>localeCompare\<close>, \<open>to_text\<close> is \<^verbatim>\<open>String(line)\<close>.
\<close>

section \<open>State\<close>

text \<open>\<open>rn_converged\<close> is a history variable, which the code does not have: a converge pass has completed
  since the last cycle that read the setting as off, or since the start of the process when no cycle
  did.  The window is the runner's own: it ends when a cycle reads the setting, not when the
  environment changes.\<close>

record runner =
  rn_state :: string
  rn_failure :: "conv_failure option"
  rn_gate_open :: bool
  rn_persisted :: "bool option"
  rn_setting :: converge_setting
  rn_was_enabled :: bool
  rn_running :: bool
  rn_config_pending :: bool
  rn_config_gen :: nat
  rn_safety_unknown :: bool
  rn_generation :: nat
  rn_blocked_since :: "nat option"
  rn_escalated_for :: "nat option"
  rn_freshness :: string
  rn_converged :: bool

datatype await =
  AtConfig | AtLock | AtFreshness | AtReplay | AtRefresh | AtMatch | AtFleet | AtPublish | Settled

record cycle =
  cy_at :: await
  cy_startup :: bool
  cy_config_gen :: nat
  cy_gen :: nat
  cy_prior_state :: string
  cy_prior_gate :: bool
  cy_prior_armed :: bool
  cy_aborted :: bool
  cy_stale :: bool
  cy_watchdog :: bool
  cy_timer :: bool
  cy_reason :: string

definition persisted_config :: "runner \<Rightarrow> js" where
  "persisted_config r =
     (case rn_persisted r of None \<Rightarrow> JObj [] | Some b \<Rightarrow> JObj [(''memoryConvergeEnabled'', JBool b)])"

definition current_setting :: "env \<Rightarrow> runner \<Rightarrow> converge_setting" where
  "current_setting env r = resolve_converge_setting (persisted_config r) env"

definition is_memory_push_gate_open :: "env \<Rightarrow> runner \<Rightarrow> bool" where
  "is_memory_push_gate_open env r =
     (let current = current_setting env r in
      if rn_config_pending r \<or> rn_safety_unknown r
      then cs_source current = ''env:AGENTBOOTUP_MEMORY_CONVERGE_DISABLED''
      else if \<not> cs_enabled current then True
      else if \<not> cs_enabled (rn_setting r) then False
      else is_raw_memory_publication_allowed (Some current) (rn_gate_open r))"

definition env_ms :: "env \<Rightarrow> string \<Rightarrow> rat \<Rightarrow> rat" where
  "env_ms env k dflt = (case env_number env k of Fin q \<Rightarrow> if q > 0 then q else dflt | _ \<Rightarrow> dflt)"

definition escalation_ms :: "env \<Rightarrow> rat" where
  "escalation_ms env = env_ms env ''AGENTBOOTUP_MEMORY_CONFLICT_ESCALATION_MS'' 86400000"

definition live :: "runner \<Rightarrow> cycle \<Rightarrow> bool" where
  "live r c \<longleftrightarrow> cy_gen c = rn_generation r \<and> \<not> cy_aborted c"

section \<open>The transitions a live cycle makes\<close>

definition set_blocked ::
    "(string \<Rightarrow> string \<Rightarrow> int) \<Rightarrow> env \<Rightarrow> nat \<Rightarrow> string \<Rightarrow> conv_failure \<Rightarrow> cycle \<Rightarrow> runner \<Rightarrow> runner" where
  "set_blocked lc env now new_state failure c r =
     (if \<not> live r c then r
      else let r1 = r\<lparr>rn_gate_open := False, rn_state := new_state,
                      rn_failure := Some (normalize_convergence_failure lc (failure_record failure) (JStr ''cycle'') JNull)\<rparr>
           in if new_state = ''blocked_conflict''
              then let since = (case rn_blocked_since r1 of Some t \<Rightarrow> t | None \<Rightarrow> now);
                       r2 = r1\<lparr>rn_blocked_since := Some since\<rparr>
                   in if of_nat now - of_nat since \<ge> escalation_ms env \<and> rn_escalated_for r2 \<noteq> Some since
                      then r2\<lparr>rn_escalated_for := Some since\<rparr> else r2
              else r1)"

definition clear_blocked :: "runner \<Rightarrow> runner" where
  "clear_blocked r = r\<lparr>rn_blocked_since := None, rn_escalated_for := None\<rparr>"

definition open_gate :: "cycle \<Rightarrow> runner \<Rightarrow> runner" where
  "open_gate c r = (if live r c then r\<lparr>rn_gate_open := True, rn_converged := True\<rparr> else r)"

definition set_state :: "string \<Rightarrow> cycle \<Rightarrow> runner \<Rightarrow> runner" where
  "set_state st c r = (if live r c then r\<lparr>rn_state := st, rn_failure := None\<rparr> else r)"

text \<open>The \<^verbatim>\<open>finally\<close> of a cycle.\<close>

definition settle :: "cycle \<Rightarrow> runner \<Rightarrow> runner" where
  "settle c r = (if live r c then r\<lparr>rn_running := False\<rparr> else r)"

text \<open>The successful end of a pass: gate, state, block cleared.\<close>

definition converged_with :: "string \<Rightarrow> cycle \<Rightarrow> runner \<Rightarrow> runner" where
  "converged_with st c r =
     (let r1 = set_state st c (open_gate c r) in settle c (if live r1 c then clear_blocked r1 else r1))"

section \<open>Commands and their evidence\<close>

text \<open>One run of the memory command: its exit code, its output lines, and the values it passed to the
  conflict and to the failure channel.\<close>

record command_run =
  co_exit :: int
  co_text :: "js list"
  co_conflicts :: "js list"
  co_failures :: "js list"

definition hint_value :: "failure_hint option \<Rightarrow> js" where
  "hint_value h =
     (case h of
        None \<Rightarrow> JNull
      | Some h \<Rightarrow> JObj ((''category'', JStr (fh_category h)) #
                   (case fh_conflict h of None \<Rightarrow> [] | Some c \<Rightarrow> [(''conflict'', closed_conflict_record c)])))"

text \<open>Each channel counts only when it was used exactly once, with a valid value.\<close>

definition command_hint :: "(string \<Rightarrow> string \<Rightarrow> int) \<Rightarrow> command_run \<Rightarrow> failure_hint option" where
  "command_hint lc run =
     (case co_failures run of
        [h] \<Rightarrow> normalize_failure_hint lc h
      | [] \<Rightarrow> (case co_conflicts run of
                 [v] \<Rightarrow> (case snapshot_normalized_memory_conflict lc v of
                           None \<Rightarrow> None
                         | Some c \<Rightarrow> normalize_failure_hint lc
                             (JObj [(''category'', JStr ''conflict''), (''conflict'', closed_conflict_record c)]))
               | _ \<Rightarrow> None)
      | _ \<Rightarrow> None)"

definition opt_js :: "string option \<Rightarrow> js" where
  "opt_js x = (case x of None \<Rightarrow> JNull | Some s \<Rightarrow> JStr s)"

definition command_failure ::
    "(string \<Rightarrow> string \<Rightarrow> int) \<Rightarrow> (js \<Rightarrow> string) \<Rightarrow> string \<Rightarrow> command_run \<Rightarrow> conv_failure" where
  "command_failure lc to_text phase run =
     failure_from_evidence lc (JStr phase) (jint (co_exit run)) (hint_value (command_hint lc run))
       (opt_js (classify_legacy_failure to_text (JArr (co_text run))))"

definition caught_failure ::
    "(string \<Rightarrow> string \<Rightarrow> int) \<Rightarrow> (js \<Rightarrow> string) \<Rightarrow> string \<Rightarrow> js \<Rightarrow> conv_failure" where
  "caught_failure lc to_text phase message =
     failure_from_evidence lc (JStr phase) JNull JNull (opt_js (classify_legacy_failure to_text (JArr [message])))"

definition queue_inspection_category :: "string option \<Rightarrow> string" where
  "queue_inspection_category code =
     (case code of
        None \<Rightarrow> ''invalid_payload''
      | Some c \<Rightarrow> if c \<in> set [''EACCES'', ''EPERM'', ''EROFS'', ''EIO'', ''ESTALE''] then ''local_precondition''
                  else if c = ''ETIMEDOUT'' then ''timeout'' else ''invalid_payload'')"

definition plain_failure :: "(string \<Rightarrow> string \<Rightarrow> int) \<Rightarrow> string \<Rightarrow> string \<Rightarrow> conv_failure" where
  "plain_failure lc phase category = create_convergence_failure lc (JStr phase) (JStr category) JNull JUndef"

section \<open>The segments of a cycle\<close>

definition start_cycle :: "env \<Rightarrow> bool \<Rightarrow> runner \<Rightarrow> runner \<times> cycle option" where
  "start_cycle env startup r =
     (if rn_running r \<or> rn_config_pending r then (r, None)
      else let gen = rn_config_gen r + 1;
               r' = r\<lparr>rn_failure := None, rn_config_gen := gen, rn_config_pending := True, rn_safety_unknown := True,
                      rn_gate_open := (if cs_enabled (current_setting env r) then False else rn_gate_open r)\<rparr>
           in (r', Some \<lparr>cy_at = AtConfig, cy_startup = startup, cy_config_gen = gen, cy_gen = 0,
                         cy_prior_state = rn_state r, cy_prior_gate = rn_gate_open r,
                         cy_prior_armed = rn_was_enabled r, cy_aborted = False, cy_stale = False,
                         cy_watchdog = False, cy_timer = startup, cy_reason = []\<rparr>))"

definition finish :: "cycle \<Rightarrow> cycle" where
  "finish c = c\<lparr>cy_at := Settled, cy_watchdog := False\<rparr>"

definition config_failed ::
    "(string \<Rightarrow> string \<Rightarrow> int) \<Rightarrow> (js \<Rightarrow> string) \<Rightarrow> js \<Rightarrow> runner \<Rightarrow> cycle \<Rightarrow> runner \<times> cycle" where
  "config_failed lc to_text message r c =
     (if cy_config_gen c \<noteq> rn_config_gen r then (r, finish c)
      else (r\<lparr>rn_config_pending := False,
              rn_setting := \<lparr>cs_enabled = True, cs_source = ''config_error_fail_closed''\<rparr>,
              rn_state := ''store_deferred'', rn_failure := Some (caught_failure lc to_text ''config'' message),
              rn_gate_open := False, rn_was_enabled := True,
              rn_converged := (rn_converged r \<and> rn_was_enabled r)\<rparr>, finish c))"

definition config_read :: "env \<Rightarrow> js \<Rightarrow> runner \<Rightarrow> cycle \<Rightarrow> runner \<times> cycle" where
  "config_read env config r c =
     (if cy_config_gen c \<noteq> rn_config_gen r then (r, finish c)
      else let next_setting = resolve_converge_setting config env;
               r1 = r\<lparr>rn_config_pending := False, rn_safety_unknown := False,
                      rn_persisted := (case js_get config ''memoryConvergeEnabled'' of JBool b \<Rightarrow> Some b | _ \<Rightarrow> None),
                      rn_setting := next_setting\<rparr>
           in if \<not> cs_enabled next_setting
              then (r1\<lparr>rn_state := ''disabled'', rn_failure := None, rn_gate_open := True,
                       rn_was_enabled := False, rn_converged := False\<rparr>, finish c)
              else (r1\<lparr>rn_was_enabled := True, rn_gate_open := False,
                       rn_converged := (rn_converged r \<and> rn_was_enabled r),
                       rn_running := True, rn_generation := rn_generation r + 1\<rparr>,
                    c\<lparr>cy_at := AtLock, cy_gen := rn_generation r + 1, cy_watchdog := True\<rparr>))"

definition lock_held :: "(string \<Rightarrow> string \<Rightarrow> int) \<Rightarrow> runner \<Rightarrow> cycle \<Rightarrow> runner \<times> cycle" where
  "lock_held lc r c =
     (let r1 = (if live r c
                then r\<lparr>rn_state := cy_prior_state c,
                       rn_gate_open := (if cy_prior_armed c then cy_prior_gate c else False),
                       rn_failure := Some (plain_failure lc ''cycle'' ''lock_held'')\<rparr>
                else r)
      in (settle c r1, finish c))"

definition cycle_threw ::
    "(string \<Rightarrow> string \<Rightarrow> int) \<Rightarrow> (js \<Rightarrow> string) \<Rightarrow> env \<Rightarrow> nat \<Rightarrow> js \<Rightarrow> runner \<Rightarrow> cycle \<Rightarrow> runner \<times> cycle" where
  "cycle_threw lc to_text env now message r c =
     (settle c (set_blocked lc env now ''store_deferred'' (caught_failure lc to_text ''cycle'' message) c r), finish c)"

text \<open>Stale-publication evidence in a freshness report: it is stale, and some fresh remote head has a
  finite age.  Reading the age of a null head throws.\<close>

definition freshness_throws :: "js \<Rightarrow> bool" where
  "freshness_throws f \<longleftrightarrow>
     js_get f ''state'' = JStr ''stale'' \<and> list_ex js_nullish (js_elems (js_get f ''freshHeads''))"

definition stale_evidence :: "js \<Rightarrow> bool" where
  "stale_evidence f \<longleftrightarrow>
     js_get f ''state'' = JStr ''stale'' \<and>
     list_ex (\<lambda>h. num_is_finite (js_number (js_get h ''ageMs''))) (js_elems (js_get f ''freshHeads''))"

definition freshness_done :: "js option \<Rightarrow> bool \<Rightarrow> runner \<Rightarrow> cycle \<Rightarrow> runner \<times> cycle" where
  "freshness_done report has_queue r c =
     (let failed = (case report of None \<Rightarrow> True | Some f \<Rightarrow> freshness_throws f);
          stale = (case report of None \<Rightarrow> False | Some f \<Rightarrow> \<not> freshness_throws f \<and> stale_evidence f);
          seen = (case report of
                    Some f \<Rightarrow> (case js_get f ''state'' of JStr s \<Rightarrow> if failed then ''unknown'' else s | _ \<Rightarrow> ''unknown'')
                  | None \<Rightarrow> ''unknown'');
          r1 = (if live r c then r\<lparr>rn_freshness := seen\<rparr> else r);
          r2 = (if live r c \<and> stale then r1\<lparr>rn_gate_open := False\<rparr> else r1);
          c1 = c\<lparr>cy_stale := stale\<rparr>
      in if \<not> cy_startup c \<and> \<not> stale \<and> has_queue
         then (r2, c1\<lparr>cy_at := AtReplay, cy_watchdog := False\<rparr>)
         else (r2, c1\<lparr>cy_at := AtRefresh\<rparr>))"

definition replay_done ::
    "(string \<Rightarrow> string \<Rightarrow> int) \<Rightarrow> (js \<Rightarrow> string) \<Rightarrow> env \<Rightarrow> nat \<Rightarrow> command_run \<Rightarrow> runner \<Rightarrow> cycle \<Rightarrow> runner \<times> cycle" where
  "replay_done lc to_text env now run r c =
     (if \<not> live r c then (settle c r, finish c)
      else if co_exit run = 3
      then (settle c (set_blocked lc env now ''blocked_conflict'' (command_failure lc to_text ''replay'' run) c r), finish c)
      else if co_exit run \<noteq> 0 \<and> co_exit run \<noteq> 4
      then (settle c (set_blocked lc env now ''store_deferred'' (command_failure lc to_text ''replay'' run) c r), finish c)
      else (r, c\<lparr>cy_at := AtRefresh, cy_watchdog := True\<rparr>))"

text \<open>The queue as read for inspection: an error code, or the type of the last outcome of each item.\<close>

definition inspect_queue ::
    "(string \<Rightarrow> string \<Rightarrow> int) \<Rightarrow> env \<Rightarrow> nat \<Rightarrow> string option + js list \<Rightarrow> runner \<Rightarrow> cycle \<Rightarrow> runner" where
  "inspect_queue lc env now queue r c =
     (case queue of
        Inl code \<Rightarrow> set_blocked lc env now ''store_deferred''
                      (plain_failure lc ''queue_inspect'' (queue_inspection_category code)) c r
      | Inr [] \<Rightarrow> clear_blocked (set_state ''ok'' c r)
      | Inr (outcome # _) \<Rightarrow>
          set_blocked lc env now (if outcome = JStr ''blocked_conflict'' then ''blocked_conflict'' else ''store_deferred'')
            (plain_failure lc ''queue_inspect'' ''local_precondition'') c r)"

definition refresh_done ::
    "(string \<Rightarrow> string \<Rightarrow> int) \<Rightarrow> (js \<Rightarrow> string) \<Rightarrow> env \<Rightarrow> nat \<Rightarrow> command_run \<Rightarrow> string option + js list \<Rightarrow>
     runner \<Rightarrow> cycle \<Rightarrow> runner \<times> cycle" where
  "refresh_done lc to_text env now run queue r c =
     (if \<not> live r c then (settle c r, finish c)
      else if co_exit run \<noteq> 0
      then (settle c (set_blocked lc env now ''store_deferred'' (command_failure lc to_text ''refresh'' run) c r), finish c)
      else if cy_stale c then (settle c (set_state ''stale'' c r), finish c)
      else if cy_startup c then (settle c (inspect_queue lc env now queue r c), finish c)
      else (r, c\<lparr>cy_at := AtMatch, cy_watchdog := False\<rparr>))"

text \<open>The comparison with the own head: an error, or whether it matches and why.\<close>

definition match_done ::
    "(string \<Rightarrow> string \<Rightarrow> int) \<Rightarrow> (js \<Rightarrow> string) \<Rightarrow> env \<Rightarrow> nat \<Rightarrow> js + bool \<times> string \<Rightarrow> runner \<Rightarrow> cycle \<Rightarrow> runner \<times> cycle" where
  "match_done lc to_text env now result r c =
     (case result of
        Inl message \<Rightarrow>
          (settle c (set_blocked lc env now ''store_deferred'' (caught_failure lc to_text ''head_compare'' message) c r), finish c)
      | Inr (matches, reason) \<Rightarrow>
          if \<not> live r c then (settle c r, finish c)
          else if matches
          then (converged_with (if reason = ''empty_both'' then ''never_synced'' else ''ok'') c r, finish c)
          else (r, c\<lparr>cy_at := AtFleet, cy_reason := reason\<rparr>))"

definition fleet_done :: "bool \<Rightarrow> bool \<Rightarrow> runner \<Rightarrow> cycle \<Rightarrow> runner \<times> cycle" where
  "fleet_done same tree_empty r c =
     (if same then (if \<not> live r c then (settle c r, finish c) else (converged_with ''ok'' c r, finish c))
      else if cy_reason c = ''never_published'' \<and> tree_empty then (converged_with ''never_synced'' c r, finish c)
      else (r, c\<lparr>cy_at := AtPublish\<rparr>))"

definition publish_done ::
    "(string \<Rightarrow> string \<Rightarrow> int) \<Rightarrow> (js \<Rightarrow> string) \<Rightarrow> env \<Rightarrow> nat \<Rightarrow> command_run \<Rightarrow> runner \<Rightarrow> cycle \<Rightarrow> runner \<times> cycle" where
  "publish_done lc to_text env now run r c =
     (if \<not> live r c then (settle c r, finish c)
      else if co_exit run = 0 then (converged_with ''ok'' c r, finish c)
      else (settle c (set_blocked lc env now (if co_exit run = 3 then ''blocked_conflict'' else ''publish_blocked'')
                       (command_failure lc to_text ''publish'' run) c r), finish c))"

text \<open>The two timers.\<close>

definition watchdog_fires :: "(string \<Rightarrow> string \<Rightarrow> int) \<Rightarrow> runner \<Rightarrow> cycle \<Rightarrow> runner \<times> cycle" where
  "watchdog_fires lc r c =
     (if rn_running r \<and> live r c
      then (r\<lparr>rn_state := ''store_deferred'', rn_failure := Some (plain_failure lc ''cycle'' ''timeout''),
              rn_gate_open := False, rn_safety_unknown := True, rn_config_gen := rn_config_gen r + 1,
              rn_generation := rn_generation r + 1, rn_running := False\<rparr>,
            c\<lparr>cy_aborted := True, cy_watchdog := False\<rparr>)
      else (r, c\<lparr>cy_watchdog := False\<rparr>))"

definition startup_times_out :: "(string \<Rightarrow> string \<Rightarrow> int) \<Rightarrow> runner \<Rightarrow> cycle \<Rightarrow> runner \<times> cycle" where
  "startup_times_out lc r c =
     (r\<lparr>rn_config_gen := rn_config_gen r + 1, rn_config_pending := False, rn_safety_unknown := True,
        rn_generation := rn_generation r + 1, rn_running := False, rn_gate_open := False,
        rn_state := ''store_deferred'', rn_failure := Some (plain_failure lc ''startup'' ''timeout'')\<rparr>,
      c\<lparr>cy_aborted := True, cy_timer := False\<rparr>)"

section \<open>The daemon\<close>

text \<open>What a suspended cycle may resume with.\<close>

inductive segment ::
    "(string \<Rightarrow> string \<Rightarrow> int) \<Rightarrow> (js \<Rightarrow> string) \<Rightarrow> env \<Rightarrow> runner \<Rightarrow> cycle \<Rightarrow> runner \<times> cycle \<Rightarrow> bool"
  for lc to_text env r c where
  seg_config_failed: "cy_at c = AtConfig \<Longrightarrow> segment lc to_text env r c (config_failed lc to_text m r c)"
| seg_config_read: "cy_at c = AtConfig \<Longrightarrow> segment lc to_text env r c (config_read env config r c)"
| seg_lock: "cy_at c = AtLock \<Longrightarrow> segment lc to_text env r c (r, c\<lparr>cy_at := AtFreshness\<rparr>)"
| seg_lock_held: "cy_at c = AtLock \<Longrightarrow> segment lc to_text env r c (lock_held lc r c)"
| seg_threw: "cy_at c \<notin> {AtConfig, Settled} \<Longrightarrow> segment lc to_text env r c (cycle_threw lc to_text env now m r c)"
| seg_freshness: "cy_at c = AtFreshness \<Longrightarrow> segment lc to_text env r c (freshness_done report has_queue r c)"
| seg_replay: "cy_at c = AtReplay \<Longrightarrow> segment lc to_text env r c (replay_done lc to_text env now run r c)"
| seg_refresh: "cy_at c = AtRefresh \<Longrightarrow> segment lc to_text env r c (refresh_done lc to_text env now run queue r c)"
| seg_match: "cy_at c = AtMatch \<Longrightarrow> segment lc to_text env r c (match_done lc to_text env now result r c)"
| seg_fleet: "cy_at c = AtFleet \<Longrightarrow> segment lc to_text env r c (fleet_done same tree_empty r c)"
| seg_publish: "cy_at c = AtPublish \<Longrightarrow> segment lc to_text env r c (publish_done lc to_text env now run r c)"
| seg_watchdog: "cy_watchdog c \<Longrightarrow> segment lc to_text env r c (watchdog_fires lc r c)"
| seg_startup_timeout: "cy_timer c \<Longrightarrow> cy_at c \<noteq> Settled \<Longrightarrow>
    segment lc to_text env r c (startup_times_out lc r c)"

record daemon =
  dm_env :: env
  dm_runner :: runner
  dm_cycles :: "cycle list"

inductive daemon_step :: "(string \<Rightarrow> string \<Rightarrow> int) \<Rightarrow> (js \<Rightarrow> string) \<Rightarrow> daemon \<Rightarrow> daemon \<Rightarrow> bool" for lc to_text where
  env_changes: "daemon_step lc to_text d (d\<lparr>dm_env := e\<rparr>)"
| cycle_starts: "start_cycle (dm_env d) startup (dm_runner d) = (r, Some c) \<Longrightarrow>
    daemon_step lc to_text d (d\<lparr>dm_runner := r, dm_cycles := dm_cycles d @ [c]\<rparr>)"
| cycle_resumes: "i < length (dm_cycles d) \<Longrightarrow>
    segment lc to_text (dm_env d) (dm_runner d) (dm_cycles d ! i) (r, c) \<Longrightarrow>
    daemon_step lc to_text d (d\<lparr>dm_runner := r, dm_cycles := (dm_cycles d)[i := c]\<rparr>)"

definition daemon_start :: "daemon \<Rightarrow> bool" where
  "daemon_start d \<longleftrightarrow>
     dm_cycles d = [] \<and>
     dm_runner d = \<lparr>rn_state = ''starting'', rn_failure = None, rn_gate_open = False, rn_persisted = None,
       rn_setting = resolve_converge_setting (JObj []) (dm_env d), rn_was_enabled = False, rn_running = False,
       rn_config_pending = False, rn_config_gen = 0, rn_safety_unknown = False, rn_generation = 0,
       rn_blocked_since = None, rn_escalated_for = None, rn_freshness = ''unknown'', rn_converged = False\<rparr>"

section \<open>What one segment may do\<close>

definition started :: "cycle \<Rightarrow> bool" where
  "started c \<longleftrightarrow> cy_at c \<notin> {AtConfig, Settled}"

text \<open>The fields that only the configuration step and the timers change.\<close>

definition core :: "runner \<Rightarrow> nat \<times> nat \<times> bool \<times> bool \<times> converge_setting \<times> bool option \<times> bool" where
  "core r = (rn_generation r, rn_config_gen r, rn_config_pending r, rn_was_enabled r, rn_setting r, rn_persisted r,
             rn_safety_unknown r)"

lemma set_blocked_fields [simp]:
  "core (set_blocked lc env now st f c r) = core r"
  "rn_generation (set_blocked lc env now st f c r) = rn_generation r"
  "rn_running (set_blocked lc env now st f c r) = rn_running r"
  "rn_converged (set_blocked lc env now st f c r) = rn_converged r"
  "rn_gate_open (set_blocked lc env now st f c r) = (rn_gate_open r \<and> \<not> live r c)"
  "live (set_blocked lc env now st f c r) c = live r c"
  by (auto simp: set_blocked_def core_def live_def Let_def)

lemma set_state_fields [simp]:
  "core (set_state st c r) = core r" "rn_generation (set_state st c r) = rn_generation r"
  "rn_running (set_state st c r) = rn_running r" "rn_converged (set_state st c r) = rn_converged r"
  "rn_gate_open (set_state st c r) = rn_gate_open r" "live (set_state st c r) c = live r c"
  by (auto simp: set_state_def core_def live_def)

lemma clear_blocked_fields [simp]:
  "core (clear_blocked r) = core r" "rn_generation (clear_blocked r) = rn_generation r"
  "rn_running (clear_blocked r) = rn_running r" "rn_converged (clear_blocked r) = rn_converged r"
  "rn_gate_open (clear_blocked r) = rn_gate_open r" "live (clear_blocked r) c = live r c"
  by (auto simp: clear_blocked_def core_def live_def)

lemma open_gate_fields [simp]:
  "core (open_gate c r) = core r" "rn_generation (open_gate c r) = rn_generation r"
  "rn_running (open_gate c r) = rn_running r" "rn_converged (open_gate c r) = (rn_converged r \<or> live r c)"
  "rn_gate_open (open_gate c r) = (rn_gate_open r \<or> live r c)" "live (open_gate c r) c = live r c"
  by (auto simp: open_gate_def core_def live_def)

lemma settle_fields [simp]:
  "core (settle c r) = core r" "rn_generation (settle c r) = rn_generation r"
  "rn_running (settle c r) = (rn_running r \<and> \<not> live r c)" "rn_converged (settle c r) = rn_converged r"
  "rn_gate_open (settle c r) = rn_gate_open r"
  by (auto simp: settle_def core_def live_def)

lemma converged_with_fields [simp]:
  "core (converged_with st c r) = core r" "rn_running (converged_with st c r) = (rn_running r \<and> \<not> live r c)"
  "rn_converged (converged_with st c r) = (rn_converged r \<or> live r c)"
  "rn_gate_open (converged_with st c r) = (rn_gate_open r \<or> live r c)"
  by (auto simp: converged_with_def Let_def)

lemma inspect_queue_fields [simp]:
  "core (inspect_queue lc env now q r c) = core r" "rn_running (inspect_queue lc env now q r c) = rn_running r"
  "rn_generation (inspect_queue lc env now q r c) = rn_generation r"
  "rn_converged (inspect_queue lc env now q r c) = rn_converged r"
  "live (inspect_queue lc env now q r c) c = live r c"
  by (auto simp: inspect_queue_def split: sum.splits list.splits)


text \<open>A cycle that is no longer live changes nothing.\<close>

lemma not_live_identity:
  "\<not> live r c \<Longrightarrow> set_blocked lc env now st f c r = r"
  "\<not> live r c \<Longrightarrow> set_state st c r = r" "\<not> live r c \<Longrightarrow> open_gate c r = r"
  "\<not> live r c \<Longrightarrow> settle c r = r" "\<not> live r c \<Longrightarrow> converged_with st c r = r"
  by (simp_all add: set_blocked_def set_state_def open_gate_def settle_def converged_with_def Let_def)

definition timer_step :: "(string \<Rightarrow> string \<Rightarrow> int) \<Rightarrow> runner \<Rightarrow> cycle \<Rightarrow> runner \<times> cycle \<Rightarrow> bool" where
  "timer_step lc r c rc \<longleftrightarrow>
     cy_watchdog c \<and> rc = watchdog_fires lc r c \<or>
     cy_timer c \<and> cy_at c \<noteq> Settled \<and> rc = startup_times_out lc r c"

lemma straggler_identity:
  assumes "segment lc to_text env r c (r', c')" and "started c" and "\<not> live r c"
    and "\<not> timer_step lc r c (r', c')"
  shows "r' = r \<and> cy_at c' \<noteq> AtConfig \<and> cy_gen c' = cy_gen c \<and> cy_config_gen c' = cy_config_gen c \<and>
    cy_aborted c' = cy_aborted c \<and> cy_startup c' = cy_startup c \<and> cy_prior_gate c' = cy_prior_gate c \<and> cy_prior_armed c' = cy_prior_armed c"
  using assms
  by cases
    (auto simp: not_live_identity timer_step_def started_def lock_held_def cycle_threw_def freshness_done_def
      replay_done_def refresh_done_def match_done_def fleet_done_def publish_done_def finish_def Let_def
      split: sum.splits if_splits)



section \<open>The invariant of the daemon\<close>


















section \<open>Properties\<close>


text \<open>C28. Stragglers are inert.  A cycle whose generation has passed or that was aborted resumes
  without any effect on the runner, whatever its awaited operation answers; and so does a cycle
  whose configuration read arrives after a later one began.\<close>

theorem stragglers_are_inert:
  assumes "segment lc to_text env r c (r', c')"
    and "if cy_at c = AtConfig then cy_config_gen c \<noteq> rn_config_gen r else \<not> live r c"
    and "\<not> timer_step lc r c (r', c')"
  shows "r' = r"
proof (cases "cy_at c = AtConfig")
  case True
  from assms(1,3) True show ?thesis
    using assms(2) by cases (auto simp: timer_step_def config_failed_def config_read_def)
next
  case False
  moreover have "cy_at c \<noteq> Settled" using assms(1,3) by cases (auto simp: timer_step_def)
  ultimately have "started c" by (simp add: started_def)
  then show ?thesis using straggler_identity [OF assms(1) _ _ assms(3)] assms(2) False by simp
qed

section \<open>A run\<close>

text \<open>One periodic cycle from boot that finds the local memory equal to the own head.\<close>

definition boot_runner :: runner where
  "boot_runner =
     \<lparr>rn_state = ''starting'', rn_failure = None, rn_gate_open = False, rn_persisted = None,
       rn_setting = resolve_converge_setting (JObj []) Map.empty, rn_was_enabled = False, rn_running = False,
       rn_config_pending = False, rn_config_gen = 0, rn_safety_unknown = False, rn_generation = 0,
       rn_blocked_since = None, rn_escalated_for = None, rn_freshness = ''unknown'', rn_converged = False\<rparr>"

definition quiet_run :: command_run where
  "quiet_run = \<lparr>co_exit = 0, co_text = [], co_conflicts = [], co_failures = []\<rparr>"

definition demo1 :: "runner \<times> cycle" where
  "demo1 = (let (r, c) = start_cycle Map.empty False boot_runner in (r, the c))"

definition demo2 :: "runner \<times> cycle" where
  "demo2 = config_read Map.empty (JObj []) (fst demo1) (snd demo1)"

definition demo3 :: "runner \<times> cycle" where
  "demo3 = (fst demo2, (snd demo2)\<lparr>cy_at := AtFreshness\<rparr>)"

definition demo4 :: "runner \<times> cycle" where
  "demo4 = freshness_done None False (fst demo3) (snd demo3)"

definition demo5 :: "runner \<times> cycle" where
  "demo5 = refresh_done compare_code_units (\<lambda>_. []) Map.empty 0 quiet_run (Inr []) (fst demo4) (snd demo4)"

definition demo6 :: "runner \<times> cycle" where
  "demo6 = match_done compare_code_units (\<lambda>_. []) Map.empty 0 (Inr (True, ''own head'')) (fst demo5) (snd demo5)"

definition demo_daemon :: "runner \<times> cycle \<Rightarrow> daemon" where
  "demo_daemon rc = \<lparr>dm_env = Map.empty, dm_runner = fst rc, dm_cycles = [snd rc]\<rparr>"

lemma demo_resumes:
  assumes "reach daemon_start (daemon_step lc to_text) (demo_daemon rc)"
    and "segment lc to_text Map.empty (fst rc) (snd rc) rc'"
  shows "reach daemon_start (daemon_step lc to_text) (demo_daemon rc')"
proof (rule reach_move [OF assms(1)])
  show "daemon_step lc to_text (demo_daemon rc) (demo_daemon rc')"
    using cycle_resumes [of 0 "demo_daemon rc" lc to_text "fst rc'" "snd rc'"] assms(2)
    by (simp add: demo_daemon_def)
qed

lemma demo_start: "start_cycle Map.empty False boot_runner = (fst demo1, Some (snd demo1))"
  by (simp add: demo1_def start_cycle_def boot_runner_def)

lemma demo_awaits:
  "cy_at (snd demo1) = AtConfig" "cy_at (snd demo2) = AtLock" "cy_at (snd demo3) = AtFreshness"
  "cy_at (snd demo4) = AtRefresh" "cy_at (snd demo5) = AtMatch"
  by code_simp+

lemma demo_reached: "reach daemon_start (daemon_step compare_code_units (\<lambda>_. [])) (demo_daemon demo6)"
proof -
  let ?R = "\<lambda>rc. reach daemon_start (daemon_step compare_code_units (\<lambda>_. [])) (demo_daemon rc)"
  let ?d = "\<lparr>dm_env = Map.empty, dm_runner = boot_runner, dm_cycles = []\<rparr>"
  have "reach daemon_start (daemon_step compare_code_units (\<lambda>_. [])) ?d"
    by (rule reach_start) (simp add: daemon_start_def boot_runner_def)
  then have "?R demo1"
    using cycle_starts [of ?d False "fst demo1" "snd demo1"] demo_start
    by (auto simp: demo_daemon_def intro: reach_move)
  then have "?R demo2" unfolding demo2_def by (rule demo_resumes) (rule seg_config_read, rule demo_awaits)
  then have "?R demo3" unfolding demo3_def by (rule demo_resumes) (rule seg_lock, rule demo_awaits)
  then have "?R demo4" unfolding demo4_def by (rule demo_resumes) (rule seg_freshness, rule demo_awaits)
  then have "?R demo5" unfolding demo5_def by (rule demo_resumes) (rule seg_refresh, rule demo_awaits)
  then show "?R demo6" unfolding demo6_def by (rule demo_resumes) (rule seg_match, rule demo_awaits)
qed

lemma demo_gate:
  "is_memory_push_gate_open Map.empty (fst demo6)" "cs_enabled (current_setting Map.empty (fst demo6))"
  by code_simp+


text \<open>A disabled spell between two cycles goes unnoticed: the environment turns convergence off, which
  opens the gate for raw memory, and on again; the gate is then open although no pass has completed
  since, in fact no cycle has run.\<close>

theorem unseen_disable_keeps_gate_open:
  "\<exists>d0 d1 d2. reach daemon_start (daemon_step compare_code_units (\<lambda>_. [])) d0 \<and>
     daemon_step compare_code_units (\<lambda>_. []) d0 d1 \<and> \<not> cs_enabled (current_setting (dm_env d1) (dm_runner d1)) \<and>
     is_memory_push_gate_open (dm_env d1) (dm_runner d1) \<and>
     daemon_step compare_code_units (\<lambda>_. []) d1 d2 \<and> cs_enabled (current_setting (dm_env d2) (dm_runner d2)) \<and>
     dm_runner d2 = dm_runner d0 \<and> dm_cycles d2 = dm_cycles d0 \<and> is_memory_push_gate_open (dm_env d2) (dm_runner d2)"
proof -
  let ?off = "[''AGENTBOOTUP_MEMORY_CONVERGE_DISABLED'' \<mapsto> ''1'']"
  let ?d1 = "(demo_daemon demo6)\<lparr>dm_env := ?off\<rparr>"
  have restored: "?d1\<lparr>dm_env := Map.empty\<rparr> = demo_daemon demo6" by (simp add: demo_daemon_def)
  have off: "\<not> cs_enabled (current_setting ?off (fst demo6))" by code_simp
  moreover have "is_memory_push_gate_open ?off (fst demo6)" by code_simp
  moreover have "daemon_step compare_code_units (\<lambda>_. []) (demo_daemon demo6) ?d1" by (rule env_changes)
  moreover have "daemon_step compare_code_units (\<lambda>_. []) ?d1 (demo_daemon demo6)"
    using env_changes [of _ _ ?d1 Map.empty] by (simp only: restored)
  ultimately show ?thesis
    using off demo_gate demo_reached
    by - (rule exI [of _ "demo_daemon demo6"], rule exI [of _ ?d1], rule exI [of _ "demo_daemon demo6"], simp add: demo_daemon_def)
qed

text \<open>The cycle of the run, resumed after its generation has passed.\<close>

definition late_runner :: runner where
  "late_runner = (fst demo5)\<lparr>rn_generation := 2, rn_running := False\<rparr>"

theorem stragglers_are_inert_witness:
  "fst (match_done compare_code_units (\<lambda>_. []) Map.empty 0 (Inr (True, ''own head'')) late_runner (snd demo5)) = late_runner"
proof -
  let ?rc = "match_done compare_code_units (\<lambda>_. []) Map.empty 0 (Inr (True, ''own head'')) late_runner (snd demo5)"
  have seg: "segment compare_code_units (\<lambda>_. []) Map.empty late_runner (snd demo5) (fst ?rc, snd ?rc)"
    using seg_match [OF demo_awaits(5)] by simp
  have "cy_gen (snd demo5) = 1" "\<not> cy_watchdog (snd demo5)" "\<not> cy_timer (snd demo5)" by code_simp+
  then have "if cy_at (snd demo5) = AtConfig then cy_config_gen (snd demo5) \<noteq> rn_config_gen late_runner
      else \<not> live late_runner (snd demo5)"
    "\<not> timer_step compare_code_units late_runner (snd demo5) (fst ?rc, snd ?rc)"
    by (simp_all add: demo_awaits live_def late_runner_def timer_step_def)
  from stragglers_are_inert [OF seg this] show ?thesis .
qed

end
