(* ===== verification/CycleProgress.thy ===== *)
theory CycleProgress
  imports ConvergeRunner
begin

text \<open>
  A convergence cycle of \<^verbatim>\<open>lib/daemon/memory-converge.mjs\<close> never turns back: its awaits are ordered,
  every answer moves it to a later one, and each of its two timers fires once.  A cycle is followed
  alone here: the runner, which other cycles and the timers change, is arbitrary at every move.
\<close>

section \<open>The order of the awaits\<close>

primrec await_rank :: "await \<Rightarrow> nat" where
  "await_rank AtConfig = 0"
| "await_rank AtLock = 1"
| "await_rank AtFreshness = 2"
| "await_rank AtReplay = 3"
| "await_rank AtRefresh = 4"
| "await_rank AtMatch = 5"
| "await_rank AtFleet = 6"
| "await_rank AtPublish = 7"
| "await_rank Settled = 8"

lemma await_rank_inject: "await_rank a = await_rank b \<Longrightarrow> a = b"
  by (cases a; cases b) simp_all

instantiation await :: linorder
begin

definition less_eq_await :: "await \<Rightarrow> await \<Rightarrow> bool" where
  "a \<le> b \<longleftrightarrow> await_rank a \<le> await_rank b"

definition less_await :: "await \<Rightarrow> await \<Rightarrow> bool" where
  "a < b \<longleftrightarrow> await_rank a < await_rank b"

instance
  by standard (auto simp: less_eq_await_def less_await_def intro: await_rank_inject)

end

lemma await_rank_le: "await_rank a \<le> 8"
  by (cases a) simp_all

lemma settled_last [simp]: "a \<noteq> Settled \<Longrightarrow> a < Settled"
  by (cases a) (simp_all add: less_await_def)

lemma await_rank_settled: "a \<noteq> Settled \<Longrightarrow> await_rank a < 8"
  by (cases a) simp_all

section \<open>Moves of a cycle\<close>

definition cycle_move :: "(string \<Rightarrow> string \<Rightarrow> int) \<Rightarrow> (js \<Rightarrow> string) \<Rightarrow> cycle \<Rightarrow> cycle \<Rightarrow> bool" where
  "cycle_move lc to_text c c' \<longleftrightarrow> (\<exists>env r r'. segment lc to_text env r c (r', c'))"

definition timers_left :: "cycle \<Rightarrow> nat" where
  "timers_left c = of_bool (cy_watchdog c) + of_bool (cy_timer c)"

definition cycle_work :: "cycle \<Rightarrow> nat" where
  "cycle_work c = 2 * (8 - await_rank (cy_at c)) + timers_left c"

inductive_cases segmentE: "segment lc to_text env r c (r', c')"

lemma segment_forward:
  assumes "segment lc to_text env r c (r', c')"
  shows "cy_at c < cy_at c' \<and> (cy_timer c' \<longrightarrow> cy_timer c) \<or>
    cy_at c' = cy_at c \<and> timers_left c' < timers_left c"
  using assms
  by (elim segmentE)
    (auto simp: config_failed_def config_read_def freshness_done_def lock_held_def cycle_threw_def replay_done_def
      refresh_done_def match_done_def fleet_done_def publish_done_def finish_def watchdog_fires_def
      startup_times_out_def timers_left_def less_await_def Let_def await_rank_settled
      split: if_splits sum.splits prod.splits)

lemma segment_works: "segment lc to_text env r c (r', c') \<Longrightarrow> cycle_work c' < cycle_work c"
  using segment_forward [of lc to_text env r c r' c'] await_rank_le [of "cy_at c"] await_rank_le [of "cy_at c'"]
  by (auto simp: cycle_work_def timers_left_def less_await_def split: if_splits)

lemma await_is_answered:
  assumes "cy_at c \<noteq> Settled"
  shows "\<exists>c'. cycle_move lc to_text c c'"
proof (cases "cy_at c = AtConfig")
  case True
  from seg_config_failed [OF this] show ?thesis unfolding cycle_move_def by (metis prod.collapse)
next
  case False
  with assms seg_threw [of c] show ?thesis unfolding cycle_move_def by (metis empty_iff insert_iff prod.collapse)
qed

interpretation cycle: settling "cycle_move lc to_text" cycle_work "\<lambda>c. cy_at c = Settled" for lc to_text
  by unfold_locales (auto simp: cycle_move_def dest: segment_works intro: await_is_answered [unfolded cycle_move_def])

lemma started_work: "start_cycle env startup r = (r1, Some c) \<Longrightarrow> cycle_work c \<le> 17"
  by (auto simp: start_cycle_def cycle_work_def timers_left_def Let_def split: if_splits)

text \<open>C22. Every cycle ends.  Whatever the awaited operations answer and whatever happens to the runner
  in between, a cycle that was started resumes at most 17 times, a timer counted as one, and from every
  point of its life it can still settle within the moves that remain.\<close>

theorem cycles_settle:
  assumes "start_cycle env startup r = (r1, Some c)" and "(cycle_move lc to_text ^^ n) c c'"
  shows "n \<le> 17 \<and> (\<exists>m c''. n + m \<le> 17 \<and> (cycle_move lc to_text ^^ m) c' c'' \<and> cy_at c'' = Settled)"
proof -
  have "n + cycle_work c' \<le> 17" using cycle.moves_bounded [OF assms(2)] started_work [OF assms(1)] by simp
  with cycle.settles_within [of c' lc to_text] show ?thesis by (meson add_le_mono1 add_left_mono le_add1 le_trans)
qed

theorem cycles_settle_witness:
  "\<exists>m c''. 2 + m \<le> 17 \<and> (cycle_move compare_code_units (\<lambda>_. []) ^^ m) (snd demo3) c'' \<and> cy_at c'' = Settled"
proof -
  have "cycle_move compare_code_units (\<lambda>_. []) (snd demo1) (snd demo2)"
    unfolding cycle_move_def demo2_def by (metis demo_awaits(1) prod.collapse seg_config_read)
  moreover have "cycle_move compare_code_units (\<lambda>_. []) (snd demo2) (snd demo3)"
    unfolding cycle_move_def demo3_def using seg_lock [OF demo_awaits(2)] by force
  ultimately have "(cycle_move compare_code_units (\<lambda>_. []) ^^ 2) (snd demo1) (snd demo3)"
    by (auto simp: numeral_2_eq_2)
  from cycles_settle [OF demo_start this] show ?thesis by blast
qed

end
