(* ===== verification/ApplyBinding.thy ===== *)
theory ApplyBinding
  imports JsPrelude
begin

text \<open>
  The glue between a dry-run plan of \<^verbatim>\<open>machine add\<close> and the approval contract,
  \<^verbatim>\<open>lib/network/machine-apply-binding.js\<close>: the nine-field binding, the freshness check of a
  re-made plan and the read-only preflight of the executor, whose injected primitives are the
  fields of a record.  A primitive may throw.
\<close>

section \<open>Checks\<close>

datatype binding_error = BindingError string | DependencyThrew string

definition plan_version :: string where
  "plan_version = ''machine-add-plan/1''"

definition require_string :: "js \<Rightarrow> string \<Rightarrow> binding_error + string" where
  "require_string v f =
     (case v of JStr s \<Rightarrow> throw_if (s = []) (BindingError f) (Inr s) | _ \<Rightarrow> Inl (BindingError f))"

definition require_git_commit :: "js \<Rightarrow> string \<Rightarrow> binding_error + string" where
  "require_git_commit v f =
     (case v of JStr s \<Rightarrow> throw_if (\<not> git_commit_text s) (BindingError f) (Inr s) | _ \<Rightarrow> Inl (BindingError f))"

definition same_set :: "js \<Rightarrow> js \<Rightarrow> bool" where
  "same_set a b \<longleftrightarrow>
     js_is_arr a \<and> js_is_arr b \<and> length (js_elems a) = length (js_elems b) \<and>
     list_all (\<lambda>x. x \<in> set (js_elems b)) (js_elems a)"

definition only_fields :: "js \<Rightarrow> string list \<Rightarrow> string \<Rightarrow> binding_error + unit" where
  "only_fields v allowed f =
     throw_if (list_ex (\<lambda>k. k \<notin> set allowed) (js_keys v)) (BindingError f) (Inr ())"

definition require_acquired_fence :: "js \<Rightarrow> binding_error + js" where
  "require_acquired_fence fence =
     throw_if (\<not> js_is_record fence) (BindingError ''fence'') (
     throw_if (\<not> js_is_safe_integer (js_get fence ''generation'')) (BindingError ''fence.generation'') (
     bind_r (require_string (js_get fence ''lease_holder'') ''fence.lease_holder'') (\<lambda>holder.
     bind_r (require_string (js_get fence ''lease_id'') ''fence.lease_id'') (\<lambda>lease.
     bind_r (only_fields fence [''generation'', ''lease_holder'', ''lease_id''] ''fence'') (\<lambda>_.
     Inr (JObj [(''generation'', js_get fence ''generation''), (''lease_holder'', JStr holder), (''lease_id'', JStr lease)]))))))"

definition require_acquired_rollback :: "js \<Rightarrow> binding_error + js" where
  "require_acquired_rollback rb =
     throw_if (\<not> js_is_record rb) (BindingError ''rollback'') (
     bind_r (require_string (js_get rb ''snapshot_id'') ''rollback.snapshot_id'') (\<lambda>snap.
     bind_r (require_string (js_get rb ''expected_target_revision'') ''rollback.expected_target_revision'') (\<lambda>rev.
     bind_r (only_fields rb [''snapshot_id'', ''expected_target_revision''] ''rollback'') (\<lambda>_.
     Inr (JObj [(''snapshot_id'', JStr snap), (''expected_target_revision'', JStr rev)])))))"

definition bound_asset :: "js \<Rightarrow> binding_error + js" where
  "bound_asset file =
     (if js_is_record file \<or> js_is_arr file
      then bind_r (require_string (js_get file ''path'') ''selected asset path'') (\<lambda>p.
           case js_get file ''sha256'' of
             JStr h \<Rightarrow> throw_if (\<not> hex_text 64 h) (BindingError ''selected asset sha256'')
                        (Inr (JObj [(''path'', JStr p), (''sha256'', JStr h)]))
           | _ \<Rightarrow> Inl (BindingError ''selected asset sha256''))
      else Inl (BindingError ''selected asset entry''))"

section \<open>The binding\<close>

definition build_apply_binding :: "js \<Rightarrow> js \<Rightarrow> binding_error + js" where
  "build_apply_binding plan acquired0 =
     throw_if (js_get plan ''version'' \<noteq> JStr plan_version) (BindingError ''plan'') (
     let proposal = js_get (js_get (js_get plan ''policy'') ''proposal'') ''included'' in
     throw_if (\<not> js_is_arr (js_get proposal ''files'')) (BindingError ''proposal'') (
     case js_get proposal ''inventory_sha256'' of
       JStr inventory \<Rightarrow>
         throw_if (\<not> hex_text 64 inventory) (BindingError ''inventory_sha256'') (
         throw_if (js_nullish (js_get (js_get plan ''source'') ''descriptor'')) (BindingError ''descriptor'') (
         let acquired = js_coalesce acquired0 (JObj []) in
         bind_r (require_git_commit (js_get acquired ''source_commit'') ''source_commit'') (\<lambda>commit.
         bind_r (require_git_commit (js_get acquired ''server_head'') ''server_head'') (\<lambda>head.
         bind_r (require_string (js_get acquired ''machine_id'') ''machine_id'') (\<lambda>machine.
         bind_r (require_string (js_get acquired ''target_path'') ''target_path'') (\<lambda>target.
         bind_r (require_acquired_fence (js_get acquired ''fence'')) (\<lambda>fence.
         bind_r (require_acquired_rollback (js_get acquired ''rollback'')) (\<lambda>rb.
         bind_r (map_r bound_asset (js_elems (js_get proposal ''files''))) (\<lambda>assets.
         Inr (JObj
           [(''source_descriptor'', js_get (js_get plan ''source'') ''descriptor''), (''source_commit'', JStr commit),
            (''selected_assets'', JArr assets), (''asset_policy_hash'', JStr inventory),
            (''machine_id'', JStr machine), (''target_path'', JStr target), (''server_head'', JStr head),
            (''fence'', fence), (''rollback'', rb)]))))))))))
     | _ \<Rightarrow> Inl (BindingError ''inventory_sha256'')))"

section \<open>Freshness\<close>

definition plan_inventory :: "js \<Rightarrow> js" where
  "plan_inventory plan = js_get (js_get (js_get (js_get plan ''policy'') ''proposal'') ''included'') ''inventory_sha256''"

definition plan_roots :: "js \<Rightarrow> js" where
  "plan_roots plan = js_get (js_get plan ''selected_assets'') ''ignored_state_roots''"

definition assert_plan_freshness :: "js \<Rightarrow> js \<Rightarrow> binding_error + unit" where
  "assert_plan_freshness approved fresh =
     throw_if (\<not> js_is_record fresh \<or> js_get fresh ''version'' \<noteq> JStr plan_version) (BindingError ''fresh plan'') (
     throw_if (\<not> js_is_record approved) (BindingError ''approved plan'') (
     bind_r (require_string (js_get (js_get approved ''source'') ''descriptor_hash'') ''approved descriptor_hash'') (\<lambda>a.
     bind_r (require_string (js_get (js_get fresh ''source'') ''descriptor_hash'') ''fresh descriptor_hash'') (\<lambda>f.
     throw_if (a \<noteq> f) (BindingError ''descriptor_hash drift'') (
     bind_r (require_string (plan_inventory approved) ''approved inventory_sha256'') (\<lambda>ai.
     bind_r (require_string (plan_inventory fresh) ''fresh inventory_sha256'') (\<lambda>fi.
     throw_if (ai \<noteq> fi) (BindingError ''inventory_sha256 drift'') (
     throw_if (\<not> same_set (plan_roots approved) (plan_roots fresh)) (BindingError ''ignored_state_roots drift'')
       (Inr ())))))))))"

section \<open>The preflight\<close>

text \<open>The injected primitives.  The lease primitives act on the store of the context, \<open>'s\<close>, and
  leave it changed when they return and possibly when they throw; the others do not see it.  A
  missing one throws when called, except \<open>releaseLease\<close>, which is asked for up front.\<close>

record 's preflight_deps =
  pd_plan :: "js \<Rightarrow> js \<Rightarrow> binding_error + js"
  pd_commit :: "js \<Rightarrow> js \<Rightarrow> binding_error + js"
  pd_lease :: "'s \<Rightarrow> js \<Rightarrow> js \<Rightarrow> (binding_error + js) \<times> 's"
  pd_release :: "('s \<Rightarrow> js \<Rightarrow> js \<Rightarrow> (binding_error + unit) \<times> 's) option"
  pd_machine :: "js \<Rightarrow> binding_error + js"
  pd_snapshot :: "js \<Rightarrow> js \<Rightarrow> binding_error + js"
  pd_lease_id :: "binding_error + js"

record preflight_result =
  pr_plan :: js
  pr_acquired :: js
  pr_binding :: js

definition preflight_acquired :: "js \<Rightarrow> js \<Rightarrow> js \<Rightarrow> js \<Rightarrow> js \<Rightarrow> js \<Rightarrow> js \<Rightarrow> js" where
  "preflight_acquired commit machine target token operator lease_id rb =
     JObj [(''source_commit'', commit), (''server_head'', commit), (''machine_id'', machine), (''target_path'', target),
           (''fence'', JObj [(''generation'', token), (''lease_holder'', operator), (''lease_id'', lease_id)]),
           (''rollback'', rb)]"

text \<open>The part inside the \<^verbatim>\<open>try\<close>, after the lease was acquired.\<close>

definition leased_preflight ::
    "'s preflight_deps \<Rightarrow> js \<Rightarrow> js \<Rightarrow> js \<Rightarrow> js \<Rightarrow> js \<Rightarrow> binding_error + preflight_result" where
  "leased_preflight d fresh commit target operator lease =
     bind_r (pd_machine d target) (\<lambda>machine.
     bind_r (require_string machine ''machine_id'') (\<lambda>_.
     bind_r (pd_snapshot d target commit) (\<lambda>rb.
     throw_if (\<not> js_is_record rb) (BindingError ''rollback'') (
     bind_r (require_string (js_get rb ''snapshot_id'') ''rollback'') (\<lambda>_.
     bind_r (require_string (js_get rb ''expected_target_revision'') ''rollback'') (\<lambda>_.
     throw_if (\<not> js_is_safe_integer (js_get lease ''fencing_token'')) (BindingError ''lease.fencing_token'') (
     bind_r (pd_lease_id d) (\<lambda>lease_id.
     let acquired = preflight_acquired commit machine target (js_get lease ''fencing_token'') operator lease_id rb in
     bind_r (build_apply_binding fresh acquired) (\<lambda>binding.
     Inr \<lparr>pr_plan = fresh, pr_acquired = acquired, pr_binding = binding\<rparr>)))))))))"

text \<open>The checks before the lease, with the commit they resolve.\<close>

definition unleased_preflight :: "js \<Rightarrow> js \<Rightarrow> 's preflight_deps \<Rightarrow> binding_error + js \<times> js" where
  "unleased_preflight approved ctx d =
     throw_if (\<not> js_is_record approved) (BindingError ''approved plan'') (
     throw_if (\<not> js_is_record ctx) (BindingError ''ctx'') (
     bind_r (require_string (js_get ctx ''sourceRoot'') ''ctx.sourceRoot'') (\<lambda>_.
     bind_r (require_string (js_get ctx ''target'') ''ctx.target'') (\<lambda>_.
     bind_r (require_string (js_get ctx ''stateKey'') ''ctx.stateKey'') (\<lambda>_.
     bind_r (require_string (js_get ctx ''operatorMachineId'') ''ctx.operatorMachineId'') (\<lambda>_.
     throw_if (case js_get ctx ''now'' of JNum _ \<Rightarrow> False | _ \<Rightarrow> True) (BindingError ''ctx.now'') (
     throw_if (js_nullish (js_get ctx ''store'')) (BindingError ''ctx.store'') (
     throw_if (pd_release d = None) (BindingError ''deps.releaseLease'') (
     bind_r (pd_plan d (js_get ctx ''sourceRoot'') (js_get ctx ''target'')) (\<lambda>fresh.
     bind_r (assert_plan_freshness approved fresh) (\<lambda>_.
     bind_r (pd_commit d (js_get ctx ''sourceRoot'') (js_get (js_get fresh ''canonical_code'') ''ref'')) (\<lambda>commit.
     bind_r (require_git_commit commit ''source_commit'') (\<lambda>_.
     Inr (fresh, commit))))))))))))))"

text \<open>The \<^verbatim>\<open>catch\<close>: the lease is released with the arguments it was acquired with, and an error of
  the release is dropped in favour of the first one.\<close>

definition release_quietly :: "'s preflight_deps \<Rightarrow> js \<Rightarrow> 's \<Rightarrow> 's" where
  "release_quietly d ctx st =
     (case pd_release d of
        None \<Rightarrow> st
      | Some release \<Rightarrow> snd (release st (js_get ctx ''stateKey'') (js_get ctx ''operatorMachineId'')))"

definition acquire_apply_preflight ::
    "js \<Rightarrow> js \<Rightarrow> 's preflight_deps \<Rightarrow> 's \<Rightarrow> (binding_error + preflight_result) \<times> 's" where
  "acquire_apply_preflight approved ctx d st =
     (case unleased_preflight approved ctx d of
        Inl e \<Rightarrow> (Inl e, st)
      | Inr (fresh, commit) \<Rightarrow>
          (case pd_lease d st (js_get ctx ''stateKey'') (js_get ctx ''operatorMachineId'') of
             (Inl e, st1) \<Rightarrow> (Inl e, st1)
           | (Inr lease, st1) \<Rightarrow>
               (case leased_preflight d fresh commit (js_get ctx ''target'') (js_get ctx ''operatorMachineId'') lease of
                  Inl e \<Rightarrow> (Inl e, release_quietly d ctx st1)
                | Inr r \<Rightarrow> (Inr r, st1))))"

section \<open>Properties\<close>

lemma require_string_Inr [simp]: "require_string v f = Inr s \<longleftrightarrow> v = JStr s \<and> s \<noteq> []"
  by (cases v) (auto simp: require_string_def)

lemma require_git_commit_Inr [simp]: "require_git_commit v f = Inr s \<longleftrightarrow> v = JStr s \<and> git_commit_text s"
  by (cases v) (auto simp: require_git_commit_def)

lemma freshness_Inr:
  assumes "assert_plan_freshness approved fresh = Inr u"
  shows "js_get (js_get approved ''source'') ''descriptor_hash'' = js_get (js_get fresh ''source'') ''descriptor_hash'' \<and>
    plan_inventory approved = plan_inventory fresh \<and> js_get fresh ''version'' = JStr plan_version"
  using assms by (auto simp: assert_plan_freshness_def)

text \<open>A binding is the plan's descriptor, inventory and files with the acquired state: its two nested
  records hold exactly the acquired fields.\<close>

definition acquired_fence :: "js \<Rightarrow> js" where
  "acquired_fence f = JObj [(''generation'', js_get f ''generation''), (''lease_holder'', js_get f ''lease_holder''),
     (''lease_id'', js_get f ''lease_id'')]"

definition acquired_rollback :: "js \<Rightarrow> js" where
  "acquired_rollback r = JObj [(''snapshot_id'', js_get r ''snapshot_id''),
     (''expected_target_revision'', js_get r ''expected_target_revision'')]"

lemma fence_Inr: "require_acquired_fence f = Inr g \<Longrightarrow> g = acquired_fence f"
  by (auto simp: require_acquired_fence_def acquired_fence_def)

lemma rollback_Inr: "require_acquired_rollback r = Inr g \<Longrightarrow> g = acquired_rollback r"
  by (auto simp: require_acquired_rollback_def acquired_rollback_def)

lemma build_Inr:
  assumes "build_apply_binding plan acquired = Inr b" "\<not> js_nullish acquired"
  shows "\<exists>assets.
    map_r bound_asset (js_elems (js_get (js_get (js_get (js_get plan ''policy'') ''proposal'') ''included'') ''files'')) = Inr assets \<and>
    b = JObj
      [(''source_descriptor'', js_get (js_get plan ''source'') ''descriptor''), (''source_commit'', js_get acquired ''source_commit''),
       (''selected_assets'', JArr assets), (''asset_policy_hash'', plan_inventory plan),
       (''machine_id'', js_get acquired ''machine_id''), (''target_path'', js_get acquired ''target_path''),
       (''server_head'', js_get acquired ''server_head''), (''fence'', acquired_fence (js_get acquired ''fence'')),
       (''rollback'', acquired_rollback (js_get acquired ''rollback''))]"
proof (cases "js_get (js_get (js_get (js_get plan ''policy'') ''proposal'') ''included'') ''inventory_sha256''")
  case (JStr inv)
  with assms show ?thesis
    by (auto simp: build_apply_binding_def plan_inventory_def Let_def js_coalesce_def dest!: fence_Inr rollback_Inr)
qed (use assms in \<open>simp_all add: build_apply_binding_def Let_def\<close>)

text \<open>The binding of a successful preflight, from what each primitive answered.\<close>

definition preflight_binding :: "js \<Rightarrow> js list \<Rightarrow> js \<Rightarrow> js \<Rightarrow> js \<Rightarrow> js \<Rightarrow> js \<Rightarrow> js \<Rightarrow> js \<Rightarrow> js" where
  "preflight_binding fresh assets commit machine target lease operator lease_id rb = JObj
     [(''source_descriptor'', js_get (js_get fresh ''source'') ''descriptor''), (''source_commit'', commit),
      (''selected_assets'', JArr assets), (''asset_policy_hash'', plan_inventory fresh), (''machine_id'', machine),
      (''target_path'', target), (''server_head'', commit),
      (''fence'', JObj [(''generation'', js_get lease ''fencing_token''), (''lease_holder'', operator), (''lease_id'', lease_id)]),
      (''rollback'', acquired_rollback rb)]"

lemma leased_Inr:
  assumes "leased_preflight d fresh commit target operator lease = Inr r"
  shows "\<exists>machine rb lease_id assets.
    pd_machine d target = Inr machine \<and> pd_snapshot d target commit = Inr rb \<and> pd_lease_id d = Inr lease_id \<and>
    map_r bound_asset (js_elems (js_get (js_get (js_get (js_get fresh ''policy'') ''proposal'') ''included'') ''files'')) = Inr assets \<and>
    pr_plan r = fresh \<and> pr_binding r = preflight_binding fresh assets commit machine target lease operator lease_id rb"
proof -
  obtain machine rb lease_id where
    p: "pd_machine d target = Inr machine" "pd_snapshot d target commit = Inr rb" "pd_lease_id d = Inr lease_id"
    and b: "build_apply_binding fresh
        (preflight_acquired commit machine target (js_get lease ''fencing_token'') operator lease_id rb) = Inr (pr_binding r)"
      "pr_plan r = fresh"
    using assms by (auto simp: leased_preflight_def Let_def)
  have "\<not> js_nullish (preflight_acquired commit machine target (js_get lease ''fencing_token'') operator lease_id rb)"
    by (simp add: preflight_acquired_def)
  from build_Inr [OF b(1) this] p b(2) show ?thesis
    by (auto simp: preflight_binding_def preflight_acquired_def acquired_fence_def)
qed

text \<open>C16. The preflight on a lease store.  When it fails, either it never asked for the lease and the
  store is as before, or the acquisition itself failed, or the lease it got was given to the
  release primitive with the key and holder it was acquired with (whose own failure, which is
  dropped, is the only way to keep it).  When it succeeds the lease of the store is the one it
  acquired, the plan is the approved one in descriptor and inventory, and the binding consists of
  exactly what was planned and acquired: the checked files, the commit as source and head, the
  machine, the target, the token of this lease with its holder and id, and the snapshot.\<close>

theorem preflight_lease_and_binding:
  "let key = js_get ctx ''stateKey''; operator = js_get ctx ''operatorMachineId''; target = js_get ctx ''target'' in
   case acquire_apply_preflight approved ctx d st of
     (Inl _, st') \<Rightarrow>
       st' = st \<or> (\<exists>e. pd_lease d st key operator = (Inl e, st')) \<or>
       (\<exists>lease st1 release. pd_lease d st key operator = (Inr lease, st1) \<and> pd_release d = Some release \<and>
          st' = snd (release st1 key operator))
   | (Inr r, st') \<Rightarrow>
       (\<exists>fresh commit lease machine rb lease_id assets.
          pd_plan d (js_get ctx ''sourceRoot'') target = Inr fresh \<and> assert_plan_freshness approved fresh = Inr () \<and>
          pd_commit d (js_get ctx ''sourceRoot'') (js_get (js_get fresh ''canonical_code'') ''ref'') = Inr commit \<and>
          pd_lease d st key operator = (Inr lease, st') \<and>
          pd_machine d target = Inr machine \<and> pd_snapshot d target commit = Inr rb \<and> pd_lease_id d = Inr lease_id \<and>
          map_r bound_asset (js_elems (js_get (js_get (js_get (js_get fresh ''policy'') ''proposal'') ''included'') ''files''))
            = Inr assets \<and>
          pr_plan r = fresh \<and> plan_inventory fresh = plan_inventory approved \<and>
          js_get (js_get fresh ''source'') ''descriptor_hash'' = js_get (js_get approved ''source'') ''descriptor_hash'' \<and>
          pr_binding r = preflight_binding fresh assets commit machine target lease operator lease_id rb)"
proof (cases "acquire_apply_preflight approved ctx d st")
  case (Pair res st')
  show ?thesis
  proof (cases res)
    case (Inl e)
    show ?thesis
    proof (cases "unleased_preflight approved ctx d")
      case (Inr fc)
      then have "pd_release d \<noteq> None" by (auto simp: unleased_preflight_def)
      with Inr Inl Pair show ?thesis
        by (auto simp: acquire_apply_preflight_def release_quietly_def Let_def split: sum.splits prod.splits)
    qed (use Pair Inl in \<open>auto simp: acquire_apply_preflight_def\<close>)
  next
    case (Inr r)
    obtain fresh commit lease where
      u: "unleased_preflight approved ctx d = Inr (fresh, commit)"
      and l: "pd_lease d st (js_get ctx ''stateKey'') (js_get ctx ''operatorMachineId'') = (Inr lease, st')"
      and le: "leased_preflight d fresh commit (js_get ctx ''target'') (js_get ctx ''operatorMachineId'') lease = Inr r"
      using Pair Inr by (auto simp: acquire_apply_preflight_def split: sum.splits prod.splits)
    have p: "pd_plan d (js_get ctx ''sourceRoot'') (js_get ctx ''target'') = Inr fresh"
        "assert_plan_freshness approved fresh = Inr ()"
        "pd_commit d (js_get ctx ''sourceRoot'') (js_get (js_get fresh ''canonical_code'') ''ref'') = Inr commit"
      using u by (auto simp: unleased_preflight_def)
    show ?thesis
      using Pair Inr l p freshness_Inr [OF p(2)] leased_Inr [OF le] by (auto simp: Let_def)
  qed
qed

text \<open>A store with one lease, held or free.\<close>

definition demo_plan :: js where
  "demo_plan =
     JObj [(''version'', JStr plan_version),
           (''source'', JObj [(''descriptor_hash'', JStr ''d''), (''descriptor'', JObj [])]),
           (''canonical_code'', JObj [(''ref'', JStr ''main'')]),
           (''policy'', JObj [(''proposal'', JObj [(''included'', JObj
              [(''inventory_sha256'', JStr (replicate 64 CHR ''a'')),
               (''files'', JArr [JObj [(''path'', JStr ''memory/MEMORY.md''), (''sha256'', JStr (replicate 64 CHR ''b''))]])])])]),
           (''selected_assets'', JObj [(''ignored_state_roots'', JArr [])])]"

definition demo_ctx :: js where
  "demo_ctx = JObj [(''sourceRoot'', JStr ''/src''), (''target'', JStr ''/dst''), (''stateKey'', JStr ''k''),
     (''operatorMachineId'', JStr ''op''), (''now'', JNum (Fin 0)), (''store'', JObj [])]"

definition demo_deps :: "(binding_error + js) \<Rightarrow> bool preflight_deps" where
  "demo_deps machine = \<lparr>
     pd_plan = (\<lambda>_ _. Inr demo_plan), pd_commit = (\<lambda>_ _. Inr (JStr (replicate 40 CHR ''c''))),
     pd_lease = (\<lambda>_ _ _. (Inr (JObj [(''fencing_token'', JNum (Fin 7))]), True)),
     pd_release = Some (\<lambda>_ _ _. (Inr (), False)), pd_machine = (\<lambda>_. machine),
     pd_snapshot = (\<lambda>_ _. Inr (JObj [(''snapshot_id'', JStr ''s''), (''expected_target_revision'', JStr ''r'')])),
     pd_lease_id = Inr (JStr ''l'')\<rparr>"

lemma demo_unleased:
  "unleased_preflight demo_plan demo_ctx (demo_deps m) = Inr (demo_plan, JStr (replicate 40 CHR ''c''))"
  by code_simp

lemma demo_runs:
  "(case acquire_apply_preflight demo_plan demo_ctx (demo_deps (Inr (JStr ''host''))) False of
      (Inr r, held) \<Rightarrow> held | (Inl _, _) \<Rightarrow> False)"
  "(case acquire_apply_preflight demo_plan demo_ctx (demo_deps (Inl (DependencyThrew ''id''))) False of
      (Inl _, held) \<Rightarrow> \<not> held | (Inr r, _) \<Rightarrow> False)"
  by code_simp+

theorem preflight_lease_and_binding_witness:
  "case acquire_apply_preflight demo_plan demo_ctx (demo_deps (Inr (JStr ''host''))) False of
     (Inr r, held) \<Rightarrow> held \<and> js_get (pr_binding r) ''machine_id'' = JStr ''host'' \<and>
       js_get (js_get (pr_binding r) ''fence'') ''generation'' = JNum (Fin 7)
   | (Inl _, _) \<Rightarrow> False"
proof (cases "acquire_apply_preflight demo_plan demo_ctx (demo_deps (Inr (JStr ''host''))) False")
  case (Pair res held)
  with demo_runs(1) obtain r where r: "res = Inr r" "held" by (cases res) auto
  show ?thesis
    using preflight_lease_and_binding [where approved = demo_plan and ctx = demo_ctx and st = False and d = "demo_deps (Inr (JStr ''host''))"] Pair r
    by (auto simp: demo_deps_def preflight_binding_def Let_def)
qed

definition roots_plan :: "string list \<Rightarrow> js" where
  "roots_plan roots =
     JObj [(''version'', JStr plan_version), (''source'', JObj [(''descriptor_hash'', JStr ''d'')]),
           (''policy'', JObj [(''proposal'', JObj [(''included'', JObj [(''inventory_sha256'', JStr ''i'')])])]),
           (''selected_assets'', JObj [(''ignored_state_roots'', JArr (map JStr roots))])]"

text \<open>The comparison of the collected roots counts only one way: a plan whose roots repeat passes
  although the fresh plan has a root that was never approved.\<close>

theorem repeated_roots_hide_drift:
  "assert_plan_freshness (roots_plan [''memory'', ''memory'']) (roots_plan [''memory'', ''secrets'']) = Inr () \<and>
   set [''memory'', ''memory''] \<noteq> set [''memory'', ''secrets'']"
  by (auto simp: assert_plan_freshness_def roots_plan_def same_set_def plan_inventory_def plan_roots_def require_string_def)

end
