(* ===== verification/CanonicalJson.thy ===== *)
theory CanonicalJson
  imports MemoryConflict
begin

text \<open>
  JSON texts as names of values: the text with sorted fields over which hashes and signatures are
  taken (\<^verbatim>\<open>canonicalJson\<close> of \<^verbatim>\<open>lib/network/machine-approval-receipts.js\<close>, and the text that
  \<^verbatim>\<open>canonicalSerialize\<close> of \<^verbatim>\<open>lib/transcript-archive/contracts.js\<close> builds), and the proof that it
  determines the value up to the order of fields.  Every text ends where the next comma or bracket
  begins, so a text splits in one way.  The text of a number is the parameter \<open>nt\<close>.
\<close>

section \<open>The text\<close>

definition compare_keys :: "string \<times> 'a \<Rightarrow> string \<times> 'a \<Rightarrow> int" where
  "compare_keys a b = compare_code_units (fst a) (fst b)"

text \<open>\<^verbatim>\<open>canonicalJson\<close> of a plain value: fields sorted by code units of their names.\<close>

fun canonical_json :: "(jsnum \<Rightarrow> string) \<Rightarrow> js \<Rightarrow> string" where
  "canonical_json nt JNull = ''null''"
| "canonical_json nt (JBool b) = (if b then ''true'' else ''false'')"
| "canonical_json nt (JStr s) = json_string s"
| "canonical_json nt (JNum n) = nt n"
| "canonical_json nt (JArr vs) = ''['' @ join_with '','' (map (canonical_json nt) vs) @ '']''"
| "canonical_json nt (JObj kvs) =
     ''{'' @ join_with '',''
       (map (\<lambda>(k, t). json_string k @ '':'' @ t)
         (sort_by compare_keys (map (\<lambda>(k, v). (k, canonical_json nt v)) kvs))) @ ''}''"
| "canonical_json nt JUndef = []"

interpretation key_order: comparator compare_keys
  by unfold_locales (auto simp: compare_keys_def compare_code_units_def split: if_splits)

lemma compare_keys_separates:
  "distinct (map fst xs) \<Longrightarrow> x \<in> set xs \<Longrightarrow> y \<in> set xs \<Longrightarrow>
   compare_keys x y \<le> 0 \<Longrightarrow> compare_keys y x \<le> 0 \<Longrightarrow> x = y"
  by (cases x; cases y)
     (auto simp: compare_keys_def compare_code_units_def split: if_splits dest: eq_key_imp_eq_value)

lemma canonical_json_fields:
  assumes "distinct (map fst xs)" and "mset xs = mset ys"
  shows "canonical_json nt (JObj xs) = canonical_json nt (JObj ys)"
proof -
  let ?f = "\<lambda>(k, v). (k, canonical_json nt v)"
  have "map (fst \<circ> ?f) xs = map fst xs" by (induction xs) auto
  then have d: "distinct (map fst (map ?f xs))" using assms(1) by (simp only: map_map)
  have m: "mset (map ?f xs) = mset (map ?f ys)" using assms(2) by simp
  have "sort_by compare_keys (map ?f xs) = sort_by compare_keys (map ?f ys)"
    by (rule key_order.sort_by_perm [OF m compare_keys_separates [OF d]])
  then show ?thesis by simp
qed

section \<open>Values and their ordered form\<close>

text \<open>JSON data: numbers are finite, no field is undefined, and the fields of an object differ.\<close>

fun json_value :: "js \<Rightarrow> bool" where
  "json_value JUndef = False"
| "json_value JNull = True"
| "json_value (JBool b) = True"
| "json_value (JStr s) = True"
| "json_value (JNum n) = num_is_finite n"
| "json_value (JArr vs) = list_all json_value vs"
| "json_value (JObj kvs) = (distinct (map fst kvs) \<and> list_all (\<lambda>kv. json_value (snd kv)) kvs)"

definition by_key :: "(string \<times> 'a) list \<Rightarrow> (string \<times> 'a) list" where
  "by_key kvs = sort_by compare_keys kvs"

fun ordered :: "js \<Rightarrow> js" where
  "ordered (JArr vs) = JArr (map ordered vs)"
| "ordered (JObj kvs) = JObj (by_key (map (\<lambda>(k, v). (k, ordered v)) kvs))"
| "ordered v = v"

lemma sort_by_map:
  assumes "\<And>a b. cmp (g a) (g b) = cmp' a b"
  shows "sort_by cmp (map g xs) = map g (sort_by cmp' xs)"
proof -
  have ins: "insert_by cmp (g x) (map g ys) = map g (insert_by cmp' x ys)" for x ys
    by (induction ys) (simp_all add: assms)
  have "fold (insert_by cmp) (map g xs) (map g acc) = map g (fold (insert_by cmp') xs acc)" for acc
    by (induction xs arbitrary: acc) (simp_all add: ins)
  from this [of "[]"] show ?thesis by (simp add: sort_by_def)
qed

lemma by_key_map: "by_key (map (\<lambda>(k, v). (k, g v)) kvs) = map (\<lambda>(k, v). (k, g v)) (by_key kvs)"
  unfolding by_key_def by (rule sort_by_map) (auto simp: compare_keys_def)

lemma set_by_key [simp]: "set (by_key kvs) = set kvs"
  by (simp add: by_key_def)

lemma ordered_defined [simp]: "ordered v = JUndef \<longleftrightarrow> v = JUndef"
  by (cases v) simp_all

lemma json_value_defined: "json_value v \<Longrightarrow> v \<noteq> JUndef"
  by auto

lemma distinct_keys_by_key [simp]: "distinct (map fst (by_key kvs)) = distinct (map fst kvs)"
  unfolding by_key_def by (metis mset_map mset_sort_by mset_eq_imp_distinct_iff)

lemma json_value_ordered [simp]: "json_value (ordered v) = json_value v"
proof (induction v)
  case (JObj kvs)
  have "map fst (map (\<lambda>(k, v). (k, ordered v)) kvs) = map fst kvs" by (induction kvs) auto
  moreover have "list_all (\<lambda>kv. json_value (snd kv)) (map (\<lambda>(k, v). (k, ordered v)) kvs) = list_all (\<lambda>kv. json_value (snd kv)) kvs"
    using JObj by (fastforce simp: list_all_iff)
  ultimately show ?case by (simp only: ordered.simps json_value.simps distinct_keys_by_key list_all_iff set_by_key)
qed (auto simp: list_all_iff)

text \<open>The canonical text is the plain text of the ordered value.\<close>

lemma canonical_json_ordered: "json_value v \<Longrightarrow> canonical_json nt v = json_text nt (ordered v)"
proof (induction v)
  case (JArr vs)
  then show ?case by (simp add: list_all_iff comp_def cong: map_cong)
next
  case (JObj kvs)
  have sub: "canonical_json nt v = json_text nt (ordered v)" if "(k, v) \<in> set kvs" for k v
    using JObj that by (fastforce simp: list_all_iff)
  then have texts: "map (\<lambda>(k, v). (k, canonical_json nt v)) kvs = map (\<lambda>(k, v). (k, json_text nt (ordered v))) kvs"
    by auto
  have sorted: "sort_by compare_keys (map (\<lambda>(k, v). (k, json_text nt (ordered v))) kvs) =
      map (\<lambda>(k, v). (k, json_text nt (ordered v))) (by_key kvs)"
    unfolding by_key_def by (rule sort_by_map) (auto simp: compare_keys_def)
  have kept: "filter (\<lambda>(_, v). v \<noteq> JUndef) (map (\<lambda>(k, v). (k, ordered v)) (by_key kvs)) = map (\<lambda>(k, v). (k, ordered v)) (by_key kvs)"
    using JObj.prems by (auto simp: filter_id_conv list_all_iff)
  show ?case
    by (simp only: ordered.simps by_key_map canonical_json.simps json_text.simps texts sorted kept map_map)
      (simp add: comp_def case_prod_unfold)
qed auto

text \<open>Fields of an ordered value, and objects with the same fields.\<close>

lemma js_get_ordered: "json_value v \<Longrightarrow> js_get (ordered v) k = ordered (js_get v k)"
proof (cases v)
  case (JObj kvs)
  assume "json_value v"
  with JObj have dist: "distinct (map fst (map (\<lambda>(k, v). (k, ordered v)) kvs))" by (simp add: comp_def case_prod_unfold)
  have "map_of (by_key (map (\<lambda>(k, v). (k, ordered v)) kvs)) = map_of (map (\<lambda>(k, v). (k, ordered v)) kvs)"
    by (subst map_of_inject_set) (simp_all add: dist del: map_map)
  moreover have "map_of (map (\<lambda>(k, v). (k, ordered v)) kvs) k = map_option ordered (map_of kvs k)"
    by (induction kvs) auto
  ultimately show ?thesis using JObj by (simp split: option.split)
qed auto

lemma ordered_fields:
  assumes "distinct (map fst xs)" and "distinct (map fst ys)" and "map_of xs = map_of ys"
  shows "ordered (JObj xs) = ordered (JObj ys)"
proof -
  let ?f = "\<lambda>(k, v). (k, ordered v)"
  have "set xs = set ys" using assms by (simp add: map_of_inject_set)
  then have "mset xs = mset ys" using assms(1,2) by (simp add: set_eq_iff_mset_eq_distinct distinct_map)
  then have m: "mset (map ?f xs) = mset (map ?f ys)" by simp
  have "distinct (map fst (map ?f xs))" using assms(1) by (simp add: comp_def case_prod_unfold)
  then have "by_key (map ?f xs) = by_key (map ?f ys)"
    unfolding by_key_def by (rule key_order.sort_by_perm [OF m compare_keys_separates])
  then show ?thesis by simp
qed

section \<open>Where a text ends\<close>

text \<open>A string literal ends at its first quote that no backslash precedes.\<close>

fun literal_end :: "nat list \<Rightarrow> (nat list \<times> nat list) option" where
  "literal_end [] = None"
| "literal_end (c # r) =
     (if c = 0x22 then Some ([], r)
      else if c = 0x5c then
        (case r of [] \<Rightarrow> None | e # r' \<Rightarrow> map_option (\<lambda>(a, b). (c # e # a, b)) (literal_end r'))
      else map_option (\<lambda>(a, b). (c # a, b)) (literal_end r))"

lemma literal_end_plain:
  "\<forall>c \<in> set p. c \<noteq> 0x22 \<and> c \<noteq> 0x5c \<Longrightarrow> literal_end (p @ r) = map_option (\<lambda>(a, b). (p @ a, b)) (literal_end r)"
  by (induction p) (auto simp: option.map_comp comp_def case_prod_unfold option.map_ident)

lemma hex_unit_plain: "hex_unit (n mod 16) \<noteq> 0x22 \<and> hex_unit (n mod 16) \<noteq> 0x5c"
  using mod_less_divisor [of 16 n] by (auto simp: hex_unit_def)

lemma literal_end_escape:
  "literal_end (escape2 c @ r) = map_option (\<lambda>(a, b). (escape2 c @ a, b)) (literal_end r)"
  "literal_end (escape4 c @ r) = map_option (\<lambda>(a, b). (escape4 c @ a, b)) (literal_end r)"
  using hex_unit_plain
  by (simp_all add: escape2_def escape4_def option.map_comp comp_def case_prod_unfold del: mod_mod_trivial)

lemma literal_end_quoted: "literal_end (quote_body s @ 0x22 # r) = Some (quote_body s, r)"
proof (induction s rule: quote_body.induct)
  case (2 c s)
  show ?case
  proof (cases "short_escape c")
    case (Some e)
    with 2 show ?thesis by simp
  next
    case None
    with 2 short_escape_None [OF None] show ?thesis
      by (auto simp: literal_end_escape split: list.splits)
  qed
qed simp

lemma quote_body_splits:
  assumes "quote_body s @ 0x22 # r = quote_body s' @ 0x22 # r'" and "\<forall>c \<in> set s \<union> set s'. c < 65536"
  shows "s = s' \<and> r = r'"
proof -
  have "Some (quote_body s, r) = Some (quote_body s', r')"
    using arg_cong [OF assms(1), of literal_end] by (simp only: literal_end_quoted)
  then have same: "quote_body s = quote_body s'" "r = r'" by (simp_all only: option.inject prod.inject)
  have "read_body (quote_body s @ [0x22]) = Some s" "read_body (quote_body s' @ [0x22]) = Some s'"
    by (rule read_quote_body, use assms(2) in blast)+
  with same show ?thesis by (metis option.inject)
qed

lemma escape2_small: "c \<in> set (escape2 n) \<Longrightarrow> c < 256"
  using hex_unit_bounds [of "n div 16 mod 16"] hex_unit_bounds [of "n mod 16"]
  by (auto simp: escape2_def simp del: mod_mod_trivial)

lemma quote_body_small: "\<forall>c \<in> set s. c < 256 \<Longrightarrow> \<forall>c \<in> set (quote_body s). c < 256"
proof (induction s)
  case (Cons c s)
  show ?case
  proof (cases "short_escape c")
    case (Some e)
    with Cons short_escape_Some [OF Some] show ?thesis by simp
  next
    case None
    with Cons.prems have "quote_body (c # s) = (if c \<le> 0x1f then escape2 c else [c]) @ quote_body s" by simp
    with Cons show ?thesis by (auto simp: escape2_small simp del: quote_body.simps split: if_splits)
  qed
qed simp

lemma codes_json_string: "codes (json_string s) = 0x22 # quote_body (codes s) @ [0x22]"
proof -
  have "\<forall>c \<in> set (quote_json_string (codes s)). c < 256"
    using quote_body_small [of "codes s"] by (auto simp: quote_json_string_def codes_def)
  then have "map of_char (map char_of (quote_json_string (codes s)) :: string) = quote_json_string (codes s)"
    by (simp add: map_idI)
  then show ?thesis by (simp add: json_string_def codes_def quote_json_string_def)
qed

lemma codes_inj: "codes s = codes t \<Longrightarrow> s = t"
  unfolding codes_def by (simp add: inj_map_eq_map inj_def)

lemma json_string_splits:
  assumes "json_string s @ r = json_string s' @ r'"
  shows "s = s' \<and> r = r'"
proof -
  have "codes (json_string s @ r) = codes (json_string s' @ r')" using assms by simp
  then have "quote_body (codes s) @ 0x22 # codes r = quote_body (codes s') @ 0x22 # codes r'"
    using codes_json_string by (simp add: codes_def)
  then have "codes s = codes s' \<and> codes r = codes r'"
    by (rule quote_body_splits) (auto simp: codes_def intro: less_trans [OF nat_of_char_less_256])
  then show ?thesis by (blast dest: codes_inj)
qed

lemma json_string_head: "\<exists>t. json_string s = CHR 0x22 # t"
  by (simp add: json_string_def quote_json_string_def char_of_eq_iff)

section \<open>A text determines its value\<close>

definition number_char :: "char \<Rightarrow> bool" where
  "number_char c \<longleftrightarrow> is_digit_char c \<or> c \<in> set ''+-.e''"

text \<open>The text of a number: not empty, of the characters of a numeral, and different for different numbers.\<close>

definition number_text :: "(jsnum \<Rightarrow> string) \<Rightarrow> bool" where
  "number_text nt \<longleftrightarrow>
     (\<forall>q. nt (Fin q) \<noteq> [] \<and> list_all number_char (nt (Fin q))) \<and> (\<forall>p q. nt (Fin p) = nt (Fin q) \<longrightarrow> p = q)"

definition closes :: "string \<Rightarrow> bool" where
  "closes r \<longleftrightarrow> r = [] \<or> hd r \<in> set '',]}''"

lemma closes_simps [simp]:
  "closes []" "closes (CHR '','' # r)" "closes (CHR '']'' # r)" "closes (CHR ''}'' # r)"
  by (simp_all add: closes_def)

lemma number_splits:
  assumes "number_text nt" and "nt (Fin p) @ r = nt (Fin q) @ r'" and "closes r" and "closes r'"
  shows "p = q \<and> r = r'"
proof -
  have "takeWhile number_char (nt (Fin x) @ u) = nt (Fin x)" if "closes u" for x u
  proof -
    have "takeWhile number_char u = []"
      using that by (cases u) (auto simp: closes_def number_char_def is_digit_char_def less_eq_char_def)
    then show ?thesis using assms(1) by (simp add: number_text_def list_all_iff takeWhile_append)
  qed
  with assms have "nt (Fin p) = nt (Fin q)" by metis
  with assms(1,2) show ?thesis by (simp add: number_text_def)
qed

lemma number_head:
  assumes "number_text nt"
  shows "\<exists>c t. nt (Fin q) = c # t \<and> number_char c"
  using assms by (cases "nt (Fin q)") (auto simp: number_text_def dest: spec [of _ q])

lemma number_char_not [simp]:
  "\<not> number_char CHR ''n''" "\<not> number_char CHR ''t''" "\<not> number_char CHR ''f''" "\<not> number_char CHR 0x22"
  "\<not> number_char CHR ''[''" "\<not> number_char CHR ''{''" "\<not> number_char CHR '',''" "\<not> number_char CHR '']''" "\<not> number_char CHR ''}''"
  by (simp_all add: number_char_def is_digit_char_def less_eq_char_def)

text \<open>The first character of a text tells the kind of the value.\<close>

definition text_kind :: "char \<Rightarrow> js \<Rightarrow> bool" where
  "text_kind c v =
     (case v of
        JNull \<Rightarrow> c = CHR ''n'' | JBool b \<Rightarrow> c = (if b then CHR ''t'' else CHR ''f'') | JNum n \<Rightarrow> number_char c
      | JStr s \<Rightarrow> c = CHR 0x22 | JArr vs \<Rightarrow> c = CHR ''['' | JObj kvs \<Rightarrow> c = CHR ''{'' | JUndef \<Rightarrow> False)"

lemma text_head:
  assumes "number_text nt" and "json_value v"
  shows "\<exists>c t. json_text nt v = c # t \<and> text_kind c v"
proof (cases v)
  case (JNum n)
  with assms number_head show ?thesis by (cases n) (auto simp: text_kind_def)
qed (use assms json_string_head in \<open>auto simp: text_kind_def\<close>)

lemma text_kind_not_closing: "text_kind c v \<Longrightarrow> c \<notin> set '',]}''"
  by (cases v) (auto simp: text_kind_def split: if_splits)

lemma text_not_closing:
  assumes "number_text nt" and "json_value v" and "c \<in> set '',]}''"
  shows "json_text nt v @ r \<noteq> c # t"
proof -
  obtain d u where "json_text nt v = d # u" "text_kind d v" using text_head [OF assms(1,2)] by blast
  then show ?thesis using assms(3) text_kind_not_closing [of d v] by auto
qed

text \<open>Lists of texts: every item after the first follows a comma.\<close>

lemma join_with_Cons: "join_with sep (x # xs) = x @ concat (map (\<lambda>y. sep @ y) xs)"
  by (induction xs arbitrary: x) simp_all

lemma items_split:
  assumes "\<And>x y r r'. x \<in> set xs \<Longrightarrow> y \<in> set ys \<Longrightarrow> f x @ r = f y @ r' \<Longrightarrow> closes r \<Longrightarrow> closes r' \<Longrightarrow> x = y \<and> r = r'"
    and "e \<in> set '']}''"
    and "concat (map (\<lambda>x. CHR '','' # f x) xs) @ e # r = concat (map (\<lambda>x. CHR '','' # f x) ys) @ e # r'"
  shows "xs = ys \<and> r = r'"
  using assms
proof (induction xs arbitrary: ys)
  case Nil
  then show ?case by (cases ys) auto
next
  case (Cons x xs)
  then obtain y ys' where ys: "ys = y # ys'" by (cases ys) auto
  have closing: "closes (concat (map (\<lambda>x. CHR '','' # f x) zs) @ e # u)" for zs u
    using Cons.prems(2) by (cases zs) auto
  have "f x @ (concat (map (\<lambda>x. CHR '','' # f x) xs) @ e # r) = f y @ (concat (map (\<lambda>x. CHR '','' # f x) ys') @ e # r')"
    using Cons.prems(3) ys by simp
  then have "x = y \<and> concat (map (\<lambda>x. CHR '','' # f x) xs) @ e # r = concat (map (\<lambda>x. CHR '','' # f x) ys') @ e # r'"
    using Cons.prems(1) [of x y] closing ys by simp
  then show ?case using Cons.IH [of ys'] Cons.prems(1,2) ys by auto
qed

lemma join_splits:
  assumes "\<And>x y r r'. x \<in> set xs \<Longrightarrow> y \<in> set ys \<Longrightarrow> f x @ r = f y @ r' \<Longrightarrow> closes r \<Longrightarrow> closes r' \<Longrightarrow> x = y \<and> r = r'"
    and "e \<in> set '']}''"
    and "\<And>x t u. x \<in> set xs \<union> set ys \<Longrightarrow> f x @ t \<noteq> e # u"
    and "join_with '','' (map f xs) @ e # r = join_with '','' (map f ys) @ e # r'"
  shows "xs = ys \<and> r = r'"
proof (cases "xs = [] \<or> ys = []")
  case True
  with assms(3,4) show ?thesis
    by (cases xs; cases ys) (auto simp: join_with_Cons simp del: join_with.simps(3), metis)
next
  case False
  then have "concat (map (\<lambda>x. CHR '','' # f x) xs) @ e # r = concat (map (\<lambda>x. CHR '','' # f x) ys) @ e # r'"
    using assms(4) by (cases xs; cases ys) (auto simp: join_with_Cons comp_def simp del: join_with.simps(3))
  then show ?thesis using assms(1,2) items_split [of xs ys f] by blast
qed

lemma text_splits:
  assumes nt: "number_text nt"
  shows "json_value v \<Longrightarrow> json_value w \<Longrightarrow> json_text nt v @ r = json_text nt w @ r' \<Longrightarrow> closes r \<Longrightarrow> closes r' \<Longrightarrow>
    v = w \<and> r = r'"
proof (induction v arbitrary: w r r')
  case (JNum n)
  obtain c t where head: "json_text nt w = c # t" "text_kind c w" using text_head [OF nt JNum.prems(2)] by blast
  obtain p where n: "n = Fin p" using JNum.prems(1) by (cases n) auto
  obtain d u where "nt (Fin p) = d # u" "number_char d" using number_head [OF nt] by blast
  with JNum.prems(3) head n have "number_char c" by simp
  with head(2) obtain m where "w = JNum m" by (cases w) (auto simp: text_kind_def split: if_splits)
  moreover from this JNum.prems(2) obtain q where "m = Fin q" by (cases m) auto
  ultimately show ?case using number_splits [OF nt, of p r q r'] JNum.prems n by simp
next
  case (JStr s)
  obtain t where "json_string s = CHR 0x22 # t" using json_string_head by blast
  moreover obtain c u where head: "json_text nt w = c # u" "text_kind c w" using text_head [OF nt JStr.prems(2)] by blast
  ultimately have "c = CHR 0x22" using JStr.prems(3) by simp
  with head(2) obtain s' where w: "w = JStr s'" by (cases w) (auto simp: text_kind_def split: if_splits)
  with JStr.prems(3) have "json_string s @ r = json_string s' @ r'" by (simp only: json_text.simps)
  from json_string_splits [OF this] w show ?case by blast
next
  case (JArr vs)
  obtain c u where head: "json_text nt w = c # u" "text_kind c w" using text_head [OF nt JArr.prems(2)] by blast
  with JArr.prems(3) have "c = CHR ''[''" by simp
  with head(2) obtain ws where w: "w = JArr ws" by (cases w) (auto simp: text_kind_def split: if_splits)
  have "vs = ws \<and> r = r'"
  proof (rule join_splits [where f = "json_text nt" and e = "CHR '']''"])
    show "x = y \<and> q = q'" if "x \<in> set vs" "y \<in> set ws" "json_text nt x @ q = json_text nt y @ q'" "closes q" "closes q'" for x y q q'
      using JArr.IH [OF that(1) _ _ that(3-5)] JArr.prems(1,2) w that(1,2) by (simp add: list_all_iff)
    show "json_text nt x @ t \<noteq> CHR '']'' # u" if "x \<in> set vs \<union> set ws" for x t u
      using text_not_closing [OF nt] JArr.prems(1,2) w that by (auto simp: list_all_iff)
  qed (use JArr.prems(3) w in simp_all)
  with w show ?case by simp
next
  case (JObj kvs)
  obtain c u where head: "json_text nt w = c # u" "text_kind c w" using text_head [OF nt JObj.prems(2)] by blast
  with JObj.prems(3) have "c = CHR ''{''" by simp
  with head(2) obtain ws where w: "w = JObj ws" by (cases w) (auto simp: text_kind_def split: if_splits)
  let ?f = "\<lambda>(k, v). json_string k @ '':'' @ json_text nt v"
  have kept: "filter (\<lambda>(_, v). v \<noteq> JUndef) kvs = kvs" "filter (\<lambda>(_, v). v \<noteq> JUndef) ws = ws"
    using JObj.prems(1,2) w by (auto simp: filter_id_conv list_all_iff)
  have "kvs = ws \<and> r = r'"
  proof (rule join_splits [where f = ?f and e = "CHR ''}''"])
    show "x = y \<and> q = q'" if xy: "x \<in> set kvs" "y \<in> set ws" "?f x @ q = ?f y @ q'" "closes q" "closes q'" for x y q q'
    proof -
      obtain k v k' v' where kv: "x = (k, v)" "y = (k', v')" by fastforce
      with xy(3) have "json_string k @ ('':'' @ json_text nt v @ q) = json_string k' @ ('':'' @ json_text nt v' @ q')" by simp
      then have "k = k'" "json_text nt v @ q = json_text nt v' @ q'" by (auto dest: json_string_splits)
      moreover have "json_value v" "json_value v'" using JObj.prems(1,2) w xy(1,2) kv by (auto simp: list_all_iff)
      moreover have "v \<in> Basic_BNFs.snds x" using kv by simp
      ultimately show ?thesis using JObj.IH [OF xy(1)] xy(4,5) kv by blast
    qed
    show "?f x @ t \<noteq> CHR ''}'' # u" if "x \<in> set kvs \<union> set ws" for x t u
      using json_string_head [of "fst x"] by (auto simp: case_prod_unfold)
  qed (use JObj.prems(3) w kept in simp_all)
  with w show ?case by simp
next
  case JNull
  obtain c u where head: "json_text nt w = c # u" "text_kind c w" using text_head [OF nt JNull.prems(2)] by blast
  with JNull.prems(3) have "c = CHR ''n''" by simp
  with head(2) have "w = JNull" by (cases w) (auto simp: text_kind_def split: if_splits)
  with JNull.prems(3) show ?case by simp
next
  case (JBool b)
  obtain c u where head: "json_text nt w = c # u" "text_kind c w" using text_head [OF nt JBool.prems(2)] by blast
  with JBool.prems(3) have "c = (if b then CHR ''t'' else CHR ''f'')" by (simp split: if_splits)
  with head(2) have "w = JBool b" by (cases w) (auto simp: text_kind_def split: if_splits)
  with JBool.prems(3) show ?case by simp
qed simp

lemma canonical_text_names:
  assumes "number_text nt" and "json_value v" and "json_value w"
  shows "canonical_json nt v = canonical_json nt w \<longleftrightarrow> ordered v = ordered w"
proof -
  have "ordered v = ordered w" if "json_text nt (ordered v) = json_text nt (ordered w)"
    using text_splits [OF assms(1), of "ordered v" "ordered w" "[]" "[]"] that assms(2,3) by simp
  then show ?thesis using assms by (auto simp: canonical_json_ordered)
qed

text \<open>A text for every number, in unary.\<close>

definition unary_text :: "jsnum \<Rightarrow> string" where
  "unary_text n =
     (case n of
        Fin q \<Rightarrow> (case quotient_of q of
                   (a, b) \<Rightarrow> (if a < 0 then ''-'' else ''+'') @ replicate (nat \<bar>a\<bar>) CHR ''1'' @ ''.'' @ replicate (nat b) CHR ''1'')
      | _ \<Rightarrow> [])"

lemma unary_split:
  assumes "replicate m CHR ''1'' @ CHR ''.'' # xs = replicate n CHR ''1'' @ CHR ''.'' # ys"
  shows "m = n \<and> xs = ys"
proof -
  have "takeWhile (\<lambda>c. c = CHR ''1'') (replicate k CHR ''1'' @ CHR ''.'' # zs) = replicate k CHR ''1''" for k zs
    by (induction k) simp_all
  then have "replicate m CHR ''1'' = replicate n CHR ''1''" using assms by metis
  then have "m = n" by (metis length_replicate)
  with assms show ?thesis by simp
qed

lemma unary_number_text: "number_text unary_text"
proof -
  have "p = q" if same: "unary_text (Fin p) = unary_text (Fin q)" for p q
  proof -
    obtain a b c d where q: "quotient_of p = (a, b)" "quotient_of q = (c, d)" by fastforce
    then have pos: "b > 0" "d > 0" by (simp_all add: quotient_of_denom_pos)
    have sign: "a < 0 \<longleftrightarrow> c < 0" using same q by (auto simp: unary_text_def split: if_splits)
    then have "replicate (nat \<bar>a\<bar>) CHR ''1'' @ CHR ''.'' # replicate (nat b) CHR ''1'' =
        replicate (nat \<bar>c\<bar>) CHR ''1'' @ CHR ''.'' # replicate (nat d) CHR ''1''"
      using same q by (simp add: unary_text_def split: if_splits)
    from unary_split [OF this] have "nat \<bar>a\<bar> = nat \<bar>c\<bar>" "nat b = nat d" by (auto dest: arg_cong [of _ _ length])
    then have "a = c" "b = d" using sign pos by auto
    with q show ?thesis by (metis quotient_of_inject)
  qed
  moreover have "number_char CHR ''1''" "number_char CHR ''.''" "number_char CHR ''+''" "number_char CHR ''-''"
    by (simp_all add: number_char_def is_digit_char_def less_eq_char_def)
  then have "list_all number_char (unary_text (Fin q))" for q
    by (auto simp: unary_text_def list_all_iff split: prod.split if_splits)
  moreover have "unary_text (Fin q) \<noteq> []" for q by (auto simp: unary_text_def split: prod.split)
  ultimately show ?thesis unfolding number_text_def by blast
qed

end
