(* ===== verification/ApprovalReceipts.thy ===== *)
theory ApprovalReceipts
  imports CanonicalJson
begin

text \<open>
  Approval evidence and receipts of machine-add, \<^verbatim>\<open>lib/network/machine-approval-receipts.js\<close>:
  plain values (their canonical text is that of \<open>CanonicalJson\<close>), the bound tuple with its hash, verification of an
  approval and its atomic consumption, creation, verification and appending of receipts.
  Parameters: the text of a number \<open>nt\<close>; SHA-256 as \<open>hash\<close>; \<^verbatim>\<open>Date.parse\<close> on strings of the
  UTC form as \<open>dp\<close>; Ed25519 verification \<open>sig_ok\<close> of a public key, a message and a signature,
  which is \<open>None\<close> for a key that does not parse or is of another type; the identity resolver; the
  descriptor validator of \<^verbatim>\<open>lib/brain/source-descriptor.js\<close>.
\<close>

section \<open>Plain values and canonical JSON\<close>

datatype contract_error = ContractError string | NotCanonical

fun secret_word :: "string \<Rightarrow> bool" where
  "secret_word s =
     list_ex (has_sub (to_lower s))
       [''secret'', ''private'', ''credential'', ''password'', ''token'', ''api_key'', ''api-key'', ''apikey'', ''authorization'']"

text \<open>\<^verbatim>\<open>/-----BEGIN .*PRIVATE KEY-----/\<close>: both parts on one line.\<close>

fun pem_secret :: "string \<Rightarrow> bool" where
  "pem_secret [] = False"
| "pem_secret (c # s) =
     ((starts_with (c # s) ''-----BEGIN '' \<and>
       has_sub (takeWhile (\<lambda>x. x \<noteq> CHR 0x0A \<and> x \<noteq> CHR 0x0D) (drop 11 (c # s))) ''PRIVATE KEY-----'') \<or> pem_secret s)"

fun plain_value :: "js \<Rightarrow> bool" where
  "plain_value JNull = True"
| "plain_value (JBool _) = True"
| "plain_value (JStr s) = (\<not> pem_secret s)"
| "plain_value (JNum n) = num_is_finite n"
| "plain_value (JArr vs) = list_all plain_value vs"
| "plain_value (JObj kvs) = list_all (\<lambda>kv. \<not> secret_word (fst kv) \<and> plain_value (snd kv)) kvs"
| "plain_value JUndef = False"

definition canonical :: "(jsnum \<Rightarrow> string) \<Rightarrow> js \<Rightarrow> contract_error + string" where
  "canonical nt v = throw_if (\<not> plain_value v) NotCanonical (Inr (canonical_json nt v))"

section \<open>Checks\<close>

definition contract_require_string :: "js \<Rightarrow> string \<Rightarrow> contract_error + string" where
  "contract_require_string v f =
     (case v of JStr s \<Rightarrow> throw_if (s = []) (ContractError f) (Inr s) | _ \<Rightarrow> Inl (ContractError f))"

definition assert_exact_keys :: "js \<Rightarrow> string list \<Rightarrow> string \<Rightarrow> contract_error + unit" where
  "assert_exact_keys v allowed f =
     throw_if (\<not> js_is_record v \<or> list_ex (\<lambda>k. k \<notin> set allowed) (js_keys v)) (ContractError f) (Inr ())"

text \<open>\<^verbatim>\<open>REGEXP.test(value ?? '')\<close> converts its argument to a string.\<close>

definition regexp_test :: "(jsnum \<Rightarrow> string) \<Rightarrow> (string \<Rightarrow> bool) \<Rightarrow> js \<Rightarrow> bool" where
  "regexp_test nt re v = re (js_to_string nt (js_coalesce v (JStr [])))"

definition nonce_text :: "string \<Rightarrow> bool" where
  "nonce_text s \<longleftrightarrow> 16 \<le> length s \<and> length s \<le> 256 \<and>
     list_all (\<lambda>c. is_alnum_char c \<or> c = CHR ''_'' \<or> c = CHR ''-'') s"

definition approval_record_text :: "string \<Rightarrow> bool" where
  "approval_record_text s \<longleftrightarrow>
     starts_with s ''approval-record-'' \<and> 4 \<le> length (drop 16 s) \<and> list_all is_digit_char (drop 16 s)"

definition matches_template :: "string \<Rightarrow> string \<Rightarrow> bool" where
  "matches_template t s \<longleftrightarrow>
     length s = length t \<and> list_all (\<lambda>(x, c). if x = CHR ''d'' then is_digit_char c else c = x) (zip t s)"

definition utc_text :: "string \<Rightarrow> bool" where
  "utc_text s = matches_template ''dddd-dd-ddTdd:dd:dd.dddZ'' s"

text \<open>\<^verbatim>\<open>/(?:^|\/)\.env(?:\.|$)/i\<close>: a segment that begins with \<^verbatim>\<open>.env.\<close>, or \<^verbatim>\<open>.env\<close> as the last one.\<close>

definition env_path :: "string \<Rightarrow> bool" where
  "env_path p \<longleftrightarrow>
     (let segs = split_on (CHR ''/'') (to_lower p)
      in list_ex (\<lambda>seg. starts_with seg ''.env.'') segs \<or> last segs = ''.env'')"

definition assert_relative_asset_path :: "js \<Rightarrow> contract_error + unit" where
  "assert_relative_asset_path v =
     (case v of
        JStr s \<Rightarrow>
          throw_if (s = [] \<or> starts_with s ''/'' \<or>
                    list_ex (\<lambda>seg. seg = [] \<or> seg = ''.'' \<or> seg = ''..'') (split_on (CHR ''/'') s) \<or> env_path s)
            (ContractError ''selected_assets path'') (Inr ())
      | _ \<Rightarrow> Inl (ContractError ''selected_assets path''))"

definition parse_time :: "(string \<Rightarrow> jsnum) \<Rightarrow> js \<Rightarrow> string \<Rightarrow> contract_error + rat" where
  "parse_time dp v f =
     bind_r (contract_require_string v f) (\<lambda>s.
     throw_if (\<not> utc_text s) (ContractError f) (
     case dp s of Fin q \<Rightarrow> Inr q | _ \<Rightarrow> Inl (ContractError f)))"

section \<open>The bound tuple\<close>

definition binding_fields :: "string list" where
  "binding_fields =
     [''source_descriptor'', ''source_commit'', ''selected_assets'', ''asset_policy_hash'',
      ''machine_id'', ''target_path'', ''server_head'', ''fence'', ''rollback'']"

definition binding_derived_fields :: "string list" where
  "binding_derived_fields = [''version'', ''selected_assets_hash'', ''binding_hash'', ''plan_hash'']"

definition check_asset :: "(jsnum \<Rightarrow> string) \<Rightarrow> js \<Rightarrow> contract_error + unit" where
  "check_asset nt item =
     bind_r (assert_exact_keys item [''path'', ''sha256''] ''selected_assets item'') (\<lambda>_.
     bind_r (assert_relative_asset_path (js_get item ''path'')) (\<lambda>_.
     throw_if (\<not> regexp_test nt (hex_text 64) (js_get item ''sha256'')) (ContractError ''selected_assets hashes'') (Inr ())))"

definition check_binding_field :: "(jsnum \<Rightarrow> string) \<Rightarrow> (js \<Rightarrow> bool) \<Rightarrow> js \<Rightarrow> string \<Rightarrow> contract_error + unit" where
  "check_binding_field nt descriptor_ok plan f =
     (let v = js_get plan f in
      throw_if (js_nullish v) (ContractError f) (
      if f = ''source_commit'' then throw_if (\<not> regexp_test nt git_commit_text v) (ContractError f) (Inr ())
      else if f = ''asset_policy_hash'' then throw_if (\<not> regexp_test nt (hex_text 64) v) (ContractError f) (Inr ())
      else if f = ''selected_assets'' then
        throw_if (\<not> js_is_arr v) (ContractError f) (fold_r (\<lambda>_ item. check_asset nt item) () (js_elems v))
      else if f = ''fence'' then
        bind_r (assert_exact_keys v [''generation'', ''lease_holder'', ''lease_id''] ''fence'') (\<lambda>_.
        throw_if (\<not> js_is_safe_integer (js_get v ''generation'')) (ContractError ''fence'') (
        bind_r (contract_require_string (js_get v ''lease_holder'') ''fence.lease_holder'') (\<lambda>_.
        bind_r (contract_require_string (js_get v ''lease_id'') ''fence.lease_id'') (\<lambda>_. Inr ()))))
      else if f = ''source_descriptor'' then throw_if (\<not> descriptor_ok v) (ContractError f) (Inr ())
      else if f = ''rollback'' then
        bind_r (assert_exact_keys v [''snapshot_id'', ''expected_target_revision''] ''rollback'') (\<lambda>_.
        bind_r (contract_require_string (js_get v ''snapshot_id'') ''rollback.snapshot_id'') (\<lambda>_.
        bind_r (contract_require_string (js_get v ''expected_target_revision'') ''rollback.expected_target_revision'') (\<lambda>_. Inr ())))
      else Inr ()))"

definition bound_tuple :: "js \<Rightarrow> js" where
  "bound_tuple plan = JObj (map (\<lambda>f. (f, js_get plan f)) binding_fields)"

definition sealed_binding :: "(jsnum \<Rightarrow> string) \<Rightarrow> (string \<Rightarrow> string) \<Rightarrow> js \<Rightarrow> js" where
  "sealed_binding nt hash plan =
     (let binding_hash = hash (canonical_json nt (bound_tuple plan)) in
      JObj ((''version'', JStr ''machine-apply-binding/2'') #
            map (\<lambda>f. (f, js_get plan f)) binding_fields @
            [(''selected_assets_hash'', JStr (hash (canonical_json nt (js_get plan ''selected_assets'')))),
             (''binding_hash'', JStr binding_hash), (''plan_hash'', JStr binding_hash)]))"

definition plan_binding ::
    "(jsnum \<Rightarrow> string) \<Rightarrow> (string \<Rightarrow> string) \<Rightarrow> (js \<Rightarrow> bool) \<Rightarrow> js \<Rightarrow> contract_error + js" where
  "plan_binding nt hash descriptor_ok plan =
     throw_if (\<not> plain_value plan) NotCanonical (
     bind_r (assert_exact_keys plan (binding_fields @ binding_derived_fields) ''plan'') (\<lambda>_.
     bind_r (fold_r (\<lambda>_ f. check_binding_field nt descriptor_ok plan f) () binding_fields) (\<lambda>_.
     let result = sealed_binding nt hash plan in
     throw_if (list_ex (\<lambda>f. \<not> js_nullish (js_get plan f) \<and> js_get plan f \<noteq> js_get result f) binding_derived_fields)
       (ContractError ''derived'') (Inr result))))"

section \<open>Approvals\<close>

record public_identity =
  pi_registered :: bool
  pi_roles :: "string list"
  pi_key :: js

definition without_field :: "string \<Rightarrow> js \<Rightarrow> js" where
  "without_field k v = JObj (filter (\<lambda>(k', _). k' \<noteq> k) (js_entries v))"

definition approval_signing_bytes :: "(jsnum \<Rightarrow> string) \<Rightarrow> js \<Rightarrow> contract_error + string" where
  "approval_signing_bytes nt approval = canonical nt (without_field ''signature'' approval)"

definition approval_keys :: "string list" where
  "approval_keys =
     [''version'', ''approval_record_id'', ''issuer_identity'', ''issuer_role'', ''binding'', ''binding_hash'',
      ''nonce'', ''issued_at'', ''expires_at'', ''signature'']"

definition check_signature ::
    "(js \<Rightarrow> string \<Rightarrow> string \<Rightarrow> bool option) \<Rightarrow> js \<Rightarrow> contract_error + string \<Rightarrow> js \<Rightarrow> string \<Rightarrow> contract_error + unit" where
  "check_signature sig_ok key message sig f =
     (case sig of
        JStr s \<Rightarrow>
          throw_if (s = []) (ContractError f) (
          bind_r message (\<lambda>m. throw_if (sig_ok key m s \<noteq> Some True) (ContractError f) (Inr ())))
      | _ \<Rightarrow> Inl (ContractError f))"

definition check_validity_window :: "rat \<Rightarrow> rat \<Rightarrow> rat \<Rightarrow> contract_error + unit" where
  "check_validity_window issued expires now =
     throw_if (expires \<le> issued \<or> expires - issued > 4 * 60 * 60 * 1000) (ContractError ''validity'') (
     throw_if (issued > now) (ContractError ''future-issued'') (
     throw_if (now > expires) (ContractError ''expired'') (Inr ())))"

definition check_issuer :: "public_identity option \<Rightarrow> string \<Rightarrow> contract_error + public_identity" where
  "check_issuer who role =
     (case who of
        None \<Rightarrow> Inl (ContractError ''identity'')
      | Some i \<Rightarrow> throw_if (\<not> pi_registered i \<or> role \<notin> set (pi_roles i)) (ContractError ''identity'') (Inr i))"

text \<open>The option \<^verbatim>\<open>now\<close>: a text as it is, anything else through \<^verbatim>\<open>new Date(now).toISOString()\<close>, which may
  throw; \<open>clock_of\<close> is that conversion, and for a missing option the time of the host.\<close>

definition now_text :: "(js \<Rightarrow> string option) \<Rightarrow> js \<Rightarrow> contract_error + js" where
  "now_text clock_of now =
     (case now of
        JStr _ \<Rightarrow> Inr now
      | _ \<Rightarrow> (case clock_of now of Some t \<Rightarrow> Inr (JStr t) | None \<Rightarrow> Inl (ContractError ''now'')))"

definition verify_approval ::
    "(js \<Rightarrow> string option) \<Rightarrow> (jsnum \<Rightarrow> string) \<Rightarrow> (string \<Rightarrow> string) \<Rightarrow> (string \<Rightarrow> jsnum) \<Rightarrow> (js \<Rightarrow> string \<Rightarrow> string \<Rightarrow> bool option) \<Rightarrow>
     (js \<Rightarrow> bool) \<Rightarrow> (string \<Rightarrow> public_identity option) \<Rightarrow> js \<Rightarrow> js \<Rightarrow> js \<Rightarrow> contract_error + js" where
  "verify_approval clock_of nt hash dp sig_ok descriptor_ok resolve plan approval now =
     bind_r (plan_binding nt hash descriptor_ok plan) (\<lambda>binding.
     throw_if (\<not> plain_value approval) NotCanonical (
     bind_r (assert_exact_keys approval approval_keys ''approval'') (\<lambda>_.
     throw_if (js_get approval ''version'' \<noteq> JStr ''machine-apply-approval/2'') (ContractError ''version'') (
     bind_r (contract_require_string (js_get approval ''issuer_identity'') ''issuer_identity'') (\<lambda>issuer.
     throw_if (js_get approval ''issuer_role'' \<noteq> JStr ''decisive'') (ContractError ''issuer_role'') (
     throw_if (\<not> regexp_test nt approval_record_text (js_get approval ''approval_record_id'')) (ContractError ''record'') (
     throw_if (\<not> regexp_test nt (hex_text 64) (js_get approval ''binding_hash'')) (ContractError ''binding_hash'') (
     throw_if (js_get approval ''binding_hash'' \<noteq> js_get binding ''binding_hash'') (ContractError ''tuple'') (
     bind_r (canonical nt (js_get approval ''binding'')) (\<lambda>claimed.
     throw_if (claimed \<noteq> canonical_json nt binding) (ContractError ''tuple'') (
     throw_if (\<not> regexp_test nt nonce_text (js_get approval ''nonce'')) (ContractError ''nonce'') (
     bind_r (parse_time dp (js_get approval ''issued_at'') ''issued_at'') (\<lambda>issued.
     bind_r (parse_time dp (js_get approval ''expires_at'') ''expires_at'') (\<lambda>expires.
     throw_if (expires \<le> issued \<or> expires - issued > 4 * 60 * 60 * 1000) (ContractError ''validity'') (
     bind_r (now_text clock_of now) (\<lambda>at_text.
     bind_r (parse_time dp at_text ''now'') (\<lambda>now_at.
     bind_r (check_validity_window issued expires now_at) (\<lambda>_.
     bind_r (check_issuer (resolve issuer) ''decisive'') (\<lambda>who.
     bind_r (check_signature sig_ok (pi_key who) (approval_signing_bytes nt approval) (js_get approval ''signature'') ''signature'') (\<lambda>_.
     Inr (JObj (js_entries binding @
       [(''nonce'', js_get approval ''nonce''), (''approval_record_id'', js_get approval ''approval_record_id''),
        (''issuer_identity'', JStr issuer), (''expires_at'', js_get approval ''expires_at'')]))))))))))))))))))))))"

text \<open>The request that the atomic consumer gets, and the verdict on its answer.\<close>

definition verify_and_consume_approval ::
    "(js \<Rightarrow> string option) \<Rightarrow> (jsnum \<Rightarrow> string) \<Rightarrow> (string \<Rightarrow> string) \<Rightarrow> (string \<Rightarrow> jsnum) \<Rightarrow> (js \<Rightarrow> string \<Rightarrow> string \<Rightarrow> bool option) \<Rightarrow>
     (js \<Rightarrow> bool) \<Rightarrow> (string \<Rightarrow> public_identity option) \<Rightarrow> (js \<Rightarrow> js) \<Rightarrow> js \<Rightarrow> js \<Rightarrow> js \<Rightarrow> contract_error + js" where
  "verify_and_consume_approval clock_of nt hash dp sig_ok descriptor_ok resolve consume plan approval now =
     bind_r (verify_approval clock_of nt hash dp sig_ok descriptor_ok resolve plan approval now) (\<lambda>verified.
     bind_r (plan_binding nt hash descriptor_ok plan) (\<lambda>binding.
     let answer = consume (JObj
           [(''approval_record_id'', js_get verified ''approval_record_id''), (''nonce'', js_get verified ''nonce''),
            (''binding'', binding), (''expires_at'', js_get verified ''expires_at'')])
     in throw_if (js_get answer ''status'' \<noteq> JStr ''consumed'') (ContractError ''consume'') (Inr verified)))"

section \<open>Receipts\<close>

record receipt_args =
  ra_plan :: js
  ra_record_id :: js
  ra_nonce :: js
  ra_signer :: js
  ra_role :: js
  ra_phase :: js
  ra_assertions :: js
  ra_previous :: js
  ra_created :: js
  ra_clock :: string

definition receipt_keys :: "string list" where
  "receipt_keys =
     [''version'', ''plan_hash'', ''approval_nonce'', ''binding'', ''approval_record_id'', ''signer_identity'',
      ''signer_role'', ''phase'', ''assertions'', ''previous_receipt_hash'', ''created_at'', ''signature'',
      ''receipt_hash'']"

definition receipt_phases :: "string list" where
  "receipt_phases = [''preflight'', ''post_apply'', ''rollback'', ''blocked'', ''coordinator_outcome'']"

definition text_in :: "string list \<Rightarrow> js \<Rightarrow> bool" where
  "text_in xs v = (case v of JStr s \<Rightarrow> s \<in> set xs | _ \<Rightarrow> False)"

definition assert_receipt_assertions :: "(jsnum \<Rightarrow> string) \<Rightarrow> js \<Rightarrow> js \<Rightarrow> contract_error + unit" where
  "assert_receipt_assertions nt a binding =
     (let before = js_get a ''before''; after = js_get a ''after'' in
     bind_r (assert_exact_keys a [''before'', ''after'', ''fence'', ''server_head''] ''assertions'') (\<lambda>_.
     bind_r (assert_exact_keys before [''target_revision'', ''selected_assets_hash''] ''assertions.before'') (\<lambda>_.
     bind_r (assert_exact_keys after [''target_revision'', ''selected_assets_hash''] ''assertions.after'') (\<lambda>_.
     throw_if (\<not> regexp_test nt (hex_text 64) (js_get before ''selected_assets_hash'') \<or>
               \<not> regexp_test nt (hex_text 64) (js_get after ''selected_assets_hash'')) (ContractError ''assertions'') (
     bind_r (contract_require_string (js_get before ''target_revision'') ''assertions.before.target_revision'') (\<lambda>_.
     bind_r (contract_require_string (js_get after ''target_revision'') ''assertions.after.target_revision'') (\<lambda>_.
     throw_if (\<not> truthy (js_get a ''fence'')) (ContractError ''assertions'') (
     bind_r (contract_require_string (js_get a ''server_head'') ''assertions.server_head'') (\<lambda>_.
     throw_if (js_get after ''selected_assets_hash'' \<noteq> js_get binding ''selected_assets_hash'') (ContractError ''after hash'') (
     bind_r (canonical nt (js_get a ''fence'')) (\<lambda>claimed.
     bind_r (canonical nt (js_get binding ''fence'')) (\<lambda>bound.
     throw_if (claimed \<noteq> bound) (ContractError ''fence'') (
     throw_if (js_get a ''server_head'' \<noteq> js_get binding ''server_head'') (ContractError ''server head'') (Inr ()))))))))))))))"

definition receipt_signing_bytes :: "(jsnum \<Rightarrow> string) \<Rightarrow> js \<Rightarrow> contract_error + string" where
  "receipt_signing_bytes nt receipt = canonical nt (without_field ''receipt_hash'' (without_field ''signature'' receipt))"

definition receipt_hash :: "(jsnum \<Rightarrow> string) \<Rightarrow> (string \<Rightarrow> string) \<Rightarrow> js \<Rightarrow> contract_error + string" where
  "receipt_hash nt hash receipt =
     bind_r (canonical nt (without_field ''receipt_hash'' receipt)) (\<lambda>t. Inr (hash t))"

text \<open>\<^verbatim>\<open>created_at = new Date().toISOString()\<close>.\<close>

definition receipt_created :: "receipt_args \<Rightarrow> js" where
  "receipt_created args = (if ra_created args = JUndef then JStr (ra_clock args) else ra_created args)"

definition receipt_fields :: "receipt_args \<Rightarrow> js \<Rightarrow> js \<Rightarrow> (string \<times> js) list" where
  "receipt_fields args binding previous =
     [(''version'', JStr ''machine-apply-receipt/1''), (''plan_hash'', js_get binding ''plan_hash''),
      (''approval_nonce'', ra_nonce args), (''binding'', binding), (''approval_record_id'', ra_record_id args),
      (''signer_identity'', ra_signer args), (''signer_role'', ra_role args), (''phase'', ra_phase args),
      (''assertions'', ra_assertions args), (''previous_receipt_hash'', previous), (''created_at'', receipt_created args)]"

definition create_receipt ::
    "(jsnum \<Rightarrow> string) \<Rightarrow> (string \<Rightarrow> string) \<Rightarrow> (string \<Rightarrow> jsnum) \<Rightarrow> (js \<Rightarrow> bool) \<Rightarrow> (string \<Rightarrow> js) \<Rightarrow>
     receipt_args \<Rightarrow> contract_error + js" where
  "create_receipt nt hash dp descriptor_ok sign args =
     (let previous = (if ra_previous args = JUndef then JNull else ra_previous args) in
     bind_r (plan_binding nt hash descriptor_ok (ra_plan args)) (\<lambda>binding.
     throw_if (\<not> regexp_test nt nonce_text (ra_nonce args)) (ContractError ''approval_nonce'') (
     bind_r (contract_require_string (ra_signer args) ''signer_identity'') (\<lambda>_.
     throw_if (\<not> regexp_test nt approval_record_text (ra_record_id args)) (ContractError ''record'') (
     throw_if (\<not> text_in [''machine'', ''coordinator''] (ra_role args)) (ContractError ''signer role'') (
     throw_if (\<not> text_in receipt_phases (ra_phase args)) (ContractError ''phase'') (
     bind_r (parse_time dp (receipt_created args) ''created_at'') (\<lambda>_.
     throw_if (\<not> plain_value (ra_assertions args)) NotCanonical (
     bind_r (assert_receipt_assertions nt (ra_assertions args) binding) (\<lambda>_.
     throw_if (previous \<noteq> JNull \<and> \<not> hex_text 64 (js_to_string nt previous)) (ContractError ''previous_receipt_hash'') (
     bind_r (receipt_signing_bytes nt (JObj (receipt_fields args binding previous @ [(''signature'', JNull)]))) (\<lambda>m.
     bind_r (contract_require_string (sign m) ''signature'') (\<lambda>s.
     bind_r (receipt_hash nt hash (JObj (receipt_fields args binding previous @ [(''signature'', JStr s)]))) (\<lambda>h.
     Inr (JObj (receipt_fields args binding previous @ [(''signature'', JStr s), (''receipt_hash'', JStr h)]))))))))))))))))"

definition verify_receipt ::
    "(jsnum \<Rightarrow> string) \<Rightarrow> (string \<Rightarrow> string) \<Rightarrow> (string \<Rightarrow> jsnum) \<Rightarrow> (js \<Rightarrow> string \<Rightarrow> string \<Rightarrow> bool option) \<Rightarrow>
     (js \<Rightarrow> bool) \<Rightarrow> (string \<Rightarrow> public_identity option) \<Rightarrow> js \<Rightarrow> contract_error + js" where
  "verify_receipt nt hash dp sig_ok descriptor_ok resolve receipt =
     (let previous = js_get receipt ''previous_receipt_hash'' in
     throw_if (\<not> plain_value receipt) NotCanonical (
     bind_r (assert_exact_keys receipt receipt_keys ''receipt'') (\<lambda>_.
     throw_if (js_get receipt ''version'' \<noteq> JStr ''machine-apply-receipt/1'') (ContractError ''version'') (
     throw_if (\<not> regexp_test nt (hex_text 64) (js_get receipt ''plan_hash'') \<or>
               \<not> regexp_test nt (hex_text 64) (js_get receipt ''receipt_hash'')) (ContractError ''hashes'') (
     bind_r (plan_binding nt hash descriptor_ok (js_get receipt ''binding'')) (\<lambda>binding.
     throw_if (js_get binding ''plan_hash'' \<noteq> js_get receipt ''plan_hash'') (ContractError ''plan hash'') (
     throw_if (\<not> regexp_test nt nonce_text (js_get receipt ''approval_nonce'')) (ContractError ''approval_nonce'') (
     throw_if (\<not> regexp_test nt approval_record_text (js_get receipt ''approval_record_id'')) (ContractError ''record'') (
     bind_r (parse_time dp (js_get receipt ''created_at'') ''created_at'') (\<lambda>_.
     throw_if (\<not> text_in receipt_phases (js_get receipt ''phase'')) (ContractError ''phase'') (
     throw_if (\<not> text_in [''machine'', ''coordinator''] (js_get receipt ''signer_role'')) (ContractError ''signer role'') (
     bind_r (assert_receipt_assertions nt (js_get receipt ''assertions'') binding) (\<lambda>_.
     throw_if (previous \<noteq> JNull \<and> \<not> regexp_test nt (hex_text 64) previous) (ContractError ''previous_receipt_hash'') (
     bind_r (contract_require_string (js_get receipt ''signer_identity'') ''signer_identity'') (\<lambda>signer.
     bind_r (check_issuer (resolve signer) (js_to_string nt (js_get receipt ''signer_role''))) (\<lambda>who.
     bind_r (check_signature sig_ok (pi_key who) (receipt_signing_bytes nt receipt) (js_get receipt ''signature'') ''signature'') (\<lambda>_.
     bind_r (receipt_hash nt hash receipt) (\<lambda>h.
     throw_if (js_get receipt ''receipt_hash'' \<noteq> JStr h) (ContractError ''receipt hash'') (Inr receipt)))))))))))))))))))"

definition append_verified_receipt ::
    "(jsnum \<Rightarrow> string) \<Rightarrow> (string \<Rightarrow> string) \<Rightarrow> (string \<Rightarrow> jsnum) \<Rightarrow> (js \<Rightarrow> string \<Rightarrow> string \<Rightarrow> bool option) \<Rightarrow>
     (js \<Rightarrow> bool) \<Rightarrow> (string \<Rightarrow> public_identity option) \<Rightarrow> (js \<Rightarrow> js) \<Rightarrow> js \<Rightarrow> contract_error + js" where
  "append_verified_receipt nt hash dp sig_ok descriptor_ok resolve append_op receipt =
     bind_r (verify_receipt nt hash dp sig_ok descriptor_ok resolve receipt) (\<lambda>verified.
     let result = append_op (JObj
           [(''approval_record_id'', js_get verified ''approval_record_id''),
            (''expected_previous_receipt_hash'', js_get verified ''previous_receipt_hash''), (''receipt'', verified)])
     in throw_if (js_get result ''status'' \<noteq> JStr ''appended'' \<or>
                  js_get result ''head_receipt_hash'' \<noteq> js_get verified ''receipt_hash'')
          (ContractError ''append'') (Inr verified))"

section \<open>Canonical JSON does not depend on the order of fields\<close>

text \<open>The canonical encoding, over which hashes and signatures are taken, does not depend on
  the order in which an object lists its fields.\<close>

theorem canonical_ignores_field_order:
  assumes "distinct (map fst xs)" and "mset xs = mset ys"
  shows "canonical nt (JObj xs) = canonical nt (JObj ys)"
proof -
  have "set xs = set ys" using assms(2) by (metis set_mset_mset)
  then have "plain_value (JObj xs) = plain_value (JObj ys)" by (simp add: list_all_iff)
  with assms show ?thesis by (simp add: canonical_def canonical_json_fields del: plain_value.simps canonical_json.simps)
qed

theorem canonical_ignores_field_order_witness:
  "canonical (\<lambda>_. []) (JObj [(''b'', JBool True), (''a'', JNull)]) =
   canonical (\<lambda>_. []) (JObj [(''a'', JNull), (''b'', JBool True)])"
  by (rule canonical_ignores_field_order) simp_all

text \<open>The canonical text, over which hashes and signatures are taken, is a name of the value: two
  plain values have the same text exactly when they differ at most in the order of the fields of
  their objects, at any depth.\<close>

theorem canonical_names_value:
  assumes "number_text nt" and "json_value v" and "json_value w"
    and "canonical nt v = Inr t" and "canonical nt w = Inr u"
  shows "t = u \<longleftrightarrow> ordered v = ordered w"
proof -
  have "t = canonical_json nt v" "u = canonical_json nt w"
    using assms(4,5) by (simp_all add: canonical_def throw_if_def split: if_splits)
  then show ?thesis by (simp only: canonical_text_names [OF assms(1-3)])
qed

theorem canonical_names_value_witness:
  "canonical unary_text (JObj [(''b'', JArr [jint 2, JStr ''x'']), (''a'', JNull)]) =
     canonical unary_text (JObj [(''a'', JNull), (''b'', JArr [jint 2, JStr ''x''])]) \<and>
   canonical unary_text (JArr [JStr ''1'']) \<noteq> canonical unary_text (JArr [jint 1])"
proof
  let ?v = "JObj [(''b'', JArr [jint 2, JStr ''x'']), (''a'', JNull)]" and ?w = "JObj [(''a'', JNull), (''b'', JArr [jint 2, JStr ''x''])]"
  have ok: "canonical unary_text x = Inr (canonical_json unary_text x)" if "plain_value x" for x
    using that by (simp add: canonical_def)
  have "json_value ?v" "json_value ?w" by simp_all
  moreover have "ordered ?v = ordered ?w" by (simp add: by_key_def sort_by_def compare_keys_def compare_code_units_def less_eq_char_def)
  moreover have plain: "plain_value ?v" "plain_value ?w" by (simp_all add: starts_with_def to_lower_def lower_char_def is_ascii_upper_def less_eq_char_def)
  ultimately have "canonical_json unary_text ?v = canonical_json unary_text ?w"
    using canonical_names_value [OF unary_number_text, of ?v ?w] ok by blast
  with ok plain show "canonical unary_text ?v = canonical unary_text ?w" by simp
  let ?s = "JArr [JStr ''1'']" and ?n = "JArr [jint 1]"
  have "json_value ?s" "json_value ?n" by simp_all
  moreover have "plain_value ?s" "plain_value ?n" by (simp_all add: starts_with_def)
  moreover have "ordered ?s \<noteq> ordered ?n" by simp
  ultimately show "canonical unary_text ?s \<noteq> canonical unary_text ?n"
    using canonical_names_value [OF unary_number_text, of ?s ?n] ok by (metis sum.inject(2))
qed

section \<open>What an accepted approval establishes\<close>

lemma fold_r_unit_Inr: "fold_r (\<lambda>_ x. f x) () xs = Inr u \<longleftrightarrow> list_all (\<lambda>x. f x = Inr ()) xs"
  by (induction xs) (auto simp: bind_r_def split: sum.splits)

lemma utc_text_Nil [simp]: "\<not> utc_text []"
  by (simp add: utc_text_def matches_template_def)

lemma contract_require_string_Inr [simp]:
  "contract_require_string v f = Inr s \<longleftrightarrow> v = JStr s \<and> s \<noteq> []"
  by (cases v) (auto simp: contract_require_string_def)

lemma parse_time_Inr [simp]:
  "parse_time dp v f = Inr t \<longleftrightarrow> (\<exists>s. v = JStr s \<and> utc_text s \<and> dp s = Fin t)"
  by (auto simp: parse_time_def split: jsnum.split_asm)

lemma assert_exact_keys_Inr [simp]:
  "assert_exact_keys v ks f = Inr u \<longleftrightarrow> js_is_record v \<and> set (js_keys v) \<subseteq> set ks"
  by (auto simp: assert_exact_keys_def list_ex_iff)

lemma check_issuer_Inr [simp]:
  "check_issuer who role = Inr i \<longleftrightarrow> who = Some i \<and> pi_registered i \<and> role \<in> set (pi_roles i)"
  by (cases who) (auto simp: check_issuer_def)

lemma check_signature_Inr [simp]:
  "check_signature sig_ok key message sig f = Inr u \<longleftrightarrow>
     (\<exists>s m. sig = JStr s \<and> s \<noteq> [] \<and> message = Inr m \<and> sig_ok key m s = Some True)"
  by (cases sig) (auto simp: check_signature_def)

lemma check_validity_window_Inr [simp]:
  "check_validity_window issued expires now = Inr u \<longleftrightarrow>
     issued < expires \<and> expires - issued \<le> 4 * 60 * 60 * 1000 \<and> issued \<le> now \<and> now \<le> expires"
  by (auto simp: check_validity_window_def)

lemma canonical_Inr [simp]:
  "canonical nt v = Inr t \<longleftrightarrow> plain_value v \<and> t = canonical_json nt v"
  by (auto simp: canonical_def)

lemma js_get_entries [simp]: "js_get (JObj kvs) k = (case map_of kvs k of None \<Rightarrow> JUndef | Some v \<Rightarrow> v)"
  by (rule js_get.simps)

lemma map_of_fields: "map_of (map (\<lambda>f. (f, g f)) fs) k = (if k \<in> set fs then Some (g k) else None)"
  by (induction fs) auto

lemma sealed_binding_field:
  "f \<in> set binding_fields \<Longrightarrow> js_get (sealed_binding nt hash plan) f = js_get plan f"
  by (auto simp: sealed_binding_def Let_def map_of_fields map_of_append map_add_def binding_fields_def)

lemma sealed_binding_hash [simp]:
  "js_get (sealed_binding nt hash plan) ''binding_hash'' = JStr (hash (canonical_json nt (bound_tuple plan)))"
  "js_get (sealed_binding nt hash plan) ''plan_hash'' = JStr (hash (canonical_json nt (bound_tuple plan)))"
  by (simp_all add: sealed_binding_def Let_def map_of_fields binding_fields_def)

lemma plan_binding_sealed: "plan_binding nt hash ok plan = Inr b \<Longrightarrow> b = sealed_binding nt hash plan"
  by (simp add: plan_binding_def Let_def)

definition within_window :: "(string \<Rightarrow> jsnum) \<Rightarrow> js \<Rightarrow> js \<Rightarrow> bool" where
  "within_window dp approval now \<longleftrightarrow>
     (\<exists>i e n issued expires moment.
        js_get approval ''issued_at'' = JStr i \<and> dp i = Fin issued \<and>
        js_get approval ''expires_at'' = JStr e \<and> dp e = Fin expires \<and>
        now = JStr n \<and> dp n = Fin moment \<and>
        issued \<le> moment \<and> moment \<le> expires \<and> expires - issued \<le> 4 * 60 * 60 * 1000)"

definition signed_by_registered ::
    "(jsnum \<Rightarrow> string) \<Rightarrow> (js \<Rightarrow> string \<Rightarrow> string \<Rightarrow> bool option) \<Rightarrow> (string \<Rightarrow> public_identity option) \<Rightarrow> js \<Rightarrow> bool" where
  "signed_by_registered nt sig_ok resolve approval \<longleftrightarrow>
     (\<exists>issuer i s. js_get approval ''issuer_identity'' = JStr issuer \<and> resolve issuer = Some i \<and>
        pi_registered i \<and> ''decisive'' \<in> set (pi_roles i) \<and> js_get approval ''signature'' = JStr s \<and>
        sig_ok (pi_key i) (canonical_json nt (without_field ''signature'' approval)) s = Some True)"

text \<open>C6. An accepted approval is signed, over the canonical bytes of all its other fields, by an
  identity that the resolver knows as registered with the decisive role; it is in force now and for
  at most four hours in all; and the tuple that it carries and the hash that it names are those of
  the plan, so nothing in the plan can change after the signature.\<close>

theorem accepted_approval_binds_plan:
  assumes "verify_approval clock_of nt hash dp sig_ok ok resolve plan approval now = Inr v"
  shows "signed_by_registered nt sig_ok resolve approval \<and>
    (\<exists>t. now_text clock_of now = Inr t \<and> within_window dp approval t) \<and>
    js_get approval ''binding_hash'' = JStr (hash (canonical_json nt (bound_tuple plan))) \<and>
    canonical_json nt (js_get approval ''binding'') = canonical_json nt (sealed_binding nt hash plan)"
proof -
  obtain b where b: "plan_binding nt hash ok plan = Inr b"
    using assms by (auto simp: verify_approval_def)
  note b' = plan_binding_sealed [OF b]
  show ?thesis
    using assms unfolding verify_approval_def b b'
    by (auto simp: signed_by_registered_def within_window_def approval_signing_bytes_def simp del: js_get.simps)
qed

section \<open>Receipts verify as they were created\<close>

lemma hex_text_plain:
  assumes "hex_text n s"
  shows "\<not> pem_secret s"
proof -
  have "pem_secret t \<Longrightarrow> CHR ''B'' \<in> set t" for t
  proof (induction t)
    case (Cons c t)
    then show ?case
      by (auto simp: starts_with_iff)
  qed simp
  moreover have "CHR ''B'' \<notin> set s"
    using assms by (auto simp: hex_text_def list_all_iff is_hex_char_def is_digit_char_def)
  ultimately show ?thesis by blast
qed

lemma binding_entries_keys:
  "map fst (js_entries (sealed_binding nt hash plan)) =
     ''version'' # binding_fields @ [''selected_assets_hash'', ''binding_hash'', ''plan_hash'']"
  by (simp add: sealed_binding_def Let_def comp_def)

lemma bound_tuple_sealed [simp]: "bound_tuple (sealed_binding nt hash plan) = bound_tuple plan"
  unfolding bound_tuple_def by (simp add: sealed_binding_field cong: map_cong)

lemma sealed_sealed: "sealed_binding nt hash (sealed_binding nt hash plan) = sealed_binding nt hash plan"
proof -
  have "map (\<lambda>f. (f, js_get (sealed_binding nt hash plan) f)) binding_fields = map (\<lambda>f. (f, js_get plan f)) binding_fields"
    by (simp add: sealed_binding_field cong: map_cong)
  moreover have "js_get (sealed_binding nt hash plan) ''selected_assets'' = js_get plan ''selected_assets''"
    by (rule sealed_binding_field) (simp add: binding_fields_def)
  ultimately show ?thesis
    by (simp add: sealed_binding_def [of nt hash "sealed_binding nt hash plan"] Let_def)
       (simp add: sealed_binding_def Let_def)
qed

lemma check_binding_field_sealed:
  "f \<in> set binding_fields \<Longrightarrow>
   check_binding_field nt ok (sealed_binding nt hash plan) f = check_binding_field nt ok plan f"
  by (simp add: check_binding_field_def sealed_binding_field)

lemma plain_field: "plain_value plan \<Longrightarrow> js_get plan f = v \<Longrightarrow> v = JUndef \<or> plain_value v"
  by (cases plan) (fastforce simp: list_all_iff simp del: secret_word.simps split: option.splits dest: map_of_SomeD)+

text \<open>Sealing a sealed tuple changes nothing.\<close>

lemma plan_binding_again:
  assumes hex: "\<And>s. hex_text 64 (hash s)" and ok: "plan_binding nt hash ok plan = Inr b"
  shows "plan_binding nt hash ok b = Inr b"
proof -
  have b: "b = sealed_binding nt hash plan" using ok by (rule plan_binding_sealed)
  have plan: "plain_value plan" and fields: "list_all (\<lambda>f. check_binding_field nt ok plan f = Inr ()) binding_fields"
    using ok by (auto simp: plan_binding_def fold_r_unit_Inr Let_def)
  have given: "plain_value (js_get plan f)" if "f \<in> set binding_fields" for f
  proof -
    have "\<not> js_nullish (js_get plan f)"
      using fields that by (auto simp: list_all_iff check_binding_field_def Let_def)
    then show ?thesis using plain_field [OF plan refl, of f] by auto
  qed
  have "plain_value b"
    unfolding b sealed_binding_def Let_def
    using given by (simp add: list_all_iff hex_text_plain [OF hex] binding_fields_def has_sub_iff [symmetric])
       (simp add: starts_with_def to_lower_def lower_char_def is_ascii_upper_def)
  moreover have "list_all (\<lambda>f. check_binding_field nt ok b f = Inr ()) binding_fields"
    using fields by (simp add: list_all_iff b check_binding_field_sealed)
  moreover have "js_is_record b" by (simp add: b sealed_binding_def Let_def)
  moreover have "set (js_keys b) \<subseteq> set (binding_fields @ binding_derived_fields)"
  proof -
    have "js_keys b = map fst (js_entries b)" using \<open>js_is_record b\<close> by (cases b) auto
    then show ?thesis unfolding b binding_entries_keys by (auto simp: binding_derived_fields_def)
  qed
  ultimately have "plain_value b" and "fold_r (\<lambda>_ f. check_binding_field nt ok b f) () binding_fields = Inr ()"
    and "assert_exact_keys b (binding_fields @ binding_derived_fields) ''plan'' = Inr ()"
    by (simp_all add: fold_r_unit_Inr)
  then show ?thesis by (simp add: plan_binding_def b sealed_sealed list_ex_iff)
qed

lemma created_receipt_fields:
  assumes "create_receipt nt hash dp ok sign args = Inr r"
  obtains b previous s where "plan_binding nt hash ok (ra_plan args) = Inr b"
    and "previous = (if ra_previous args = JUndef then JNull else ra_previous args)"
    and "previous \<noteq> JNull \<longrightarrow> hex_text 64 (js_to_string nt previous)"
    and "s \<noteq> []" and "plain_value (JObj (receipt_fields args b previous @ [(''signature'', JStr s)]))"
    and "sign (canonical_json nt (JObj (receipt_fields args b previous))) = JStr s"
    and "r = JObj (receipt_fields args b previous @ [(''signature'', JStr s),
           (''receipt_hash'', JStr (hash (canonical_json nt (JObj (receipt_fields args b previous @ [(''signature'', JStr s)])))))])"
    and "regexp_test nt nonce_text (ra_nonce args)" and "regexp_test nt approval_record_text (ra_record_id args)"
    and "text_in [''machine'', ''coordinator''] (ra_role args)" and "text_in receipt_phases (ra_phase args)"
    and "\<exists>t q. receipt_created args = JStr t \<and> utc_text t \<and> dp t = Fin q"
    and "assert_receipt_assertions nt (ra_assertions args) b = Inr ()"
proof -
  have unsigned: "without_field ''receipt_hash'' (without_field ''signature'' (JObj (receipt_fields args b p @ [(''signature'', v)]))) =
      JObj (receipt_fields args b p)" for b p v
    by (simp add: without_field_def receipt_fields_def)
  have unhashed: "without_field ''receipt_hash'' (JObj (receipt_fields args b p @ [(''signature'', v)])) =
      JObj (receipt_fields args b p @ [(''signature'', v)])" for b p v
    by (simp add: without_field_def receipt_fields_def)
  show thesis
    using assms unfolding create_receipt_def receipt_signing_bytes_def receipt_hash_def unsigned unhashed Let_def
    apply (clarsimp simp del: plain_value.simps canonical_json.simps js_to_string.simps)
    subgoal for b signer u v s
      by (rule that [of b "if ra_previous args = JUndef then JNull else ra_previous args" s])
         (auto simp del: plain_value.simps canonical_json.simps js_to_string.simps)
    done
qed

lemma receipt_fields_get:
  "js_get (JObj (receipt_fields args b p @ rest)) ''version'' = JStr ''machine-apply-receipt/1''"
  "js_get (JObj (receipt_fields args b p @ rest)) ''plan_hash'' = js_get b ''plan_hash''"
  "js_get (JObj (receipt_fields args b p @ rest)) ''approval_nonce'' = ra_nonce args"
  "js_get (JObj (receipt_fields args b p @ rest)) ''binding'' = b"
  "js_get (JObj (receipt_fields args b p @ rest)) ''approval_record_id'' = ra_record_id args"
  "js_get (JObj (receipt_fields args b p @ rest)) ''signer_identity'' = ra_signer args"
  "js_get (JObj (receipt_fields args b p @ rest)) ''signer_role'' = ra_role args"
  "js_get (JObj (receipt_fields args b p @ rest)) ''phase'' = ra_phase args"
  "js_get (JObj (receipt_fields args b p @ rest)) ''assertions'' = ra_assertions args"
  "js_get (JObj (receipt_fields args b p @ rest)) ''previous_receipt_hash'' = p"
  "js_get (JObj (receipt_fields args b p @ rest)) ''created_at'' = receipt_created args"
  "js_get (JObj (receipt_fields args b p @ [(''signature'', s), (''receipt_hash'', h)])) ''signature'' = s"
  "js_get (JObj (receipt_fields args b p @ [(''signature'', s), (''receipt_hash'', h)])) ''receipt_hash'' = h"
  by (simp_all add: receipt_fields_def)

lemma receipt_fields_hashed:
  "receipt_signing_bytes nt (JObj (receipt_fields args b p @ [(''signature'', s), (''receipt_hash'', h)])) =
     canonical nt (JObj (receipt_fields args b p))"
  "receipt_hash nt hash (JObj (receipt_fields args b p @ [(''signature'', s), (''receipt_hash'', h)])) =
     bind_r (canonical nt (JObj (receipt_fields args b p @ [(''signature'', s)]))) (\<lambda>t. Inr (hash t))"
  by (simp_all add: receipt_signing_bytes_def receipt_hash_def without_field_def receipt_fields_def)

lemma not_secret_receipt_hash: "\<not> secret_word ''receipt_hash''"
  by code_simp

text \<open>C21. A receipt that createReceipt returns is accepted by verifyReceipt, and returned unchanged,
  by whoever resolves its signer to a registered identity of the role it names whose key verifies
  what the signer signs: the plan hash, the chain of hashes and the signature are computed over the
  same bytes on both sides.\<close>

theorem created_receipt_verifies:
  assumes hex: "\<And>t. hex_text 64 (hash t)"
    and created: "create_receipt nt hash dp ok sign args = Inr r"
    and signer: "ra_signer args = JStr who" "who \<noteq> []" "resolve who = Some i" "pi_registered i"
    and role: "ra_role args = JStr role" "role \<in> set (pi_roles i)"
    and key: "\<And>m s. sign m = JStr s \<Longrightarrow> sig_ok (pi_key i) m s = Some True"
  shows "verify_receipt nt hash dp sig_ok ok resolve r = Inr r"
proof (rule created_receipt_fields [OF created])
  fix b previous s
  let ?h = "hash (canonical_json nt (JObj (receipt_fields args b previous @ [(''signature'', JStr s)])))"
  assume b: "plan_binding nt hash ok (ra_plan args) = Inr b"
    and previous: "previous = (if ra_previous args = JUndef then JNull else ra_previous args)"
      "previous \<noteq> JNull \<longrightarrow> hex_text 64 (js_to_string nt previous)"
    and s: "s \<noteq> []" "plain_value (JObj (receipt_fields args b previous @ [(''signature'', JStr s)]))"
      "sign (canonical_json nt (JObj (receipt_fields args b previous))) = JStr s"
    and r: "r = JObj (receipt_fields args b previous @ [(''signature'', JStr s), (''receipt_hash'', JStr ?h)])"
    and rest: "regexp_test nt nonce_text (ra_nonce args)" "regexp_test nt approval_record_text (ra_record_id args)"
      "text_in [''machine'', ''coordinator''] (ra_role args)" "text_in receipt_phases (ra_phase args)"
      "assert_receipt_assertions nt (ra_assertions args) b = Inr ()"
    and "\<exists>t q. receipt_created args = JStr t \<and> utc_text t \<and> dp t = Fin q"
  then obtain t q where time: "receipt_created args = JStr t" "utc_text t" "dp t = Fin q" by blast
  have again: "plan_binding nt hash ok b = Inr b"
    by (rule plan_binding_again [OF hex b])
  have hashes: "js_get b ''plan_hash'' = JStr (hash (canonical_json nt (bound_tuple (ra_plan args))))"
    using plan_binding_sealed [OF b] by (simp del: js_get.simps js_get_entries)
  have plain: "plain_value r" "plain_value (JObj (receipt_fields args b previous))"
    using s(2) hex_text_plain [OF hex] unfolding r
    by (simp_all add: not_secret_receipt_hash del: canonical_json.simps secret_word.simps)
  have keys: "js_is_record r" "set (js_keys r) \<subseteq> set receipt_keys"
    unfolding r by (simp_all add: receipt_fields_def receipt_keys_def)
  have prior: "previous = JNull \<or> regexp_test nt (hex_text 64) previous"
    using previous by (auto simp: regexp_test_def js_coalesce_def js_nullish_iff)
  have digest: "regexp_test nt (hex_text 64) (JStr (hash t))" for t
    using hex by (simp add: regexp_test_def js_coalesce_def)
  show ?thesis
    unfolding verify_receipt_def Let_def
    by (simp add: plain keys again rest signer role prior s key hashes digest
        del: js_get.simps js_get_entries plain_value.simps canonical_json.simps)
      (use plain s signer role rest time keys hashes prior in
        \<open>simp add: r receipt_fields_get receipt_fields_hashed again digest key
          del: js_get.simps js_get_entries plain_value.simps canonical_json.simps\<close>)
qed

section \<open>A concrete plan\<close>

definition sample_hash :: "string \<Rightarrow> string" where
  "sample_hash t = replicate 64 (CHR ''a'')"

definition sample_plan :: "js \<Rightarrow> js" where
  "sample_plan commit = JObj
     [(''source_descriptor'', JStr ''d''), (''source_commit'', commit),
      (''selected_assets'', JArr [JObj [(''path'', JStr ''memory/a.md''), (''sha256'', JStr (sample_hash []))]]),
      (''asset_policy_hash'', JStr (sample_hash [])), (''machine_id'', JStr ''m''), (''target_path'', JStr ''/t''),
      (''server_head'', JStr ''h''),
      (''fence'', JObj [(''generation'', jint 3), (''lease_holder'', JStr ''l''), (''lease_id'', JStr ''i'')]),
      (''rollback'', JObj [(''snapshot_id'', JStr ''s''), (''expected_target_revision'', JStr ''r'')])]"

definition sample_commit :: js where
  "sample_commit = JStr (replicate 40 (CHR ''a''))"

lemma sample_plan_bound:
  assumes "commit = sample_commit \<or> commit = JArr [sample_commit]"
  shows "plan_binding nt hash (\<lambda>_. True) (sample_plan commit) = Inr (sealed_binding nt hash (sample_plan commit))"
proof -
  have plain: "plain_value (sample_plan commit)"
    using assms by (elim disjE; simp) (code_simp)+
  have fields: "list_all (\<lambda>f. check_binding_field nt (\<lambda>_. True) (sample_plan commit) f = Inr ()) binding_fields"
    using assms
    by (elim disjE) (simp_all add: binding_fields_def check_binding_field_def sample_plan_def Let_def
      regexp_test_def js_coalesce_def git_commit_text_def hex_text_def sample_commit_def sample_hash_def
      list_all_iff is_hex_char_def is_digit_char_def check_asset_def assert_relative_asset_path_def env_path_def
      to_lower_def lower_char_def is_ascii_upper_def starts_with_def max_safe_integer_def)
  have keys: "assert_exact_keys (sample_plan commit) (binding_fields @ binding_derived_fields) ''plan'' = Inr ()"
    by (simp add: sample_plan_def binding_fields_def)
  have none: "js_nullish (js_get (sample_plan commit) f)" if "f \<in> set binding_derived_fields" for f
  proof -
    from that have "f = ''version'' \<or> f = ''selected_assets_hash'' \<or> f = ''binding_hash'' \<or> f = ''plan_hash''"
      by (simp add: binding_derived_fields_def)
    then show ?thesis by (elim disjE) (simp_all add: sample_plan_def)
  qed
  show ?thesis
    using plain fields keys none by (simp add: plan_binding_def fold_r_unit_Inr list_ex_iff Let_def)
qed

text \<open>The checks of hashes and commits run the regular expression on the text of the value, so a
  list with the commit as its only element passes as a commit and is sealed as a list.\<close>

theorem commit_in_a_list_is_sealed:
  "\<exists>b. plan_binding nt hash (\<lambda>_. True) (sample_plan (JArr [sample_commit])) = Inr b \<and>
       js_get b ''source_commit'' = JArr [sample_commit]"
  using sample_plan_bound [of "JArr [sample_commit]" nt hash]
  by (simp add: sealed_binding_field binding_fields_def del: js_get.simps js_get_entries)
     (simp add: sample_plan_def)

definition sample_dp :: "string \<Rightarrow> jsnum" where
  "sample_dp t = Fin (if t = ''2026-01-01T00:00:00.000Z'' then 0 else 1)"

definition sample_identity :: public_identity where
  "sample_identity = \<lparr>pi_registered = True, pi_roles = [''decisive'', ''machine''], pi_key = JNull\<rparr>"

abbreviation sample_nt :: "jsnum \<Rightarrow> string" where
  "sample_nt \<equiv> (\<lambda>_. ''3'')"

abbreviation sample_binding :: js where
  "sample_binding \<equiv> sealed_binding sample_nt sample_hash (sample_plan sample_commit)"

definition sample_approval :: js where
  "sample_approval = JObj
     [(''version'', JStr ''machine-apply-approval/2''), (''approval_record_id'', JStr ''approval-record-0001''),
      (''issuer_identity'', JStr ''alice''), (''issuer_role'', JStr ''decisive''), (''binding'', sample_binding),
      (''binding_hash'', JStr (sample_hash [])), (''nonce'', JStr ''0123456789abcdef''),
      (''issued_at'', JStr ''2026-01-01T00:00:00.000Z''), (''expires_at'', JStr ''2026-01-01T01:00:00.000Z''),
      (''signature'', JStr ''c2ln'')]"

lemma sample_hash_hex: "hex_text 64 (sample_hash t)"
  by (simp add: sample_hash_def hex_text_def list_all_iff is_hex_char_def)

lemma sample_binding_plain: "plain_value sample_binding"
  using plan_binding_again [OF sample_hash_hex sample_plan_bound, of sample_commit sample_nt]
  by (simp add: plan_binding_def)

lemma not_secret_approval_keys: "list_all (\<lambda>k. \<not> secret_word k) approval_keys"
  by code_simp

lemma sample_texts_plain:
  "list_all (\<lambda>s. \<not> pem_secret s)
     [''machine-apply-approval/2'', ''approval-record-0001'', ''alice'', ''decisive'', ''0123456789abcdef'',
      ''2026-01-01T00:00:00.000Z'', ''2026-01-01T01:00:00.000Z'', ''c2ln'']"
  by code_simp

lemma sample_approval_plain:
  "plain_value sample_approval" "plain_value (without_field ''signature'' sample_approval)"
  using sample_binding_plain not_secret_approval_keys sample_texts_plain hex_text_plain [OF sample_hash_hex]
  by (simp_all add: sample_approval_def without_field_def approval_keys_def del: secret_word.simps pem_secret.simps)

lemma sample_times:
  "utc_text ''2026-01-01T00:00:00.000Z''" "utc_text ''2026-01-01T01:00:00.000Z''"
  "sample_dp ''2026-01-01T00:00:00.000Z'' = Fin 0" "sample_dp ''2026-01-01T01:00:00.000Z'' = Fin 1"
  by (code_simp, code_simp) (simp_all add: sample_dp_def)

lemma sample_texts_ok:
  "regexp_test sample_nt approval_record_text (JStr ''approval-record-0001'')"
    "regexp_test sample_nt nonce_text (JStr ''0123456789abcdef'')"
  by (simp_all add: regexp_test_def js_coalesce_def approval_record_text_def nonce_text_def starts_with_def
        is_alnum_char_def is_ascii_alpha_def is_ascii_lower_def is_ascii_upper_def is_digit_char_def)

lemma sample_approved:
  "is_ok (verify_approval (\<lambda>_. None) sample_nt sample_hash sample_dp (\<lambda>_ _ _. Some True) (\<lambda>_. True) (\<lambda>_. Some sample_identity)
     (sample_plan sample_commit) sample_approval (JStr ''2026-01-01T01:00:00.000Z''))"
proof -
  have fields:
    "js_get sample_approval ''version'' = JStr ''machine-apply-approval/2''"
    "js_get sample_approval ''approval_record_id'' = JStr ''approval-record-0001''"
    "js_get sample_approval ''issuer_identity'' = JStr ''alice''"
    "js_get sample_approval ''issuer_role'' = JStr ''decisive''"
    "js_get sample_approval ''binding'' = sample_binding"
    "js_get sample_approval ''binding_hash'' = JStr (sample_hash [])"
    "js_get sample_approval ''nonce'' = JStr ''0123456789abcdef''"
    "js_get sample_approval ''issued_at'' = JStr ''2026-01-01T00:00:00.000Z''"
    "js_get sample_approval ''expires_at'' = JStr ''2026-01-01T01:00:00.000Z''"
    "js_get sample_approval ''signature'' = JStr ''c2ln''"
    by (simp_all add: sample_approval_def)
  have hash: "regexp_test nt (hex_text 64) (JStr (sample_hash t))" for nt t
    using sample_hash_hex by (simp add: regexp_test_def js_coalesce_def)
  have keys: "assert_exact_keys sample_approval approval_keys ''approval'' = Inr ()"
    by (simp add: sample_approval_def approval_keys_def)
  have bound: "sample_hash (canonical_json sample_nt (bound_tuple (sample_plan sample_commit))) = sample_hash []"
    by (simp add: sample_hash_def)
  show ?thesis
    unfolding verify_approval_def
    by (simp add: sample_plan_bound sample_approval_plain fields sample_texts_ok hash keys bound sample_times sample_binding_plain
        contract_require_string_def parse_time_def canonical_def now_text_def check_validity_window_def check_issuer_def sample_identity_def
        check_signature_def approval_signing_bytes_def
        del: js_get.simps js_get_entries plain_value.simps canonical_json.simps)
qed

theorem accepted_approval_binds_plan_witness:
  "signed_by_registered sample_nt (\<lambda>_ _ _. Some True) (\<lambda>_. Some sample_identity) sample_approval \<and>
   within_window sample_dp sample_approval (JStr ''2026-01-01T01:00:00.000Z'')"
proof -
  obtain v where "verify_approval (\<lambda>_. None) sample_nt sample_hash sample_dp (\<lambda>_ _ _. Some True) (\<lambda>_. True) (\<lambda>_. Some sample_identity)
     (sample_plan sample_commit) sample_approval (JStr ''2026-01-01T01:00:00.000Z'') = Inr v"
    using sample_approved by (metis is_ok.elims(2))
  from accepted_approval_binds_plan [OF this] show ?thesis by (simp add: now_text_def)
qed

definition sample_assertions :: js where
  "sample_assertions = JObj
     [(''before'', JObj [(''target_revision'', JStr ''r''), (''selected_assets_hash'', JStr (sample_hash []))]),
      (''after'', JObj [(''target_revision'', JStr ''r''), (''selected_assets_hash'', JStr (sample_hash []))]),
      (''fence'', JObj [(''generation'', jint 3), (''lease_holder'', JStr ''l''), (''lease_id'', JStr ''i'')]),
      (''server_head'', JStr ''h'')]"

definition sample_args :: receipt_args where
  "sample_args = \<lparr>ra_plan = sample_plan sample_commit, ra_record_id = JStr ''approval-record-0001'',
     ra_nonce = JStr ''0123456789abcdef'', ra_signer = JStr ''alice'', ra_role = JStr ''machine'',
     ra_phase = JStr ''preflight'', ra_assertions = sample_assertions, ra_previous = JUndef,
     ra_created = JUndef, ra_clock = ''2026-01-01T00:00:00.000Z''\<rparr>"

lemma not_secret_receipt_keys: "list_all (\<lambda>k. \<not> secret_word k) (receipt_keys @
    [''before'', ''after'', ''fence'', ''server_head'', ''target_revision'', ''selected_assets_hash'', ''generation'',
     ''lease_holder'', ''lease_id''])"
  by code_simp

lemma sample_receipt_texts_plain:
  "list_all (\<lambda>s. \<not> pem_secret s) [''machine-apply-receipt/1'', ''machine'', ''preflight'', ''r'', ''h'', ''l'', ''i'']"
  by code_simp

lemma sample_binding_fields:
  "js_get sample_binding ''selected_assets_hash'' = JStr (sample_hash [])"
  "js_get sample_binding ''server_head'' = JStr ''h''"
  "js_get sample_binding ''fence'' =
     JObj [(''generation'', jint 3), (''lease_holder'', JStr ''l''), (''lease_id'', JStr ''i'')]"
  by (simp_all add: sealed_binding_def Let_def binding_fields_def sample_plan_def sample_hash_def)

lemma sample_assertions_plain: "plain_value sample_assertions" "plain_value (js_get sample_assertions ''fence'')"
  using not_secret_receipt_keys sample_receipt_texts_plain hex_text_plain [OF sample_hash_hex]
  by (simp_all add: sample_assertions_def del: secret_word.simps pem_secret.simps)

lemma sample_assertions_ok: "assert_receipt_assertions nt sample_assertions sample_binding = Inr ()"
proof -
  have fence: "js_get sample_assertions ''fence'' = js_get sample_binding ''fence''"
    unfolding sample_binding_fields by (simp add: sample_assertions_def)
  have plain: "plain_value (js_get sample_binding ''fence'')"
    using sample_assertions_plain(2) unfolding fence .
  show ?thesis
    unfolding assert_receipt_assertions_def fence
    using plain sample_hash_hex
    by (simp add: sample_binding_fields Let_def canonical_def del: js_get_entries js_get.simps canonical_json.simps plain_value.simps)
       (simp add: sample_assertions_def contract_require_string_def regexp_test_def js_coalesce_def canonical_def
        del: canonical_json.simps plain_value.simps)
qed

lemma sample_receipt:
  "is_ok (create_receipt sample_nt sample_hash sample_dp (\<lambda>_. True) (\<lambda>_. JStr ''c2ln'') sample_args)"
proof -
  have plain: "plain_value (JObj (receipt_fields sample_args sample_binding JNull))"
    "plain_value (JObj (receipt_fields sample_args sample_binding JNull @ [(''signature'', JStr ''c2ln'')]))"
    using sample_binding_plain sample_assertions_plain not_secret_receipt_keys sample_receipt_texts_plain
      sample_texts_plain hex_text_plain [OF sample_hash_hex]
    by (simp_all add: receipt_fields_def receipt_created_def sample_args_def receipt_keys_def
        del: secret_word.simps pem_secret.simps js_get.simps js_get_entries)
  have unsigned: "without_field ''receipt_hash'' (without_field ''signature'' (JObj (receipt_fields sample_args b p @ [(''signature'', v)]))) =
      JObj (receipt_fields sample_args b p)"
    "without_field ''receipt_hash'' (JObj (receipt_fields sample_args b p @ [(''signature'', v)])) =
      JObj (receipt_fields sample_args b p @ [(''signature'', v)])" for b p v
    by (simp_all add: without_field_def receipt_fields_def)
  have given: "ra_plan sample_args = sample_plan sample_commit" "ra_record_id sample_args = JStr ''approval-record-0001''"
    "ra_nonce sample_args = JStr ''0123456789abcdef''" "ra_signer sample_args = JStr ''alice''"
    "ra_role sample_args = JStr ''machine''" "ra_phase sample_args = JStr ''preflight''"
    "ra_assertions sample_args = sample_assertions" "ra_previous sample_args = JUndef"
    "receipt_created sample_args = JStr ''2026-01-01T00:00:00.000Z''"
    by (simp_all add: sample_args_def receipt_created_def)
  show ?thesis
    unfolding create_receipt_def given receipt_signing_bytes_def receipt_hash_def unsigned
    by (simp add: sample_plan_bound sample_texts_ok plain sample_assertions_plain sample_assertions_ok
        contract_require_string_def parse_time_def sample_times text_in_def receipt_phases_def canonical_def
        del: js_get.simps js_get_entries plain_value.simps canonical_json.simps)
qed

theorem created_receipt_verifies_witness:
  "\<exists>r. verify_receipt sample_nt sample_hash sample_dp (\<lambda>_ _ _. Some True) (\<lambda>_. True) (\<lambda>_. Some sample_identity) r = Inr r"
proof -
  obtain r where "create_receipt sample_nt sample_hash sample_dp (\<lambda>_. True) (\<lambda>_. JStr ''c2ln'') sample_args = Inr r"
    using sample_receipt by (metis is_ok.elims(2))
  then have "verify_receipt sample_nt sample_hash sample_dp (\<lambda>_ _ _. Some True) (\<lambda>_. True) (\<lambda>_. Some sample_identity) r = Inr r"
    by (rule created_receipt_verifies [OF sample_hash_hex, where who = "''alice''" and i = sample_identity and role = "''machine''"])
       (simp_all add: sample_args_def sample_identity_def)
  then show ?thesis by blast
qed

end
