(* ===== verification/ReplayQueue.thy ===== *)
theory ReplayQueue
  imports PosixPath
begin

text \<open>
  The durable replay queue of memory snapshots, \<^verbatim>\<open>lib/memory/replay-queue.js\<close>: the path and
  symlink checks, validation, the queue file, payload directories, enqueue with deduplication,
  outcomes, inspection and removal.  The disk gives for each path below the project root, as a
  list of segments, what \<^verbatim>\<open>lstat\<close> reports of it.  An operation takes the disk and returns its result
  or the error it throws, with the disk it leaves, so that a directory made before an error
  stays.  Parameters: \<open>nt\<close> the text of a number, \<open>dp\<close> \<^verbatim>\<open>Date.parse\<close>, \<open>lc\<close> \<^verbatim>\<open>localeCompare\<close>, the
  clock, the random id, and the functions of the bundle installer that list, describe and hash
  memory trees.  The paths are those of a POSIX host.
\<close>

section \<open>The disk\<close>

datatype content = Json js | Bytes string | Garbage | Unreadable string

datatype node = Directory | RegularFile content | Symlink | SpecialNode

type_synonym seg_path = "string list"

type_synonym disk = "seg_path \<Rightarrow> node option"

datatype replay_error = ReplayError string | PathRejected path_error | IoError string | NotAFunction

type_synonym 'a act = "disk \<Rightarrow> (replay_error + 'a) \<times> disk"

definition ret :: "'a \<Rightarrow> 'a act" where
  "ret a d = (Inr a, d)"

definition fail :: "replay_error \<Rightarrow> 'a act" where
  "fail e d = (Inl e, d)"

definition bind_d :: "'a act \<Rightarrow> ('a \<Rightarrow> 'b act) \<Rightarrow> 'b act" where
  "bind_d m f d = (case m d of (Inl e, d') \<Rightarrow> (Inl e, d') | (Inr a, d') \<Rightarrow> f a d')"

definition check :: "bool \<Rightarrow> replay_error \<Rightarrow> 'a act \<Rightarrow> 'a act" where
  "check bad e k = (if bad then fail e else k)"

definition lift_r :: "replay_error + 'a \<Rightarrow> 'a act" where
  "lift_r r d = (r, d)"

definition put_node :: "seg_path \<Rightarrow> node \<Rightarrow> unit act" where
  "put_node p n d = (Inr (), d(p \<mapsto> n))"

definition remove_tree :: "seg_path \<Rightarrow> disk \<Rightarrow> disk" where
  "remove_tree p d = (\<lambda>q. if take (length p) q = p then None else d q)"

section \<open>Path checks\<close>

definition escapes :: "string \<Rightarrow> bool" where
  "escapes relative \<longleftrightarrow> starts_with relative ''..'' \<or> path_is_absolute relative"

definition path_segments :: "string \<Rightarrow> seg_path" where
  "path_segments relative = filter (\<lambda>s. s \<noteq> []) (split_on (CHR ''/'') relative)"

fun make_safe_dirs :: "string \<Rightarrow> seg_path \<Rightarrow> seg_path \<Rightarrow> unit act" where
  "make_safe_dirs label cur [] d = (Inr (), d)"
| "make_safe_dirs label cur (s # ss) d =
     (case d (cur @ [s]) of
        Some Symlink \<Rightarrow> (Inl (ReplayError label), d)
      | Some Directory \<Rightarrow> make_safe_dirs label (cur @ [s]) ss d
      | Some _ \<Rightarrow> (Inl (ReplayError label), d)
      | None \<Rightarrow> make_safe_dirs label (cur @ [s]) ss (d(cur @ [s] \<mapsto> Directory)))"

definition assert_safe_dir :: "string \<Rightarrow> string \<Rightarrow> unit act" where
  "assert_safe_dir relative label =
     check (escapes relative) (ReplayError label) (make_safe_dirs label [] (path_segments relative))"

fun existing_safe_dirs :: "string \<Rightarrow> seg_path \<Rightarrow> seg_path \<Rightarrow> disk \<Rightarrow> replay_error + bool" where
  "existing_safe_dirs label cur [] d = Inr True"
| "existing_safe_dirs label cur (s # ss) d =
     (case d (cur @ [s]) of
        Some Symlink \<Rightarrow> Inl (ReplayError label)
      | Some Directory \<Rightarrow> existing_safe_dirs label (cur @ [s]) ss d
      | Some _ \<Rightarrow> Inl (ReplayError label)
      | None \<Rightarrow> Inr False)"

definition assert_safe_existing_dir :: "string \<Rightarrow> string \<Rightarrow> disk \<Rightarrow> replay_error + bool" where
  "assert_safe_existing_dir relative label d =
     throw_if (escapes relative) (ReplayError label) (existing_safe_dirs label [] (path_segments relative) d)"

definition assert_safe_file :: "string \<Rightarrow> string \<Rightarrow> disk \<Rightarrow> replay_error + unit" where
  "assert_safe_file relative label d =
     throw_if (escapes relative) (ReplayError label) (
     throw_if (d (path_segments relative) = Some Symlink) (ReplayError label) (Inr ()))"

fun no_symlinks_below :: "string \<Rightarrow> seg_path \<Rightarrow> seg_path \<Rightarrow> disk \<Rightarrow> replay_error + unit" where
  "no_symlinks_below label cur [] d = Inr ()"
| "no_symlinks_below label cur (s # ss) d =
     (case d (cur @ [s]) of
        None \<Rightarrow> Inl (IoError ''ENOENT'')
      | Some Symlink \<Rightarrow> Inl (ReplayError label)
      | Some _ \<Rightarrow> no_symlinks_below label (cur @ [s]) ss d)"

definition contained :: "js \<Rightarrow> replay_error + string" where
  "contained v = (case assert_contained_relative_path v of Inl e \<Rightarrow> Inl (PathRejected e) | Inr s \<Rightarrow> Inr s)"

definition assert_no_symlinked_path :: "seg_path \<Rightarrow> string \<Rightarrow> string \<Rightarrow> disk \<Rightarrow> replay_error + unit" where
  "assert_no_symlinked_path base relative label d =
     bind_r (contained (JStr relative)) (\<lambda>safe. no_symlinks_below label base (split_on (CHR ''/'') safe) d)"

text \<open>The queue file: by default \<^verbatim>\<open>.brain/memory-replay-queue.json\<close>, or the override as a path
  relative to the project root.\<close>

definition queue_relative :: "string option \<Rightarrow> string" where
  "queue_relative override = (case override of None \<Rightarrow> ''.brain/memory-replay-queue.json'' | Some p \<Rightarrow> p)"

definition dir_relative :: "string \<Rightarrow> string" where
  "dir_relative p = join_with ''/'' (butlast (path_segments p))"

definition payload_root :: string where
  "payload_root = ''.brain/memory-replay''"

definition replay_paths :: "string option \<Rightarrow> seg_path act" where
  "replay_paths override =
     bind_d (assert_safe_dir (dir_relative (queue_relative override)) ''queue directory'') (\<lambda>_ d.
       (case assert_safe_file (queue_relative override) ''queue file'' d of
          Inl e \<Rightarrow> (Inl e, d)
        | Inr _ \<Rightarrow> (Inr (path_segments (queue_relative override)), d)))"

definition replay_paths_read_only :: "string option \<Rightarrow> disk \<Rightarrow> replay_error + seg_path" where
  "replay_paths_read_only override d =
     throw_if (escapes (queue_relative override)) (ReplayError ''queue file'') (
     bind_r (assert_safe_existing_dir (dir_relative (queue_relative override)) ''queue directory'' d) (\<lambda>_.
     bind_r (assert_safe_file (queue_relative override) ''queue file'' d) (\<lambda>_.
     Inr (path_segments (queue_relative override)))))"

definition has_replay_queue :: "string option \<Rightarrow> disk \<Rightarrow> replay_error + bool" where
  "has_replay_queue override d =
     throw_if (escapes (queue_relative override)) (ReplayError ''queue file'') (
     case d (path_segments (dir_relative (queue_relative override))) of
       Some Symlink \<Rightarrow> Inl (ReplayError ''queue directory'')
     | Some Directory \<Rightarrow>
         (case d (path_segments (queue_relative override)) of
            None \<Rightarrow> Inr False
          | Some (RegularFile _) \<Rightarrow> Inr True
          | Some _ \<Rightarrow> Inl (ReplayError ''queue file''))
     | _ \<Rightarrow> Inr False)"

section \<open>Validation\<close>

definition outcome_types :: "string list" where
  "outcome_types = [''blocked_conflict'', ''deferred_unreachable'', ''degraded'', ''failed_invalid_payload'', ''retrying'']"

definition permission_codes :: "string list" where
  "permission_codes = [''EACCES'', ''EPERM'', ''EROFS'']"

definition transient_codes :: "string list" where
  "transient_codes = permission_codes @ [''EIO'', ''ESTALE'', ''ETIMEDOUT'']"

definition or_empty :: "js \<Rightarrow> js" where
  "or_empty v = js_or v (JStr [])"

definition sha_key :: "(jsnum \<Rightarrow> string) \<Rightarrow> js \<Rightarrow> replay_error + string" where
  "sha_key nt v =
     (let s = js_to_string nt (or_empty v);
          value = (if starts_with s ''sha256:'' then drop 7 s else s)
      in throw_if (\<not> hex_text 64 value) (ReplayError ''bundle hash'') (Inr value))"

fun normalize_store_identity :: "(js \<Rightarrow> string) \<Rightarrow> js \<Rightarrow> replay_error + string" where
  "normalize_store_identity resolve store =
     (if \<not> truthy store then Inl (ReplayError ''no memory store configured'')
      else if js_get store ''scheme'' = JStr ''file'' then
        (if \<not> truthy (js_get store ''root'') then Inl (ReplayError ''invalid file store'')
         else Inr (''file://'' @ resolve (js_get store ''root'')))
      else if js_get store ''scheme'' = JStr ''agentdrive'' then
        Inr (''agentdrive://'' @ (case js_get store ''ref'' of JStr r \<Rightarrow> r | _ \<Rightarrow> []))
      else if js_get store ''scheme'' = JStr ''server'' then
        Inr (''server://'' @ (case js_get store ''brainId'' of JStr r \<Rightarrow> r | _ \<Rightarrow> []))
      else Inl (ReplayError ''unsupported store scheme''))"

definition is_valid_store_identity :: "js \<Rightarrow> bool" where
  "is_valid_store_identity v =
     (case v of
        JStr s \<Rightarrow> if starts_with s ''file://'' then 7 < length s
                  else starts_with s ''agentdrive://'' \<or> starts_with s ''server://''
      | _ \<Rightarrow> False)"

definition queue_id_text :: "string \<Rightarrow> bool" where
  "queue_id_text s \<longleftrightarrow> 16 \<le> length s \<and> list_all (\<lambda>c. is_hex_char (lower_char c) \<or> c = CHR ''-'') s"

definition memory_page :: "string \<Rightarrow> js \<Rightarrow> replay_error + unit" where
  "memory_page label rel =
     bind_r (contained rel) (\<lambda>safe. throw_if (\<not> starts_with safe ''memory/'') (ReplayError label) (Inr ()))"

definition page_numbers :: "string \<Rightarrow> js \<Rightarrow> replay_error + unit" where
  "page_numbers label v =
     throw_if (\<not> js_is_record v) (ReplayError label) (
     fold_r (\<lambda>_ (rel, n). bind_r (memory_page label (JStr rel)) (\<lambda>_.
       throw_if (\<not> num_is_finite (js_number n)) (ReplayError label) (Inr ()))) () (js_entries v))"

definition valid_time :: "(jsnum \<Rightarrow> string) \<Rightarrow> (string \<Rightarrow> jsnum) \<Rightarrow> js \<Rightarrow> bool" where
  "valid_time nt dp v \<longleftrightarrow> truthy v \<and> dp (js_to_string nt v) \<noteq> NaN"

definition validate_outcome :: "(jsnum \<Rightarrow> string) \<Rightarrow> (string \<Rightarrow> jsnum) \<Rightarrow> js \<Rightarrow> replay_error + unit" where
  "validate_outcome nt dp v =
     throw_if (v \<noteq> JNull \<and>
       (\<not> js_is_record v \<or> js_get v ''type'' \<notin> JStr ` set outcome_types \<or> \<not> valid_time nt dp (js_get v ''at'')))
       (ReplayError ''last outcome'') (Inr ())"

definition nonneg_integer :: "js \<Rightarrow> bool" where
  "nonneg_integer v = (case v of JNum (Fin q) \<Rightarrow> rat_is_int q \<and> 0 \<le> q | _ \<Rightarrow> False)"

definition validate_item :: "(jsnum \<Rightarrow> string) \<Rightarrow> (string \<Rightarrow> jsnum) \<Rightarrow> js \<Rightarrow> replay_error + unit" where
  "validate_item nt dp item =
     throw_if (\<not> (js_is_record item \<or> js_is_arr item)) (ReplayError ''malformed'') (
     throw_if (\<not> queue_id_text (js_to_string nt (or_empty (js_get item ''id'')))) (ReplayError ''id'') (
     throw_if (\<not> is_valid_store_identity (js_get item ''store_identity'')) (ReplayError ''store identity'') (
     throw_if (\<not> (js_is_str (js_get item ''snapshot_id'') \<and> truthy (js_get item ''snapshot_id''))) (ReplayError ''snapshot id'') (
     bind_r (if js_get item ''deleted_pages'' = JUndef then Inr ()
             else throw_if (\<not> js_is_arr (js_get item ''deleted_pages'')) (ReplayError ''deleted pages'')
                    (fold_r (\<lambda>_ rel. memory_page ''deleted pages'' rel) () (js_elems (js_get item ''deleted_pages'')))) (\<lambda>_.
     bind_r (if js_get item ''deleted_page_times'' = JUndef then Inr ()
             else page_numbers ''deleted page times'' (js_get item ''deleted_page_times'')) (\<lambda>_.
     bind_r (if js_get item ''file_mtimes'' = JUndef then Inr ()
             else page_numbers ''file mtimes'' (js_get item ''file_mtimes'')) (\<lambda>_.
     bind_r (sha_key nt (js_get item ''bundle_hash'')) (\<lambda>_.
     throw_if (\<not> nonneg_integer (js_get item ''attempt_count'')) (ReplayError ''attempt count'') (
     throw_if (\<not> valid_time nt dp (js_get item ''created_at'')) (ReplayError ''creation timestamp'') (
     validate_outcome nt dp (js_get item ''last_outcome'')))))))))))"

text \<open>Sorting by \<^verbatim>\<open>a.created_at.localeCompare(b.created_at)\<close>: a creation time need not be a string
  (\<^verbatim>\<open>Date.parse\<close> converts), and then the comparison of two items is not a function.\<close>

definition created_text :: "js \<Rightarrow> string" where
  "created_text item = (case js_get item ''created_at'' of JStr s \<Rightarrow> s | _ \<Rightarrow> [])"

definition created_cmp :: "(string \<Rightarrow> string \<Rightarrow> int) \<Rightarrow> js \<Rightarrow> js \<Rightarrow> int" where
  "created_cmp lc a b = lc (created_text a) (created_text b)"

definition sort_items :: "(string \<Rightarrow> string \<Rightarrow> int) \<Rightarrow> js list \<Rightarrow> replay_error + js list" where
  "sort_items lc items =
     throw_if (1 < length items \<and> \<not> list_all (\<lambda>i. js_is_str (js_get i ''created_at'')) items) NotAFunction
       (Inr (sort_by (created_cmp lc) items))"

definition order_items ::
    "(jsnum \<Rightarrow> string) \<Rightarrow> (string \<Rightarrow> jsnum) \<Rightarrow> (string \<Rightarrow> string \<Rightarrow> int) \<Rightarrow> js list \<Rightarrow> replay_error + js list" where
  "order_items nt dp lc items =
     bind_r (fold_r (\<lambda>_ i. validate_item nt dp i) () items) (\<lambda>_. sort_items lc items)"

section \<open>The queue file\<close>

text \<open>What the code takes from outside.\<close>

record platform =
  pf_nt :: "jsnum \<Rightarrow> string"
  pf_dp :: "string \<Rightarrow> jsnum"
  pf_lc :: "string \<Rightarrow> string \<Rightarrow> int"
  pf_override :: "string option"

definition parse_queue :: "platform \<Rightarrow> node option \<Rightarrow> replay_error + js list" where
  "parse_queue pf n =
     (case n of
        None \<Rightarrow> Inr []
      | Some (RegularFile (Json v)) \<Rightarrow>
          throw_if (js_get v ''version'' \<noteq> jint 1 \<or> \<not> js_is_arr (js_get v ''items'')) (ReplayError ''schema version'')
            (order_items (pf_nt pf) (pf_dp pf) (pf_lc pf) (js_elems (js_get v ''items'')))
      | Some _ \<Rightarrow> Inl (ReplayError ''malformed JSON''))"

definition read_replay_queue :: "platform \<Rightarrow> js list act" where
  "read_replay_queue pf = bind_d (replay_paths (pf_override pf)) (\<lambda>q d. (parse_queue pf (d q), d))"

definition read_replay_queue_read_only :: "platform \<Rightarrow> disk \<Rightarrow> replay_error + js list" where
  "read_replay_queue_read_only pf d = bind_r (replay_paths_read_only (pf_override pf) d) (\<lambda>q. parse_queue pf (d q))"

definition queue_document :: "js list \<Rightarrow> js" where
  "queue_document items = JObj [(''version'', jint 1), (''items'', JArr items)]"

definition write_replay_queue :: "platform \<Rightarrow> js list \<Rightarrow> js list act" where
  "write_replay_queue pf items =
     bind_d (read_replay_queue pf) (\<lambda>_.
     bind_d (lift_r (order_items (pf_nt pf) (pf_dp pf) (pf_lc pf) items)) (\<lambda>ordered.
     bind_d (put_node (path_segments (queue_relative (pf_override pf))) (RegularFile (Json (queue_document ordered)))) (\<lambda>_.
     ret ordered)))"

section \<open>Items\<close>

text \<open>\<^verbatim>\<open>a === b\<close> on values that were parsed separately: two objects are never identical.\<close>

definition strict_same :: "js \<Rightarrow> js \<Rightarrow> bool" where
  "strict_same a b \<longleftrightarrow> a = b \<and> \<not> js_is_arr a \<and> \<not> js_is_record a"

definition has_id :: "js \<Rightarrow> js \<Rightarrow> bool" where
  "has_id ident item = strict_same (js_get item ''id'') ident"

text \<open>\<^verbatim>\<open>{ ...current, ...update }\<close>.\<close>

definition js_merge :: "js \<Rightarrow> (string \<times> js) list \<Rightarrow> js" where
  "js_merge v upd = JObj (foldl (\<lambda>kvs (k, x). AList.update k x kvs) (js_entries v) upd)"

fun replace_first :: "('a \<Rightarrow> bool) \<Rightarrow> ('a \<Rightarrow> 'a) \<Rightarrow> 'a list \<Rightarrow> 'a list" where
  "replace_first P f [] = []"
| "replace_first P f (x # xs) = (if P x then f x # xs else x # replace_first P f xs)"

definition update_replay_item :: "platform \<Rightarrow> js \<Rightarrow> (string \<times> js) list \<Rightarrow> js act" where
  "update_replay_item pf ident upd =
     bind_d (read_replay_queue pf) (\<lambda>items.
     case find (has_id ident) items of
       None \<Rightarrow> fail (ReplayError ''item not found'')
     | Some current \<Rightarrow>
         bind_d (lift_r (validate_item (pf_nt pf) (pf_dp pf) (js_merge current upd))) (\<lambda>_.
         bind_d (write_replay_queue pf (replace_first (has_id ident) (\<lambda>_. js_merge current upd) items)) (\<lambda>_.
         ret (js_merge current upd))))"

definition degraded_attempts :: rat where
  "degraded_attempts = 3"

definition make_outcome :: "(jsnum \<Rightarrow> string) \<Rightarrow> string \<Rightarrow> string \<Rightarrow> js \<Rightarrow> replay_error + js" where
  "make_outcome nt now type detail =
     throw_if (type \<notin> set outcome_types) (ReplayError ''outcome type'')
       (Inr (JObj ([(''type'', JStr type), (''at'', JStr now)] @
                   (if truthy detail then [(''detail'', JStr (take 240 (js_to_string nt detail)))] else []))))"

definition next_attempts :: "js \<Rightarrow> rat" where
  "next_attempts item = (case js_get item ''attempt_count'' of JNum (Fin q) \<Rightarrow> q + 1 | _ \<Rightarrow> 1)"

definition record_replay_failure :: "platform \<Rightarrow> string \<Rightarrow> js \<Rightarrow> string \<Rightarrow> js \<Rightarrow> js act" where
  "record_replay_failure pf now ident type detail =
     bind_d (read_replay_queue pf) (\<lambda>items.
     case find (has_id ident) items of
       None \<Rightarrow> fail (ReplayError ''item not found'')
     | Some item \<Rightarrow>
         if type \<in> set [''deferred_unreachable'', ''blocked_conflict'', ''failed_invalid_payload'']
         then bind_d (lift_r (make_outcome (pf_nt pf) now type detail)) (\<lambda>outcome.
              update_replay_item pf ident [(''last_outcome'', outcome)])
         else check (type \<noteq> ''retrying'') (ReplayError ''retry outcome'') (
              bind_d (lift_r (make_outcome (pf_nt pf) now
                (if next_attempts item \<ge> degraded_attempts then ''degraded'' else ''retrying'') detail)) (\<lambda>outcome.
              update_replay_item pf ident
                [(''attempt_count'', JNum (Fin (next_attempts item))), (''last_outcome'', outcome)])))"

definition is_replay_head :: "platform \<Rightarrow> js \<Rightarrow> bool act" where
  "is_replay_head pf ident =
     bind_d (read_replay_queue pf) (\<lambda>items.
     case find (has_id ident) items of
       None \<Rightarrow> fail (ReplayError ''item not found'')
     | Some item \<Rightarrow>
         ret (case find (\<lambda>i. js_get i ''store_identity'' = js_get item ''store_identity'') items of
                None \<Rightarrow> False | Some h \<Rightarrow> has_id ident h))"

section \<open>Payloads\<close>

text \<open>The memory tree as the calls of one enqueue find it: files, manifest, their stat before and
  after the copy, their bytes.  \<open>tr_hash\<close> is \<^verbatim>\<open>computeBundleHash\<close> of a manifest and a tree.\<close>

record tree =
  tr_files :: "string list"
  tr_manifest :: js
  tr_mtime :: "string \<Rightarrow> rat"
  tr_before :: "string \<Rightarrow> rat \<times> rat"
  tr_after :: "string \<Rightarrow> rat \<times> rat"
  tr_bytes :: "string \<Rightarrow> string"
  tr_hash :: "js \<Rightarrow> (string \<Rightarrow> string option) \<Rightarrow> js"

definition put_number :: "string \<Rightarrow> rat \<Rightarrow> (string \<times> js) list \<Rightarrow> (string \<times> js) list" where
  "put_number rel q kvs = AList.update rel (JNum (Fin q)) kvs"

definition payload_dir :: "string \<Rightarrow> seg_path" where
  "payload_dir key = path_segments payload_root @ [key]"

definition freeze_file ::
    "tree \<Rightarrow> disk \<Rightarrow> (string \<times> js) list \<times> (string \<times> string) list \<Rightarrow> string \<Rightarrow>
     replay_error + (string \<times> js) list \<times> (string \<times> string) list" where
  "freeze_file tr d acc rel =
     bind_r (contained (JStr rel)) (\<lambda>safe.
     bind_r (assert_safe_file safe ''source'' d) (\<lambda>_.
     bind_r (assert_no_symlinked_path [] safe ''source'' d) (\<lambda>_.
     throw_if (tr_after tr safe \<noteq> tr_before tr safe) (ReplayError ''source changed while freezing'')
       (Inr (put_number safe (snd (tr_before tr safe)) (fst acc), AList.update safe (tr_bytes tr safe) (snd acc))))))"

definition parents :: "seg_path \<Rightarrow> seg_path list" where
  "parents p = map (\<lambda>n. take n p) [1..<length p]"

definition install_payload :: "seg_path \<Rightarrow> js \<Rightarrow> (string \<times> string) list \<Rightarrow> disk \<Rightarrow> disk" where
  "install_payload dir manifest copies d =
     (let files = map (\<lambda>(rel, b). (split_on (CHR ''/'') rel, b)) copies;
          dirs = concat (map (\<lambda>(p, _). parents p) files);
          d1 = d(dir \<mapsto> Directory, dir @ [''manifest.json''] \<mapsto> RegularFile (Json manifest), dir @ [''payload''] \<mapsto> Directory);
          d2 = foldl (\<lambda>d p. d(dir @ ''payload'' # p \<mapsto> Directory)) d1 dirs
      in foldl (\<lambda>d (p, b). d(dir @ ''payload'' # p \<mapsto> RegularFile (Bytes b))) d2 files)"

definition create_replay_payload :: "platform \<Rightarrow> tree \<Rightarrow> (string \<times> js) list act" where
  "create_replay_payload pf tr =
     bind_d (read_replay_queue pf) (\<lambda>_.
     bind_d (assert_safe_dir payload_root ''payload directory'') (\<lambda>_.
     check (tr_files tr = []) (ReplayError ''empty memory snapshot'') (
     let mtimes = foldl (\<lambda>kvs rel. put_number rel (tr_mtime tr rel) kvs) [] (tr_files tr) in
     bind_d (lift_r (sha_key (pf_nt pf) (js_get (tr_manifest tr) ''bundle_hash''))) (\<lambda>key d.
     case d (payload_dir key) of
       Some n \<Rightarrow> if n = Directory then (Inr mtimes, d) else (Inl (ReplayError ''payload directory is unsafe''), d)
     | None \<Rightarrow>
         (case fold_r (freeze_file tr d) (mtimes, []) (tr_files tr) of
            Inl e \<Rightarrow> (Inl e, d)
          | Inr (mt, copies) \<Rightarrow>
              if tr_hash tr (tr_manifest tr) (map_of copies) \<noteq> js_get (tr_manifest tr) ''bundle_hash''
              then (Inl (ReplayError ''payload integrity''), d)
              else (Inr mt, install_payload (payload_dir key) (tr_manifest tr) copies d))))))"

section \<open>Enqueue\<close>

definition dedupe_first :: "js list \<Rightarrow> js list" where
  "dedupe_first xs = rev (remdups (rev xs))"

definition js_max0 :: "js \<Rightarrow> js \<Rightarrow> js" where
  "js_max0 old new =
     (case (js_number (js_or old (jint 0)), new) of
        (Fin a, JNum (Fin b)) \<Rightarrow> JNum (Fin (max a b)) | _ \<Rightarrow> JNum NaN)"

definition js_earlier :: "js \<Rightarrow> js \<Rightarrow> js" where
  "js_earlier old new =
     (if old = JUndef then new
      else case (js_number old, js_number new) of
        (Fin a, Fin b) \<Rightarrow> JNum (Fin (min a b)) | _ \<Rightarrow> JNum NaN)"

definition merge_entries :: "(js \<Rightarrow> js \<Rightarrow> js) \<Rightarrow> js \<Rightarrow> (string \<times> js) list \<Rightarrow> js" where
  "merge_entries f v upd =
     JObj (foldl (\<lambda>kvs (k, x). AList.update k (f (js_get (JObj kvs) k) x) kvs) (js_entries v) upd)"

record enqueue_args =
  ea_store :: js
  ea_snapshot :: string
  ea_deleted :: "js list"
  ea_deleted_times :: "(string \<times> js) list"
  ea_id :: string
  ea_now :: string
  ea_resolve :: "js \<Rightarrow> string"

definition same_content :: "string \<Rightarrow> js \<Rightarrow> js \<Rightarrow> bool" where
  "same_content store bundle item \<longleftrightarrow>
     js_get item ''store_identity'' = JStr store \<and> strict_same (js_get item ''bundle_hash'') bundle"

definition new_item :: "enqueue_args \<Rightarrow> string \<Rightarrow> js \<Rightarrow> (string \<times> js) list \<Rightarrow> js" where
  "new_item a store bundle mtimes =
     JObj [(''id'', JStr (ea_id a)), (''created_at'', JStr (ea_now a)), (''store_identity'', JStr store),
           (''snapshot_id'', JStr (ea_snapshot a)), (''deleted_pages'', JArr (dedupe_first (ea_deleted a))),
           (''deleted_page_times'', JObj (ea_deleted_times a)), (''bundle_hash'', bundle),
           (''file_mtimes'', JObj mtimes), (''attempt_count'', jint 0), (''last_outcome'', JNull)]"

definition merged_update :: "enqueue_args \<Rightarrow> js \<Rightarrow> (string \<times> js) list \<Rightarrow> (string \<times> js) list" where
  "merged_update a existing mtimes =
     [(''file_mtimes'', merge_entries js_max0 (js_get existing ''file_mtimes'') mtimes),
      (''deleted_pages'', JArr (dedupe_first (js_elems (js_or (js_get existing ''deleted_pages'') (JArr [])) @ ea_deleted a))),
      (''deleted_page_times'', merge_entries js_earlier (js_or (js_get existing ''deleted_page_times'') (JObj [])) (ea_deleted_times a))]"

definition enqueue_replay_item :: "platform \<Rightarrow> tree \<Rightarrow> enqueue_args \<Rightarrow> (js \<times> bool) act" where
  "enqueue_replay_item pf tr a =
     bind_d (read_replay_queue pf) (\<lambda>items.
     bind_d (create_replay_payload pf tr) (\<lambda>mtimes.
     bind_d (lift_r (normalize_store_identity (ea_resolve a) (ea_store a))) (\<lambda>store.
     let bundle = js_get (tr_manifest tr) ''bundle_hash'' in
     case find (same_content store bundle) items of
       Some existing \<Rightarrow>
         bind_d (update_replay_item pf (js_get existing ''id'') (merged_update a existing mtimes)) (\<lambda>item.
         ret (item, True))
     | None \<Rightarrow>
         bind_d (write_replay_queue pf (items @ [new_item a store bundle mtimes])) (\<lambda>_.
         ret (new_item a store bundle mtimes, False)))))"

section \<open>Reading a payload\<close>

text \<open>\<open>inventory\<close> is \<^verbatim>\<open>collectTrustedInternalMemoryFiles\<close>, \<open>bundle_hash\<close> is \<^verbatim>\<open>computeBundleHash\<close>.\<close>

record payload_reader =
  py_inventory :: "disk \<Rightarrow> seg_path \<Rightarrow> string list"
  py_hash :: "js \<Rightarrow> (string \<Rightarrow> string option) \<Rightarrow> js"

definition bytes_at :: "disk \<Rightarrow> seg_path \<Rightarrow> string \<Rightarrow> string option" where
  "bytes_at d dir rel =
     (case d (dir @ split_on (CHR ''/'') rel) of Some (RegularFile (Bytes b)) \<Rightarrow> Some b | _ \<Rightarrow> None)"

definition lstat_directory :: "seg_path \<Rightarrow> string \<Rightarrow> disk \<Rightarrow> replay_error + unit" where
  "lstat_directory p label d =
     (case d p of
        None \<Rightarrow> Inl (IoError ''ENOENT'')
      | Some n \<Rightarrow> throw_if (n \<noteq> Directory) (ReplayError label) (Inr ()))"

definition read_manifest_file :: "node option \<Rightarrow> replay_error + js" where
  "read_manifest_file n =
     (case n of
        Some (RegularFile (Json v)) \<Rightarrow> Inr v
      | Some (RegularFile (Unreadable code)) \<Rightarrow>
          Inl (if code \<in> set transient_codes then IoError code else ReplayError ''payload manifest is malformed'')
      | _ \<Rightarrow> Inl (ReplayError ''payload manifest is malformed''))"

definition manifest_file :: "seg_path \<Rightarrow> disk \<Rightarrow> js \<Rightarrow> replay_error + string" where
  "manifest_file dir d f =
     bind_r (contained (js_get f ''source'')) (\<lambda>source.
     bind_r (contained (js_get f ''target'')) (\<lambda>target.
     throw_if (source \<noteq> target \<or> \<not> starts_with source ''memory/'') (ReplayError ''unsafe memory paths'') (
     bind_r (assert_no_symlinked_path dir source ''payload'' d) (\<lambda>_.
     Inr (case js_get f ''target'' of JStr t \<Rightarrow> t | _ \<Rightarrow> [])))))"

definition check_payload ::
    "platform \<Rightarrow> payload_reader \<Rightarrow> js \<Rightarrow> disk \<Rightarrow> replay_error + js \<times> string list" where
  "check_payload pf py item d =
     bind_r (sha_key (pf_nt pf) (js_get item ''bundle_hash'')) (\<lambda>key.
     let dir = payload_dir key; tree_dir = dir @ [''payload'']; bundle = js_get item ''bundle_hash'' in
     bind_r (lstat_directory dir ''payload directory is unsafe'' d) (\<lambda>_.
     throw_if (d (dir @ [''manifest.json'']) = Some Symlink) (ReplayError ''payload manifest'') (
     bind_r (read_manifest_file (d (dir @ [''manifest.json'']))) (\<lambda>manifest.
     throw_if (\<not> (js_is_str bundle \<and> js_get manifest ''bundle_hash'' = bundle) \<or> \<not> js_is_arr (js_get manifest ''files''))
       (ReplayError ''payload manifest does not match queue item'') (
     bind_r (lstat_directory tree_dir ''payload root is unsafe'' d) (\<lambda>_.
     bind_r (map_r (manifest_file tree_dir d) (js_elems (js_get manifest ''files''))) (\<lambda>files.
     let inventory = py_inventory py d tree_dir in
     throw_if (\<not> distinct files \<or> length inventory \<noteq> length files \<or> set inventory \<noteq> set files)
       (ReplayError ''payload file set'') (
     throw_if (py_hash py manifest (bytes_at d tree_dir) \<noteq> bundle) (ReplayError ''payload integrity'') (
     throw_if (length (js_keys (js_get item ''file_mtimes'')) \<noteq> length files \<or>
               list_ex (\<lambda>k. k \<notin> set files) (js_keys (js_get item ''file_mtimes'')))
       (ReplayError ''payload mtime metadata'') (
     Inr (manifest, files)))))))))))"

definition read_replay_payload :: "platform \<Rightarrow> payload_reader \<Rightarrow> js \<Rightarrow> (js \<times> string list) act" where
  "read_replay_payload pf py item =
     bind_d (lift_r (validate_item (pf_nt pf) (pf_dp pf) item)) (\<lambda>_.
     check (\<not> truthy (js_get item ''file_mtimes'')) (ReplayError ''legacy item'') (
     bind_d (read_replay_queue pf) (\<lambda>_ d. (check_payload pf py item d, d))))"

definition read_replay_payload_read_only ::
    "platform \<Rightarrow> payload_reader \<Rightarrow> js \<Rightarrow> disk \<Rightarrow> replay_error + js \<times> string list" where
  "read_replay_payload_read_only pf py item d =
     bind_r (validate_item (pf_nt pf) (pf_dp pf) item) (\<lambda>_.
     throw_if (\<not> truthy (js_get item ''file_mtimes'')) (ReplayError ''legacy item'') (
     bind_r (read_replay_queue_read_only pf d) (\<lambda>_.
     bind_r (assert_safe_existing_dir payload_root ''payload directory'' d) (\<lambda>_.
     check_payload pf py item d))))"

section \<open>Inspection and removal\<close>

datatype verdict = ValidPayload js | InvalidPayload bool replay_error

definition transient_error :: "replay_error \<Rightarrow> bool" where
  "transient_error e = (case e of IoError code \<Rightarrow> code \<in> set transient_codes | _ \<Rightarrow> False)"

definition inspect_replay_item :: "platform \<Rightarrow> payload_reader \<Rightarrow> js \<Rightarrow> disk \<Rightarrow> replay_error + js \<times> verdict" where
  "inspect_replay_item pf py ident d =
     bind_r (read_replay_queue_read_only pf d) (\<lambda>items.
     case find (has_id ident) items of
       None \<Rightarrow> Inl (ReplayError ''item not found'')
     | Some item \<Rightarrow>
         Inr (item, case read_replay_payload_read_only pf py item d of
                      Inr (manifest, _) \<Rightarrow> ValidPayload manifest
                    | Inl e \<Rightarrow> InvalidPayload (\<not> transient_error e) e))"

definition remove_payload :: "platform \<Rightarrow> js \<Rightarrow> bool act" where
  "remove_payload pf item d =
     (case sha_key (pf_nt pf) (js_get item ''bundle_hash'') of
        Inl e \<Rightarrow> (Inl e, d)
      | Inr key \<Rightarrow>
          (case assert_safe_dir payload_root ''payload directory'' d of
             (Inl _, d1) \<Rightarrow> (Inr False, d1)
           | (Inr _, d1) \<Rightarrow>
               (case d1 (payload_dir key) of
                  None \<Rightarrow> (Inr True, d1)
                | Some Directory \<Rightarrow> (Inr True, remove_tree (payload_dir key) d1)
                | Some _ \<Rightarrow> (Inr False, d1))))"

text \<open>The result of a removal: the item, and whether its payload was cleaned up or still needed.\<close>

definition remove_replay_item :: "platform \<Rightarrow> js \<Rightarrow> (js \<times> bool) act" where
  "remove_replay_item pf ident =
     bind_d (read_replay_queue pf) (\<lambda>items.
     case find (has_id ident) items of
       None \<Rightarrow> fail (ReplayError ''item not found'')
     | Some item \<Rightarrow>
         bind_d (write_replay_queue pf (filter (\<lambda>i. \<not> has_id ident i) items)) (\<lambda>left.
         if list_ex (\<lambda>i. strict_same (js_get i ''bundle_hash'') (js_get item ''bundle_hash'')) left then ret (item, True)
         else bind_d (remove_payload pf item) (\<lambda>clean. ret (item, clean))))"

section \<open>Reading and writing at the default path\<close>

abbreviation brain_dir :: seg_path where
  "brain_dir \<equiv> [''.brain'']"

abbreviation queue_path :: seg_path where
  "queue_path \<equiv> [''.brain'', ''memory-replay-queue.json'']"

lemma default_paths:
  "path_segments ''.brain/memory-replay-queue.json'' = queue_path"
  "dir_relative ''.brain/memory-replay-queue.json'' = ''.brain''"
  "path_segments ''.brain'' = brain_dir" "\<not> escapes ''.brain''" "\<not> escapes ''.brain/memory-replay-queue.json''"
  "path_segments payload_root = [''.brain'', ''memory-replay'']" "\<not> escapes payload_root"
  by (simp_all add: path_segments_def dir_relative_def escapes_def starts_with_def path_is_absolute_def payload_root_def)

lemma bind_d_Inr:
  "bind_d m f d = (Inr b, d2) \<longleftrightarrow> (\<exists>a d1. m d = (Inr a, d1) \<and> f a d1 = (Inr b, d2))"
  by (auto simp: bind_d_def split: prod.splits sum.splits)

lemma act_simps [simp]:
  "ret a d = (Inr b, d') \<longleftrightarrow> b = a \<and> d' = d"
  "fail e d \<noteq> (Inr b, d')"
  "lift_r r d = (Inr b, d') \<longleftrightarrow> r = Inr b \<and> d' = d"
  "check bad e k d = (Inr b, d') \<longleftrightarrow> \<not> bad \<and> k d = (Inr b, d')"
  "put_node p n d = (Inr u, d') \<longleftrightarrow> d' = d(p \<mapsto> n)"
  by (auto simp: ret_def fail_def lift_r_def check_def put_node_def)

lemma read_default:
  assumes "pf_override pf = None"
  shows "read_replay_queue pf d = (Inr items, d') \<longleftrightarrow>
    d brain_dir \<in> {None, Some Directory} \<and> d queue_path \<noteq> Some Symlink \<and>
    parse_queue pf (d queue_path) = Inr items \<and> d' = d(brain_dir \<mapsto> Directory)"
proof -
  have same: "d brain_dir = Some Directory \<Longrightarrow> d(brain_dir \<mapsto> Directory) = d"
    by (rule ext) simp
  have paths: "replay_paths None d = (Inr q, d1) \<longleftrightarrow> d brain_dir \<in> {None, Some Directory} \<and> d queue_path \<noteq> Some Symlink \<and>
      q = queue_path \<and> d1 = d(brain_dir \<mapsto> Directory)" for q d1
    by (cases "d brain_dir" rule: option.exhaust; cases "the (d brain_dir)")
       (auto simp: replay_paths_def bind_d_def queue_relative_def assert_safe_dir_def check_def default_paths
         assert_safe_file_def throw_if_def same)
  show ?thesis
    by (auto simp: read_replay_queue_def bind_d_Inr assms paths)
qed

lemma write_default:
  assumes "pf_override pf = None"
  shows "write_replay_queue pf xs d = (Inr ys, d') \<longleftrightarrow>
    d brain_dir \<in> {None, Some Directory} \<and> d queue_path \<noteq> Some Symlink \<and>
    is_ok (parse_queue pf (d queue_path)) \<and> order_items (pf_nt pf) (pf_dp pf) (pf_lc pf) xs = Inr ys \<and>
    d' = d(brain_dir \<mapsto> Directory, queue_path \<mapsto> RegularFile (Json (queue_document ys)))"
proof -
  have ok: "is_ok r \<longleftrightarrow> (\<exists>x. r = Inr x)" for r :: "replay_error + js list"
    by (cases r) auto
  show ?thesis
    by (auto simp: write_replay_queue_def bind_d_Inr read_default [OF assms] assms queue_relative_def default_paths ok)
qed

lemma order_items_Inr:
  "order_items nt dp lc xs = Inr ys \<longleftrightarrow>
     list_all (\<lambda>i. validate_item nt dp i = Inr ()) xs \<and>
     (1 < length xs \<longrightarrow> list_all (\<lambda>i. js_is_str (js_get i ''created_at'')) xs) \<and> ys = sort_by (created_cmp lc) xs"
proof -
  have fold_unit: "fold_r (\<lambda>_ x. f x) () xs = Inr u \<longleftrightarrow> list_all (\<lambda>x. f x = Inr ()) xs"
    for f :: "js \<Rightarrow> replay_error + unit" and u
    by (induction xs) (auto simp: bind_r_def split: sum.splits)
  show ?thesis by (auto simp: order_items_def sort_items_def fold_unit)
qed

lemma created_comparator:
  assumes "comparator lc"
  shows "comparator (created_cmp lc)"
  using assms by (auto simp: comparator_def created_cmp_def)

lemma order_again:
  assumes "comparator lc" and "order_items nt dp lc xs = Inr ys"
  shows "order_items nt dp lc ys = Inr ys"
proof -
  have "sorted_wrt (\<lambda>x y. created_cmp lc x y \<le> 0) (sort_by (created_cmp lc) xs)"
    by (rule comparator.sorted_sort_by [OF created_comparator [OF assms(1)]])
  with assms(2) show ?thesis by (auto simp: order_items_Inr list_all_iff sort_by_sorted)
qed

section \<open>The queue as a FIFO\<close>

text \<open>The abstract queue: for each pending snapshot its id, store and bundle hash, oldest first.\<close>

type_synonym fifo = "(js \<times> js \<times> js) list"

definition entry :: "js \<Rightarrow> js \<times> js \<times> js" where
  "entry item = (js_get item ''id'', js_get item ''store_identity'', js_get item ''bundle_hash'')"

definition fifo_of :: "platform \<Rightarrow> disk \<Rightarrow> fifo" where
  "fifo_of pf d = (case parse_queue pf (d queue_path) of Inr items \<Rightarrow> map entry items | Inl _ \<Rightarrow> [])"

datatype queue_call =
    Enqueue tree enqueue_args
  | RecordFailure string js string js
  | Remove js

fun run_call :: "platform \<Rightarrow> queue_call \<Rightarrow> unit act" where
  "run_call pf (Enqueue tr a) = bind_d (enqueue_replay_item pf tr a) (\<lambda>_. ret ())"
| "run_call pf (RecordFailure now ident type detail) = bind_d (record_replay_failure pf now ident type detail) (\<lambda>_. ret ())"
| "run_call pf (Remove ident) = bind_d (remove_replay_item pf ident) (\<lambda>_. ret ())"

fun fifo_call :: "queue_call \<Rightarrow> fifo \<Rightarrow> fifo" where
  "fifo_call (Enqueue tr a) q =
     (case normalize_store_identity (ea_resolve a) (ea_store a) of
        Inl _ \<Rightarrow> q
      | Inr store \<Rightarrow>
          (let bundle = js_get (tr_manifest tr) ''bundle_hash'' in
           if list_ex (\<lambda>(_, s, b). s = JStr store \<and> strict_same b bundle) q then q
           else q @ [(JStr (ea_id a), JStr store, bundle)]))"
| "fifo_call (RecordFailure _ _ _ _) q = q"
| "fifo_call (Remove ident) q = filter (\<lambda>(i, _, _). \<not> strict_same i ident) q"

definition clock_ok :: "platform \<Rightarrow> queue_call \<Rightarrow> js list \<Rightarrow> bool" where
  "clock_ok pf call items =
     (case call of
        Enqueue _ a \<Rightarrow> list_all (\<lambda>i. pf_lc pf (created_text i) (ea_now a) \<le> 0) items
      | _ \<Rightarrow> True)"

lemma parse_sorted:
  assumes "comparator (pf_lc pf)" and "parse_queue pf n = Inr items"
  shows "sorted_wrt (\<lambda>a b. created_cmp (pf_lc pf) a b \<le> 0) items"
  using assms(2) comparator.sorted_sort_by [OF created_comparator [OF assms(1)]]
  by (auto simp: parse_queue_def order_items_Inr split: option.splits node.splits content.splits)

lemma parse_document:
  assumes "comparator (pf_lc pf)" and "order_items (pf_nt pf) (pf_dp pf) (pf_lc pf) xs = Inr ys"
  shows "parse_queue pf (Some (RegularFile (Json (queue_document ys)))) = Inr ys"
  using order_again [OF assms] by (simp add: parse_queue_def queue_document_def)

lemma ordered_write:
  assumes "comparator (pf_lc pf)" and "pf_override pf = None"
    and "write_replay_queue pf xs d = (Inr ys, d')"
    and "sorted_wrt (\<lambda>a b. created_cmp (pf_lc pf) a b \<le> 0) xs"
  shows "ys = xs \<and> parse_queue pf (d' queue_path) = Inr xs \<and> fifo_of pf d' = map entry xs \<and> d' brain_dir = Some Directory"
proof -
  have "ys = xs" and d': "d' = d(brain_dir \<mapsto> Directory, queue_path \<mapsto> RegularFile (Json (queue_document ys)))"
    and "order_items (pf_nt pf) (pf_dp pf) (pf_lc pf) xs = Inr ys"
    using assms(3,4) by (auto simp: write_default [OF assms(2)] order_items_Inr sort_by_sorted)
  with parse_document [OF assms(1)] show ?thesis by (simp add: fifo_of_def)
qed

lemma update_get: "map_of (AList.update k x kvs) k' = (if k' = k then Some x else map_of kvs k')"
  by (auto simp: update_conv)

lemma js_get_map_of: "js_get v k = (case map_of (js_entries v) k of None \<Rightarrow> JUndef | Some x \<Rightarrow> x)"
  by (cases v) auto

lemma merge_get: "k \<notin> fst ` set upd \<Longrightarrow> js_get (js_merge v upd) k = js_get v k"
proof -
  have "k \<notin> fst ` set upd \<Longrightarrow> map_of (foldl (\<lambda>kvs (k, x). AList.update k x kvs) kvs upd) k = map_of kvs k" for kvs
    by (induction upd arbitrary: kvs) (auto simp: update_get)
  then show "k \<notin> fst ` set upd \<Longrightarrow> js_get (js_merge v upd) k = js_get v k"
    by (simp add: js_merge_def js_get_map_of)
qed

lemma map_replace_first:
  "find P xs = Some c \<Longrightarrow> g (f c) = g c \<Longrightarrow> map g (replace_first P (\<lambda>_. f c) xs) = map g xs"
  by (induction xs) (auto split: if_splits)

lemma sorted_same_times:
  assumes "map created_text xs = map created_text ys"
    and "sorted_wrt (\<lambda>a b. created_cmp lc a b \<le> 0) ys"
  shows "sorted_wrt (\<lambda>a b. created_cmp lc a b \<le> 0) xs"
proof -
  have "sorted_wrt (\<lambda>a b. created_cmp lc a b \<le> 0) zs = sorted_wrt (\<lambda>s t. lc s t \<le> 0) (map created_text zs)" for zs
    by (simp add: sorted_wrt_map created_cmp_def)
  with assms show ?thesis by simp
qed

lemma update_keeps_fifo:
  assumes lc: "comparator (pf_lc pf)" and dflt: "pf_override pf = None"
    and run: "update_replay_item pf ident upd d = (Inr u, d')"
    and kept: "fst ` set upd \<inter> {''id'', ''store_identity'', ''bundle_hash'', ''created_at''} = {}"
  shows "fifo_of pf d' = fifo_of pf d"
proof -
  obtain items c ys d1 where read: "parse_queue pf (d queue_path) = Inr items" and c: "find (has_id ident) items = Some c"
    and w: "write_replay_queue pf (replace_first (has_id ident) (\<lambda>_. js_merge c upd) items) d1 = (Inr ys, d')"
    using run by (auto simp: update_replay_item_def bind_d_Inr read_default [OF dflt] split: option.splits)
  have same: "entry (js_merge c upd) = entry c" "created_text (js_merge c upd) = created_text c"
    using kept by (auto simp: entry_def created_text_def merge_get)
  have "map created_text (replace_first (has_id ident) (\<lambda>_. js_merge c upd) items) = map created_text items"
    using c same(2) by (rule map_replace_first)
  then have "fifo_of pf d' = map entry (replace_first (has_id ident) (\<lambda>_. js_merge c upd) items)"
    using ordered_write [OF lc dflt w] sorted_same_times parse_sorted [OF lc read] by blast
  also have "\<dots> = map entry items" using c same(1) by (rule map_replace_first)
  finally show ?thesis by (simp add: fifo_of_def read)
qed

text \<open>What payload work leaves alone.\<close>

lemma payload_root_frame:
  "assert_safe_dir payload_root label d = (r, d') \<Longrightarrow> d' queue_path = d queue_path"
  by (auto simp: assert_safe_dir_def check_def default_paths split: option.splits node.splits if_splits)

lemma foldl_frame: "(\<And>d x. f d x p = d p) \<Longrightarrow> foldl f d xs p = d p" for f :: "disk \<Rightarrow> 'x \<Rightarrow> disk"
  by (induction xs arbitrary: d) simp_all

lemma install_frame:
  assumes "take (length dir) p \<noteq> dir"
  shows "install_payload dir manifest copies d p = d p"
proof -
  have "p \<noteq> dir @ q" for q using assms by auto
  then show ?thesis
    using assms by (auto simp: install_payload_def Let_def intro!: foldl_frame trans [OF foldl_frame])
qed

lemma payload_dir_frame: "take (length (payload_dir key)) queue_path \<noteq> payload_dir key"
  by (simp add: payload_dir_def default_paths)

lemma create_payload_frame:
  assumes "pf_override pf = None" and "create_replay_payload pf tr d = (Inr m, d')"
  shows "d' queue_path = d queue_path"
proof -
  obtain d1 key where d1: "assert_safe_dir payload_root ''payload directory'' (d(brain_dir \<mapsto> Directory)) = (Inr (), d1)"
    and d': "d' = d1 \<or> (\<exists>copies. d' = install_payload (payload_dir key) (tr_manifest tr) copies d1)"
    using assms(2) by (auto simp: create_replay_payload_def bind_d_Inr read_default [OF assms(1)] Let_def
      split: option.splits sum.splits prod.splits if_splits)
  have "d1 queue_path = d queue_path" using payload_root_frame [OF d1] by simp
  with d' install_frame [OF payload_dir_frame] show ?thesis by auto
qed

lemma remove_payload_frame:
  assumes "remove_payload pf item d = (r, d')"
  shows "d' queue_path = d queue_path"
proof -
  have "remove_tree (payload_dir key) d1 queue_path = d1 queue_path" for key d1
    using payload_dir_frame by (simp add: remove_tree_def)
  then show ?thesis
    using assms by (auto simp: remove_payload_def dest!: payload_root_frame split: sum.splits prod.splits option.splits node.splits)
qed

lemma fifo_frame: "d' queue_path = d queue_path \<Longrightarrow> fifo_of pf d' = fifo_of pf d"
  by (simp add: fifo_of_def)

lemma remove_simulates:
  assumes lc: "comparator (pf_lc pf)" and dflt: "pf_override pf = None"
    and run: "remove_replay_item pf ident d = (Inr u, d')"
  shows "fifo_of pf d' = fifo_call (Remove ident) (fifo_of pf d)"
proof -
  obtain items ys d1 where read: "parse_queue pf (d queue_path) = Inr items"
    and w: "write_replay_queue pf (filter (\<lambda>i. \<not> has_id ident i) items) (d(brain_dir \<mapsto> Directory)) = (Inr ys, d1)"
    and d': "d' queue_path = d1 queue_path"
    using run by (auto simp: remove_replay_item_def bind_d_Inr read_default [OF dflt]
      dest!: remove_payload_frame split: option.splits if_splits)
  have "sorted_wrt (\<lambda>a b. created_cmp (pf_lc pf) a b \<le> 0) (filter (\<lambda>i. \<not> has_id ident i) items)"
    using parse_sorted [OF lc read] by (rule sorted_wrt_filter)
  then have "fifo_of pf d1 = map entry (filter (\<lambda>i. \<not> has_id ident i) items)"
    using ordered_write [OF lc dflt w] by blast
  then show ?thesis
    using fifo_frame [of d' d1 pf, OF d'] by (simp add: fifo_of_def read filter_map comp_def entry_def has_id_def)
qed

lemma enqueue_simulates:
  assumes lc: "comparator (pf_lc pf)" and dflt: "pf_override pf = None"
    and read: "parse_queue pf (d queue_path) = Inr items" and clock: "clock_ok pf (Enqueue tr a) items"
    and run: "enqueue_replay_item pf tr a d = (Inr u, d')"
  shows "fifo_of pf d' = fifo_call (Enqueue tr a) (fifo_of pf d)"
proof -
  let ?bhash = "js_get (tr_manifest tr) ''bundle_hash''"
  obtain m d1 store where payload: "create_replay_payload pf tr (d(brain_dir \<mapsto> Directory)) = (Inr m, d1)"
    and store: "normalize_store_identity (ea_resolve a) (ea_store a) = Inr store"
    and rest: "(case find (same_content store ?bhash) items of
        Some e \<Rightarrow> \<exists>i. update_replay_item pf (js_get e ''id'') (merged_update a e m) d1 = (Inr i, d')
      | None \<Rightarrow> \<exists>ys. write_replay_queue pf (items @ [new_item a store ?bhash m]) d1 = (Inr ys, d'))"
    using run by (auto simp: enqueue_replay_item_def bind_d_Inr read_default [OF dflt] read Let_def split: option.splits)
  have same: "d1 queue_path = d queue_path"
    using create_payload_frame [OF dflt payload] by simp
  have present: "list_ex (\<lambda>(_, s, b). s = JStr store \<and> strict_same b ?bhash) (fifo_of pf d) \<longleftrightarrow>
      find (same_content store ?bhash) items \<noteq> None"
    by (auto simp: fifo_of_def read list_ex_iff entry_def same_content_def find_None_iff)
  show ?thesis
  proof (cases "find (same_content store ?bhash) items")
    case (Some e)
    then obtain i where upd: "update_replay_item pf (js_get e ''id'') (merged_update a e m) d1 = (Inr i, d')"
      using rest by auto
    have "fifo_of pf d' = fifo_of pf d1"
      using upd by (rule update_keeps_fifo [OF lc dflt]) (simp add: merged_update_def)
    with Some present store fifo_frame [of d1 d pf, OF same] show ?thesis by (simp add: Let_def)
  next
    case None
    then obtain ys where w: "write_replay_queue pf (items @ [new_item a store ?bhash m]) d1 = (Inr ys, d')"
      using rest by auto
    have time: "created_text (new_item a store ?bhash m) = ea_now a"
      and new: "entry (new_item a store ?bhash m) = (JStr (ea_id a), JStr store, ?bhash)"
      by (simp_all add: new_item_def created_text_def entry_def)
    have "sorted_wrt (\<lambda>a b. created_cmp (pf_lc pf) a b \<le> 0) (items @ [new_item a store ?bhash m])"
      using parse_sorted [OF lc read] clock by (auto simp: sorted_wrt_append clock_ok_def created_cmp_def time list_all_iff)
    then have "fifo_of pf d' = map entry items @ [(JStr (ea_id a), JStr store, ?bhash)]"
      using ordered_write [OF lc dflt w] new by simp
    with None present store show ?thesis by (simp add: Let_def fifo_of_def read)
  qed
qed

definition recorded_label :: "string \<Rightarrow> js \<Rightarrow> string" where
  "recorded_label type item =
     (if type \<noteq> ''retrying'' then type else if next_attempts item \<ge> 3 then ''degraded'' else ''retrying'')"

definition recorded_count :: "string \<Rightarrow> js \<Rightarrow> (string \<times> js) list" where
  "recorded_count type item =
     (if type \<noteq> ''retrying'' then [] else [(''attempt_count'', JNum (Fin (next_attempts item)))])"

lemma record_failure_Inr:
  assumes "pf_override pf = None" and run: "record_replay_failure pf now ident type detail d = (Inr r, d')"
  obtains items item outcome where "parse_queue pf (d queue_path) = Inr items" and "find (has_id ident) items = Some item"
    and "make_outcome (pf_nt pf) now (recorded_label type item) detail = Inr outcome"
    and "update_replay_item pf ident (recorded_count type item @ [(''last_outcome'', outcome)])
           (d(brain_dir \<mapsto> Directory)) = (Inr r, d')"
proof -
  from run obtain items where read: "parse_queue pf (d queue_path) = Inr items"
    and rest: "(case find (has_id ident) items of
       None \<Rightarrow> fail (ReplayError ''item not found'')
     | Some item \<Rightarrow>
         if type \<in> set [''deferred_unreachable'', ''blocked_conflict'', ''failed_invalid_payload'']
         then bind_d (lift_r (make_outcome (pf_nt pf) now type detail)) (\<lambda>outcome.
              update_replay_item pf ident [(''last_outcome'', outcome)])
         else check (type \<noteq> ''retrying'') (ReplayError ''retry outcome'') (
              bind_d (lift_r (make_outcome (pf_nt pf) now
                (if next_attempts item \<ge> degraded_attempts then ''degraded'' else ''retrying'') detail)) (\<lambda>outcome.
              update_replay_item pf ident
                [(''attempt_count'', JNum (Fin (next_attempts item))), (''last_outcome'', outcome)])))
      (d(brain_dir \<mapsto> Directory)) = (Inr r, d')"
    unfolding record_replay_failure_def bind_d_Inr read_default [OF assms(1)] by blast
  then obtain item where item: "find (has_id ident) items = Some item"
    by (cases "find (has_id ident) items") auto
  show thesis
  proof (cases "type \<in> set [''deferred_unreachable'', ''blocked_conflict'', ''failed_invalid_payload'']")
    case True
    then have "type \<noteq> ''retrying''" by auto
    moreover from rest obtain outcome where "make_outcome (pf_nt pf) now type detail = Inr outcome"
      and "update_replay_item pf ident [(''last_outcome'', outcome)] (d(brain_dir \<mapsto> Directory)) = (Inr r, d')"
      by (simp only: item True option.case if_True act_simps bind_d_Inr) auto
    ultimately show thesis
      by (intro that [OF read item, of outcome]) (simp_all add: recorded_label_def recorded_count_def)
  next
    case False
    from rest obtain outcome where type: "type = ''retrying''"
      and o: "make_outcome (pf_nt pf) now (if next_attempts item \<ge> degraded_attempts then ''degraded'' else ''retrying'') detail = Inr outcome"
      and u: "update_replay_item pf ident [(''attempt_count'', JNum (Fin (next_attempts item))), (''last_outcome'', outcome)]
        (d(brain_dir \<mapsto> Directory)) = (Inr r, d')"
      by (simp only: item False option.case if_False act_simps bind_d_Inr) auto
    show thesis
      by (rule that [OF read item, of outcome])
         (use o u in \<open>simp_all add: type recorded_label_def recorded_count_def degraded_attempts_def\<close>)
  qed
qed

text \<open>C12. Refinement of the abstract FIFO.  While the clock does not run behind the newest pending
  item, every call that succeeds on the queue file does to the file what the abstract queue does:
  a new snapshot goes to the end, a snapshot that is already pending for its store stays where it is,
  recording an outcome reorders nothing, and removal takes out exactly the named item.\<close>

theorem replay_queue_is_fifo:
  assumes "comparator (pf_lc pf)" and "pf_override pf = None"
    and "parse_queue pf (d queue_path) = Inr items" and "clock_ok pf call items"
    and "run_call pf call d = (Inr u, d')"
  shows "fifo_of pf d' = fifo_call call (fifo_of pf d)"
proof (cases call)
  case (Enqueue tr a)
  then obtain r where "enqueue_replay_item pf tr a d = (Inr r, d')" using assms(5) by (auto simp: bind_d_Inr)
  with enqueue_simulates [of pf d items tr a r d'] assms(1-4) Enqueue show ?thesis by simp
next
  case (RecordFailure now ident type detail)
  then obtain r where run: "record_replay_failure pf now ident type detail d = (Inr r, d')"
    using assms(5) by (auto simp: bind_d_Inr)
  show ?thesis
  proof (rule record_failure_Inr [OF assms(2) run])
    fix items item outcome
    assume "update_replay_item pf ident (recorded_count type item @ [(''last_outcome'', outcome)])
           (d(brain_dir \<mapsto> Directory)) = (Inr r, d')"
    then have "fifo_of pf d' = fifo_of pf (d(brain_dir \<mapsto> Directory))"
      by (rule update_keeps_fifo [OF assms(1,2)]) (simp add: recorded_count_def)
    with RecordFailure show ?thesis by (simp add: fifo_of_def)
  qed
next
  case (Remove ident)
  then obtain r where "remove_replay_item pf ident d = (Inr r, d')" using assms(5) by (auto simp: bind_d_Inr)
  with remove_simulates [OF assms(1,2)] Remove show ?thesis by simp
qed

section \<open>Concrete queue\<close>

definition demo_platform :: platform where
  "demo_platform = \<lparr>pf_nt = (\<lambda>_. ''1''), pf_dp = (\<lambda>_. Fin 0), pf_lc = compare_code_units, pf_override = None\<rparr>"

definition demo_bundle :: js where
  "demo_bundle = JStr (replicate 64 (CHR ''a''))"

definition demo_tree :: tree where
  "demo_tree = \<lparr>tr_files = [''memory/a.md''], tr_manifest = JObj [(''bundle_hash'', demo_bundle)], tr_mtime = (\<lambda>_. 5),
     tr_before = (\<lambda>_. (1, 5)), tr_after = (\<lambda>_. (1, 5)), tr_bytes = (\<lambda>_. ''x''), tr_hash = (\<lambda>_ _. demo_bundle)\<rparr>"

definition demo_enqueue :: enqueue_args where
  "demo_enqueue = \<lparr>ea_store = JObj [(''scheme'', JStr ''server''), (''brainId'', JStr ''b'')], ea_snapshot = ''s'',
     ea_deleted = [], ea_deleted_times = [], ea_id = ''0123456789abcdef'', ea_now = ''2026'', ea_resolve = (\<lambda>_. [])\<rparr>"

definition demo_disk :: disk where
  "demo_disk = [[''memory''] \<mapsto> Directory, [''memory'', ''a.md''] \<mapsto> RegularFile (Bytes ''x'')]"

lemma demo_enqueued: "is_ok (fst (run_call demo_platform (Enqueue demo_tree demo_enqueue) demo_disk))"
  by code_simp

theorem replay_queue_is_fifo_witness:
  "fifo_of demo_platform (snd (run_call demo_platform (Enqueue demo_tree demo_enqueue) demo_disk)) =
     [(JStr ''0123456789abcdef'', JStr ''server://b'', demo_bundle)]"
proof -
  obtain u d' where run: "run_call demo_platform (Enqueue demo_tree demo_enqueue) demo_disk = (Inr u, d')"
    using demo_enqueued by (metis is_ok.elims(2) prod.collapse)
  have "fifo_of demo_platform d' = fifo_call (Enqueue demo_tree demo_enqueue) (fifo_of demo_platform demo_disk)"
  proof (rule replay_queue_is_fifo [OF _ _ _ _ run])
    show "comparator (pf_lc demo_platform)"
      by (simp add: demo_platform_def code_units.comparator_axioms)
    show "parse_queue demo_platform (demo_disk queue_path) = Inr []"
      by (simp add: demo_disk_def parse_queue_def)
  qed (simp_all add: demo_platform_def clock_ok_def)
  also have "\<dots> = [(JStr ''0123456789abcdef'', JStr ''server://b'', demo_bundle)]"
    by (simp add: demo_enqueue_def demo_tree_def demo_disk_def fifo_of_def parse_queue_def)
  finally show ?thesis using run by simp
qed

text \<open>Only a retry that reached the store counts: recording an outcome raises the attempt count by
  one exactly for the outcome retrying, every other outcome leaves it alone; and the recorded type is
  the one named, except that from the third counted attempt on it is degraded.\<close>

theorem degraded_from_third_attempt:
  assumes "pf_override pf = None" and "record_replay_failure pf now ident type detail d = (Inr r, d')"
  shows "\<exists>items item. parse_queue pf (d queue_path) = Inr items \<and> find (has_id ident) items = Some item \<and>
    js_get r ''attempt_count'' =
      (if type = ''retrying'' then JNum (Fin (next_attempts item)) else js_get item ''attempt_count'') \<and>
    js_get (js_get r ''last_outcome'') ''type'' =
      JStr (if type = ''retrying'' \<and> next_attempts item \<ge> 3 then ''degraded'' else type)"
proof (rule record_failure_Inr [OF assms])
  fix items item outcome
  assume items: "parse_queue pf (d queue_path) = Inr items" and item: "find (has_id ident) items = Some item"
    and outcome: "make_outcome (pf_nt pf) now (recorded_label type item) detail = Inr outcome"
    and upd: "update_replay_item pf ident (recorded_count type item @ [(''last_outcome'', outcome)])
      (d(brain_dir \<mapsto> Directory)) = (Inr r, d')"
  have r: "r = js_merge item (recorded_count type item @ [(''last_outcome'', outcome)])"
    using upd items item by (auto simp: update_replay_item_def bind_d_Inr read_default [OF assms(1)])
  have count: "js_get r ''attempt_count'' =
      (if type = ''retrying'' then JNum (Fin (next_attempts item)) else js_get item ''attempt_count'')"
    unfolding r by (simp add: js_merge_def recorded_count_def js_get_map_of update_get)
  have "js_get r ''last_outcome'' = outcome"
    unfolding r by (simp add: js_merge_def recorded_count_def js_get_map_of update_get)
  moreover have "js_get outcome ''type'' = JStr (recorded_label type item)"
    using outcome by (auto simp: make_outcome_def)
  ultimately show ?thesis using items item count by (auto simp: recorded_label_def)
qed

definition worn_item :: js where
  "worn_item = JObj [(''id'', JStr ''0123456789abcdef''), (''created_at'', JStr ''2026''),
     (''store_identity'', JStr ''server://b''), (''snapshot_id'', JStr ''s''), (''bundle_hash'', demo_bundle),
     (''attempt_count'', jint 2), (''last_outcome'', JNull)]"

definition worn_disk :: disk where
  "worn_disk = [brain_dir \<mapsto> Directory, queue_path \<mapsto> RegularFile (Json (queue_document [worn_item]))]"

lemma worn_recorded:
  "is_ok (fst (record_replay_failure demo_platform ''2027'' (JStr ''0123456789abcdef'') ''retrying'' JNull worn_disk))"
  by code_simp

lemma worn_parsed: "parse_queue demo_platform (worn_disk queue_path) = Inr [worn_item]"
  by code_simp

theorem degraded_from_third_attempt_witness:
  "\<exists>r d'. record_replay_failure demo_platform ''2027'' (JStr ''0123456789abcdef'') ''retrying'' JNull worn_disk = (Inr r, d') \<and>
     js_get r ''attempt_count'' = jint 3 \<and> js_get (js_get r ''last_outcome'') ''type'' = JStr ''degraded''"
proof -
  obtain r d' where run: "record_replay_failure demo_platform ''2027'' (JStr ''0123456789abcdef'') ''retrying'' JNull worn_disk = (Inr r, d')"
    using worn_recorded by (metis is_ok.elims(2) prod.collapse)
  have "pf_override demo_platform = None" by (simp add: demo_platform_def)
  from degraded_from_third_attempt [OF this run] run show ?thesis
    by (simp add: worn_parsed has_id_def strict_same_def worn_item_def next_attempts_def split: if_splits)
qed

end
