(* ===== verification/GlobalConfig.thy ===== *)
theory GlobalConfig
  imports JsPrelude
begin

text \<open>
  The global configuration, \<^verbatim>\<open>lib/config/config.js\<close>: reading, merging writes, and the typed
  accessors.  The file is what \<^verbatim>\<open>readFile\<close> and \<^verbatim>\<open>JSON.parse\<close> make of it; a write replaces it in one
  step (temporary file and rename), when the system calls of the write succeed; when one of them fails
  the file is as before.  Directory modes are not modelled.
\<close>

section \<open>The file\<close>

datatype config_file = MissingFile | UnparsableFile | ConfigDoc js | BrokenFile string

datatype config_error = ReadFailed string | NotDestructurable | InvalidShare | WriteFailed string

text \<open>The entries that \<^verbatim>\<open>{ ...v }\<close> copies.\<close>

fun js_spread :: "js \<Rightarrow> (string \<times> js) list" where
  "js_spread (JObj kvs) = kvs"
| "js_spread (JArr vs) = map (\<lambda>(i, v). (nat_to_string i, v)) (enumerate 0 vs)"
| "js_spread (JStr s) = map (\<lambda>(i, c). (nat_to_string i, JStr [c])) (enumerate 0 s)"
| "js_spread _ = []"

definition migrate_config :: "js \<Rightarrow> config_error + js" where
  "migrate_config parsed =
     throw_if (js_nullish parsed) NotDestructurable
       (Inr (JObj (filter (\<lambda>(k, _). k \<noteq> ''_version'') (js_spread parsed))))"

definition read_config :: "config_file \<Rightarrow> config_error + js" where
  "read_config f =
     (case f of
        MissingFile \<Rightarrow> Inr (JObj [])
      | UnparsableFile \<Rightarrow> Inr (JObj [])
      | ConfigDoc v \<Rightarrow> migrate_config v
      | BrokenFile code \<Rightarrow> Inl (ReadFailed code))"

text \<open>\<^verbatim>\<open>JSON.stringify\<close> leaves out the keys of an object whose value is undefined.\<close>

definition config_document :: "(string \<times> js) list \<Rightarrow> js" where
  "config_document kvs =
     JObj (filter (\<lambda>(_, v). v \<noteq> JUndef) (put_all [(''_version'', jint 1)] kvs))"

text \<open>\<open>io\<close> is the answer of \<^verbatim>\<open>mkdir\<close>, \<^verbatim>\<open>chmod\<close>, \<^verbatim>\<open>writeFile\<close> and \<^verbatim>\<open>rename\<close>: the code of the first that fails,
  or nothing.\<close>

definition write_config :: "string option \<Rightarrow> (string \<times> js) list \<Rightarrow> config_file \<Rightarrow> config_error + config_file" where
  "write_config io patch f =
     bind_r (read_config f) (\<lambda>existing.
     case io of
       Some code \<Rightarrow> Inl (WriteFailed code)
     | None \<Rightarrow> Inr (ConfigDoc (config_document (put_all (js_spread existing) patch))))"

section \<open>Accessors\<close>

definition typed_string :: "js \<Rightarrow> string option" where
  "typed_string v = js_str v"

definition get_brain_id :: "config_file \<Rightarrow> config_error + string option" where
  "get_brain_id f = bind_r (read_config f) (\<lambda>c. Inr (typed_string (js_get c ''brainId'')))"

definition set_brain_id :: "string option \<Rightarrow> string \<Rightarrow> config_file \<Rightarrow> config_error + config_file" where
  "set_brain_id io b = write_config io [(''brainId'', JStr b)]"

definition get_network_root :: "env \<Rightarrow> config_file \<Rightarrow> config_error + string option" where
  "get_network_root env f =
     (case env ''AGENTBOOTUP_NETWORK_ROOT'' of
        Some (c # cs) \<Rightarrow> Inr (Some (c # cs))
      | _ \<Rightarrow> bind_r (read_config f) (\<lambda>c. Inr (typed_string (js_get c ''networkRoot''))))"

definition set_network_root :: "string option \<Rightarrow> string \<Rightarrow> config_file \<Rightarrow> config_error + config_file" where
  "set_network_root io p = write_config io [(''networkRoot'', JStr p)]"

definition set_memory_converge_enabled :: "string option \<Rightarrow> js \<Rightarrow> config_file \<Rightarrow> config_error + config_file" where
  "set_memory_converge_enabled io v = write_config io [(''memoryConvergeEnabled'', JBool (v = JBool True))]"

definition get_skills_mode :: "config_file \<Rightarrow> config_error + string" where
  "get_skills_mode f =
     bind_r (read_config f) (\<lambda>c. Inr (if js_get c ''skills_mode'' = JStr ''mech-storage'' then ''mech-storage'' else ''static''))"

definition set_skills_mode :: "string option \<Rightarrow> string \<Rightarrow> config_file \<Rightarrow> config_error + config_file" where
  "set_skills_mode io m = write_config io [(''skills_mode'', JStr m)]"

definition get_inbox_enabled :: "string \<Rightarrow> config_file \<Rightarrow> config_error + bool" where
  "get_inbox_enabled agent f =
     bind_r (read_config f) (\<lambda>c. Inr (js_get (js_get c ''inboxEnabled'') agent = JBool True))"

definition set_inbox_enabled :: "string option \<Rightarrow> string \<Rightarrow> bool \<Rightarrow> config_file \<Rightarrow> config_error + config_file" where
  "set_inbox_enabled io agent on f =
     bind_r (read_config f) (\<lambda>c.
     let m = js_get c ''inboxEnabled'';
         old = (if js_is_record m \<or> js_is_arr m then js_spread m else [])
     in write_config io [(''inboxEnabled'', JObj (AList.update agent (JBool on) old))] f)"

definition string_or_empty :: "js \<Rightarrow> string" where
  "string_or_empty v = (case v of JStr s \<Rightarrow> s | _ \<Rightarrow> [])"

definition normalize_share_config :: "js \<Rightarrow> js option" where
  "normalize_share_config raw =
     (let provider = string_or_empty (js_get raw ''provider'');
          brain_root = js_trim (string_or_empty (js_get raw ''brain_root''))
      in if provider \<notin> set [''smb'', ''nfs'', ''local''] then None
         else Some (JObj
           [(''provider'', JStr provider), (''remote'', JStr (string_or_empty (js_get raw ''remote''))),
            (''mount_point'', JStr (string_or_empty (js_get raw ''mount_point''))),
            (''path'', JStr (string_or_empty (js_get raw ''path''))),
            (''brain_root'', JStr (if brain_root \<noteq> [] then brain_root else ''brains'')),
            (''bridge_enabled'', JBool (js_get raw ''bridge_enabled'' = JBool True))]))"

definition get_share_config :: "config_file \<Rightarrow> config_error + js option" where
  "get_share_config f = bind_r (read_config f) (\<lambda>c. Inr (normalize_share_config (js_get c ''share'')))"

definition set_share_config :: "string option \<Rightarrow> js \<Rightarrow> config_file \<Rightarrow> config_error + config_file" where
  "set_share_config io share f =
     bind_r (read_config f) (\<lambda>c.
     let s = js_get c ''share'';
         old = (if js_is_record s \<or> js_is_arr s then js_spread s else [])
     in case normalize_share_config (JObj (put_all old (js_spread share))) of
          None \<Rightarrow> Inl InvalidShare
        | Some m \<Rightarrow> write_config io [(''share'', m)] f)"

section \<open>A write changes the keys it names and nothing else\<close>

lemma map_of_filter_keys:
  "map_of (filter (\<lambda>(k, _). P k) kvs) k = (if P k then map_of kvs k else None)"
  by (induction kvs) auto

lemma js_get_defined:
  "distinct (map fst kvs) \<Longrightarrow> js_get (JObj (filter (\<lambda>(_, v). v \<noteq> JUndef) kvs)) k = js_get (JObj kvs) k"
proof (induction kvs)
  case (Cons kv kvs)
  then have "k = fst kv \<Longrightarrow> map_of (filter (\<lambda>(_, v). v \<noteq> JUndef) kvs) k = None"
    by (auto simp: map_of_eq_None_iff)
  with Cons show ?case by (cases kv) (auto split: option.splits)
qed simp

lemma read_written:
  assumes "read_config f = Inr c" and "distinct (js_keys c)"
    and "write_config io patch f = Inr f'" and "k \<noteq> ''_version''"
  shows "\<exists>c'. read_config f' = Inr c' \<and>
    js_get c' k = (case map_of (rev patch) k of None \<Rightarrow> js_get c k | Some v \<Rightarrow> v)"
proof -
  obtain kvs where c: "c = JObj kvs"
    using assms(1) by (auto simp: read_config_def migrate_config_def split: config_file.splits)
  have f': "f' = ConfigDoc (config_document (put_all kvs patch))"
    using assms(1,3) by (auto simp: write_config_def c split: option.splits)
  let ?all = "put_all kvs patch"
  let ?doc = "put_all [(''_version'', jint 1)] ?all"
  have all: "distinct (map fst ?all)" using assms(2) by (intro distinct_put_all) (simp add: c)
  have kept: "js_get (config_document ?all) k = js_get (JObj ?doc) k"
    unfolding config_document_def by (rule js_get_defined) (simp add: distinct_put_all)
  have "js_get (JObj ?doc) k = js_get (JObj ?all) k"
    using assms(4) by (simp add: map_of_put_all map_of_rev_distinct [OF all] split: option.splits)
  also have "\<dots> = (case map_of (rev patch) k of None \<Rightarrow> js_get c k | Some v \<Rightarrow> v)"
    by (simp add: map_of_put_all c split: option.splits)
  finally have final: "js_get (config_document ?all) k = (case map_of (rev patch) k of None \<Rightarrow> js_get c k | Some v \<Rightarrow> v)"
    using kept by simp
  obtain es where es: "config_document ?all = JObj es" by (simp add: config_document_def)
  have "read_config f' = Inr (JObj (filter (\<lambda>(k, _). k \<noteq> ''_version'') es))"
    by (simp add: f' es read_config_def migrate_config_def)
  moreover have "js_get (JObj (filter (\<lambda>(k, _). k \<noteq> ''_version'') es)) k = js_get (JObj es) k"
    using map_of_filter_keys [of "\<lambda>k. k \<noteq> ''_version''" es k] assms(4) by simp
  ultimately show ?thesis using final es by auto
qed

text \<open>Writing the configuration changes exactly the keys that the patch names: whatever is read
  afterwards is the patch's value, absent when that is undefined, and for every other key what was
  read before.\<close>

theorem config_write_is_local:
  assumes "read_config f = Inr c" and "distinct (js_keys c)"
    and "write_config io patch f = Inr f'" and "k \<noteq> ''_version''"
  shows "\<exists>c'. read_config f' = Inr c' \<and>
    js_get c' k = (case map_of (rev patch) k of None \<Rightarrow> js_get c k | Some v \<Rightarrow> v)"
  by (rule read_written [OF assms])

theorem config_write_is_local_witness:
  "\<exists>c'. read_config (ConfigDoc (config_document [(''share'', JNull), (''brainId'', JStr ''b'')])) = Inr c' \<and>
     js_get c' ''share'' = JNull"
proof -
  have "\<exists>c'. read_config (ConfigDoc (config_document [(''share'', JNull), (''brainId'', JStr ''b'')])) = Inr c' \<and>
     js_get c' ''share'' = (case map_of (rev [(''brainId'', JStr ''b'')]) ''share'' of
       None \<Rightarrow> js_get (JObj [(''share'', JNull)]) ''share'' | Some v \<Rightarrow> v)"
    by (rule config_write_is_local [where f = "ConfigDoc (JObj [(''share'', JNull)])" and io = None])
       (simp_all add: read_config_def migrate_config_def write_config_def put_all_def)
  then show ?thesis by simp
qed

end
