(* ===== verification/PortRegistry.thy ===== *)
theory PortRegistry
  imports GlobalConfig
begin

text \<open>
  Port allocation for daemons, \<^verbatim>\<open>lib/brain/port-registry.js\<close>, over the global configuration.
  First the operations run alone, then the calls of one process as they interleave: a call is
  suspended at each of its awaits, and the allocation lock is a chain of promises, each call waiting
  for the one before it.  Whether a port can be bound is answered by the environment at each probe, and
  so is whether the configuration can be written.
\<close>

section \<open>Port maps in the configuration\<close>

type_synonym ports = "(string \<times> jsnum) list"

definition numeric_ports :: "js \<Rightarrow> ports" where
  "numeric_ports m = map (\<lambda>(i, v). (i, js_number v)) (filter (\<lambda>(_, v). js_number v \<noteq> NaN) (js_entries m))"

definition extract_daemon_ports :: "string \<Rightarrow> js \<Rightarrow> ports" where
  "extract_daemon_ports key cfg =
     (let registry = js_get cfg ''portRegistry''; m = js_get registry key; legacy = js_get cfg ''inboxPorts'' in
      if js_is_record registry \<and> js_is_record m then numeric_ports m
      else if key = ''inbox'' \<and> js_is_record legacy then numeric_ports legacy
      else [])"

definition extract_other_claimed_ports :: "string \<Rightarrow> js \<Rightarrow> jsnum list" where
  "extract_other_claimed_ports exclude cfg =
     concat (map (\<lambda>(key, m). if key = exclude \<or> \<not> js_is_record m then [] else map snd (numeric_ports m))
       (js_entries (js_get cfg ''portRegistry''))) @
     (if exclude \<noteq> ''inbox'' then map snd (numeric_ports (js_get cfg ''inboxPorts'')) else [])"

text \<open>JSON has no infinite numbers.\<close>

definition ports_value :: "ports \<Rightarrow> js" where
  "ports_value ports = JObj (map (\<lambda>(i, n). (i, if num_is_finite n then JNum n else JNull)) ports)"

definition daemon_updates :: "string \<Rightarrow> ports \<Rightarrow> js \<Rightarrow> (string \<times> js) list" where
  "daemon_updates key ports cfg =
     (let registry = js_get cfg ''portRegistry'';
          existing = (if js_is_record registry \<or> js_is_arr registry then js_spread registry else [])
      in (''portRegistry'', JObj (AList.update key (ports_value ports) existing)) #
         (if key = ''inbox'' \<and> js_has_own cfg ''inboxPorts'' then [(''inboxPorts'', JUndef)] else []))"

definition write_daemon_ports :: "string option \<Rightarrow> string \<Rightarrow> ports \<Rightarrow> config_file \<Rightarrow> config_error + config_file" where
  "write_daemon_ports io key ports f =
     bind_r (read_config f) (\<lambda>cfg. write_config io (daemon_updates key ports cfg) f)"

section \<open>The operations, run alone\<close>

datatype port_error = NoAvailablePort | PortConfigError config_error

abbreviation port_num :: "nat \<Rightarrow> jsnum" where
  "port_num p \<equiv> Fin (of_nat p)"

fun config_r :: "config_error + 'a \<Rightarrow> port_error + 'a" where
  "config_r (Inl e) = Inl (PortConfigError e)"
| "config_r (Inr x) = Inr x"

definition first_free :: "(nat \<Rightarrow> bool) \<Rightarrow> jsnum list \<Rightarrow> nat \<Rightarrow> nat \<Rightarrow> nat option" where
  "first_free avail claimed lo hi = find (\<lambda>p. port_num p \<notin> set claimed \<and> avail p) [lo..<Suc hi]"

definition scan_and_claim ::
    "string option \<Rightarrow> (nat \<Rightarrow> bool) \<Rightarrow> string \<Rightarrow> string \<Rightarrow> ports \<Rightarrow> jsnum list \<Rightarrow> nat \<Rightarrow> nat \<Rightarrow> config_file \<Rightarrow>
     port_error + jsnum \<times> config_file" where
  "scan_and_claim io avail key ident ports claimed lo hi f =
     (case first_free avail claimed lo hi of
        None \<Rightarrow> Inl NoAvailablePort
      | Some p \<Rightarrow>
          bind_r (config_r (write_daemon_ports io key (AList.update ident (port_num p) ports) f)) (\<lambda>f'.
          Inr (port_num p, f')))"

definition all_claimed :: "string \<Rightarrow> js \<Rightarrow> ports \<Rightarrow> jsnum list" where
  "all_claimed key cfg ports = extract_other_claimed_ports key cfg @ map snd ports"

definition allocate_port ::
    "string option \<Rightarrow> (nat \<Rightarrow> bool) \<Rightarrow> string \<Rightarrow> nat \<Rightarrow> nat \<Rightarrow> string \<Rightarrow> config_file \<Rightarrow> port_error + jsnum \<times> config_file" where
  "allocate_port io avail key lo hi ident f =
     bind_r (config_r (read_config f)) (\<lambda>cfg.
     let ports = extract_daemon_ports key cfg in
     case map_of ports ident of
       Some p \<Rightarrow> Inr (p, f)
     | None \<Rightarrow> scan_and_claim io avail key ident ports (all_claimed key cfg ports) lo hi f)"

text \<open>\<open>bindable\<close> is the probe of the cached port.\<close>

definition reallocate_port ::
    "string option \<Rightarrow> (nat \<Rightarrow> bool) \<Rightarrow> (jsnum \<Rightarrow> bool) \<Rightarrow> string \<Rightarrow> nat \<Rightarrow> nat \<Rightarrow> string \<Rightarrow> config_file \<Rightarrow>
     port_error + jsnum \<times> config_file" where
  "reallocate_port io avail bindable key lo hi ident f =
     bind_r (config_r (read_config f)) (\<lambda>cfg.
     let ports = extract_daemon_ports key cfg in
     case map_of ports ident of
       Some p \<Rightarrow>
         if bindable p then Inr (p, f)
         else let left = AList.delete ident ports in
              scan_and_claim io avail key ident left (all_claimed key cfg left @ [p]) lo hi f
     | None \<Rightarrow> scan_and_claim io avail key ident ports (all_claimed key cfg ports) lo hi f)"

definition get_port :: "string \<Rightarrow> string \<Rightarrow> config_file \<Rightarrow> port_error + jsnum option" where
  "get_port key ident f = bind_r (config_r (read_config f)) (\<lambda>cfg. Inr (map_of (extract_daemon_ports key cfg) ident))"

definition release_port :: "string option \<Rightarrow> string \<Rightarrow> string \<Rightarrow> config_file \<Rightarrow> port_error + config_file" where
  "release_port io key ident f =
     bind_r (config_r (read_config f)) (\<lambda>cfg.
     let ports = extract_daemon_ports key cfg in
     if ident \<notin> fst ` set ports then Inr f
     else config_r (write_daemon_ports io key (AList.delete ident ports) f))"

definition inbox_range :: "nat \<times> nat" where
  "inbox_range = (8767, 8867)"

section \<open>Calls that interleave\<close>

datatype call_kind = Allocate | Reallocate | Release

text \<open>Where a call is suspended.\<close>

datatype call_phase =
    AwaitLock
  | AwaitConfig
  | AwaitOwnProbe jsnum ports js
  | AwaitProbe nat ports "jsnum list"
  | AwaitUpdates "nat option" ports
  | AwaitMerge "nat option" "(string \<times> js) list"
  | AwaitRename "nat option" js
  | Returned "jsnum option"
  | Rejected

record call =
  cl_kind :: call_kind
  cl_key :: string
  cl_id :: string
  cl_lo :: nat
  cl_hi :: nat
  cl_phase :: call_phase

text \<open>Whether the \<^verbatim>\<open>finally\<close> that resolves the lock has run.  The allocating calls return the promise
  of the scan without awaiting it, so for them it runs as soon as the scan has started.\<close>

definition lock_resolved :: "call \<Rightarrow> bool" where
  "lock_resolved c =
     (case cl_phase c of
        AwaitLock \<Rightarrow> False
      | AwaitConfig \<Rightarrow> False
      | AwaitOwnProbe _ _ _ \<Rightarrow> False
      | Returned _ \<Rightarrow> True
      | Rejected \<Rightarrow> True
      | _ \<Rightarrow> cl_kind c \<noteq> Release)"

text \<open>The scan runs on to the next port that is not claimed.\<close>

definition scan_from :: "call \<Rightarrow> nat \<Rightarrow> ports \<Rightarrow> jsnum list \<Rightarrow> call_phase" where
  "scan_from c p ports claimed =
     (case find (\<lambda>q. port_num q \<notin> set claimed) [p..<Suc (cl_hi c)] of
        None \<Rightarrow> Rejected | Some q \<Rightarrow> AwaitProbe q ports claimed)"

definition after_config :: "call \<Rightarrow> js \<Rightarrow> call_phase" where
  "after_config c cfg =
     (let ports = extract_daemon_ports (cl_key c) cfg in
      case cl_kind c of
        Release \<Rightarrow>
          if cl_id c \<notin> fst ` set ports then Returned None
          else AwaitUpdates None (AList.delete (cl_id c) ports)
      | Allocate \<Rightarrow>
          (case map_of ports (cl_id c) of
             Some p \<Rightarrow> Returned (Some p)
           | None \<Rightarrow> scan_from c (cl_lo c) ports (all_claimed (cl_key c) cfg ports))
      | Reallocate \<Rightarrow>
          (case map_of ports (cl_id c) of
             Some p \<Rightarrow> AwaitOwnProbe p ports cfg
           | None \<Rightarrow> scan_from c (cl_lo c) ports (all_claimed (cl_key c) cfg ports)))"

definition after_own_probe :: "call \<Rightarrow> bool \<Rightarrow> jsnum \<Rightarrow> ports \<Rightarrow> js \<Rightarrow> call_phase" where
  "after_own_probe c free p ports cfg =
     (if free then Returned (Some p)
      else let left = AList.delete (cl_id c) ports in
           scan_from c (cl_lo c) left (all_claimed (cl_key c) cfg left @ [p]))"

record port_world =
  pw_file :: config_file
  pw_calls :: "call list"

definition put_phase :: "nat \<Rightarrow> call_phase \<Rightarrow> port_world \<Rightarrow> port_world" where
  "put_phase i ph w = w\<lparr>pw_calls := (pw_calls w)[i := (pw_calls w ! i)\<lparr>cl_phase := ph\<rparr>]\<rparr>"

text \<open>The i-th call resumes; \<open>free\<close> is the answer of a probe, or whether the system calls of a write succeed.\<close>

definition resume :: "bool \<Rightarrow> nat \<Rightarrow> port_world \<Rightarrow> port_world option" where
  "resume free i w =
     (if length (pw_calls w) \<le> i then None
      else let c = pw_calls w ! i in
      case cl_phase c of
        AwaitLock \<Rightarrow> if list_all lock_resolved (take i (pw_calls w)) then Some (put_phase i AwaitConfig w) else None
      | AwaitConfig \<Rightarrow>
          Some (put_phase i (case read_config (pw_file w) of Inl _ \<Rightarrow> Rejected | Inr cfg \<Rightarrow> after_config c cfg) w)
      | AwaitOwnProbe p ports cfg \<Rightarrow> Some (put_phase i (after_own_probe c free p ports cfg) w)
      | AwaitProbe p ports claimed \<Rightarrow>
          Some (put_phase i
            (if free then AwaitUpdates (Some p) (AList.update (cl_id c) (port_num p) ports)
             else scan_from c (Suc p) ports claimed) w)
      | AwaitUpdates p ports \<Rightarrow>
          Some (put_phase i
            (case read_config (pw_file w) of
               Inl _ \<Rightarrow> Rejected | Inr cfg \<Rightarrow> AwaitMerge p (daemon_updates (cl_key c) ports cfg)) w)
      | AwaitMerge p patch \<Rightarrow>
          Some (put_phase i
            (case read_config (pw_file w) of
               Inl _ \<Rightarrow> Rejected
             | Inr cfg \<Rightarrow> AwaitRename p (config_document (put_all (js_spread cfg) patch))) w)
      | AwaitRename p doc \<Rightarrow>
          Some (if free then (put_phase i (Returned (map_option port_num p)) w)\<lparr>pw_file := ConfigDoc doc\<rparr>
                else put_phase i Rejected w)
      | Returned _ \<Rightarrow> None
      | Rejected \<Rightarrow> None)"

inductive port_step :: "port_world \<Rightarrow> port_world \<Rightarrow> bool" where
  call_made: "cl_phase c = AwaitLock \<Longrightarrow> port_step w (w\<lparr>pw_calls := pw_calls w @ [c]\<rparr>)"
| call_resumes: "resume free i w = Some w' \<Longrightarrow> port_step w w'"

definition port_start :: "port_world \<Rightarrow> bool" where
  "port_start w \<longleftrightarrow> pw_calls w = []"

section \<open>Assignments\<close>

definition port_of :: "js \<Rightarrow> string \<Rightarrow> string \<Rightarrow> jsnum option" where
  "port_of cfg key ident = map_of (extract_daemon_ports key cfg) ident"

definition finite_ports :: "js \<Rightarrow> bool" where
  "finite_ports m = list_all (\<lambda>(_, n). num_is_finite n) (numeric_ports m)"

text \<open>A configuration as the registry itself writes it.\<close>

definition registry_ok :: "js \<Rightarrow> bool" where
  "registry_ok cfg \<longleftrightarrow>
     distinct (js_keys cfg) \<and> (js_get cfg ''portRegistry'' = JUndef \<or> js_is_record (js_get cfg ''portRegistry'')) \<and>
     list_all (\<lambda>(_, m). finite_ports m) (js_entries (js_get cfg ''portRegistry'')) \<and>
     finite_ports (js_get cfg ''inboxPorts'')"

definition unique_ports :: "js \<Rightarrow> bool" where
  "unique_ports cfg \<longleftrightarrow>
     (\<forall>k i k' i' p. port_of cfg k i = Some p \<longrightarrow> port_of cfg k' i' = Some p \<longrightarrow> k = k' \<and> i = i')"

lemma numeric_ports_value: "list_all (\<lambda>(_, n). num_is_finite n) ports \<Longrightarrow> numeric_ports (ports_value ports) = ports"
  by (induction ports) (auto simp: numeric_ports_def ports_value_def)

lemma record_get_mem: "js_get v k = m \<Longrightarrow> js_is_record m \<Longrightarrow> (k, m) \<in> set (js_entries v)"
  by (cases v) (auto split: option.splits dest: map_of_SomeD)

lemma extracted_finite:
  assumes "registry_ok cfg"
  shows "list_all (\<lambda>(_, n). num_is_finite n) (extract_daemon_ports key cfg)"
  using assms record_get_mem [OF refl]
  by (fastforce simp: registry_ok_def extract_daemon_ports_def Let_def finite_ports_def list_all_iff)

lemma other_claimed_holders:
  assumes "port_of cfg k i = Some p" and "k \<noteq> key"
  shows "p \<in> set (extract_other_claimed_ports key cfg)"
proof -
  let ?m = "js_get (js_get cfg ''portRegistry'') k"
  have held: "map_of (numeric_ports m) i = Some p \<Longrightarrow> p \<in> set (map snd (numeric_ports m))" for m
    by (force dest: map_of_SomeD)
  consider "js_is_record ?m" "map_of (numeric_ports ?m) i = Some p"
    | "k = ''inbox''" "map_of (numeric_ports (js_get cfg ''inboxPorts'')) i = Some p"
    using assms(1) by (auto simp: port_of_def extract_daemon_ports_def Let_def split: if_splits)
  then show ?thesis
  proof cases
    case 1
    have "(k, ?m) \<in> set (js_entries (js_get cfg ''portRegistry''))" using 1(1) by (rule record_get_mem [OF refl])
    with 1 assms(2) held [OF 1(2)] show ?thesis
      unfolding extract_other_claimed_ports_def by (force simp del: js_get.simps)
  next
    case 2
    with held [OF 2(2)] assms(2) show ?thesis by (auto simp: extract_other_claimed_ports_def)
  qed
qed

lemma after_write:
  assumes ok: "registry_ok cfg" and read: "read_config f = Inr cfg"
    and w: "write_daemon_ports io key ports f = Inr f'"
    and fin: "list_all (\<lambda>(_, n). num_is_finite n) ports"
  shows "\<exists>cfg'. read_config f' = Inr cfg' \<and>
    (\<forall>k. extract_daemon_ports k cfg' = (if k = key then ports else extract_daemon_ports k cfg))"
proof -
  let ?patch = "daemon_updates key ports cfg"
  let ?old = "js_get cfg ''portRegistry''"
  have w': "write_config io ?patch f = Inr f'" using w read by (simp add: write_daemon_ports_def)
  have keys: "distinct (js_keys cfg)" using ok by (simp add: registry_ok_def)
  obtain c where c: "read_config f' = Inr c"
    and reg: "js_get c ''portRegistry'' = (case map_of (rev ?patch) ''portRegistry'' of None \<Rightarrow> ?old | Some v \<Rightarrow> v)"
    using read_written [OF read keys w', of "''portRegistry''"] by auto
  have leg: "js_get c ''inboxPorts'' = (case map_of (rev ?patch) ''inboxPorts'' of None \<Rightarrow> js_get cfg ''inboxPorts'' | Some v \<Rightarrow> v)"
    using read_written [OF read keys w', of "''inboxPorts''"] c by auto
  have entries: "js_spread ?old = js_entries ?old" if "js_is_record ?old"
    using that by (cases ?old) auto
  have reg': "js_is_record (js_get c ''portRegistry'')"
    "js_get (js_get c ''portRegistry'') k = (if k = key then ports_value ports else js_get ?old k)" for k
    using ok by (auto simp: reg daemon_updates_def Let_def registry_ok_def update_conv' entries js_get.simps split: option.splits)
       (cases ?old; simp)+
  have leg': "js_get c ''inboxPorts'' = js_get cfg ''inboxPorts''" if "key \<noteq> ''inbox''"
    using that by (simp add: leg daemon_updates_def Let_def)
  have "extract_daemon_ports k c = (if k = key then ports else extract_daemon_ports k cfg)" for k
  proof (cases "k = key")
    case True
    then show ?thesis
      using fin by (simp add: extract_daemon_ports_def reg' Let_def numeric_ports_value) (simp add: ports_value_def)
  next
    case False
    then have "js_get c ''inboxPorts'' = js_get cfg ''inboxPorts'' \<or> k \<noteq> ''inbox''" using leg' by blast
    moreover have "js_is_record (js_get ?old k) \<Longrightarrow> js_is_record ?old" by (cases ?old) auto
    ultimately show ?thesis
      using False by (auto simp: extract_daemon_ports_def reg' Let_def)
  qed
  with c show ?thesis by blast
qed

section \<open>One call at a time\<close>

lemma first_free_Some:
  assumes "first_free avail claimed lo hi = Some p"
  shows "lo \<le> p \<and> p \<le> hi \<and> port_num p \<notin> set claimed \<and> avail p"
  using assms unfolding first_free_def
  by (metis (mono_tags, lifting) atLeastLessThan_iff find_Some_iff less_Suc_eq_le nth_mem set_upt)

lemma first_free_None:
  "first_free avail claimed lo hi = None \<longleftrightarrow> (\<forall>p. lo \<le> p \<and> p \<le> hi \<longrightarrow> port_num p \<in> set claimed \<or> \<not> avail p)"
  by (auto simp: first_free_def find_None_iff)

lemma allocated:
  assumes read: "read_config f = Inr cfg" and ok: "registry_ok cfg"
    and run: "allocate_port io avail key lo hi ident f = Inr (p, f')"
  obtains (cached) "port_of cfg key ident = Some p" and "f' = f"
    | (fresh) q cfg' where "p = port_num q" and "lo \<le> q" and "q \<le> hi" and "avail q" and "port_of cfg key ident = None"
      and "\<And>k i. port_of cfg k i \<noteq> Some p" and "read_config f' = Inr cfg'"
      and "\<And>k i. port_of cfg' k i = (if k = key \<and> i = ident then Some p else port_of cfg k i)"
proof (cases "port_of cfg key ident")
  case (Some p')
  with run read cached show thesis by (simp add: allocate_port_def port_of_def Let_def)
next
  case None
  let ?ports = "extract_daemon_ports key cfg"
  obtain q where q: "first_free avail (all_claimed key cfg ?ports) lo hi = Some q" and p: "p = port_num q"
    and w: "write_daemon_ports io key (AList.update ident (port_num q) ?ports) f = Inr f'"
  proof -
    have "scan_and_claim io avail key ident ?ports (all_claimed key cfg ?ports) lo hi f = Inr (p, f')"
      using run read None by (simp add: allocate_port_def port_of_def Let_def)
    then show thesis
      by (auto simp: scan_and_claim_def intro!: that split: option.splits elim: config_r.elims)
  qed
  note free = first_free_Some [OF q]
  have "list_all (\<lambda>(_, n). num_is_finite n) (AList.update ident (port_num q) ?ports)"
  proof -
    have "set (AList.update ident (port_num q) ps) \<subseteq> insert (ident, port_num q) (set ps)" for ps
      by (induction ps) auto
    from this [of ?ports] and extracted_finite [OF ok, of key] show ?thesis by (fastforce simp: list_all_iff)
  qed
  then obtain cfg' where c: "read_config f' = Inr cfg'"
    and e: "\<And>k. extract_daemon_ports k cfg' = (if k = key then AList.update ident (port_num q) ?ports else extract_daemon_ports k cfg)"
    using after_write [OF ok read w] by blast
  have own: "port_of cfg key i \<noteq> Some p" for i
  proof
    assume "port_of cfg key i = Some p"
    then have "(i, p) \<in> set ?ports" unfolding port_of_def by (rule map_of_SomeD)
    then have "p \<in> snd ` set ?ports" by force
    with free p show False by (simp add: all_claimed_def)
  qed
  have other: "port_of cfg k i \<noteq> Some p" if "k \<noteq> key" for k i
  proof
    assume "port_of cfg k i = Some p"
    then have "p \<in> set (extract_other_claimed_ports key cfg)" using that by (rule other_claimed_holders)
    with free p show False by (simp add: all_claimed_def)
  qed
  show thesis
  proof (rule fresh [OF p _ _ _ None _ c])
    show "port_of cfg k i \<noteq> Some p" for k i using own other by (cases "k = key") simp_all
    show "port_of cfg' k i = (if k = key \<and> i = ident then Some p else port_of cfg k i)" for k i
      by (simp add: port_of_def e p update_conv')
  qed (use free in auto)
qed

text \<open>C25. Run one at a time, allocations never share a port: if no two daemons hold the same port, then
  after an allocation none do, the caller holds the port it was given, a port it already held is given
  again unchanged, and every other assignment is kept.\<close>

theorem allocation_keeps_ports_unique:
  assumes "read_config f = Inr cfg" and "registry_ok cfg" and "unique_ports cfg"
    and "allocate_port io avail key lo hi ident f = Inr (p, f')"
  shows "\<exists>cfg'. read_config f' = Inr cfg' \<and> unique_ports cfg' \<and>
    (\<forall>k i. port_of cfg' k i = (if k = key \<and> i = ident then Some p else port_of cfg k i)) \<and>
    (port_of cfg key ident = None \<or> port_of cfg key ident = Some p)"
  using assms(1,2,4)
proof (cases rule: allocated)
  case cached
  with assms(1,3) show ?thesis by auto
next
  case (fresh q cfg')
  have "unique_ports cfg'"
    using assms(3) fresh(6) unfolding unique_ports_def fresh(8) by (auto split: if_splits)
  with fresh show ?thesis by blast
qed

lemma first_allocation: "is_ok (allocate_port None (\<lambda>_. True) ''d'' 1 2 ''a'' MissingFile)"
  by code_simp

theorem allocation_keeps_ports_unique_witness:
  "\<exists>p f' cfg'. allocate_port None (\<lambda>_. True) ''d'' 1 2 ''a'' MissingFile = Inr (p, f') \<and>
     read_config f' = Inr cfg' \<and> port_of cfg' ''d'' ''a'' = Some p"
proof -
  obtain p f' where run: "allocate_port None (\<lambda>_. True) ''d'' 1 2 ''a'' MissingFile = Inr (p, f')"
    using first_allocation by (metis is_ok.elims(2) surj_pair)
  have none: "port_of (JObj []) k i = None" for k i
    by (simp add: port_of_def extract_daemon_ports_def Let_def)
  have "read_config MissingFile = Inr (JObj [])" by (simp add: read_config_def)
  moreover have "registry_ok (JObj [])"
    by (simp add: registry_ok_def finite_ports_def numeric_ports_def)
  moreover have "unique_ports (JObj [])" by (simp add: unique_ports_def none)
  ultimately show ?thesis using allocation_keeps_ports_unique [OF _ _ _ run] run by auto
qed

text \<open>C35. An allocation succeeds whenever it can: with a readable configuration it returns a port exactly
  when the caller has one already, or some port of the range is neither held by any daemon nor
  refused by the system and the configuration can be written.  When it does not, the error says which:
  no port is left, or the write failed with the code of the system.\<close>

theorem allocation_succeeds_iff_port_free:
  assumes "read_config f = Inr cfg"
  shows "(is_ok (allocate_port io avail key lo hi ident f) \<longleftrightarrow>
      port_of cfg key ident \<noteq> None \<or>
      io = None \<and> (\<exists>p. lo \<le> p \<and> p \<le> hi \<and> avail p \<and> port_num p \<notin> set (all_claimed key cfg (extract_daemon_ports key cfg)))) \<and>
    (allocate_port io avail key lo hi ident f = Inl NoAvailablePort \<longleftrightarrow>
      port_of cfg key ident = None \<and>
      \<not> (\<exists>p. lo \<le> p \<and> p \<le> hi \<and> avail p \<and> port_num p \<notin> set (all_claimed key cfg (extract_daemon_ports key cfg))))"
proof (cases "port_of cfg key ident")
  case (Some p)
  with assms show ?thesis by (simp add: allocate_port_def port_of_def Let_def)
next
  case None
  let ?ports = "extract_daemon_ports key cfg"
  have run: "allocate_port io avail key lo hi ident f = scan_and_claim io avail key ident ?ports (all_claimed key cfg ?ports) lo hi f"
    using None assms by (simp add: allocate_port_def port_of_def Let_def)
  have free: "(\<exists>p. lo \<le> p \<and> p \<le> hi \<and> avail p \<and> port_num p \<notin> set claimed) \<longleftrightarrow> first_free avail claimed lo hi \<noteq> None" for claimed
    by (auto simp: first_free_None)
  show ?thesis
    using None assms unfolding run free
    by (cases "first_free avail (all_claimed key cfg ?ports) lo hi"; cases io)
      (simp_all add: scan_and_claim_def write_daemon_ports_def write_config_def)
qed

theorem allocation_succeeds_iff_port_free_witness:
  "\<not> is_ok (allocate_port None (\<lambda>p. p = 3) ''d'' 1 2 ''a'' MissingFile) \<and>
   \<not> is_ok (allocate_port (Some ''ENOSPC'') (\<lambda>_. True) ''d'' 1 2 ''a'' MissingFile) \<and>
   is_ok (allocate_port None (\<lambda>p. p = 2) ''d'' 1 2 ''a'' MissingFile)"
proof -
  have "read_config MissingFile = Inr (JObj [])" by (simp add: read_config_def)
  note iff = allocation_succeeds_iff_port_free [OF this]
  have none: "port_of (JObj []) k i = None" "all_claimed k (JObj []) (extract_daemon_ports k (JObj [])) = []" for k i
    by (simp_all add: port_of_def all_claimed_def extract_other_claimed_ports_def extract_daemon_ports_def numeric_ports_def Let_def)
  have "\<not> is_ok (allocate_port None (\<lambda>p. p = 3) ''d'' 1 2 ''a'' MissingFile)"
    using iff [of None "\<lambda>p. p = 3" "''d''" 1 2 "''a''"] by (simp add: none)
  moreover have "\<not> is_ok (allocate_port (Some ''ENOSPC'') (\<lambda>_. True) ''d'' 1 2 ''a'' MissingFile)"
    using iff [of "Some ''ENOSPC''" "\<lambda>_. True" "''d''" 1 2 "''a''"] by (simp add: none)
  moreover have "is_ok (allocate_port None (\<lambda>p. p = 2) ''d'' 1 2 ''a'' MissingFile)"
    using iff [of None "\<lambda>p. p = 2" "''d''" 1 2 "''a''"] by (simp add: none)
  ultimately show ?thesis by simp
qed

section \<open>Two calls at once\<close>

fun resumes :: "(bool \<times> nat) list \<Rightarrow> port_world \<Rightarrow> port_world option" where
  "resumes [] w = Some w"
| "resumes ((free, i) # xs) w = (case resume free i w of None \<Rightarrow> None | Some w' \<Rightarrow> resumes xs w')"

lemma reach_resumes:
  "reach S port_step w \<Longrightarrow> resumes xs w = Some w' \<Longrightarrow> reach S port_step w'"
proof (induction xs arbitrary: w)
  case (Cons x xs)
  obtain free i where x: "x = (free, i)" by force
  with Cons.prems(2) obtain v where v: "resume free i w = Some v" "resumes xs v = Some w'"
    by (auto split: option.splits)
  have "reach S port_step v" using Cons.prems(1) call_resumes [OF v(1)] by (rule reach_move)
  from Cons.IH [OF this v(2)] show ?case .
qed simp

definition allocating :: "string \<Rightarrow> call" where
  "allocating ident = \<lparr>cl_kind = Allocate, cl_key = ''d'', cl_id = ident, cl_lo = 1, cl_hi = 2, cl_phase = AwaitLock\<rparr>"

definition race_start :: port_world where
  "race_start = \<lparr>pw_file = MissingFile, pw_calls = [allocating ''a'', allocating ''b'']\<rparr>"

text \<open>The first call has started its scan when the second reads the configuration.\<close>

definition race_trace :: "(bool \<times> nat) list" where
  "race_trace = map (\<lambda>i. (True, i)) [0, 0, 1, 1, 0, 1, 0, 0, 0, 1, 1, 1]"

definition race_end :: "port_world \<Rightarrow> bool" where
  "race_end w \<longleftrightarrow>
     map cl_phase (pw_calls w) = [Returned (Some (port_num 1)), Returned (Some (port_num 1))] \<and>
     (case read_config (pw_file w) of
        Inl _ \<Rightarrow> False
      | Inr cfg \<Rightarrow> port_of cfg ''d'' ''a'' = None \<and> port_of cfg ''d'' ''b'' = Some (port_num 1))"

lemma race_runs: "(case resumes race_trace race_start of None \<Rightarrow> False | Some w \<Rightarrow> race_end w)"
  by code_simp

text \<open>C38. The allocation lock does not serialise allocations: it is released when the scan starts, not
  when it ends.  Two concurrent allocations for different daemons both return the same port, and the
  record of the first is overwritten.\<close>

theorem concurrent_allocations_share_a_port:
  "\<exists>w. reach port_start port_step w \<and> race_end w"
proof -
  have "reach port_start port_step \<lparr>pw_file = MissingFile, pw_calls = []\<rparr>"
    by (rule reach_start) (simp add: port_start_def)
  then have "reach port_start port_step \<lparr>pw_file = MissingFile, pw_calls = [allocating ''a'']\<rparr>"
    using reach_move call_made [of "allocating ''a''" "\<lparr>pw_file = MissingFile, pw_calls = []\<rparr>"]
    by (fastforce simp: allocating_def)
  then have start: "reach port_start port_step race_start"
    using reach_move call_made [of "allocating ''b''" "\<lparr>pw_file = MissingFile, pw_calls = [allocating ''a'']\<rparr>"]
    by (fastforce simp: allocating_def race_start_def)
  obtain w where "resumes race_trace race_start = Some w" and "race_end w"
    using race_runs by (auto split: option.splits)
  with reach_resumes [OF start] show ?thesis by blast
qed

end
