(* ===== verification/SessionRegistry.thy ===== *)
theory SessionRegistry
  imports MemoryConflict
begin

text \<open>
  The registry of native sessions of the remote-local connector,
  \<^verbatim>\<open>lib/daemon/remote-local-native-session-registry.mjs\<close>.  Its variables are the record \<open>registry\<close>; every
  method is a function that returns its outcome, an error for each throw, together with the registry
  it leaves behind.  An inventory has one await, so it is a queue of calls of which the first may be
  observing.  Parameters: \<open>nt\<close> the text of a number, \<open>draw\<close> the random texts, and what the protected
  observer answers.  A handle that is an array passes the test, which converts it to text, but no
  other call can name that object, so only texts enter the maps of handles.
\<close>

section \<open>Fences and observations\<close>

definition identifier_text :: "string \<Rightarrow> bool" where
  "identifier_text s \<longleftrightarrow>
     s \<noteq> [] \<and> length s \<le> 128 \<and> is_alnum_char (hd s) \<and>
     list_all (\<lambda>c. is_alnum_char c \<or> c \<in> set ''._:-'') (tl s)"

definition handle_text :: "string \<Rightarrow> bool" where
  "handle_text s \<longleftrightarrow>
     starts_with s ''rsh_'' \<and> 20 \<le> length s \<and> length s \<le> 132 \<and>
     list_all (\<lambda>c. is_alnum_char c \<or> c \<in> set ''_-'') (drop 4 s)"

text \<open>\<^verbatim>\<open>REGEXP.test(value)\<close> converts its argument; the text of a number has no such prefix.\<close>

definition identifier_test :: "(jsnum \<Rightarrow> string) \<Rightarrow> js \<Rightarrow> bool" where
  "identifier_test nt v = identifier_text (js_to_string nt v)"

definition handle_test :: "(jsnum \<Rightarrow> string) \<Rightarrow> js \<Rightarrow> bool" where
  "handle_test nt v = ((js_is_str v \<or> js_is_arr v) \<and> handle_text (js_to_string nt v))"

record fence =
  fn_brain :: js
  fn_device :: js
  fn_revision :: js

definition fence_of :: "js \<Rightarrow> fence" where
  "fence_of v = \<lparr>fn_brain = js_get v ''brainId'', fn_device = js_get v ''deviceId'', fn_revision = js_get v ''authorityRevision''\<rparr>"

definition valid_fence :: "(jsnum \<Rightarrow> string) \<Rightarrow> js \<Rightarrow> bool" where
  "valid_fence nt v \<longleftrightarrow>
     js_is_record v \<and> identifier_test nt (js_get v ''brainId'') \<and> identifier_test nt (js_get v ''deviceId'') \<and>
     identifier_test nt (js_get v ''authorityRevision'')"

definition sorted_keys :: "js \<Rightarrow> string" where
  "sorted_keys v = join_with '','' (sort (js_keys v))"

definition valid_observation :: "js \<Rightarrow> bool" where
  "valid_observation v \<longleftrightarrow>
     js_is_record v \<and> sorted_keys v = ''activity,availability,nativeSessionId,runtimeClass'' \<and>
     (case js_get v ''nativeSessionId'' of JStr s \<Rightarrow> s \<noteq> [] \<and> utf8_byte_length (codes s) \<le> 1024 | _ \<Rightarrow> False) \<and>
     field_in [''codex_cli'', ''claude_code'', ''gemini_cli'', ''openclaw''] (js_get v ''runtimeClass'') \<and>
     field_in [''online'', ''offline'', ''draining''] (js_get v ''availability'') \<and>
     field_in [''active'', ''idle'', ''unknown''] (js_get v ''activity'')"

section \<open>The registry\<close>

definition max_sessions :: nat where
  "max_sessions = 32"

text \<open>An alias is kept as its number.  A session without a handle has the handle null.\<close>

record session_entry =
  se_reference :: string
  se_alias :: nat
  se_handle :: js
  se_runtime :: js
  se_availability :: js
  se_activity :: js

record registry =
  sr_fence :: "fence option"
  sr_generation :: nat
  sr_free :: "nat list"
  sr_native :: "(string \<times> session_entry) list"
  sr_handles :: "(string \<times> string \<times> fence) list"
  sr_consumed :: "string list"

datatype registry_error =
  IncompleteFence | StaleInventory | InvalidInventory | DuplicateNativeIds | AliasesExhausted | NoFreshReference
  | InvalidBindings | InvalidBinding | UnadvertisedSession | AlreadyBound

definition all_aliases :: "nat list" where
  "all_aliases = [1..<Suc max_sessions]"

definition new_registry :: registry where
  "new_registry = \<lparr>sr_fence = None, sr_generation = 0, sr_free = all_aliases, sr_native = [], sr_handles = [], sr_consumed = []\<rparr>"

definition clear_live_mappings :: "registry \<Rightarrow> registry" where
  "clear_live_mappings r =
     r\<lparr>sr_generation := sr_generation r + 1, sr_native := [], sr_handles := [], sr_free := all_aliases\<rparr>"

text \<open>The end of a session: its entry, its handle and its alias.\<close>

definition forget_handle :: "js \<Rightarrow> (string \<times> 'a) list \<Rightarrow> (string \<times> 'a) list" where
  "forget_handle v hs = (case v of JStr h \<Rightarrow> AList.delete h hs | _ \<Rightarrow> hs)"

definition release_session :: "string \<Rightarrow> registry \<Rightarrow> registry" where
  "release_session n r =
     (case map_of (sr_native r) n of
        None \<Rightarrow> r
      | Some e \<Rightarrow> r\<lparr>sr_native := AList.delete n (sr_native r), sr_handles := forget_handle (se_handle e) (sr_handles r),
                    sr_free := sort (sr_free r @ [se_alias e])\<rparr>)"

text \<open>The fields of a fence are compared as values.  (The patterns also admit arrays whose text matches; two
  equal arrays are different objects for the \<^verbatim>\<open>===\<close> of the code, which would then clear the mappings.)\<close>

definition assert_fence :: "(jsnum \<Rightarrow> string) \<Rightarrow> js \<Rightarrow> registry \<Rightarrow> (registry_error + unit) \<times> registry" where
  "assert_fence nt v r =
     (if \<not> valid_fence nt v then (Inl IncompleteFence, r)
      else let r1 = (if sr_fence r = None \<or> sr_fence r = Some (fence_of v) then r else clear_live_mappings r)
           in (Inr (), r1\<lparr>sr_fence := Some (fence_of v)\<rparr>))"

section \<open>Inventory\<close>

text \<open>The random text of the attempts from \<open>k\<close> on, and how many were used.\<close>

definition new_connector_reference :: "(nat \<Rightarrow> string) \<Rightarrow> nat \<Rightarrow> registry \<Rightarrow> (string \<times> nat) option" where
  "new_connector_reference draw k r =
     map_option (\<lambda>i. (''sar_'' @ draw i, i + 1))
       (find (\<lambda>i. list_all (\<lambda>(_, e). se_reference e \<noteq> ''sar_'' @ draw i) (sr_native r)) [k..<k + 8])"

definition native_id :: "js \<Rightarrow> string" where
  "native_id s = (case js_get s ''nativeSessionId'' of JStr n \<Rightarrow> n | _ \<Rightarrow> [])"

definition observe :: "js \<Rightarrow> session_entry \<Rightarrow> session_entry" where
  "observe s e =
     e\<lparr>se_runtime := js_get s ''runtimeClass'', se_availability := js_get s ''availability'', se_activity := js_get s ''activity''\<rparr>"

fun drop_gone :: "string list \<Rightarrow> string list \<Rightarrow> registry \<Rightarrow> registry" where
  "drop_gone [] present r = r"
| "drop_gone (n # ns) present r = drop_gone ns present (if n \<in> set present then r else release_session n r)"

fun admit_sessions :: "(nat \<Rightarrow> string) \<Rightarrow> nat \<Rightarrow> js list \<Rightarrow> registry \<Rightarrow> (registry_error + unit) \<times> registry" where
  "admit_sessions draw k [] r = (Inr (), r)"
| "admit_sessions draw k (s # ss) r =
     (case map_of (sr_native r) (native_id s) of
        Some e \<Rightarrow> admit_sessions draw k ss (r\<lparr>sr_native := AList.update (native_id s) (observe s e) (sr_native r)\<rparr>)
      | None \<Rightarrow>
          (case sr_free r of
             [] \<Rightarrow> (Inl AliasesExhausted, r)
           | a # free \<Rightarrow>
               let r1 = r\<lparr>sr_free := free\<rparr> in
               (case new_connector_reference draw k r1 of
                  None \<Rightarrow> (Inl NoFreshReference, r1)
                | Some (ref, k') \<Rightarrow>
                    let e = \<lparr>se_reference = ref, se_alias = a, se_handle = JNull, se_runtime = JUndef,
                             se_availability = JUndef, se_activity = JUndef\<rparr>
                    in admit_sessions draw k' ss
                         (r1\<lparr>sr_native := AList.update (native_id s) (observe s e) (sr_native r1)\<rparr>))))"

definition advertised :: "registry \<Rightarrow> js \<Rightarrow> js" where
  "advertised r s =
     (case map_of (sr_native r) (native_id s) of
        None \<Rightarrow> JUndef
      | Some e \<Rightarrow> JObj [(''connectorReference'', JStr (se_reference e)), (''alias'', JStr (''session-'' @ nat_to_string (se_alias e))),
                       (''runtimeClass'', se_runtime e), (''availability'', se_availability e), (''activity'', se_activity e)])"

text \<open>The part of an inventory after its await: \<open>f\<close> and \<open>g\<close> are the fence and the generation before.\<close>

definition inventory_observed ::
    "(nat \<Rightarrow> string) \<Rightarrow> fence \<Rightarrow> nat \<Rightarrow> js \<Rightarrow> registry \<Rightarrow> (registry_error + js list) \<times> registry" where
  "inventory_observed draw f g observed r =
     (let ss = js_elems observed; ids = map native_id ss in
      if sr_generation r \<noteq> g \<or> sr_fence r \<noteq> Some f then (Inl StaleInventory, r)
      else if \<not> js_is_arr observed \<or> length ss > max_sessions \<or> \<not> list_all valid_observation ss then (Inl InvalidInventory, r)
      else if \<not> distinct ids then (Inl DuplicateNativeIds, r)
      else case admit_sessions draw 0 ss (drop_gone (map fst (sr_native r)) ids r) of
             (Inl e, r') \<Rightarrow> (Inl e, r')
           | (Inr _, r') \<Rightarrow> (Inr (map (advertised r') ss), r'))"

section \<open>Handles\<close>

definition known_handle :: "js \<Rightarrow> string list \<Rightarrow> bool" where
  "known_handle v hs = (case v of JStr h \<Rightarrow> h \<in> set hs | _ \<Rightarrow> False)"

definition handle_key :: "js \<Rightarrow> string list" where
  "handle_key v = (case v of JStr h \<Rightarrow> [h] | _ \<Rightarrow> [])"

definition reference_of :: "js \<Rightarrow> string" where
  "reference_of b = (case js_get b ''connectorReference'' of JStr s \<Rightarrow> s | _ \<Rightarrow> [])"

text \<open>The references and the handles seen in the request so far.\<close>

fun check_bindings ::
    "(jsnum \<Rightarrow> string) \<Rightarrow> string list \<Rightarrow> string list \<Rightarrow> string list \<Rightarrow> js list \<Rightarrow> registry_error + string list" where
  "check_bindings nt consumed refs hs [] = Inr refs"
| "check_bindings nt consumed refs hs (b # bs) =
     (let h = js_get b ''handle'' in
      throw_if (\<not> js_is_record b \<or> sorted_keys b \<noteq> ''connectorReference,handle'' \<or> \<not> js_is_str (js_get b ''connectorReference'') \<or>
                \<not> handle_test nt h \<or> reference_of b \<in> set refs \<or> known_handle h hs \<or> known_handle h consumed)
        InvalidBinding (check_bindings nt consumed (reference_of b # refs) (handle_key h @ hs) bs))"

definition by_reference :: "registry \<Rightarrow> (string \<times> string) list" where
  "by_reference r = rev (map (\<lambda>(n, e). (se_reference e, n)) (sr_native r))"

definition bind_session :: "string \<Rightarrow> js \<Rightarrow> registry \<Rightarrow> registry" where
  "bind_session n h r =
     r\<lparr>sr_native := map (\<lambda>(m, e). (m, if m = n then e\<lparr>se_handle := h\<rparr> else e)) (sr_native r),
       sr_handles := (case (h, sr_fence r) of (JStr s, Some f) \<Rightarrow> AList.update s (n, f) (sr_handles r) | _ \<Rightarrow> sr_handles r),
       sr_consumed := handle_key h @ sr_consumed r\<rparr>"

fun bind_all :: "(string \<times> string) list \<Rightarrow> js list \<Rightarrow> registry \<Rightarrow> (registry_error + unit) \<times> registry" where
  "bind_all refs [] r = (Inr (), r)"
| "bind_all refs (b # bs) r =
     (case map_of refs (reference_of b) of
        None \<Rightarrow> (Inl UnadvertisedSession, r)
      | Some n \<Rightarrow>
          (case map_of (sr_native r) n of
             None \<Rightarrow> (Inl UnadvertisedSession, r)
           | Some e \<Rightarrow> if truthy (se_handle e) then (Inl AlreadyBound, r)
                       else bind_all refs bs (bind_session n (js_get b ''handle'') r)))"

definition bind_checked :: "(jsnum \<Rightarrow> string) \<Rightarrow> js \<Rightarrow> registry \<Rightarrow> (registry_error + unit) \<times> registry" where
  "bind_checked nt bindings r =
     (if \<not> js_is_arr bindings \<or> length (js_elems bindings) > max_sessions then (Inl InvalidBindings, r)
      else case check_bindings nt (sr_consumed r) [] [] (js_elems bindings) of
             Inl e \<Rightarrow> (Inl e, r)
           | Inr refs \<Rightarrow>
               if \<not> list_all (\<lambda>ref. map_of (by_reference r) ref \<noteq> None) refs then (Inl UnadvertisedSession, r)
               else bind_all (by_reference r) (js_elems bindings) r)"

definition after_fence ::
    "(jsnum \<Rightarrow> string) \<Rightarrow> js \<Rightarrow> (registry \<Rightarrow> (registry_error + 'a) \<times> registry) \<Rightarrow> registry \<Rightarrow> (registry_error + 'a) \<times> registry" where
  "after_fence nt v k r = (case assert_fence nt v r of (Inl e, r') \<Rightarrow> (Inl e, r') | (Inr _, r') \<Rightarrow> k r')"

definition bind_handles :: "(jsnum \<Rightarrow> string) \<Rightarrow> js \<Rightarrow> js \<Rightarrow> registry \<Rightarrow> (registry_error + unit) \<times> registry" where
  "bind_handles nt v bindings = after_fence nt v (bind_checked nt bindings)"

definition handle_target :: "registry \<Rightarrow> js \<Rightarrow> string option" where
  "handle_target r h =
     (case h of
        JStr s \<Rightarrow> (case map_of (sr_handles r) s of
                    Some (n, f) \<Rightarrow> if sr_fence r = Some f then Some n else None
                  | None \<Rightarrow> None)
      | _ \<Rightarrow> None)"

definition native_session_id_for_handle ::
    "(jsnum \<Rightarrow> string) \<Rightarrow> js \<Rightarrow> js \<Rightarrow> registry \<Rightarrow> (registry_error + string option) \<times> registry" where
  "native_session_id_for_handle nt v h = after_fence nt v (\<lambda>r. (Inr (handle_target r h), r))"

definition refresh_bindings :: "(jsnum \<Rightarrow> string) \<Rightarrow> js \<Rightarrow> registry \<Rightarrow> (registry_error + unit) \<times> registry" where
  "refresh_bindings nt v = after_fence nt v (\<lambda>r.
     (Inr (), r\<lparr>sr_generation := sr_generation r + 1, sr_handles := [],
                sr_native := map (\<lambda>(n, e). (n, e\<lparr>se_handle := JNull\<rparr>)) (sr_native r)\<rparr>))"

definition end_native_session :: "string \<Rightarrow> registry \<Rightarrow> bool \<times> registry" where
  "end_native_session n r =
     (map_of (sr_native r) n \<noteq> None, release_session n (r\<lparr>sr_generation := sr_generation r + 1\<rparr>))"

section \<open>Calls\<close>

record registry_world =
  rw_registry :: registry
  rw_waiting :: "js list"
  rw_observing :: "(fence \<times> nat) option"

inductive registry_step :: "(jsnum \<Rightarrow> string) \<Rightarrow> registry_world \<Rightarrow> registry_world \<Rightarrow> bool" for nt where
  inventory_called: "registry_step nt w (w\<lparr>rw_waiting := rw_waiting w @ [v]\<rparr>)"
| inventory_begins: "rw_observing w = None \<Longrightarrow> rw_waiting w = v # vs \<Longrightarrow>
    assert_fence nt v (rw_registry w) = (res, r) \<Longrightarrow>
    registry_step nt w (w\<lparr>rw_registry := r, rw_waiting := vs,
      rw_observing := (if is_ok res then map_option (\<lambda>f. (f, sr_generation r)) (sr_fence r) else None)\<rparr>)"
| observer_fails: "registry_step nt w (w\<lparr>rw_observing := None\<rparr>)"
| inventory_ends: "rw_observing w = Some (f, g) \<Longrightarrow>
    inventory_observed draw f g observed (rw_registry w) = (res, r) \<Longrightarrow>
    registry_step nt w (w\<lparr>rw_registry := r, rw_observing := None\<rparr>)"
| binds: "bind_handles nt v bindings (rw_registry w) = (res, r) \<Longrightarrow> registry_step nt w (w\<lparr>rw_registry := r\<rparr>)"
| looks_up: "native_session_id_for_handle nt v h (rw_registry w) = (res', r) \<Longrightarrow> registry_step nt w (w\<lparr>rw_registry := r\<rparr>)"
| refreshes: "refresh_bindings nt v (rw_registry w) = (res, r) \<Longrightarrow> registry_step nt w (w\<lparr>rw_registry := r\<rparr>)"
| session_ends: "end_native_session n (rw_registry w) = (b, r) \<Longrightarrow> registry_step nt w (w\<lparr>rw_registry := r\<rparr>)"
| reconnects: "registry_step nt w (w\<lparr>rw_registry := clear_live_mappings (rw_registry w)\<rparr>)"
| fence_changed: "assert_fence nt v (rw_registry w) = (res, r) \<Longrightarrow> registry_step nt w (w\<lparr>rw_registry := r\<rparr>)"

definition registry_start :: "registry_world \<Rightarrow> bool" where
  "registry_start w \<longleftrightarrow> w = \<lparr>rw_registry = new_registry, rw_waiting = [], rw_observing = None\<rparr>"

section \<open>The invariant\<close>

definition alias_pool :: "registry \<Rightarrow> nat multiset" where
  "alias_pool r = image_mset (se_alias \<circ> snd) (mset (sr_native r)) + mset (sr_free r)"

definition registry_inv :: "registry \<Rightarrow> bool" where
  "registry_inv r \<longleftrightarrow>
     distinct (map fst (sr_native r)) \<and> alias_pool r \<subseteq># mset all_aliases \<and>
     (\<forall>h n f. map_of (sr_handles r) h = Some (n, f) \<longrightarrow>
        h \<noteq> [] \<and> h \<in> set (sr_consumed r) \<and> sr_fence r = Some f \<and>
        (\<exists>e. map_of (sr_native r) n = Some e \<and> se_handle e = JStr h))"

text \<open>A handle that has been consumed is never given another meaning.\<close>

definition evolves :: "registry \<Rightarrow> registry \<Rightarrow> bool" where
  "evolves r r' \<longleftrightarrow>
     set (sr_consumed r) \<subseteq> set (sr_consumed r') \<and>
     (\<forall>h \<in> set (sr_consumed r). \<forall>x. map_of (sr_handles r') h = Some x \<longrightarrow> map_of (sr_handles r) h = Some x)"

definition keeps :: "registry \<Rightarrow> registry \<Rightarrow> bool" where
  "keeps r r' \<longleftrightarrow> evolves r r' \<and> (registry_inv r \<longrightarrow> registry_inv r')"

lemma keeps_refl [simp]: "keeps r r"
  by (simp add: keeps_def evolves_def)

lemma keeps_trans: "keeps r r' \<Longrightarrow> keeps r' r'' \<Longrightarrow> keeps r r''"
  unfolding keeps_def evolves_def by (meson subset_iff)

lemma alias_delete:
  "map_of al k = Some e \<Longrightarrow> distinct (map fst al) \<Longrightarrow>
     image_mset (g \<circ> snd) (mset al) = add_mset (g e) (image_mset (g \<circ> snd) (mset (AList.delete k al)))"
proof (induction al)
  case (Cons a al)
  show ?case
  proof (cases "fst a = k")
    case True
    with Cons.prems have "AList.delete k al = al" by (auto intro: delete_id)
    with True Cons.prems show ?thesis by (cases a) simp
  next
    case False
    with Cons show ?thesis by (cases a) simp
  qed
qed simp

lemma distinct_submset:
  assumes "mset xs \<subseteq># mset ys" and "distinct ys"
  shows "distinct xs"
proof -
  obtain zs where "mset ys = mset (xs @ zs)"
    using assms(1) by (metis ex_mset mset_append subset_mset.add_diff_inverse)
  with assms(2) have "distinct (xs @ zs)" using mset_eq_imp_distinct_iff by metis
  then show ?thesis by simp
qed

lemma update_new: "map_of al k = None \<Longrightarrow> AList.update k e al = al @ [(k, e)]"
  by (induction al) (auto split: if_splits)

lemma alias_update_same:
  "map_of al k = Some d \<Longrightarrow> g e = g d \<Longrightarrow>
     image_mset (g \<circ> snd) (mset (AList.update k e al)) = image_mset (g \<circ> snd) (mset al)"
  by (induction al) (auto split: if_splits)

lemma alias_map:
  assumes "\<And>n e. g (u n e) = g e"
  shows "image_mset (g \<circ> snd) (mset (map (\<lambda>(n, e). (n, u n e)) al)) = image_mset (g \<circ> snd) (mset al)"
  using assms by (induction al) auto

lemma map_of_map_entries: "map_of (map (\<lambda>(n, e). (n, u n e)) al) k = map_option (u k) (map_of al k)"
  by (induction al) auto

section \<open>What each operation keeps\<close>

lemma keeps_clear [simp]: "keeps r (clear_live_mappings r)"
  by (simp add: keeps_def evolves_def registry_inv_def clear_live_mappings_def alias_pool_def)

lemma keeps_generation: "keeps r (r\<lparr>sr_generation := g\<rparr>)"
  by (simp add: keeps_def evolves_def registry_inv_def alias_pool_def del: map_of_eq_Some_iff)

lemma forget_handle_Some: "map_of (forget_handle v hs) h = Some x \<longleftrightarrow> map_of hs h = Some x \<and> v \<noteq> JStr h"
  by (cases v) (auto simp: forget_handle_def delete_conv')

lemma registry_inv_bound:
  "registry_inv r \<Longrightarrow> map_of (sr_handles r) h = Some (n, f) \<Longrightarrow>
     h \<noteq> [] \<and> h \<in> set (sr_consumed r) \<and> sr_fence r = Some f \<and> (\<exists>e. map_of (sr_native r) n = Some e \<and> se_handle e = JStr h)"
  unfolding registry_inv_def by blast

lemma registry_invI:
  assumes "distinct (map fst (sr_native r))" and "alias_pool r \<subseteq># mset all_aliases"
    and "\<And>h n f. map_of (sr_handles r) h = Some (n, f) \<Longrightarrow>
      h \<noteq> [] \<and> h \<in> set (sr_consumed r) \<and> sr_fence r = Some f \<and> (\<exists>e. map_of (sr_native r) n = Some e \<and> se_handle e = JStr h)"
  shows "registry_inv r"
  using assms unfolding registry_inv_def by blast

lemma keeps_release: "keeps r (release_session n r)"
proof (cases "map_of (sr_native r) n")
  case (Some e)
  let ?r = "release_session n r"
  have "registry_inv ?r" if inv: "registry_inv r"
  proof (rule registry_invI)
    have d: "distinct (map fst (sr_native r))" and a: "alias_pool r \<subseteq># mset all_aliases"
      using inv by (simp_all add: registry_inv_def)
    have "alias_pool ?r = alias_pool r"
      using alias_delete [OF Some d, of se_alias] by (simp add: alias_pool_def release_session_def Some)
    with a show "alias_pool ?r \<subseteq># mset all_aliases" by simp
    show "distinct (map fst (sr_native ?r))" using d by (simp add: release_session_def Some distinct_delete)
    fix h m f assume "map_of (sr_handles ?r) h = Some (m, f)"
    then have h: "map_of (sr_handles r) h = Some (m, f)" "se_handle e \<noteq> JStr h"
      by (simp_all add: release_session_def Some forget_handle_Some)
    from registry_inv_bound [OF inv h(1)] Some h(2) have "m \<noteq> n" by auto
    with registry_inv_bound [OF inv h(1)] show "h \<noteq> [] \<and> h \<in> set (sr_consumed ?r) \<and> sr_fence ?r = Some f \<and>
        (\<exists>e. map_of (sr_native ?r) m = Some e \<and> se_handle e = JStr h)"
      by (simp add: release_session_def Some delete_conv' del: map_of_eq_Some_iff)
  qed
  then show ?thesis by (simp add: keeps_def evolves_def release_session_def Some forget_handle_Some)
qed (simp add: release_session_def)

lemma keeps_assert_fence:
  assumes "assert_fence nt v r = (res, r')"
  shows "keeps r r'"
proof -
  have clear: "keeps r ((clear_live_mappings r)\<lparr>sr_fence := f\<rparr>)" for f
    by (simp add: keeps_def evolves_def registry_inv_def clear_live_mappings_def alias_pool_def)
  have same: "keeps r (r\<lparr>sr_fence := Some f\<rparr>)" if "sr_fence r = None \<or> sr_fence r = Some f" for f
  proof -
    have "registry_inv (r\<lparr>sr_fence := Some f\<rparr>)" if "registry_inv r"
    proof (rule registry_invI)
      show "distinct (map fst (sr_native (r\<lparr>sr_fence := Some f\<rparr>)))" and "alias_pool (r\<lparr>sr_fence := Some f\<rparr>) \<subseteq># mset all_aliases"
        using \<open>registry_inv r\<close> by (simp_all add: registry_inv_def alias_pool_def)
    qed (use \<open>sr_fence r = None \<or> sr_fence r = Some f\<close> registry_inv_bound [OF \<open>registry_inv r\<close>] in fastforce)
    then show ?thesis by (simp add: keeps_def evolves_def)
  qed
  show ?thesis
    using assms clear same by (auto simp: assert_fence_def Let_def split: if_splits)
qed

lemma keeps_drop_gone: "keeps r (drop_gone ns present r)"
  by (induction ns present r rule: drop_gone.induct) (auto intro: keeps_trans keeps_release)

text \<open>Changes of the entries that keep the handle of every session that has one.\<close>

lemma keeps_native:
  assumes "registry_inv r \<Longrightarrow> distinct (map fst al)"
    and "image_mset (se_alias \<circ> snd) (mset al) + mset free \<subseteq># alias_pool r"
    and "\<And>n e. map_of (sr_native r) n = Some e \<Longrightarrow> \<exists>e'. map_of al n = Some e' \<and> se_handle e' = se_handle e"
  shows "keeps r (r\<lparr>sr_free := free, sr_native := al\<rparr>)"
proof -
  have "registry_inv (r\<lparr>sr_free := free, sr_native := al\<rparr>)" if inv: "registry_inv r"
  proof (rule registry_invI)
    have "alias_pool (r\<lparr>sr_free := free, sr_native := al\<rparr>) = image_mset (se_alias \<circ> snd) (mset al) + mset free"
      by (simp add: alias_pool_def)
    with assms(2) inv show "alias_pool (r\<lparr>sr_free := free, sr_native := al\<rparr>) \<subseteq># mset all_aliases"
      by (auto simp: registry_inv_def intro: subset_mset.order_trans)
    fix h n f assume "map_of (sr_handles (r\<lparr>sr_free := free, sr_native := al\<rparr>)) h = Some (n, f)"
    with registry_inv_bound [OF inv, of h n f] assms(3)
    show "h \<noteq> [] \<and> h \<in> set (sr_consumed (r\<lparr>sr_free := free, sr_native := al\<rparr>)) \<and>
        sr_fence (r\<lparr>sr_free := free, sr_native := al\<rparr>) = Some f \<and>
        (\<exists>e. map_of (sr_native (r\<lparr>sr_free := free, sr_native := al\<rparr>)) n = Some e \<and> se_handle e = JStr h)"
      by (fastforce simp del: map_of_eq_Some_iff)
  qed (use assms(1) inv in simp)
  then show ?thesis by (simp add: keeps_def evolves_def)
qed

lemma keeps_observed:
  assumes "map_of (sr_native r) n = Some e"
  shows "keeps r (r\<lparr>sr_native := AList.update n (observe s e) (sr_native r)\<rparr>)"
proof -
  have "keeps r (r\<lparr>sr_free := sr_free r, sr_native := AList.update n (observe s e) (sr_native r)\<rparr>)"
  proof (rule keeps_native)
    have "image_mset (se_alias \<circ> snd) (mset (AList.update n (observe s e) (sr_native r))) =
        image_mset (se_alias \<circ> snd) (mset (sr_native r))"
      using assms by (rule alias_update_same) (simp add: observe_def)
    then show "image_mset (se_alias \<circ> snd) (mset (AList.update n (observe s e) (sr_native r))) + mset (sr_free r) \<subseteq># alias_pool r"
      by (simp add: alias_pool_def)
  qed (use assms in \<open>auto simp: registry_inv_def distinct_update update_conv' observe_def simp del: map_of_eq_Some_iff\<close>)
  then show ?thesis by simp
qed

lemma keeps_taken:
  assumes "map_of (sr_native r) n = None" and "sr_free r = se_alias e # free"
  shows "keeps r (r\<lparr>sr_free := free\<rparr>)" and "keeps r (r\<lparr>sr_free := free, sr_native := AList.update n e (sr_native r)\<rparr>)"
proof -
  have "keeps r (r\<lparr>sr_free := free, sr_native := sr_native r\<rparr>)"
    by (rule keeps_native) (auto simp: registry_inv_def alias_pool_def assms)
  then show "keeps r (r\<lparr>sr_free := free\<rparr>)" by simp
  show "keeps r (r\<lparr>sr_free := free, sr_native := AList.update n e (sr_native r)\<rparr>)"
    by (rule keeps_native)
      (use assms in \<open>auto simp: registry_inv_def alias_pool_def update_new map_of_eq_None_iff\<close>)
qed

lemma keeps_admit: "admit_sessions draw k ss r = (res, r') \<Longrightarrow> keeps r r'"
proof (induction draw k ss r arbitrary: res r' rule: admit_sessions.induct)
  case (2 draw k s ss r)
  show ?case
  proof (cases "map_of (sr_native r) (native_id s)")
    case (Some e)
    with "2.IH"(2) [OF Some] "2.prems" keeps_observed [OF Some] show ?thesis by (auto intro: keeps_trans)
  next
    case None
    show ?thesis
    proof (cases "sr_free r")
      case Nil
      with None "2.prems" show ?thesis by simp
    next
      case (Cons a free)
      let ?e = "\<lambda>ref. observe s \<lparr>se_reference = ref, se_alias = a, se_handle = JNull, se_runtime = JUndef,
        se_availability = JUndef, se_activity = JUndef\<rparr>"
      have taken: "sr_free r = se_alias (?e ref) # free" for ref using Cons by (simp add: observe_def)
      show ?thesis
      proof (cases "new_connector_reference draw k (r\<lparr>sr_free := free\<rparr>)")
        case no: None
        with "2.prems" None Cons keeps_taken(1) [OF None taken] show ?thesis by simp
      next
        case (Some x)
        obtain ref k' where x: "x = (ref, k')" by (cases x)
        have "keeps (r\<lparr>sr_free := free, sr_native := AList.update (native_id s) (?e ref) (sr_native r)\<rparr>) r'"
          using "2.IH"(1) [OF None Cons refl Some x [symmetric] refl] "2.prems" None Cons Some x by simp
        with keeps_taken(2) [OF None taken [of ref]] show ?thesis by (rule keeps_trans)
      qed
    qed
  qed
qed simp

lemma keeps_inventory: "inventory_observed draw f g observed r = (res, r') \<Longrightarrow> keeps r r'"
  unfolding inventory_observed_def Let_def
  by (auto split: if_splits prod.splits sum.splits dest!: keeps_admit intro: keeps_trans keeps_drop_gone)

lemma keeps_bind_session:
  assumes "map_of (sr_native r) n = Some e" and "\<not> truthy (se_handle e)"
    and new: "\<And>h. v = JStr h \<Longrightarrow> h \<noteq> [] \<and> h \<notin> set (sr_consumed r)"
  shows "keeps r (bind_session n v r)"
proof -
  let ?r = "bind_session n v r"
  have handles: "map_of (sr_handles ?r) h = Some (m, f) \<longleftrightarrow>
      (if v = JStr h \<and> sr_fence r \<noteq> None then m = n \<and> sr_fence r = Some f else map_of (sr_handles r) h = Some (m, f))" for h m f
    by (auto simp: bind_session_def update_conv' split: js.splits option.splits)
  have consumed: "sr_consumed ?r = handle_key v @ sr_consumed r" by (simp add: bind_session_def)
  have native: "map_of (sr_native ?r) m = map_option (\<lambda>d. if m = n then d\<lparr>se_handle := v\<rparr> else d) (map_of (sr_native r) m)" for m
    by (simp add: bind_session_def map_of_map_entries)
  have "registry_inv ?r" if inv: "registry_inv r"
  proof (rule registry_invI)
    have "map fst (sr_native ?r) = map fst (sr_native r)" by (auto simp: bind_session_def)
    then show "distinct (map fst (sr_native ?r))" using inv by (simp add: registry_inv_def)
    have "alias_pool ?r = alias_pool r"
      using alias_map [of se_alias "\<lambda>m d. if m = n then d\<lparr>se_handle := v\<rparr> else d" "sr_native r"]
      by (simp add: alias_pool_def bind_session_def)
    with inv show "alias_pool ?r \<subseteq># mset all_aliases" by (simp add: registry_inv_def)
    fix h m f assume h: "map_of (sr_handles ?r) h = Some (m, f)"
    show "h \<noteq> [] \<and> h \<in> set (sr_consumed ?r) \<and> sr_fence ?r = Some f \<and>
        (\<exists>d. map_of (sr_native ?r) m = Some d \<and> se_handle d = JStr h)"
    proof (cases "v = JStr h \<and> sr_fence r \<noteq> None")
      case True
      with h have "m = n" and "sr_fence r = Some f" using handles by metis+
      moreover have "map_of (sr_native ?r) n = Some (e\<lparr>se_handle := v\<rparr>)" using assms(1) by (simp add: native)
      moreover have "sr_fence ?r = sr_fence r" by (simp add: bind_session_def)
      moreover have "h \<in> set (sr_consumed ?r)" unfolding consumed using True by (simp add: handle_key_def)
      ultimately show ?thesis using True new by (simp del: map_of_eq_Some_iff)
    next
      case False
      with h have old: "map_of (sr_handles r) h = Some (m, f)" using handles by metis
      from registry_inv_bound [OF inv this] assms(1,2) have "m \<noteq> n" by auto
      with registry_inv_bound [OF inv old] show ?thesis
        by (simp add: consumed native del: map_of_eq_Some_iff) (simp add: bind_session_def)
    qed
  qed
  moreover have "evolves r ?r"
    unfolding evolves_def using handles new by (auto simp: consumed)
  ultimately show ?thesis by (simp add: keeps_def)
qed

definition handles_of :: "js list \<Rightarrow> string list" where
  "handles_of bs = concat (map (\<lambda>b. handle_key (js_get b ''handle'')) bs)"

lemma checked_handles:
  "check_bindings nt consumed refs hs bs = Inr x \<Longrightarrow>
     distinct (handles_of bs) \<and> (\<forall>h \<in> set (handles_of bs). h \<noteq> [] \<and> h \<notin> set hs \<and> h \<notin> set consumed)"
proof (induction bs arbitrary: refs hs)
  case (Cons b bs)
  let ?v = "js_get b ''handle''"
  have rest: "check_bindings nt consumed (reference_of b # refs) (handle_key ?v @ hs) bs = Inr x"
    and ok: "handle_test nt ?v" "\<not> known_handle ?v hs" "\<not> known_handle ?v consumed"
    using Cons.prems by (simp_all add: Let_def)
  have split: "handles_of (b # bs) = handle_key ?v @ handles_of bs" by (simp add: handles_of_def)
  show ?case
  proof (cases "\<exists>h. ?v = JStr h")
    case True
    then obtain h where h: "?v = JStr h" by blast
    with ok have "h \<noteq> []" "h \<notin> set hs" "h \<notin> set consumed"
      by (auto simp: handle_test_def handle_text_def known_handle_def)
    with Cons.IH [OF rest] h split show ?thesis by (auto simp: handle_key_def)
  next
    case False
    then have "handle_key ?v = []" by (cases ?v) (auto simp: handle_key_def)
    with Cons.IH [OF rest] split show ?thesis by simp
  qed
qed (simp add: handles_of_def)

lemma keeps_bind_all:
  "bind_all refs bs r = (res, r') \<Longrightarrow> distinct (handles_of bs) \<Longrightarrow>
     (\<And>h. h \<in> set (handles_of bs) \<Longrightarrow> h \<noteq> [] \<and> h \<notin> set (sr_consumed r)) \<Longrightarrow> keeps r r'"
proof (induction refs bs r arbitrary: res r' rule: bind_all.induct)
  case (2 refs b bs r)
  show ?case
  proof (cases "\<exists>n e. map_of refs (reference_of b) = Some n \<and> map_of (sr_native r) n = Some e \<and> \<not> truthy (se_handle e)")
    case True
    then obtain n e where n: "map_of refs (reference_of b) = Some n" and e: "map_of (sr_native r) n = Some e"
      and free: "\<not> truthy (se_handle e)"
      by blast
    let ?v = "js_get b ''handle''"
    have "keeps r (bind_session n ?v r)"
    proof (rule keeps_bind_session [OF e free])
      show "?v = JStr h \<Longrightarrow> h \<noteq> [] \<and> h \<notin> set (sr_consumed r)" for h
        using "2.prems"(3) [of h] by (simp add: handles_of_def handle_key_def)
    qed
    moreover have "keeps (bind_session n ?v r) r'"
      using "2.IH" [OF n e free] "2.prems" n e free
      by (auto simp: handles_of_def bind_session_def)
    ultimately show ?thesis by (rule keeps_trans)
  next
    case False
    with "2.prems"(1) show ?thesis by (auto split: option.splits if_splits)
  qed
qed simp

lemma keeps_bind: "bind_checked nt bindings r = (res, r') \<Longrightarrow> keeps r r'"
  unfolding bind_checked_def
  by (auto split: if_splits sum.splits dest!: checked_handles intro: keeps_bind_all)

lemma keeps_after_fence:
  "after_fence nt v k r = (res, r') \<Longrightarrow> (\<And>r x r'. k r = (x, r') \<Longrightarrow> keeps r r') \<Longrightarrow> keeps r r'"
  unfolding after_fence_def by (auto split: prod.splits sum.splits intro: keeps_trans keeps_assert_fence)

lemma keeps_unbound:
  "keeps r (r\<lparr>sr_generation := g, sr_handles := [], sr_native := map (\<lambda>(n, e). (n, e\<lparr>se_handle := JNull\<rparr>)) (sr_native r)\<rparr>)"
  using alias_map [of se_alias "\<lambda>_ e. e\<lparr>se_handle := JNull\<rparr>" "sr_native r"]
  by (auto simp: keeps_def evolves_def registry_inv_def alias_pool_def comp_def case_prod_unfold)

lemma registry_step_keeps: "registry_step nt w w' \<Longrightarrow> keeps (rw_registry w) (rw_registry w')"
proof (induction rule: registry_step.induct)
  case (binds v bindings w res r)
  then show ?case unfolding bind_handles_def by (auto intro: keeps_after_fence keeps_bind)
next
  case (looks_up v h w res r)
  then show ?case unfolding native_session_id_for_handle_def by (auto elim!: keeps_after_fence)
next
  case (refreshes v w res r)
  then show ?case unfolding refresh_bindings_def by (auto elim!: keeps_after_fence intro: keeps_unbound)
next
  case (session_ends n w b r)
  then show ?case by (auto simp: end_native_session_def intro: keeps_trans keeps_generation keeps_release)
qed (auto intro: keeps_assert_fence keeps_inventory)

lemma registry_steps_keep: "(registry_step nt)\<^sup>*\<^sup>* w w' \<Longrightarrow> keeps (rw_registry w) (rw_registry w')"
  by (induction rule: rtranclp_induct) (auto intro: keeps_trans registry_step_keeps)

interpretation registry: guarded_system registry_start "registry_step nt" "\<lambda>w. registry_inv (rw_registry w)" for nt
proof
  show "registry_inv (rw_registry w)" if "registry_start w" for w
    using that by (simp add: registry_start_def new_registry_def registry_inv_def alias_pool_def)
  show "registry_inv (rw_registry w')" if "registry_inv (rw_registry w)" and "registry_step nt w w'" for w w'
    using that registry_step_keeps by (auto simp: keeps_def)
qed

section \<open>Properties\<close>

lemma looked_up:
  assumes "native_session_id_for_handle nt v h r = (Inr (Some n), r')"
  shows "keeps r r'" and "sr_consumed r' = sr_consumed r" and "sr_fence r' = Some (fence_of v)"
    and "\<exists>s. h = JStr s \<and> map_of (sr_handles r') s = Some (n, fence_of v)"
proof -
  have run: "assert_fence nt v r = (Inr (), r')" "handle_target r' h = Some n"
    using assms by (auto simp: native_session_id_for_handle_def after_fence_def split: prod.splits sum.splits)
  then show "keeps r r'" by (auto intro: keeps_assert_fence)
  show "sr_consumed r' = sr_consumed r" and f: "sr_fence r' = Some (fence_of v)"
    using run(1) by (auto simp: assert_fence_def clear_live_mappings_def Let_def split: if_splits)
  show "\<exists>s. h = JStr s \<and> map_of (sr_handles r') s = Some (n, fence_of v)"
    using run(2) f by (auto simp: handle_target_def split: js.splits option.splits if_splits)
qed

text \<open>C9. A handle never changes its meaning.  If the server's handle addresses a native session now and
  addresses one again at any later time, after any inventories, bindings, refreshes, ended sessions,
  reconnects and changes of the fence in between, it is the same native session.\<close>

theorem handle_never_readdressed:
  assumes "reach registry_start (registry_step nt) w" and "(registry_step nt)\<^sup>*\<^sup>* w w'"
    and "native_session_id_for_handle nt v h (rw_registry w) = (Inr (Some n), r)"
    and "native_session_id_for_handle nt v' h (rw_registry w') = (Inr (Some n'), r')"
  shows "n' = n"
proof -
  note now = looked_up [OF assms(3)] and later = looked_up [OF assms(4)]
  obtain s where s: "h = JStr s" "map_of (sr_handles r) s = Some (n, fence_of v)" using now(4) by blast
  have "registry_inv r" using registry.reachable_inv [OF assms(1)] now(1) by (simp add: keeps_def)
  with s(2) now(2) have used: "s \<in> set (sr_consumed (rw_registry w))" by (metis registry_inv_bound)
  have "map_of (sr_handles r') s = Some (n', fence_of v')" using later(4) s(1) by auto
  moreover have "evolves (rw_registry w) r'"
    using keeps_trans [OF registry_steps_keep [OF assms(2)] later(1)] by (simp add: keeps_def)
  ultimately have "map_of (sr_handles (rw_registry w)) s = Some (n', fence_of v')"
    using used by (simp add: evolves_def)
  moreover have "map_of (sr_handles (rw_registry w)) s = Some (n, fence_of v)"
    using now(1) used s(2) by (simp add: keeps_def evolves_def)
  ultimately show ?thesis by simp
qed

text \<open>C31. The registry is always consistent: at most 32 sessions are live, their aliases are different
  numbers from 1 to 32, and a handle that is found names a live session that was bound to it under the
  fence of the call.\<close>

theorem registry_always_consistent:
  assumes "reach registry_start (registry_step nt) w"
  shows "length (sr_native (rw_registry w)) \<le> 32 \<and>
    distinct (map (se_alias \<circ> snd) (sr_native (rw_registry w))) \<and>
    list_all (\<lambda>(_, e). 1 \<le> se_alias e \<and> se_alias e \<le> 32) (sr_native (rw_registry w)) \<and>
    (native_session_id_for_handle nt v h (rw_registry w) = (Inr (Some n), r) \<longrightarrow>
      (\<exists>e. map_of (sr_native r) n = Some e \<and> se_handle e = h \<and> sr_fence r = Some (fence_of v)))"
proof -
  let ?r = "rw_registry w" let ?used = "map (se_alias \<circ> snd) (sr_native ?r)"
  have inv: "registry_inv ?r" by (rule registry.reachable_inv [OF assms])
  then have sub: "mset ?used \<subseteq># mset all_aliases"
    unfolding registry_inv_def alias_pool_def by (metis mset_map mset_subset_eq_add_left subset_mset.order_trans)
  have "distinct all_aliases" by (simp add: all_aliases_def)
  with sub have "distinct ?used" by (rule distinct_submset)
  moreover have "length ?used \<le> 32" using size_mset_mono [OF sub] by (simp add: all_aliases_def max_sessions_def)
  moreover have "set ?used \<subseteq> set all_aliases" using set_mset_mono [OF sub] by simp
  then have "list_all (\<lambda>(_, e). 1 \<le> se_alias e \<and> se_alias e \<le> 32) (sr_native ?r)"
    by (auto simp: list_all_iff all_aliases_def max_sessions_def)
  moreover have "\<exists>e. map_of (sr_native r) n = Some e \<and> se_handle e = h \<and> sr_fence r = Some (fence_of v)"
    if found: "native_session_id_for_handle nt v h ?r = (Inr (Some n), r)"
  proof -
    have "registry_inv r" using inv looked_up(1) [OF found] by (simp add: keeps_def)
    with looked_up(4) [OF found] looked_up(3) [OF found] show ?thesis by (metis registry_inv_bound)
  qed
  ultimately show ?thesis by simp
qed

section \<open>A run\<close>

text \<open>One session is observed and bound.\<close>

definition sample_fence :: js where
  "sample_fence = JObj [(''brainId'', JStr ''b''), (''deviceId'', JStr ''d''), (''authorityRevision'', JStr ''1'')]"

definition sample_sessions :: js where
  "sample_sessions = JArr [JObj [(''nativeSessionId'', JStr ''n1''), (''runtimeClass'', JStr ''codex_cli''),
     (''availability'', JStr ''online''), (''activity'', JStr ''idle'')]]"

definition sample_handle :: js where
  "sample_handle = JStr ''rsh_0123456789abcdef''"

definition sample_bindings :: js where
  "sample_bindings = JArr [JObj [(''connectorReference'', JStr ''sar_x''), (''handle'', sample_handle)]]"

definition fenced_registry :: registry where
  "fenced_registry = new_registry\<lparr>sr_fence := Some (fence_of sample_fence)\<rparr>"

definition sample_entry :: "js \<Rightarrow> session_entry" where
  "sample_entry h = \<lparr>se_reference = ''sar_x'', se_alias = 1, se_handle = h, se_runtime = JStr ''codex_cli'',
     se_availability = JStr ''online'', se_activity = JStr ''idle''\<rparr>"

definition observed_registry :: registry where
  "observed_registry = fenced_registry\<lparr>sr_free := [2..<33], sr_native := [(''n1'', sample_entry JNull)]\<rparr>"

definition bound_registry :: registry where
  "bound_registry = observed_registry\<lparr>sr_native := [(''n1'', sample_entry sample_handle)],
     sr_handles := [(''rsh_0123456789abcdef'', ''n1'', fence_of sample_fence)], sr_consumed := [''rsh_0123456789abcdef'']\<rparr>"

definition idle_world :: "registry \<Rightarrow> registry_world" where
  "idle_world r = \<lparr>rw_registry = r, rw_waiting = [], rw_observing = None\<rparr>"

lemma sample_keys:
  "sort [''nativeSessionId'', ''runtimeClass'', ''availability'', ''activity''] =
     [''activity'', ''availability'', ''nativeSessionId'', ''runtimeClass'']"
  "sort [''connectorReference'', ''handle''] = [''connectorReference'', ''handle'']"
  by (code_simp, code_simp)

lemma sample_texts:
  "identifier_text ''b''" "identifier_text ''d''" "identifier_text ''1''" "handle_text ''rsh_0123456789abcdef''"
  by (simp_all add: identifier_text_def handle_text_def is_alnum_char_def is_ascii_alpha_def is_ascii_upper_def
      is_ascii_lower_def is_digit_char_def starts_with_def less_eq_char_def)

lemma sample_checks:
  "valid_fence (\<lambda>_. []) sample_fence" "list_all valid_observation (js_elems sample_sessions)"
  "check_bindings (\<lambda>_. []) [] [] [] (js_elems sample_bindings) = Inr [''sar_x'']"
  by (simp_all add: valid_fence_def identifier_test_def sample_texts sample_fence_def valid_observation_def sorted_keys_def
      sample_sessions_def sample_keys field_in_def codes_def unit_bytes_def sample_bindings_def sample_handle_def
      handle_test_def reference_of_def known_handle_def)

lemmas sample_defs = sample_sessions_def sample_bindings_def sample_handle_def sample_entry_def fenced_registry_def
  observed_registry_def bound_registry_def new_registry_def

lemma sample_fenced: "assert_fence (\<lambda>_. []) sample_fence new_registry = (Inr (), fenced_registry)"
  by (simp add: assert_fence_def sample_checks sample_defs)

lemma aliases_split: "all_aliases = 1 # [2..<33]"
  by (simp add: all_aliases_def max_sessions_def upt_conv_Cons)

lemma sample_observed:
  "\<exists>res. inventory_observed (\<lambda>_. ''x'') (fence_of sample_fence) 0 sample_sessions fenced_registry = (res, observed_registry)"
proof -
  have ok: "list_all valid_observation (js_elems sample_sessions)" by (rule sample_checks)
  have new: "new_connector_reference (\<lambda>_. ''x'') 0 r = Some (''sar_x'', 1)" if "sr_native r = []" for r
    using that by (simp add: new_connector_reference_def upt_conv_Cons)
  have free: "sr_free fenced_registry = 1 # [2..<33]" by (simp add: sample_defs aliases_split)
  have start: "sr_native fenced_registry = []" "sr_generation fenced_registry = 0"
    "sr_fence fenced_registry = Some (fence_of sample_fence)"
    by (simp_all add: sample_defs)
  have "admit_sessions (\<lambda>_. ''x'') 0 (js_elems sample_sessions) fenced_registry = (Inr (), observed_registry)"
    by (simp add: sample_sessions_def native_id_def start free new observe_def del: upt_Suc)
      (simp add: observed_registry_def sample_entry_def)
  then show ?thesis
    using ok by (simp add: inventory_observed_def Let_def start sample_sessions_def max_sessions_def)
qed

lemma sample_binds: "bind_handles (\<lambda>_. []) sample_fence sample_bindings observed_registry = (Inr (), bound_registry)"
proof -
  have "assert_fence (\<lambda>_. []) sample_fence observed_registry = (Inr (), observed_registry)"
    by (simp add: assert_fence_def sample_checks sample_defs)
  moreover have "bind_checked (\<lambda>_. []) sample_bindings observed_registry = (Inr (), bound_registry)"
    using sample_checks(3) by (simp add: bind_checked_def sample_defs by_reference_def reference_of_def bind_session_def
        handle_key_def max_sessions_def)
  ultimately show ?thesis by (simp add: bind_handles_def after_fence_def)
qed

lemma sample_found:
  assumes "r = bound_registry\<lparr>sr_generation := g\<rparr>"
  shows "native_session_id_for_handle (\<lambda>_. []) sample_fence sample_handle r = (Inr (Some ''n1''), r)"
proof -
  have "assert_fence (\<lambda>_. []) sample_fence r = (Inr (), r)"
    by (simp add: assms assert_fence_def sample_checks sample_defs)
  then show ?thesis by (simp add: native_session_id_for_handle_def after_fence_def assms handle_target_def sample_defs)
qed

lemma sample_reached: "reach registry_start (registry_step (\<lambda>_. [])) (idle_world bound_registry)"
proof -
  let ?R = "reach registry_start (registry_step (\<lambda>_. []))"
  let ?wait = "\<lparr>rw_registry = new_registry, rw_waiting = [sample_fence], rw_observing = None\<rparr>"
  let ?watch = "\<lparr>rw_registry = fenced_registry, rw_waiting = [], rw_observing = Some (fence_of sample_fence, 0)\<rparr>"
  have "?R (idle_world new_registry)" by (rule reach_start) (simp add: registry_start_def idle_world_def)
  then have "?R ?wait"
    using inventory_called [of _ "idle_world new_registry" sample_fence] by (auto simp: idle_world_def intro: reach_move)
  moreover have "registry_step (\<lambda>_. []) ?wait ?watch"
    using inventory_begins [of ?wait sample_fence "[]" "\<lambda>_. []" "Inr ()" fenced_registry] sample_fenced
    by (simp add: fenced_registry_def new_registry_def)
  ultimately have "?R ?watch" by (rule reach_move)
  moreover have "registry_step (\<lambda>_. []) ?watch (idle_world observed_registry)"
    using sample_observed inventory_ends [of ?watch "fence_of sample_fence" 0 "\<lambda>_. ''x''" sample_sessions _ observed_registry]
    by (auto simp: idle_world_def)
  ultimately have "?R (idle_world observed_registry)" by (rule reach_move)
  moreover have "registry_step (\<lambda>_. []) (idle_world observed_registry) (idle_world bound_registry)"
    using sample_binds binds [of "\<lambda>_. []" sample_fence sample_bindings "idle_world observed_registry" "Inr ()" bound_registry]
    by (simp add: idle_world_def)
  ultimately show ?thesis by (rule reach_move)
qed

theorem handle_never_readdressed_witness:
  "fst (native_session_id_for_handle (\<lambda>_. []) sample_fence sample_handle
     (snd (end_native_session ''n2'' bound_registry))) = Inr (Some ''n1'')"
proof -
  let ?r = "snd (end_native_session ''n2'' bound_registry)"
  have r: "?r = bound_registry\<lparr>sr_generation := sr_generation bound_registry + 1\<rparr>"
    by (simp add: end_native_session_def release_session_def sample_defs)
  have "registry_step (\<lambda>_. []) (idle_world bound_registry) (idle_world ?r)"
    using session_ends [of "''n2''" "idle_world bound_registry"] by (simp add: idle_world_def end_native_session_def)
  then have "(registry_step (\<lambda>_. []))\<^sup>*\<^sup>* (idle_world bound_registry) (idle_world ?r)" by simp
  note same = handle_never_readdressed [OF sample_reached this]
  have "native_session_id_for_handle (\<lambda>_. []) sample_fence sample_handle bound_registry = (Inr (Some ''n1''), bound_registry)"
    using sample_found [of bound_registry "sr_generation bound_registry"] by simp
  with same sample_found [OF r] show ?thesis by (fastforce simp: idle_world_def)
qed

theorem registry_always_consistent_witness:
  "map_of (sr_native bound_registry) ''n1'' \<noteq> None \<and> length (sr_native bound_registry) \<le> 32"
proof -
  have "native_session_id_for_handle (\<lambda>_. []) sample_fence sample_handle bound_registry = (Inr (Some ''n1''), bound_registry)"
    using sample_found [of bound_registry "sr_generation bound_registry"] by simp
  with registry_always_consistent [OF sample_reached, of sample_fence sample_handle "''n1''" bound_registry]
  show ?thesis by (auto simp: idle_world_def)
qed

end
