(* ===== verification/HostRelay.thy ===== *)
theory HostRelay
  imports SessionRegistry
begin

text \<open>
  The daemon side of the host extension lane, \<^verbatim>\<open>lib/daemon/host-extension-relay-handler.mjs\<close>: local
  endpoints register with the admitted transport, and requests of the owner are routed to them one
  at a time.  A message is its length in bytes and what \<^verbatim>\<open>JSON.parse\<close> makes of it, nothing when it
  throws.  A transport is a number; \<open>ans\<close> says which of the frames that one call sends the transport
  takes (a frame it refuses or throws at is not taken).  A task is suspended at the reports of its
  endpoint and outlives the transport; it is dropped when it ends.  \<open>rl_sent\<close> is a history variable,
  \<open>rl_notified\<close> the receipts handed to the observers of the endpoints.
\<close>

section \<open>Frames\<close>

definition max_in_flight :: nat where
  "max_in_flight = 1"

definition max_correlations :: nat where
  "max_correlations = 256"

definition max_frame_bytes :: nat where
  "max_frame_bytes = 16384"

definition max_payload_bytes :: nat where
  "max_payload_bytes = 8192"

definition plain_exact :: "js \<Rightarrow> string list \<Rightarrow> bool" where
  "plain_exact v ks \<longleftrightarrow> js_is_record v \<and> length (js_keys v) = length ks \<and> list_all (js_has_own v) ks"

definition id_field :: "js \<Rightarrow> bool" where
  "id_field v = (case v of JStr s \<Rightarrow> identifier_text s | _ \<Rightarrow> False)"

definition strict_fence :: "js \<Rightarrow> bool" where
  "strict_fence v \<longleftrightarrow>
     plain_exact v [''brainId'', ''deviceId'', ''authorityRevision''] \<and> id_field (js_get v ''brainId'') \<and>
     id_field (js_get v ''deviceId'') \<and> id_field (js_get v ''authorityRevision'')"

definition service_part :: "string \<Rightarrow> bool" where
  "service_part s \<longleftrightarrow>
     s \<noteq> [] \<and> is_ascii_lower (hd s) \<and> list_all (\<lambda>c. is_ascii_lower c \<or> is_digit_char c \<or> c = CHR ''-'') (tl s)"

definition version_part :: "string \<Rightarrow> bool" where
  "version_part s = (case s of c # d # ds \<Rightarrow> c = CHR ''v'' \<and> is_digit_char d \<and> d \<noteq> CHR ''0'' \<and> list_all is_digit_char ds | _ \<Rightarrow> False)"

definition service_text :: "string \<Rightarrow> bool" where
  "service_text s =
     (case split_on (CHR ''/'') s of
        [name, version] \<Rightarrow> list_all service_part (split_on (CHR ''.'') name) \<and> version_part version
      | _ \<Rightarrow> False)"

definition service_field :: "js \<Rightarrow> bool" where
  "service_field v = (case v of JStr s \<Rightarrow> service_text s | _ \<Rightarrow> False)"

fun valid_payload :: "nat \<Rightarrow> js \<Rightarrow> bool" where
  "valid_payload depth JUndef = False"
| "valid_payload depth JNull = True"
| "valid_payload depth (JBool _) = True"
| "valid_payload depth (JStr _) = True"
| "valid_payload depth (JNum n) = num_is_finite n"
| "valid_payload depth (JArr vs) = (depth < 16 \<and> length vs \<le> 128 \<and> list_all (valid_payload (depth + 1)) vs)"
| "valid_payload depth (JObj kvs) =
     (depth < 16 \<and> length kvs \<le> 128 \<and>
      list_all (\<lambda>(k, v). k \<notin> {''__proto__'', ''constructor'', ''prototype''} \<and> valid_payload (depth + 1) v) kvs)"

definition bounded_payload :: "(jsnum \<Rightarrow> string) \<Rightarrow> js \<Rightarrow> bool" where
  "bounded_payload nt v \<longleftrightarrow> valid_payload 0 v \<and> text_bytes (json_text nt v) \<le> max_payload_bytes"

definition capability_names :: "string list" where
  "capability_names = [''opaque_request'', ''opaque_event'', ''terminal_delivery'']"

definition valid_descriptor :: "js \<Rightarrow> bool" where
  "valid_descriptor v \<longleftrightarrow>
     plain_exact v [''serviceId'', ''protocolVersion'', ''capabilities'', ''availability''] \<and>
     service_field (js_get v ''serviceId'') \<and> js_get v ''protocolVersion'' = jint 1 \<and>
     (let cs = js_elems (js_get v ''capabilities'') in
      js_is_arr (js_get v ''capabilities'') \<and> 1 \<le> length cs \<and> length cs \<le> 3 \<and>
      list_all (field_in capability_names) cs \<and> distinct cs) \<and>
     (js_get v ''availability'' = JStr ''available'' \<or> js_get v ''availability'' = JStr ''draining'')"

type_synonym message = "nat \<times> js option"

text \<open>What both kinds of frames have: version and fence.\<close>

definition parse_frame :: "message \<Rightarrow> js option" where
  "parse_frame m =
     (case m of
        (n, Some frame) \<Rightarrow>
          if n \<le> max_frame_bytes \<and> js_is_record frame \<and> js_get frame ''protocolVersion'' = jint 1 \<and> strict_fence (js_get frame ''fence'')
          then Some frame else None
      | _ \<Rightarrow> None)"

definition parse_register :: "message \<Rightarrow> js option" where
  "parse_register m =
     Option.bind (parse_frame m) (\<lambda>frame.
       if js_get frame ''type'' = JStr ''host_extension.register'' \<and>
          plain_exact frame [''type'', ''protocolVersion'', ''fence'', ''endpoint''] \<and> valid_descriptor (js_get frame ''endpoint'')
       then Some frame else None)"

definition parse_request :: "(jsnum \<Rightarrow> string) \<Rightarrow> message \<Rightarrow> js option" where
  "parse_request nt m =
     Option.bind (parse_frame m) (\<lambda>frame.
       if js_get frame ''type'' = JStr ''host_extension.request'' \<and>
          plain_exact frame [''type'', ''protocolVersion'', ''fence'', ''serviceId'', ''correlationId'', ''payload''] \<and>
          service_field (js_get frame ''serviceId'') \<and> id_field (js_get frame ''correlationId'') \<and>
          bounded_payload nt (js_get frame ''payload'')
       then Some frame else None)"

definition string_field :: "js \<Rightarrow> string \<Rightarrow> string" where
  "string_field v k = (case js_get v k of JStr s \<Rightarrow> s | _ \<Rightarrow> [])"

definition fence_value :: "fence \<Rightarrow> js" where
  "fence_value f = JObj [(''brainId'', fn_brain f), (''deviceId'', fn_device f), (''authorityRevision'', fn_revision f)]"

definition endpoint_rejected :: "fence \<Rightarrow> string \<Rightarrow> string \<Rightarrow> string \<Rightarrow> js" where
  "endpoint_rejected f service correlation reason =
     JObj [(''type'', JStr ''host_extension.endpoint_rejected''), (''protocolVersion'', jint 1), (''fence'', fence_value f),
           (''serviceId'', JStr service), (''correlationId'', JStr correlation), (''reason'', JStr reason)]"

definition terminal_delivery :: "fence \<Rightarrow> string \<Rightarrow> string \<Rightarrow> string \<Rightarrow> js" where
  "terminal_delivery f service correlation disposition =
     JObj [(''type'', JStr ''host_extension.terminal_delivery''), (''protocolVersion'', jint 1), (''fence'', fence_value f),
           (''serviceId'', JStr service), (''correlationId'', JStr correlation), (''disposition'', JStr disposition),
           (''evidence'', JStr ''transport_delivery_only'')]"

definition extension_event :: "fence \<Rightarrow> string \<Rightarrow> string \<Rightarrow> nat \<Rightarrow> js \<Rightarrow> js" where
  "extension_event f service correlation sequence payload =
     JObj [(''type'', JStr ''host_extension.event''), (''protocolVersion'', jint 1), (''fence'', fence_value f),
           (''serviceId'', JStr service), (''correlationId'', JStr correlation), (''sequence'', jint (int sequence)),
           (''report'', JStr ''service_reported''), (''payload'', payload)]"

section \<open>State\<close>

record relay_task =
  rt_controller :: nat
  rt_correlation :: string
  rt_service :: string
  rt_capabilities :: "js list"
  rt_fence :: fence
  rt_send :: nat
  rt_generation :: nat
  rt_aborted :: bool
  rt_sequence :: nat

record relay =
  rl_fence :: "fence option"
  rl_send :: "nat option"
  rl_generation :: nat
  rl_endpoints :: "(string \<times> js) list"
  rl_completed :: "string list"
  rl_order :: "string list"
  rl_active :: "(string \<times> nat) list"
  rl_tasks :: "relay_task list"
  rl_controllers :: nat
  rl_sent :: "(nat \<times> js) list"
  rl_notified :: "js list"

definition new_relay :: relay where
  "new_relay = \<lparr>rl_fence = None, rl_send = None, rl_generation = 0, rl_endpoints = [], rl_completed = [], rl_order = [],
     rl_active = [], rl_tasks = [], rl_controllers = 0, rl_sent = [], rl_notified = []\<rparr>"

text \<open>The frames are sent in order until the transport refuses one; a refused frame is not sent.\<close>

fun send_frames :: "(nat \<Rightarrow> bool) \<Rightarrow> nat \<Rightarrow> nat \<Rightarrow> js list \<Rightarrow> relay \<Rightarrow> bool \<times> relay" where
  "send_frames ans k t [] r = (True, r)"
| "send_frames ans k t (f # fs) r =
     (if ans k then send_frames ans (k + 1) t fs (r\<lparr>rl_sent := rl_sent r @ [(t, f)]\<rparr>) else (False, r))"

definition abort_controllers :: "nat list \<Rightarrow> relay_task list \<Rightarrow> relay_task list" where
  "abort_controllers cs ts = map (\<lambda>t. if rt_controller t \<in> set cs then t\<lparr>rt_aborted := True\<rparr> else t) ts"

definition invalidate_relay :: "relay \<Rightarrow> relay" where
  "invalidate_relay r =
     r\<lparr>rl_generation := rl_generation r + 1, rl_tasks := abort_controllers (map snd (rl_active r)) (rl_tasks r), rl_active := [],
       rl_endpoints := [], rl_completed := [], rl_order := [], rl_fence := None, rl_send := None\<rparr>"

definition relay_admitted :: "js \<Rightarrow> nat option \<Rightarrow> relay \<Rightarrow> bool \<times> relay" where
  "relay_admitted v transport r =
     (if \<not> strict_fence v \<or> transport = None then (False, r)
      else (True, (invalidate_relay r)\<lparr>rl_fence := Some (fence_of v), rl_send := transport\<rparr>))"

definition relay_register :: "(nat \<Rightarrow> bool) \<Rightarrow> message \<Rightarrow> bool \<Rightarrow> bool \<Rightarrow> relay \<Rightarrow> bool \<times> relay" where
  "relay_register ans m dispatches allow_existing r =
     (case (parse_register m, rl_fence r, rl_send r) of
        (Some frame, Some f, Some t) \<Rightarrow>
          let d = js_get frame ''endpoint''; service = string_field d ''serviceId'';
              go = (case send_frames ans 0 t [frame] r of
                      (True, r') \<Rightarrow> (True, r'\<lparr>rl_endpoints := AList.update service d (rl_endpoints r')\<rparr>)
                    | (False, r') \<Rightarrow> (False, r'))
          in if fence_of (js_get frame ''fence'') \<noteq> f \<or> \<not> dispatches then (False, r)
             else case map_of (rl_endpoints r) service of
               None \<Rightarrow> go
             | Some old \<Rightarrow>
                 if \<not> allow_existing \<or> js_get old ''capabilities'' \<noteq> js_get d ''capabilities'' then (False, r) else go
      | _ \<Rightarrow> (False, r))"

definition send_outcome :: "(nat \<Rightarrow> bool) \<Rightarrow> string \<Rightarrow> js \<Rightarrow> relay \<Rightarrow> bool \<times> relay" where
  "send_outcome ans reason request r =
     (case (rl_fence r, rl_send r) of
        (Some f, Some t) \<Rightarrow>
          let s = string_field request ''serviceId''; c = string_field request ''correlationId''
          in send_frames ans 0 t [endpoint_rejected f s c reason, terminal_delivery f s c ''endpoint_rejected''] r
      | _ \<Rightarrow> (False, r))"

definition start_task :: "js \<Rightarrow> js \<Rightarrow> fence \<Rightarrow> nat \<Rightarrow> relay \<Rightarrow> relay" where
  "start_task request endpoint f t r =
     (let n = rl_controllers r; c = string_field request ''correlationId'' in
      r\<lparr>rl_controllers := n + 1, rl_active := AList.update c n (rl_active r),
        rl_tasks := rl_tasks r @
          [\<lparr>rt_controller = n, rt_correlation = c, rt_service = string_field request ''serviceId'',
            rt_capabilities = js_elems (js_get endpoint ''capabilities''), rt_fence = f, rt_send = t,
            rt_generation = rl_generation r, rt_aborted = False, rt_sequence = 0\<rparr>]\<rparr>)"

definition relay_receive :: "(jsnum \<Rightarrow> string) \<Rightarrow> (nat \<Rightarrow> bool) \<Rightarrow> message \<Rightarrow> relay \<Rightarrow> bool \<times> relay" where
  "relay_receive nt ans m r =
     (case (parse_request nt m, rl_fence r, rl_send r) of
        (Some request, Some f, Some t) \<Rightarrow>
          if fence_of (js_get request ''fence'') \<noteq> f then send_outcome ans ''stale_fence'' request r
          else (case map_of (rl_endpoints r) (string_field request ''serviceId'') of
            None \<Rightarrow> send_outcome ans ''unregistered'' request r
          | Some endpoint \<Rightarrow>
              let c = string_field request ''correlationId''; draining = (js_get endpoint ''availability'' = JStr ''draining'') in
              if js_get endpoint ''availability'' \<noteq> JStr ''available'' \<or>
                 JStr ''opaque_request'' \<notin> set (js_elems (js_get endpoint ''capabilities''))
              then send_outcome ans (if draining then ''draining'' else ''unsupported'') request r
              else if map_of (rl_active r) c \<noteq> None \<or> c \<in> set (rl_completed r)
              then send_outcome ans ''duplicate_correlation'' request r
              else if length (rl_active r) \<ge> max_in_flight then send_outcome ans ''in_flight'' request r
              else (True, start_task request endpoint f t r))
      | _ \<Rightarrow> (False, r))"

section \<open>Tasks\<close>

text \<open>A loop that drops the oldest completed correlation until the bound holds.\<close>

fun trim_completed :: "string list \<Rightarrow> string list \<Rightarrow> string list \<times> string list" where
  "trim_completed done [] = (done, [])"
| "trim_completed done (c # order) =
     (if length (c # order) > max_correlations then trim_completed (removeAll c done) order else (done, c # order))"

definition remember_completed :: "string \<Rightarrow> relay \<Rightarrow> relay" where
  "remember_completed c r =
     (if c \<in> set (rl_completed r) then r
      else case trim_completed (c # rl_completed r) (rl_order r @ [c]) of
             (done, order) \<Rightarrow> r\<lparr>rl_completed := done, rl_order := order\<rparr>)"

definition notify_terminal :: "js \<Rightarrow> relay \<Rightarrow> relay" where
  "notify_terminal receipt r = r\<lparr>rl_notified := rl_notified r @ [receipt]\<rparr>"

definition task_current :: "relay_task \<Rightarrow> relay \<Rightarrow> bool" where
  "task_current t r \<longleftrightarrow>
     rl_generation r = rt_generation t \<and> rl_fence r = Some (rt_fence t) \<and> rl_send r = Some (rt_send t)"

definition retire_task :: "nat \<Rightarrow> relay \<Rightarrow> relay" where
  "retire_task i r =
     (let t = rl_tasks r ! i in
      r\<lparr>rl_active := (if map_of (rl_active r) (rt_correlation t) = Some (rt_controller t)
                      then AList.delete (rt_correlation t) (rl_active r) else rl_active r),
        rl_tasks := take i (rl_tasks r) @ drop (i + 1) (rl_tasks r)\<rparr>)"

text \<open>The end of the task at index \<open>i\<close>; \<open>k\<close> frames were sent before in the same run of the code.\<close>

definition end_task :: "(nat \<Rightarrow> bool) \<Rightarrow> nat \<Rightarrow> string \<Rightarrow> nat \<Rightarrow> relay \<Rightarrow> relay" where
  "end_task ans k disposition i r =
     (let t = rl_tasks r ! i; receipt = terminal_delivery (rt_fence t) (rt_service t) (rt_correlation t) in
      if \<not> task_current t r then retire_task i r
      else case send_frames ans k (rt_send t) [receipt disposition] (retire_task i r) of
             (True, r') \<Rightarrow> notify_terminal (receipt disposition) (remember_completed (rt_correlation t) r')
           | (False, r') \<Rightarrow> notify_terminal (receipt ''post_ingress_indeterminate'') r')"

text \<open>A payload is reported, or the reports end or throw.\<close>

definition task_reports :: "(jsnum \<Rightarrow> string) \<Rightarrow> (nat \<Rightarrow> bool) \<Rightarrow> js \<Rightarrow> nat \<Rightarrow> relay \<Rightarrow> relay" where
  "task_reports nt ans payload i r =
     (let t = rl_tasks r ! i; failed = end_task ans 1 ''post_ingress_indeterminate'' i in
      if \<not> task_current t r \<or> rt_aborted t \<or> \<not> bounded_payload nt payload \<or> JStr ''opaque_event'' \<notin> set (rt_capabilities t)
      then failed r
      else case send_frames ans 0 (rt_send t)
                  [extension_event (rt_fence t) (rt_service t) (rt_correlation t) (rt_sequence t) payload] r of
             (True, r') \<Rightarrow> r'\<lparr>rl_tasks := (rl_tasks r')[i := t\<lparr>rt_sequence := rt_sequence t + 1\<rparr>]\<rparr>
           | (False, r') \<Rightarrow> failed r')"

inductive relay_step :: "(jsnum \<Rightarrow> string) \<Rightarrow> relay \<Rightarrow> relay \<Rightarrow> bool" for nt where
  relay_admits: "relay_step nt r (snd (relay_admitted v transport r))"
| relay_registers: "relay_step nt r (snd (relay_register ans m dispatches allow_existing r))"
| relay_receives: "relay_step nt r (snd (relay_receive nt ans m r))"
| relay_reports: "i < length (rl_tasks r) \<Longrightarrow> relay_step nt r (task_reports nt ans payload i r)"
| relay_finishes: "i < length (rl_tasks r) \<Longrightarrow> d \<in> {''delivered'', ''post_ingress_indeterminate''} \<Longrightarrow>
    relay_step nt r (end_task ans 0 d i r)"
| relay_disconnects: "relay_step nt r (invalidate_relay r)"

section \<open>What a step sends\<close>

definition sent_now :: "relay \<Rightarrow> relay \<Rightarrow> bool" where
  "sent_now r r' \<longleftrightarrow> (\<exists>new. rl_sent r' = rl_sent r @ new \<and>
     list_all (\<lambda>(t, f). rl_send r = Some t \<and> rl_fence r = Some (fence_of (js_get f ''fence''))) new)"

lemma sent_now_refl: "rl_sent r' = rl_sent r \<Longrightarrow> sent_now r r'"
  by (auto simp: sent_now_def)

lemma sent_now_trans:
  assumes "sent_now r r'" and "sent_now r' r''" and "rl_send r' = rl_send r" and "rl_fence r' = rl_fence r"
  shows "sent_now r r''"
proof -
  obtain a b where "rl_sent r' = rl_sent r @ a" "rl_sent r'' = rl_sent r' @ b"
    "list_all (\<lambda>(t, f). rl_send r = Some t \<and> rl_fence r = Some (fence_of (js_get f ''fence''))) a"
    "list_all (\<lambda>(t, f). rl_send r = Some t \<and> rl_fence r = Some (fence_of (js_get f ''fence''))) b"
    using assms unfolding sent_now_def by auto
  then show ?thesis unfolding sent_now_def by (intro exI [of _ "a @ b"]) simp
qed

lemma fence_of_value [simp]: "fence_of (fence_value f) = f"
  by (simp add: fence_of_def fence_value_def)

lemma frame_fences [simp]:
  "js_get (endpoint_rejected f s c x) ''fence'' = fence_value f"
  "js_get (terminal_delivery f s c x) ''fence'' = fence_value f"
  "js_get (extension_event f s c n p) ''fence'' = fence_value f"
  by (simp_all add: endpoint_rejected_def terminal_delivery_def extension_event_def)

declare send_frames.simps [simp del]

text \<open>Sending changes nothing but the history.\<close>

lemma send_frames_state:
  "send_frames ans k t fs r = (b, r') \<Longrightarrow> \<exists>new. r' = r\<lparr>rl_sent := rl_sent r @ map (Pair t) new\<rparr> \<and> set new \<subseteq> set fs"
proof (induction ans k t fs r arbitrary: b r' rule: send_frames.induct)
  case (1 ans k t r)
  then show ?case by (intro exI [of _ "[]"]) (simp add: send_frames.simps)
next
  case (2 ans k t f fs r)
  show ?case
  proof (cases "ans k")
    case True
    with 2 obtain new where "r' = r\<lparr>rl_sent := rl_sent r @ [(t, f)] @ map (Pair t) new\<rparr>" "set new \<subseteq> set fs"
      by (fastforce simp: send_frames.simps)
    then show ?thesis by (intro exI [of _ "f # new"]) auto
  next
    case False
    with 2 show ?thesis by (intro exI [of _ "[]"]) (simp add: send_frames.simps)
  qed
qed

lemma send_frames_now:
  assumes "send_frames ans k t fs r = (b, r')" and "rl_send r = Some t"
    and "\<And>f. f \<in> set fs \<Longrightarrow> rl_fence r = Some (fence_of (js_get f ''fence''))"
  shows "sent_now r r'"
  using send_frames_state [OF assms(1)] assms(2,3) by (fastforce simp: sent_now_def list_all_iff)

lemma invalidate_fields [simp]:
  "rl_sent (invalidate_relay r) = rl_sent r" "rl_send (invalidate_relay r) = None" "rl_fence (invalidate_relay r) = None"
  "rl_generation (invalidate_relay r) = rl_generation r + 1" "rl_active (invalidate_relay r) = []"
  by (simp_all add: invalidate_relay_def)

lemma remember_fields [simp]:
  "rl_sent (remember_completed c r) = rl_sent r" "rl_send (remember_completed c r) = rl_send r"
  "rl_fence (remember_completed c r) = rl_fence r" "rl_active (remember_completed c r) = rl_active r"
  "rl_tasks (remember_completed c r) = rl_tasks r" "rl_controllers (remember_completed c r) = rl_controllers r"
  by (simp_all add: remember_completed_def split: prod.split)

lemma notify_fields [simp]:
  "rl_sent (notify_terminal x r) = rl_sent r" "rl_active (notify_terminal x r) = rl_active r"
  "rl_tasks (notify_terminal x r) = rl_tasks r" "rl_controllers (notify_terminal x r) = rl_controllers r"
  "rl_completed (notify_terminal x r) = rl_completed r" "rl_order (notify_terminal x r) = rl_order r"
  by (simp_all add: notify_terminal_def)

lemma sent_now_cong:
  "sent_now r r' \<Longrightarrow> rl_sent q = rl_sent r \<Longrightarrow> rl_send q = rl_send r \<Longrightarrow> rl_fence q = rl_fence r \<Longrightarrow>
     rl_sent q' = rl_sent r' \<Longrightarrow> sent_now q q'"
  by (simp add: sent_now_def)

lemma outcome_now: "sent_now r (snd (send_outcome ans reason request r))"
proof (cases "rl_fence r = None \<or> rl_send r = None")
  case False
  then obtain f t where ft: "rl_fence r = Some f" "rl_send r = Some t" by auto
  let ?s = "string_field request ''serviceId''" and ?c = "string_field request ''correlationId''"
  obtain b r' where send: "send_frames ans 0 t
      [endpoint_rejected f ?s ?c reason, terminal_delivery f ?s ?c ''endpoint_rejected''] r = (b, r')"
    by (metis surj_pair)
  have "sent_now r r'" by (rule send_frames_now [OF send ft(2)]) (auto simp: ft)
  then show ?thesis by (simp add: send_outcome_def ft Let_def send)
qed (auto simp: send_outcome_def sent_now_refl split: option.splits)

lemma retire_fields [simp]:
  "rl_sent (retire_task i r) = rl_sent r" "rl_send (retire_task i r) = rl_send r" "rl_fence (retire_task i r) = rl_fence r"
  "rl_controllers (retire_task i r) = rl_controllers r" "rl_completed (retire_task i r) = rl_completed r"
  "rl_order (retire_task i r) = rl_order r"
  by (simp_all add: retire_task_def Let_def)

lemma end_task_now: "sent_now r (end_task ans k d i r)"
proof (cases "task_current (rl_tasks r ! i) r")
  case True
  let ?t = "rl_tasks r ! i"
  obtain b r2 where send: "send_frames ans k (rt_send ?t)
      [terminal_delivery (rt_fence ?t) (rt_service ?t) (rt_correlation ?t) d] (retire_task i r) = (b, r2)"
    by (metis surj_pair)
  have "sent_now (retire_task i r) r2"
    using True by (intro send_frames_now [OF send]) (auto simp: task_current_def)
  moreover have "rl_sent (end_task ans k d i r) = rl_sent r2"
    using True send by (cases b) (simp_all add: end_task_def Let_def)
  ultimately show ?thesis by (elim sent_now_cong) simp_all
qed (simp add: end_task_def Let_def sent_now_refl)

lemma reports_now: "sent_now r (task_reports nt ans payload i r)"
proof (cases "\<not> task_current (rl_tasks r ! i) r \<or> rt_aborted (rl_tasks r ! i) \<or> \<not> bounded_payload nt payload \<or>
    JStr ''opaque_event'' \<notin> set (rt_capabilities (rl_tasks r ! i))")
  case True
  then show ?thesis by (simp add: task_reports_def Let_def end_task_now)
next
  case False
  let ?t = "rl_tasks r ! i"
  obtain b r1 where send: "send_frames ans 0 (rt_send ?t)
      [extension_event (rt_fence ?t) (rt_service ?t) (rt_correlation ?t) (rt_sequence ?t) payload] r = (b, r1)"
    by (metis surj_pair)
  have now: "sent_now r r1"
    using False by (intro send_frames_now [OF send]) (auto simp: task_current_def)
  have same: "rl_send r1 = rl_send r" "rl_fence r1 = rl_fence r" using send_frames_state [OF send] by auto
  have res: "task_reports nt ans payload i r =
      (if b then r1\<lparr>rl_tasks := (rl_tasks r1)[i := ?t\<lparr>rt_sequence := rt_sequence ?t + 1\<rparr>]\<rparr>
       else end_task ans 1 ''post_ingress_indeterminate'' i r1)"
    using False send by (cases b) (simp_all add: task_reports_def Let_def)
  show ?thesis
  proof (cases b)
    case True
    from now show ?thesis unfolding res by (rule sent_now_cong) (simp_all add: True)
  next
    case False
    with now end_task_now same show ?thesis unfolding res by (auto intro: sent_now_trans)
  qed
qed

lemma register_now: "sent_now r (snd (relay_register ans m dispatches allow_existing r))"
proof -
  have go: "sent_now r (snd (case send_frames ans 0 t [frame] r of
      (True, r') \<Rightarrow> (True, r'\<lparr>rl_endpoints := AList.update s d (rl_endpoints r')\<rparr>) | (False, r') \<Rightarrow> (False, r')))"
    if "rl_send r = Some t" "rl_fence r = Some (fence_of (js_get frame ''fence''))" for frame t s d
  proof -
    obtain b r' where send: "send_frames ans 0 t [frame] r = (b, r')" by (metis surj_pair)
    have "sent_now r r'" using that by (intro send_frames_now [OF send]) auto
    then show ?thesis unfolding send by (cases b) (auto elim: sent_now_cong)
  qed
  show ?thesis
    unfolding relay_register_def Let_def
    by (auto split: option.splits intro: sent_now_refl go)
qed

lemma relay_step_sends: "relay_step nt r r' \<Longrightarrow> sent_now r r'"
proof (induction rule: relay_step.induct)
  case (relay_receives r ans m)
  have start: "sent_now r (start_task request e f t r)" for request e f t
    by (rule sent_now_refl) (simp add: start_task_def Let_def)
  show ?case
    unfolding relay_receive_def Let_def
    by (auto split: option.splits intro: sent_now_refl outcome_now start)
qed (auto intro: sent_now_refl register_now reports_now end_task_now simp: relay_admitted_def)

section \<open>The invariant\<close>

definition relay_inv :: "relay \<Rightarrow> bool" where
  "relay_inv r \<longleftrightarrow>
     length (rl_active r) \<le> 1 \<and>
     (\<forall>t \<in> set (rl_tasks r). \<not> rt_aborted t \<longrightarrow> map_of (rl_active r) (rt_correlation t) = Some (rt_controller t)) \<and>
     distinct (map rt_controller (rl_tasks r)) \<and> (\<forall>t \<in> set (rl_tasks r). rt_controller t < rl_controllers r) \<and>
     distinct (rl_order r) \<and> distinct (rl_completed r) \<and> set (rl_completed r) = set (rl_order r) \<and>
     length (rl_order r) \<le> max_correlations"

lemma relay_inv_cong:
  "relay_inv r \<Longrightarrow> rl_active r' = rl_active r \<Longrightarrow> rl_tasks r' = rl_tasks r \<Longrightarrow> rl_controllers r' = rl_controllers r \<Longrightarrow>
     rl_completed r' = rl_completed r \<Longrightarrow> rl_order r' = rl_order r \<Longrightarrow> relay_inv r'"
  by (simp add: relay_inv_def)

lemma send_frames_inv:
  assumes "send_frames ans k t fs r = (b, r')"
  shows "rl_active r' = rl_active r" "rl_tasks r' = rl_tasks r" "rl_controllers r' = rl_controllers r"
    "rl_completed r' = rl_completed r" "rl_order r' = rl_order r"
  using send_frames_state [OF assms] by auto

lemma trim_keeps:
  "trim_completed done order = (done', order') \<Longrightarrow> distinct order \<Longrightarrow> distinct done \<Longrightarrow> set done = set order \<Longrightarrow>
     distinct order' \<and> distinct done' \<and> set done' = set order' \<and> length order' \<le> max_correlations"
proof (induction "done" order rule: trim_completed.induct)
  case (2 "done" c order)
  show ?case
  proof (cases "length (c # order) > max_correlations")
    case True
    then have "trim_completed (removeAll c done) order = (done', order')" using "2.prems"(1) by simp
    moreover have "set (removeAll c done) = set order" using "2.prems"(2,4) by auto
    ultimately show ?thesis using "2.IH" [OF True] "2.prems"(2,3) by (simp add: distinct_removeAll)
  next
    case False
    with "2.prems"(1) have "done' = done" "order' = c # order" by simp_all
    with "2.prems"(2-4) False show ?thesis by (simp only: not_less)
  qed
qed auto

lemma remember_inv:
  assumes "relay_inv r"
  shows "relay_inv (remember_completed c r)"
proof (cases "c \<in> set (rl_completed r)")
  case False
  obtain d ord where trim: "trim_completed (c # rl_completed r) (rl_order r @ [c]) = (d, ord)" by fastforce
  have "distinct ord \<and> distinct d \<and> set d = set ord \<and> length ord \<le> max_correlations"
    using assms False by (intro trim_keeps [OF trim]) (auto simp: relay_inv_def)
  with assms False trim show ?thesis by (simp add: relay_inv_def remember_completed_def)
qed (simp add: assms remember_completed_def)

lemma notify_inv: "relay_inv r \<Longrightarrow> relay_inv (notify_terminal x r)"
  by (erule relay_inv_cong) simp_all

lemma invalidate_inv:
  assumes "relay_inv r"
  shows "relay_inv (invalidate_relay r)"
proof -
  let ?abort = "abort_controllers (map snd (rl_active r))"
  have "rt_aborted t" if "t \<in> set (?abort (rl_tasks r))" for t
  proof -
    from that have "t \<in> (\<lambda>u. if rt_controller u \<in> set (map snd (rl_active r)) then u\<lparr>rt_aborted := True\<rparr> else u) ` set (rl_tasks r)"
      by (simp only: abort_controllers_def set_map)
    then obtain u where u: "u \<in> set (rl_tasks r)"
      "t = (if rt_controller u \<in> set (map snd (rl_active r)) then u\<lparr>rt_aborted := True\<rparr> else u)"
      by blast
    then have "rt_aborted u \<or> (rt_correlation u, rt_controller u) \<in> set (rl_active r)"
      using assms by (auto simp: relay_inv_def dest: map_of_SomeD)
    with u(2) show ?thesis by force
  qed
  moreover have "map rt_controller (?abort ts) = map rt_controller ts" for ts
    by (simp add: abort_controllers_def)
  moreover have "rt_controller t \<in> rt_controller ` set ts" if "t \<in> set (?abort ts)" for t ts
    using that by (auto simp: abort_controllers_def)
  ultimately show ?thesis
    using assms by (force simp: relay_inv_def invalidate_relay_def)
qed

lemma retire_inv:
  assumes inv: "relay_inv r" and i: "i < length (rl_tasks r)"
  shows "relay_inv (retire_task i r)"
proof -
  let ?t = "rl_tasks r ! i" and ?rest = "take i (rl_tasks r) @ drop (i + 1) (rl_tasks r)"
  have split: "rl_tasks r = take i (rl_tasks r) @ ?t # drop (i + 1) (rl_tasks r)" using id_take_nth_drop [OF i] by simp
  have "distinct (map rt_controller (take i (rl_tasks r) @ ?t # drop (i + 1) (rl_tasks r)))"
    using inv split by (metis relay_inv_def)
  then have dist: "distinct (map rt_controller ?rest)" "rt_controller ?t \<notin> rt_controller ` set ?rest" by auto
  have sub: "set ?rest \<subseteq> set (rl_tasks r)" by (auto dest: in_set_takeD in_set_dropD)
  have "map_of (rl_active (retire_task i r)) (rt_correlation t) = Some (rt_controller t)"
    if "t \<in> set ?rest" "\<not> rt_aborted t" for t
  proof -
    have "map_of (rl_active r) (rt_correlation t) = Some (rt_controller t)" using that sub inv by (auto simp: relay_inv_def)
    moreover have "rt_controller t \<noteq> rt_controller ?t" using that(1) dist(2) by (metis imageI)
    ultimately show ?thesis by (auto simp: retire_task_def Let_def delete_conv')
  qed
  moreover have "length (rl_active (retire_task i r)) \<le> 1"
    using inv length_delete_le [of "rt_correlation ?t" "rl_active r"] by (auto simp: retire_task_def Let_def relay_inv_def)
  ultimately show ?thesis
    using inv dist(1) sub by (auto simp: relay_inv_def retire_task_def Let_def simp del: map_of_eq_Some_iff)
qed

lemma end_task_inv:
  assumes "relay_inv r" and "i < length (rl_tasks r)"
  shows "relay_inv (end_task ans k d i r)"
proof (cases "task_current (rl_tasks r ! i) r")
  case True
  let ?t = "rl_tasks r ! i"
  obtain b r2 where send: "send_frames ans k (rt_send ?t)
      [terminal_delivery (rt_fence ?t) (rt_service ?t) (rt_correlation ?t) d] (retire_task i r) = (b, r2)"
    by (metis surj_pair)
  have "relay_inv r2" using retire_inv [OF assms] by (rule relay_inv_cong) (simp_all only: send_frames_inv [OF send])
  then show ?thesis
    using True send by (cases b) (auto simp: end_task_def Let_def intro: notify_inv remember_inv)
qed (simp add: end_task_def Let_def retire_inv assms)

lemma reports_inv:
  assumes "relay_inv r" and i: "i < length (rl_tasks r)"
  shows "relay_inv (task_reports nt ans payload i r)"
proof -
  let ?t = "rl_tasks r ! i"
  obtain b r1 where send: "send_frames ans 0 (rt_send ?t)
      [extension_event (rt_fence ?t) (rt_service ?t) (rt_correlation ?t) (rt_sequence ?t) payload] r = (b, r1)"
    by (metis surj_pair)
  have r1: "relay_inv r1" using assms(1) by (rule relay_inv_cong) (simp_all only: send_frames_inv [OF send])
  have tasks: "rl_tasks r1 = rl_tasks r" by (rule send_frames_inv [OF send])
  have "relay_inv (r1\<lparr>rl_tasks := (rl_tasks r1)[i := ?t\<lparr>rt_sequence := n\<rparr>]\<rparr>)" for n
  proof -
    let ?ts = "(rl_tasks r)[i := ?t\<lparr>rt_sequence := n\<rparr>]"
    have "map rt_controller ?ts = map rt_controller (rl_tasks r)"
      using i by (simp add: map_update list_update_same_conv)
    moreover have "t \<in> set (rl_tasks r) \<or> t = ?t\<lparr>rt_sequence := n\<rparr>" if "t \<in> set ?ts" for t
      using that set_update_subset_insert [of "rl_tasks r" i] by fastforce
    then have "\<exists>u \<in> set (rl_tasks r). rt_aborted t = rt_aborted u \<and> rt_correlation t = rt_correlation u \<and> rt_controller t = rt_controller u"
      if "t \<in> set ?ts" for t
      using that nth_mem [OF i] by fastforce
    ultimately show ?thesis
      using r1 unfolding relay_inv_def tasks by simp metis
  qed
  then show ?thesis
    using r1 send i tasks by (cases b) (auto simp: task_reports_def Let_def end_task_inv assms)
qed

lemma start_inv:
  assumes "relay_inv r" and "\<not> length (rl_active r) \<ge> max_in_flight"
  shows "relay_inv (start_task request e f t r)"
proof -
  have "rl_active r = []" using assms(2) by (cases "rl_active r") (simp_all add: max_in_flight_def)
  with assms(1) show ?thesis by (fastforce simp: relay_inv_def start_task_def Let_def)
qed

lemma outcome_inv: "relay_inv r \<Longrightarrow> relay_inv (snd (send_outcome ans reason request r))"
  unfolding send_outcome_def Let_def
  by (auto split: option.splits intro!: relay_inv_cong [of r] send_frames_inv [OF prod.collapse [symmetric]])

lemma relay_step_inv: "relay_step nt r r' \<Longrightarrow> relay_inv r \<Longrightarrow> relay_inv r'"
proof (induction rule: relay_step.induct)
  case (relay_admits r v transport)
  then show ?case
    by (auto simp: relay_admitted_def intro: relay_inv_cong [OF invalidate_inv])
next
  case (relay_registers r ans m dispatches allow_existing)
  have go: "relay_inv (snd (case send_frames ans 0 t [frame] r of
      (True, r') \<Rightarrow> (True, r'\<lparr>rl_endpoints := AList.update s d (rl_endpoints r')\<rparr>) | (False, r') \<Rightarrow> (False, r')))" for frame t s d
  proof -
    obtain b r' where send: "send_frames ans 0 t [frame] r = (b, r')" by (metis surj_pair)
    have "relay_inv r'" using relay_registers by (rule relay_inv_cong) (simp_all only: send_frames_inv [OF send])
    then show ?thesis unfolding send by (cases b) (auto elim: relay_inv_cong)
  qed
  show ?case
    unfolding relay_register_def Let_def by (auto split: option.splits simp: relay_registers intro: go)
next
  case (relay_receives r ans m)
  then show ?case
    unfolding relay_receive_def Let_def by (auto split: option.splits intro: outcome_inv start_inv)
qed (simp_all add: reports_inv end_task_inv invalidate_inv)

definition relay_start :: "relay \<Rightarrow> bool" where
  "relay_start r \<longleftrightarrow> r = new_relay"

interpretation host_relay: guarded_system relay_start "relay_step nt" relay_inv for nt
proof
  show "relay_start r \<Longrightarrow> relay_inv r" for r
    by (simp add: relay_start_def new_relay_def relay_inv_def)
  show "relay_inv r \<Longrightarrow> relay_step nt r r' \<Longrightarrow> relay_inv r'" for r r'
    by (rule relay_step_inv)
qed

section \<open>Properties\<close>

text \<open>C18. Nothing escapes.  Once a transport is gone, no frame reaches it until it is admitted again,
  whatever the tasks that were started on it go on to report, however they end, and whatever happens
  on other transports.\<close>

theorem nothing_escapes_after_disconnect:
  assumes "(\<lambda>a b. relay_step nt a b \<and> rl_send b \<noteq> Some t)\<^sup>*\<^sup>* (invalidate_relay r) r'"
  shows "filter (\<lambda>(u, _). u = t) (rl_sent r') = filter (\<lambda>(u, _). u = t) (rl_sent r)"
proof -
  have "rl_send r' \<noteq> Some t \<and> filter (\<lambda>(u, _). u = t) (rl_sent r') = filter (\<lambda>(u, _). u = t) (rl_sent r)"
    using assms
  proof (induction rule: rtranclp_induct)
    case (step a b)
    then obtain new where "rl_sent b = rl_sent a @ new" "list_all (\<lambda>(u, f). rl_send a = Some u \<and> rl_fence a = Some (fence_of (js_get f ''fence''))) new"
      using relay_step_sends [of nt a b] by (auto simp: sent_now_def)
    moreover from this(2) step.IH have "filter (\<lambda>(u, _). u = t) new = []"
      by (auto simp: list_all_iff filter_empty_conv)
    ultimately show ?case using step by simp
  qed simp
  then show ?thesis ..
qed

text \<open>One request at a time.  However requests, reports, ends, registrations, admissions and
  disconnects interleave, at most one task is not aborted, and the correlations remembered against
  repetition are at most 256, all different.\<close>

theorem one_live_task:
  assumes "reach relay_start (relay_step nt) r"
  shows "length (filter (\<lambda>t. \<not> rt_aborted t) (rl_tasks r)) \<le> 1 \<and> distinct (rl_completed r) \<and> length (rl_completed r) \<le> 256"
proof -
  have inv: "relay_inv r" by (rule host_relay.reachable_inv [OF assms])
  let ?live = "filter (\<lambda>t. \<not> rt_aborted t) (rl_tasks r)"
  have "length (rl_completed r) = length (rl_order r)"
    using inv by (metis relay_inv_def distinct_card)
  moreover have "length ?live = card (set (map rt_controller ?live))"
    using inv by (subst distinct_card) (simp_all add: relay_inv_def distinct_map inj_on_def)
  moreover have "set (map rt_controller ?live) \<subseteq> set (map snd (rl_active r))"
    using inv by (force simp: relay_inv_def dest: map_of_SomeD)
  then have "card (set (map rt_controller ?live)) \<le> length (map snd (rl_active r))"
    by (rule order_trans [OF card_mono [OF finite_set] card_length])
  ultimately show ?thesis
    using inv by (simp add: relay_inv_def max_correlations_def)
qed

section \<open>A run\<close>

definition sample_endpoint :: js where
  "sample_endpoint = JObj [(''serviceId'', JStr ''a/v1''), (''protocolVersion'', jint 1),
     (''capabilities'', JArr [JStr ''opaque_request'', JStr ''opaque_event'']), (''availability'', JStr ''available'')]"

definition register_message :: message where
  "register_message = (300, Some (JObj [(''type'', JStr ''host_extension.register''), (''protocolVersion'', jint 1),
     (''fence'', sample_fence), (''endpoint'', sample_endpoint)]))"

definition request_message :: message where
  "request_message = (300, Some (JObj [(''type'', JStr ''host_extension.request''), (''protocolVersion'', jint 1),
     (''fence'', sample_fence), (''serviceId'', JStr ''a/v1''), (''correlationId'', JStr ''d''), (''payload'', JNull)]))"

lemma sample_frames:
  "strict_fence sample_fence" "parse_register register_message = snd register_message"
  "parse_request (\<lambda>_. []) request_message = snd request_message"
  by (simp_all add: strict_fence_def plain_exact_def id_field_def sample_texts sample_fence_def parse_register_def
      parse_request_def parse_frame_def register_message_def request_message_def max_frame_bytes_def valid_descriptor_def
      sample_endpoint_def service_field_def service_text_def service_part_def version_part_def is_ascii_lower_def
      is_digit_char_def less_eq_char_def field_in_def capability_names_def bounded_payload_def max_payload_bytes_def
      unit_bytes_def text_bytes_def codes_def)

definition admitted_relay :: relay where
  "admitted_relay = new_relay\<lparr>rl_fence := Some (fence_of sample_fence), rl_send := Some 7, rl_generation := 1\<rparr>"

definition registered_relay :: relay where
  "registered_relay = admitted_relay\<lparr>rl_endpoints := [(''a/v1'', sample_endpoint)], rl_sent := [(7, the (snd register_message))]\<rparr>"

definition busy_relay :: relay where
  "busy_relay = registered_relay\<lparr>rl_controllers := 1, rl_active := [(''d'', 0)],
     rl_tasks := [\<lparr>rt_controller = 0, rt_correlation = ''d'', rt_service = ''a/v1'',
       rt_capabilities = [JStr ''opaque_request'', JStr ''opaque_event''], rt_fence = fence_of sample_fence, rt_send = 7,
       rt_generation = 1, rt_aborted = False, rt_sequence = 0\<rparr>]\<rparr>"

lemma busy_reached: "reach relay_start (relay_step (\<lambda>_. [])) busy_relay"
proof -
  let ?R = "reach relay_start (relay_step (\<lambda>_. []))"
  have "?R new_relay" by (rule reach_start) (simp add: relay_start_def)
  then have "?R (snd (relay_admitted sample_fence (Some 7) new_relay))" by (rule reach_move) (rule relay_admits)
  also have "snd (relay_admitted sample_fence (Some 7) new_relay) = admitted_relay"
    by (simp add: relay_admitted_def sample_frames invalidate_relay_def new_relay_def admitted_relay_def abort_controllers_def)
  finally have "?R (snd (relay_register (\<lambda>_. True) register_message True False admitted_relay))"
    by (rule reach_move) (rule relay_registers)
  also have "snd (relay_register (\<lambda>_. True) register_message True False admitted_relay) = registered_relay"
    by (simp add: relay_register_def sample_frames) (simp add: register_message_def admitted_relay_def new_relay_def
        registered_relay_def sample_endpoint_def string_field_def Let_def send_frames.simps)
  finally have "?R (snd (relay_receive (\<lambda>_. []) (\<lambda>_. True) request_message registered_relay))"
    by (rule reach_move) (rule relay_receives)
  also have "snd (relay_receive (\<lambda>_. []) (\<lambda>_. True) request_message registered_relay) = busy_relay"
    by (simp add: relay_receive_def sample_frames) (simp add: request_message_def admitted_relay_def new_relay_def
        registered_relay_def sample_endpoint_def string_field_def Let_def max_in_flight_def start_task_def busy_relay_def)
  finally show ?thesis .
qed

theorem nothing_escapes_after_disconnect_witness:
  "filter (\<lambda>(u, _). u = 7) (rl_sent (task_reports (\<lambda>_. []) (\<lambda>_. True) JNull 0 (invalidate_relay busy_relay))) =
     filter (\<lambda>(u, _). u = 7) (rl_sent busy_relay)"
proof (rule nothing_escapes_after_disconnect [of "\<lambda>_. []"], rule r_into_rtranclp, rule conjI)
  let ?r = "invalidate_relay busy_relay"
  have one: "rl_tasks ?r = [rl_tasks ?r ! 0]" by (simp add: invalidate_relay_def abort_controllers_def busy_relay_def)
  then have "0 < length (rl_tasks ?r)" by (metis length_greater_0_conv list.distinct(1))
  then show "relay_step (\<lambda>_. []) ?r (task_reports (\<lambda>_. []) (\<lambda>_. True) JNull 0 ?r)" by (rule relay_reports)
  have "\<not> task_current (rl_tasks ?r ! 0) ?r" by (simp add: task_current_def)
  then show "rl_send (task_reports (\<lambda>_. []) (\<lambda>_. True) JNull 0 ?r) \<noteq> Some 7"
    by (simp add: task_reports_def end_task_def Let_def)
qed

theorem one_live_task_witness: "length (filter (\<lambda>t. \<not> rt_aborted t) (rl_tasks busy_relay)) = 1"
proof -
  have "filter (\<lambda>t. \<not> rt_aborted t) (rl_tasks busy_relay) \<noteq> []" by (simp add: busy_relay_def)
  moreover have "length (filter (\<lambda>t. \<not> rt_aborted t) (rl_tasks busy_relay)) \<le> 1"
    using one_live_task [OF busy_reached] by blast
  ultimately show ?thesis by (metis One_nat_def Suc_leI le_antisym length_greater_0_conv)
qed

end
