(* ===== verification/ConnectorHandler.thy ===== *)
theory ConnectorHandler
  imports HostRelay
begin

text \<open>
  The composition behind the remote-local connector, \<^verbatim>\<open>lib/daemon/remote-local-connector-handler.mjs\<close>:
  admission of a transport, inventory proposals, bindings, turns and approvals, over the session
  registry and the host extension relay.  A cycle of code between two awaits is one step: a proposal
  waits for its inventory, a turn for the next event of the adapter.  The \<^verbatim>\<open>===\<close> of fence objects is
  the equality of admission numbers.  Parameters: \<open>dp\<close> \<^verbatim>\<open>Date.parse\<close>, \<open>stamp\<close> \<^verbatim>\<open>toISOString\<close>; the events and the
  approvals of the adapter and the transport (\<open>ans\<close>) are answered at each step.  \<open>ch_sent\<close> and
  \<open>ch_closed\<close> are history variables.
\<close>

section \<open>Frames\<close>

definition handler_fence :: "(jsnum \<Rightarrow> string) \<Rightarrow> js \<Rightarrow> bool" where
  "handler_fence nt v \<longleftrightarrow>
     plain_exact v [''brainId'', ''deviceId'', ''authorityRevision''] \<and> identifier_test nt (js_get v ''brainId'') \<and>
     identifier_test nt (js_get v ''deviceId'') \<and> identifier_test nt (js_get v ''authorityRevision'')"

definition same_fence :: "js \<Rightarrow> fence \<Rightarrow> bool" where
  "same_fence v f \<longleftrightarrow>
     same_value (js_get v ''brainId'') (fn_brain f) \<and> same_value (js_get v ''deviceId'') (fn_device f) \<and>
     same_value (js_get v ''authorityRevision'') (fn_revision f)"

definition valid_scope :: "(jsnum \<Rightarrow> string) \<Rightarrow> js \<Rightarrow> bool" where
  "valid_scope nt v \<longleftrightarrow>
     plain_exact v [''tenantId'', ''consumerId''] \<and> identifier_test nt (js_get v ''tenantId'') \<and> identifier_test nt (js_get v ''consumerId'')"

definition digest_text :: "string \<Rightarrow> bool" where
  "digest_text s \<longleftrightarrow>
     starts_with s ''sha256:'' \<and> hex_text 64 (drop 7 s) \<or>
     32 \<le> length s \<and> length s \<le> 128 \<and> list_all (\<lambda>c. is_alnum_char c \<or> c \<in> set ''_-'') s"

definition authority_keys :: "string list" where
  "authority_keys =
     [''tenantId'', ''consumerId'', ''targetDeviceId'', ''environmentAuthorizationId'', ''bindingDigest'', ''mountId'',
      ''functionalityId'', ''resourceId'', ''principalId'', ''mountEpoch'', ''runGeneration'', ''expiresAt'', ''assurance'']"

definition canonical_instant :: "(string \<Rightarrow> jsnum) \<Rightarrow> (rat \<Rightarrow> string) \<Rightarrow> js \<Rightarrow> bool" where
  "canonical_instant dp stamp v =
     (case v of
        JStr s \<Rightarrow> length s = 24 \<and> (case dp s of Fin t \<Rightarrow> stamp t = s | _ \<Rightarrow> False)
      | _ \<Rightarrow> False)"

definition valid_authority :: "(jsnum \<Rightarrow> string) \<Rightarrow> (string \<Rightarrow> jsnum) \<Rightarrow> (rat \<Rightarrow> string) \<Rightarrow> js \<Rightarrow> fence \<Rightarrow> bool" where
  "valid_authority nt dp stamp v f \<longleftrightarrow>
     plain_exact v authority_keys \<and> identifier_test nt (js_get v ''tenantId'') \<and> identifier_test nt (js_get v ''consumerId'') \<and>
     same_value (js_get v ''targetDeviceId'') (fn_device f) \<and> identifier_test nt (js_get v ''environmentAuthorizationId'') \<and>
     digest_text (js_to_string nt (js_get v ''bindingDigest'')) \<and>
     list_all (\<lambda>k. identifier_test nt (js_get v k))
       [''mountId'', ''functionalityId'', ''resourceId'', ''principalId'', ''mountEpoch'', ''runGeneration'', ''assurance''] \<and>
     canonical_instant dp stamp (js_get v ''expiresAt'')"

definition valid_owner :: "(jsnum \<Rightarrow> string) \<Rightarrow> js \<Rightarrow> bool" where
  "valid_owner nt v \<longleftrightarrow>
     plain_exact v [''kind'', ''principalId'', ''credentialId''] \<and> js_get v ''kind'' = JStr ''owner'' \<and>
     identifier_test nt (js_get v ''principalId'') \<and> identifier_test nt (js_get v ''credentialId'')"

definition parse_raw :: "message \<Rightarrow> js option" where
  "parse_raw m = (case m of (n, Some v) \<Rightarrow> if n \<le> 16384 \<and> js_is_record v then Some v else None | _ \<Rightarrow> None)"

definition refresh_text :: "string \<Rightarrow> bool" where
  "refresh_text s \<longleftrightarrow>
     starts_with s ''rir_'' \<and> 20 \<le> length s \<and> length s \<le> 132 \<and> list_all (\<lambda>c. is_alnum_char c \<or> c \<in> set ''_-'') (drop 4 s)"

section \<open>State\<close>

record turn =
  tn_id :: nat
  tn_command :: js
  tn_handle :: js
  tn_generation :: nat
  tn_admission :: nat
  tn_fence :: fence
  tn_send :: nat
  tn_aborted :: bool
  tn_terminal :: bool

datatype inventory_state = Waiting | Observing fence nat | Resolved "js list option"

record proposal =
  pr_admission :: nat
  pr_fence :: fence
  pr_generation :: nat
  pr_send :: nat
  pr_refresh :: "js option"
  pr_state :: inventory_state

record handler =
  ch_generation :: nat
  ch_admitted :: "(nat \<times> fence) option"
  ch_send :: "nat option"
  ch_turns :: "turn list"
  ch_proposals :: "proposal list"
  ch_relay :: "relay option"
  ch_registry :: registry
  ch_counter :: nat
  ch_sent :: "(nat \<times> js) list"
  ch_closed :: "nat list"

definition max_turns :: nat where
  "max_turns = 8"

definition new_handler :: "bool \<Rightarrow> handler" where
  "new_handler extensions =
     \<lparr>ch_generation = 0, ch_admitted = None, ch_send = None, ch_turns = [], ch_proposals = [],
      ch_relay = (if extensions then Some new_relay else None), ch_registry = new_registry, ch_counter = 0,
      ch_sent = [], ch_closed = []\<rparr>"

definition create_handler :: "(jsnum \<Rightarrow> string) \<Rightarrow> js \<Rightarrow> bool \<Rightarrow> handler option" where
  "create_handler nt authority_scope extensions = (if valid_scope nt authority_scope then Some (new_handler extensions) else None)"

definition invalidate_handler :: "handler \<Rightarrow> handler" where
  "invalidate_handler h =
     h\<lparr>ch_generation := ch_generation h + 1, ch_turns := map (\<lambda>t. t\<lparr>tn_aborted := True\<rparr>) (ch_turns h),
       ch_relay := map_option invalidate_relay (ch_relay h), ch_registry := clear_live_mappings (ch_registry h),
       ch_admitted := None, ch_send := None\<rparr>"

text \<open>The close function belongs to the transport that was admitted.\<close>

definition fatal :: "nat \<Rightarrow> handler \<Rightarrow> handler" where
  "fatal g h =
     (if ch_generation h \<noteq> g then h
      else (invalidate_handler h)\<lparr>ch_closed := ch_closed h @ (case ch_send h of None \<Rightarrow> [] | Some t \<Rightarrow> [t])\<rparr>)"

definition send_frame :: "bool \<Rightarrow> nat \<Rightarrow> js \<Rightarrow> handler \<Rightarrow> handler" where
  "send_frame taken t frame h = (if taken then h\<lparr>ch_sent := ch_sent h @ [(t, frame)]\<rparr> else h)"

section \<open>Proposals\<close>

definition proposal_frame :: "proposal \<Rightarrow> js list \<Rightarrow> js" where
  "proposal_frame p sessions =
     JObj ([(''type'', JStr ''session.inventory.propose''), (''protocolVersion'', jint 1), (''fence'', fence_value (pr_fence p)),
            (''sessions'', JArr sessions), (''refreshCapability'', JStr ''correlated-v1'')] @
           (case pr_refresh p of None \<Rightarrow> [] | Some v \<Rightarrow> if truthy v then [(''refreshId'', v)] else []))"

definition propose :: "js option \<Rightarrow> nat \<Rightarrow> fence \<Rightarrow> nat \<Rightarrow> handler \<Rightarrow> handler" where
  "propose refresh a f t h =
     h\<lparr>ch_proposals := ch_proposals h @
        [\<lparr>pr_admission = a, pr_fence = f, pr_generation = ch_generation h, pr_send = t, pr_refresh = refresh, pr_state = Waiting\<rparr>]\<rparr>"

definition handler_admitted :: "(jsnum \<Rightarrow> string) \<Rightarrow> js \<Rightarrow> nat option \<Rightarrow> handler \<Rightarrow> handler" where
  "handler_admitted nt v transport h =
     (case transport of
        None \<Rightarrow> h
      | Some t \<Rightarrow>
          if \<not> handler_fence nt v then h
          else let a = ch_counter h;
                   h1 = (invalidate_handler h)\<lparr>ch_counter := a + 1, ch_admitted := Some (a, fence_of v), ch_send := Some t\<rparr>
               in case ch_relay h1 of
                    None \<Rightarrow> propose None a (fence_of v) t h1
                  | Some r \<Rightarrow>
                      (case relay_admitted v (Some t) r of
                         (True, r') \<Rightarrow> propose None a (fence_of v) t (h1\<lparr>ch_relay := Some r'\<rparr>)
                       | (False, r') \<Rightarrow> fatal (ch_generation h1) (h1\<lparr>ch_relay := Some r'\<rparr>)))"

definition same_admission :: "nat \<Rightarrow> nat \<Rightarrow> handler \<Rightarrow> bool" where
  "same_admission a t h \<longleftrightarrow> map_option fst (ch_admitted h) = Some a \<and> ch_send h = Some t"

definition drop_nth :: "nat \<Rightarrow> 'a list \<Rightarrow> 'a list" where
  "drop_nth i xs = take i xs @ drop (i + 1) xs"

text \<open>The inventories run one after the other, in the order of the proposals.\<close>

definition set_proposal :: "nat \<Rightarrow> inventory_state \<Rightarrow> registry \<Rightarrow> handler \<Rightarrow> handler" where
  "set_proposal i s r h = h\<lparr>ch_registry := r, ch_proposals := (ch_proposals h)[i := (ch_proposals h ! i)\<lparr>pr_state := s\<rparr>]\<rparr>"

definition is_resolved :: "inventory_state \<Rightarrow> bool" where
  "is_resolved s = (case s of Resolved _ \<Rightarrow> True | _ \<Rightarrow> False)"

definition first_unresolved :: "nat \<Rightarrow> handler \<Rightarrow> bool" where
  "first_unresolved i h \<longleftrightarrow>
     i < length (ch_proposals h) \<and> list_all (\<lambda>p. is_resolved (pr_state p)) (take i (ch_proposals h))"

definition proposal_begins :: "(jsnum \<Rightarrow> string) \<Rightarrow> nat \<Rightarrow> handler \<Rightarrow> handler" where
  "proposal_begins nt i h =
     (case assert_fence nt (fence_value (pr_fence (ch_proposals h ! i))) (ch_registry h) of
        (Inl e, r) \<Rightarrow> set_proposal i (Resolved None) r h
      | (Inr _, r) \<Rightarrow>
          set_proposal i (case sr_fence r of Some f \<Rightarrow> Observing f (sr_generation r) | None \<Rightarrow> Resolved None) r h)"

definition proposal_observes :: "(nat \<Rightarrow> string) \<Rightarrow> js option \<Rightarrow> nat \<Rightarrow> handler \<Rightarrow> handler" where
  "proposal_observes draw observed i h =
     (case (pr_state (ch_proposals h ! i), observed) of
        (Observing f g, Some v) \<Rightarrow>
          (case inventory_observed draw f g v (ch_registry h) of
             (Inl e, r) \<Rightarrow> set_proposal i (Resolved None) r h
           | (Inr sessions, r) \<Rightarrow> set_proposal i (Resolved (Some sessions)) r h)
      | _ \<Rightarrow> set_proposal i (Resolved None) (ch_registry h) h)"

definition proposal_current :: "proposal \<Rightarrow> handler \<Rightarrow> bool" where
  "proposal_current p h \<longleftrightarrow>
     ch_generation h = pr_generation p \<and> map_option snd (ch_admitted h) = Some (pr_fence p) \<and> ch_send h = Some (pr_send p)"

definition proposal_continues :: "bool \<Rightarrow> js list option \<Rightarrow> nat \<Rightarrow> handler \<Rightarrow> handler" where
  "proposal_continues taken result i h =
     (let p = ch_proposals h ! i;
          h1 = h\<lparr>ch_proposals := drop_nth i (ch_proposals h)\<rparr>
      in case result of
           Some sessions \<Rightarrow>
             if proposal_current p h
             then (if taken then send_frame True (pr_send p) (proposal_frame p sessions) h1 else fatal (pr_generation p) h1)
             else fatal (pr_generation p) h1
         | None \<Rightarrow> fatal (pr_generation p) h1)"

definition refresh_inventory :: "(jsnum \<Rightarrow> string) \<Rightarrow> js \<Rightarrow> handler \<Rightarrow> bool \<times> handler" where
  "refresh_inventory nt refresh h =
     (if ch_turns h \<noteq> [] then (True, h)
      else let h1 = h\<lparr>ch_generation := ch_generation h + 1\<rparr> in
           case (ch_admitted h, ch_send h) of
             (Some (a, f), Some t) \<Rightarrow>
               (case refresh_bindings nt (fence_value f) (ch_registry h) of
                  (Inl e, r) \<Rightarrow> (False, fatal (ch_generation h1) (h1\<lparr>ch_registry := r\<rparr>))
                | (Inr _, r) \<Rightarrow> (True, propose (Some refresh) a f t (h1\<lparr>ch_registry := r\<rparr>)))
           | _ \<Rightarrow> (False, h1))"

section \<open>Turns\<close>

definition launch_turn :: "js \<Rightarrow> handler \<Rightarrow> bool \<times> handler" where
  "launch_turn frame h =
     (case (ch_admitted h, ch_send h) of
        (Some (a, f), Some t) \<Rightarrow>
          if length (ch_turns h) \<ge> max_turns \<or> list_ex (\<lambda>u. same_value (tn_command u) (js_get frame ''commandId'')) (ch_turns h) \<or>
             list_ex (\<lambda>u. same_value (tn_handle u) (js_get frame ''sessionHandle'')) (ch_turns h)
          then (False, h)
          else (True, h\<lparr>ch_counter := ch_counter h + 1,
                        ch_turns := ch_turns h @
                          [\<lparr>tn_id = ch_counter h, tn_command = js_get frame ''commandId'', tn_handle = js_get frame ''sessionHandle'',
                            tn_generation = ch_generation h, tn_admission = a, tn_fence = f, tn_send = t,
                            tn_aborted = False, tn_terminal = False\<rparr>]\<rparr>)
      | _ \<Rightarrow> (False, h))"

definition terminal_receipt :: "turn \<Rightarrow> string \<Rightarrow> js" where
  "terminal_receipt t disposition =
     JObj [(''type'', JStr ''terminal.receipt''), (''protocolVersion'', jint 1), (''fence'', fence_value (tn_fence t)),
           (''commandId'', tn_command t), (''sessionHandle'', tn_handle t), (''disposition'', JStr disposition)]"

definition relay_safe_turn_event :: "js \<Rightarrow> turn \<Rightarrow> js" where
  "relay_safe_turn_event event t =
     (if js_get event ''type'' \<noteq> JStr ''protocol.error'' then event
      else terminal_receipt t
             (if js_get event ''code'' = JStr ''no_active_session'' \<or> js_get event ''code'' = JStr ''session_ended''
              then ''session_ended'' else ''post_ingress_indeterminate''))"

definition turn_current :: "turn \<Rightarrow> handler \<Rightarrow> bool" where
  "turn_current t h \<longleftrightarrow> ch_generation h = tn_generation t \<and> same_admission (tn_admission t) (tn_send t) h"

definition without_turn :: "turn \<Rightarrow> handler \<Rightarrow> handler" where
  "without_turn t h = h\<lparr>ch_turns := filter (\<lambda>u. tn_id u \<noteq> tn_id t) (ch_turns h)\<rparr>"

definition turn_finally :: "bool \<Rightarrow> turn \<Rightarrow> handler \<Rightarrow> handler" where
  "turn_finally taken t h =
     without_turn t
       (if \<not> tn_terminal t \<and> turn_current t h
        then (if taken then send_frame True (tn_send t) (terminal_receipt t ''post_ingress_indeterminate'') h
              else fatal (tn_generation t) h)
        else h)"

definition set_turn :: "turn \<Rightarrow> handler \<Rightarrow> handler" where
  "set_turn t h = h\<lparr>ch_turns := map (\<lambda>u. if tn_id u = tn_id t then t else u) (ch_turns h)\<rparr>"

definition turn_event :: "(nat \<Rightarrow> bool) \<Rightarrow> js \<Rightarrow> turn \<Rightarrow> handler \<Rightarrow> handler" where
  "turn_event ans event t h =
     (let outbound = relay_safe_turn_event event t in
      if \<not> turn_current t h then turn_finally (ans 1) t h
      else if ans 0
      then set_turn (t\<lparr>tn_terminal := (tn_terminal t \<or> js_get outbound ''type'' = JStr ''terminal.receipt'')\<rparr>)
             (send_frame True (tn_send t) outbound h)
      else turn_finally (ans 1) t (fatal (tn_generation t) h))"

section \<open>Receiving\<close>

definition turn_request_ok :: "(jsnum \<Rightarrow> string) \<Rightarrow> js \<Rightarrow> bool" where
  "turn_request_ok nt frame \<longleftrightarrow>
     plain_exact frame [''type'', ''protocolVersion'', ''fence'', ''commandId'', ''sessionHandle'', ''message''] \<and>
     identifier_test nt (js_get frame ''commandId'') \<and> handle_test nt (js_get frame ''sessionHandle'') \<and>
     (case js_get frame ''message'' of JStr s \<Rightarrow> 1 \<le> text_bytes s \<and> text_bytes s \<le> 8192 | _ \<Rightarrow> False)"

definition cancel_turn :: "(jsnum \<Rightarrow> string) \<Rightarrow> js \<Rightarrow> handler \<Rightarrow> bool \<times> handler" where
  "cancel_turn nt frame h =
     (if \<not> plain_exact frame [''type'', ''protocolVersion'', ''fence'', ''commandId'', ''sessionHandle''] \<or>
         \<not> identifier_test nt (js_get frame ''commandId'') \<or> \<not> handle_test nt (js_get frame ''sessionHandle'')
      then (False, h)
      else case find (\<lambda>u. same_value (tn_command u) (js_get frame ''commandId'')) (ch_turns h) of
             None \<Rightarrow> (False, h)
           | Some t \<Rightarrow>
               if tn_generation t \<noteq> ch_generation h \<or> \<not> same_value (tn_handle t) (js_get frame ''sessionHandle'') then (False, h)
               else (True, set_turn (t\<lparr>tn_aborted := True\<rparr>) h))"

definition approval_ok :: "(jsnum \<Rightarrow> string) \<Rightarrow> (string \<Rightarrow> jsnum) \<Rightarrow> (rat \<Rightarrow> string) \<Rightarrow> js \<Rightarrow> fence \<Rightarrow> bool" where
  "approval_ok nt dp stamp frame f \<longleftrightarrow>
     plain_exact frame [''type'', ''protocolVersion'', ''fence'', ''sessionHandle'', ''authority'', ''disposition'',
       ''decisionIdempotencyKey'', ''decider'', ''resolutionId''] \<and>
     handle_test nt (js_get frame ''sessionHandle'') \<and> valid_authority nt dp stamp (js_get frame ''authority'') f \<and>
     js_get frame ''disposition'' \<in> {JStr ''allow'', JStr ''deny''} \<and>
     identifier_test nt (js_get frame ''decisionIdempotencyKey'') \<and> valid_owner nt (js_get frame ''decider'') \<and>
     identifier_test nt (js_get frame ''resolutionId'')"

definition bind_sessions :: "(jsnum \<Rightarrow> string) \<Rightarrow> js \<Rightarrow> fence \<Rightarrow> handler \<Rightarrow> bool \<times> handler" where
  "bind_sessions nt frame f h =
     (let sessions = js_get frame ''sessions'' in
      if \<not> plain_exact frame [''type'', ''protocolVersion'', ''fence'', ''sessions''] \<or> \<not> js_is_arr sessions \<or>
         length (js_elems sessions) > 32
      then (False, h)
      else case bind_handles nt (fence_value f) sessions (ch_registry h) of
             (res, r) \<Rightarrow> (is_ok res, h\<lparr>ch_registry := r\<rparr>))"

definition relay_lane :: "(jsnum \<Rightarrow> string) \<Rightarrow> (nat \<Rightarrow> bool) \<Rightarrow> message \<Rightarrow> handler \<Rightarrow> bool \<times> handler" where
  "relay_lane nt ans m h =
     (case ch_relay h of
        None \<Rightarrow> (False, h)
      | Some r \<Rightarrow> (case relay_receive nt ans m r of (b, r') \<Rightarrow> (b, h\<lparr>ch_relay := Some r'\<rparr>)))"

text \<open>\<open>approves\<close> is the answer of the adapter to an approval.\<close>

definition handler_receive ::
    "(jsnum \<Rightarrow> string) \<Rightarrow> (string \<Rightarrow> jsnum) \<Rightarrow> (rat \<Rightarrow> string) \<Rightarrow> (nat \<Rightarrow> bool) \<Rightarrow> bool \<Rightarrow> message \<Rightarrow> handler \<Rightarrow> bool \<times> handler" where
  "handler_receive nt dp stamp ans approves m h =
     (case (parse_raw m, ch_admitted h) of
        (Some frame, Some (a, f)) \<Rightarrow>
          let kind = js_get frame ''type'' in
          if \<not> handler_fence nt (js_get frame ''fence'') \<or> \<not> same_fence (js_get frame ''fence'') f \<or>
             js_get frame ''protocolVersion'' \<noteq> jint 1 then (False, h)
          else if (case kind of JStr s \<Rightarrow> starts_with s ''host_extension.'' | _ \<Rightarrow> False) then relay_lane nt ans m h
          else if kind = JStr ''heartbeat'' then
            (plain_exact frame [''type'', ''protocolVersion'', ''fence'', ''sequence''] \<and> js_int_between 0 max_safe_integer (js_get frame ''sequence''), h)
          else if kind = JStr ''session.inventory.request'' then
            (if plain_exact frame [''type'', ''protocolVersion'', ''fence'', ''refreshId''] \<and>
                refresh_text (js_to_string nt (js_get frame ''refreshId''))
             then refresh_inventory nt (js_get frame ''refreshId'') h else (False, h))
          else if kind = JStr ''session.inventory.bind'' then bind_sessions nt frame f h
          else if kind = JStr ''turn.request'' then (if turn_request_ok nt frame then launch_turn frame h else (False, h))
          else if kind = JStr ''turn.cancel'' then cancel_turn nt frame h
          else if kind = JStr ''approval.decision'' then (approval_ok nt dp stamp frame f \<and> approves, h)
          else if kind = JStr ''device.revoked'' then
            (if plain_exact frame [''type'', ''protocolVersion'', ''fence'', ''reason''] \<and>
                js_get frame ''reason'' \<in> {JStr ''revoked'', JStr ''fence_changed''}
             then (False, invalidate_handler h) else (False, h))
          else (False, h)
      | _ \<Rightarrow> (False, h))"

section \<open>Steps\<close>

text \<open>The relay and the adapter also act on their own: local endpoints register, tasks of the relay go
  on, the adapter looks native sessions up and ends them.\<close>

inductive handler_step ::
    "(jsnum \<Rightarrow> string) \<Rightarrow> (string \<Rightarrow> jsnum) \<Rightarrow> (rat \<Rightarrow> string) \<Rightarrow> handler \<Rightarrow> handler \<Rightarrow> bool" for nt dp stamp where
  transport_admitted: "handler_step nt dp stamp h (handler_admitted nt v transport h)"
| inventory_begun: "first_unresolved i h \<Longrightarrow> pr_state (ch_proposals h ! i) = Waiting \<Longrightarrow>
    handler_step nt dp stamp h (proposal_begins nt i h)"
| inventory_answered: "first_unresolved i h \<Longrightarrow> pr_state (ch_proposals h ! i) = Observing f g \<Longrightarrow>
    handler_step nt dp stamp h (proposal_observes draw observed i h)"
| proposal_ended: "i < length (ch_proposals h) \<Longrightarrow> pr_state (ch_proposals h ! i) = Resolved result \<Longrightarrow>
    handler_step nt dp stamp h (proposal_continues taken result i h)"
| frame_received: "handler_step nt dp stamp h (snd (handler_receive nt dp stamp ans approves m h))"
| turn_reported: "t \<in> set (ch_turns h) \<Longrightarrow> handler_step nt dp stamp h (turn_event ans event t h)"
| turn_ended: "t \<in> set (ch_turns h) \<Longrightarrow> handler_step nt dp stamp h (turn_finally taken t h)"
| transport_lost: "handler_step nt dp stamp h (invalidate_handler h)"
| endpoint_registered: "ch_relay h = Some r \<Longrightarrow>
    handler_step nt dp stamp h (h\<lparr>ch_relay := Some (snd (relay_register ans m dispatches allow_existing r))\<rparr>)"
| extension_reported: "ch_relay h = Some r \<Longrightarrow> i < length (rl_tasks r) \<Longrightarrow>
    handler_step nt dp stamp h (h\<lparr>ch_relay := Some (task_reports nt ans payload i r)\<rparr>)"
| extension_ended: "ch_relay h = Some r \<Longrightarrow> i < length (rl_tasks r) \<Longrightarrow> d \<in> {''delivered'', ''post_ingress_indeterminate''} \<Longrightarrow>
    handler_step nt dp stamp h (h\<lparr>ch_relay := Some (end_task ans 0 d i r)\<rparr>)"
| adapter_looked_up: "native_session_id_for_handle nt v handle (ch_registry h) = (found, r) \<Longrightarrow>
    handler_step nt dp stamp h (h\<lparr>ch_registry := r\<rparr>)"
| native_session_ended: "end_native_session n (ch_registry h) = (b, r) \<Longrightarrow>
    handler_step nt dp stamp h (h\<lparr>ch_registry := r\<rparr>)"

definition handler_start :: "handler \<Rightarrow> bool" where
  "handler_start h \<longleftrightarrow> h \<in> range new_handler"

section \<open>What the relay keeps\<close>

lemma send_frames_link:
  assumes "send_frames ans k t fs r = (b, r')"
  shows "rl_send r' = rl_send r"
  using send_frames_state [OF assms] by auto

lemma end_task_link: "rl_send (end_task ans k d i r) = rl_send r"
  unfolding end_task_def Let_def
  by (auto simp: notify_terminal_def dest: send_frames_link split: prod.splits bool.splits)

lemma reports_link: "rl_send (task_reports nt ans payload i r) = rl_send r"
  unfolding task_reports_def Let_def
  by (auto simp: end_task_link dest: send_frames_link split: prod.splits bool.splits)

lemma register_link: "rl_send (snd (relay_register ans m dispatches allow_existing r)) = rl_send r"
  unfolding relay_register_def Let_def
  by (auto dest: send_frames_link split: option.splits prod.splits bool.splits)

lemma outcome_link: "rl_send (snd (send_outcome ans reason request r)) = rl_send r"
  unfolding send_outcome_def Let_def
  by (auto simp: send_frames_link [OF prod.collapse [symmetric]] split: option.splits)

lemma receive_link: "rl_send (snd (relay_receive nt ans m r)) = rl_send r"
  unfolding relay_receive_def Let_def
  by (auto simp: outcome_link start_task_def Let_def split: option.splits)

section \<open>The invariant\<close>

definition turns_inv :: "turn list \<Rightarrow> nat \<Rightarrow> bool" where
  "turns_inv ts n \<longleftrightarrow>
     length ts \<le> max_turns \<and> distinct (map tn_id ts) \<and>
     (\<forall>t \<in> set ts. tn_id t < n \<and>
        (\<forall>u \<in> set ts. tn_id u \<noteq> tn_id t \<longrightarrow>
           \<not> same_value (tn_command t) (tn_command u) \<and> \<not> same_value (tn_handle t) (tn_handle u)))"

definition link_inv :: "handler \<Rightarrow> bool" where
  "link_inv h \<longleftrightarrow>
     (ch_send h = None \<longleftrightarrow> ch_admitted h = None) \<and>
     (\<forall>r. ch_relay h = Some r \<longrightarrow> rl_send r = ch_send h \<and> relay_inv r)"

definition handler_inv :: "handler \<Rightarrow> bool" where
  "handler_inv h \<longleftrightarrow> turns_inv (ch_turns h) (ch_counter h) \<and> link_inv h \<and> registry_inv (ch_registry h)"

text \<open>The frames that have reached a transport, those of the handler and those of the relay.\<close>

definition traffic :: "nat \<Rightarrow> handler \<Rightarrow> (nat \<times> js) list" where
  "traffic t h = filter (\<lambda>(u, _). u = t) (ch_sent h @ (case ch_relay h of None \<Rightarrow> [] | Some r \<Rightarrow> rl_sent r))"

lemma same_value_sym: "same_value a b \<longleftrightarrow> same_value b a"
  by (auto simp: same_value_def)

lemma turns_inv_map:
  assumes "turns_inv ts n"
    and "\<And>t. t \<in> set ts \<Longrightarrow> tn_id (g t) = tn_id t \<and> tn_command (g t) = tn_command t \<and> tn_handle (g t) = tn_handle t"
  shows "turns_inv (map g ts) n"
proof -
  have "map (tn_id \<circ> g) ts = map tn_id ts" using assms(2) by simp
  with assms show ?thesis by (simp add: turns_inv_def del: map_eq_conv)
qed

lemma turns_inv_filter: "turns_inv ts n \<Longrightarrow> turns_inv (filter P ts) n"
  by (auto simp: turns_inv_def distinct_map_filter intro: order_trans [OF length_filter_le])

lemma turns_inv_set:
  assumes "turns_inv ts n" and "t \<in> set ts"
    and "tn_id t' = tn_id t" "tn_command t' = tn_command t" "tn_handle t' = tn_handle t"
  shows "turns_inv (map (\<lambda>u. if tn_id u = tn_id t' then t' else u) ts) n"
proof (rule turns_inv_map [OF assms(1)])
  fix u assume "u \<in> set ts"
  moreover have "inj_on tn_id (set ts)" using assms(1) by (simp add: turns_inv_def distinct_map)
  ultimately have "u = t" if "tn_id u = tn_id t" using that assms(2) by (meson inj_onD)
  with assms(3-5) show "tn_id (if tn_id u = tn_id t' then t' else u) = tn_id u \<and>
      tn_command (if tn_id u = tn_id t' then t' else u) = tn_command u \<and>
      tn_handle (if tn_id u = tn_id t' then t' else u) = tn_handle u"
    by auto
qed

lemma turns_inv_new:
  assumes "turns_inv ts n" and "length ts < max_turns" and "tn_id t = n"
    and "\<not> list_ex (\<lambda>u. same_value (tn_command u) (tn_command t)) ts"
    and "\<not> list_ex (\<lambda>u. same_value (tn_handle u) (tn_handle t)) ts"
  shows "turns_inv (ts @ [t]) (n + 1)"
proof -
  have "\<not> same_value (tn_command t) (tn_command u) \<and> \<not> same_value (tn_command u) (tn_command t) \<and>
        \<not> same_value (tn_handle t) (tn_handle u) \<and> \<not> same_value (tn_handle u) (tn_handle t)" if "u \<in> set ts" for u
    using assms(4,5) that same_value_sym unfolding list_ex_iff by blast
  moreover have "tn_id u < n" if "u \<in> set ts" for u using assms(1) that by (simp add: turns_inv_def)
  then have "tn_id u \<noteq> n" if "u \<in> set ts" for u using that by blast
  ultimately show ?thesis
    using assms(1-3) by (auto simp: turns_inv_def less_Suc_eq)
qed

section \<open>What every operation keeps\<close>

text \<open>An operation is tame when it keeps the invariant and sends only to the admitted transport.\<close>

definition tame :: "handler \<Rightarrow> handler \<Rightarrow> bool" where
  "tame h h' \<longleftrightarrow> (handler_inv h \<longrightarrow> handler_inv h') \<and>
     (\<forall>t. link_inv h \<longrightarrow> ch_send h \<noteq> Some t \<longrightarrow> traffic t h' = traffic t h)"

lemma tame_refl [simp]: "tame h h"
  by (simp add: tame_def)

lemma tameI:
  assumes "turns_inv (ch_turns h) (ch_counter h) \<Longrightarrow> turns_inv (ch_turns h') (ch_counter h')"
    and "link_inv h \<Longrightarrow> link_inv h'" and "keeps (ch_registry h) (ch_registry h')"
    and "\<And>t. link_inv h \<Longrightarrow> ch_send h \<noteq> Some t \<Longrightarrow> traffic t h' = traffic t h"
  shows "tame h h'"
  using assms by (auto simp: tame_def handler_inv_def keeps_def)

text \<open>Operations that touch neither the link nor the history.\<close>

lemma tame_local:
  assumes "ch_send h' = ch_send h" "ch_admitted h' = ch_admitted h" "ch_relay h' = ch_relay h" "ch_sent h' = ch_sent h"
    and "turns_inv (ch_turns h) (ch_counter h) \<Longrightarrow> turns_inv (ch_turns h') (ch_counter h')"
    and "keeps (ch_registry h) (ch_registry h')"
  shows "tame h h'"
  using assms by (intro tameI) (simp_all add: link_inv_def traffic_def)

lemma tame_trans:
  assumes "tame h h'" "tame h' h''" "link_inv h \<Longrightarrow> link_inv h'" "ch_send h' = ch_send h \<or> ch_send h' = None"
  shows "tame h h''"
  using assms unfolding tame_def by (metis option.discI)

lemma tame_invalidate: "tame h (invalidate_handler h)"
proof (rule tameI)
  show "turns_inv (ch_turns h) (ch_counter h) \<Longrightarrow>
      turns_inv (ch_turns (invalidate_handler h)) (ch_counter (invalidate_handler h))"
    by (auto simp: invalidate_handler_def intro: turns_inv_map)
  show "link_inv h \<Longrightarrow> link_inv (invalidate_handler h)"
    by (auto simp: invalidate_handler_def link_inv_def invalidate_inv)
  show "traffic t (invalidate_handler h) = traffic t h" for t
    by (simp add: invalidate_handler_def traffic_def split: option.split)
qed (simp add: invalidate_handler_def)

lemma tame_closed: "tame h (h'\<lparr>ch_closed := c\<rparr>) = tame h h'"
proof -
  have "handler_inv (h'\<lparr>ch_closed := c\<rparr>) = handler_inv h'" "traffic t (h'\<lparr>ch_closed := c\<rparr>) = traffic t h'" for t
    by (simp_all add: handler_inv_def link_inv_def traffic_def)
  then show ?thesis by (simp only: tame_def)
qed

lemma tame_proposed: "tame h (propose refresh a f t h') = tame h h'"
proof -
  have "handler_inv (propose refresh a f t h') = handler_inv h'" "traffic u (propose refresh a f t h') = traffic u h'" for u
    by (simp_all add: propose_def handler_inv_def link_inv_def traffic_def)
  then show ?thesis by (simp only: tame_def)
qed

lemma tame_fatal: "tame h (fatal g h)"
  by (cases "ch_generation h = g") (simp_all add: fatal_def tame_closed tame_invalidate)

lemma link_fatal: "link_inv h \<Longrightarrow> link_inv (fatal g h)"
  by (auto simp: fatal_def invalidate_handler_def link_inv_def invalidate_inv)

lemma tame_send: "ch_send h = Some t \<Longrightarrow> tame h (send_frame taken t frame h)"
  by (rule tameI) (auto simp: send_frame_def link_inv_def traffic_def)

lemma send_frame_fields [simp]:
  "ch_send (send_frame b t x h) = ch_send h" "ch_admitted (send_frame b t x h) = ch_admitted h"
  "ch_relay (send_frame b t x h) = ch_relay h" "ch_turns (send_frame b t x h) = ch_turns h"
  "ch_counter (send_frame b t x h) = ch_counter h" "ch_registry (send_frame b t x h) = ch_registry h"
  "ch_generation (send_frame b t x h) = ch_generation h"
  by (simp_all add: send_frame_def)

lemma link_send [simp]: "link_inv (send_frame b t x h) = link_inv h"
  by (simp add: link_inv_def)

lemma fatal_turns: "u \<in> set (ch_turns (fatal g h)) \<Longrightarrow> \<exists>v \<in> set (ch_turns h). u = v \<or> u = v\<lparr>tn_aborted := True\<rparr>"
  by (auto simp: fatal_def invalidate_handler_def split: if_splits)

lemma tame_propose: "tame h (propose refresh a f t h)"
  by (simp only: tame_proposed tame_refl)

lemma tame_admitted: "tame h (handler_admitted nt v transport h)"
proof (cases transport)
  case (Some t)
  show ?thesis
  proof (cases "handler_fence nt v")
    case True
    let ?h1 = "(invalidate_handler h)\<lparr>ch_counter := ch_counter h + 1, ch_admitted := Some (ch_counter h, fence_of v), ch_send := Some t\<rparr>"
    have turns: "turns_inv ts n \<Longrightarrow> turns_inv ts (n + 1)" for ts n by (auto simp: turns_inv_def less_Suc_eq)
    have turns1: "turns_inv (ch_turns h) (ch_counter h) \<Longrightarrow> turns_inv (ch_turns ?h1) (ch_counter ?h1)"
      using turns [OF turns_inv_map [of "ch_turns h" "ch_counter h" "\<lambda>t. t\<lparr>tn_aborted := True\<rparr>"]]
      by (simp add: invalidate_handler_def)
    show ?thesis
    proof (cases "ch_relay h")
      case None
      then have "tame h ?h1"
        by (intro tameI turns1) (simp_all add: invalidate_handler_def link_inv_def traffic_def)
      then have "tame h (propose None (ch_counter h) (fence_of v) t ?h1)"
        by (simp only: tame_proposed)
      with True Some None show ?thesis
        by (simp add: handler_admitted_def Let_def invalidate_handler_def)
    next
      case relay: (Some r)
      have h1: "ch_relay (invalidate_handler h) = Some (invalidate_relay r)" by (simp add: invalidate_handler_def relay)
      show ?thesis
      proof (cases "strict_fence v")
        case strict: True
        define r' where "r' = (invalidate_relay (invalidate_relay r))\<lparr>rl_fence := Some (fence_of v), rl_send := Some t\<rparr>"
        have "relay_inv r \<Longrightarrow> relay_inv r'"
          unfolding r'_def by (rule relay_inv_cong [OF invalidate_inv [OF invalidate_inv]]) simp_all
        then have "tame h (?h1\<lparr>ch_relay := Some r'\<rparr>)"
          using turns1 by (intro tameI) (simp_all add: invalidate_handler_def link_inv_def traffic_def relay r'_def)
        then have "tame h (propose None (ch_counter h) (fence_of v) t (?h1\<lparr>ch_relay := Some r'\<rparr>))"
          by (simp only: tame_proposed)
        moreover have "relay_admitted v (Some t) (invalidate_relay r) = (True, r')"
          by (simp add: relay_admitted_def strict r'_def)
        ultimately show ?thesis
          using True Some by (simp add: handler_admitted_def Let_def h1)
      next
        case False
        have "turns_inv (ch_turns h) (ch_counter h) \<Longrightarrow>
            turns_inv (ch_turns (invalidate_handler ?h1)) (ch_counter (invalidate_handler ?h1))"
          using turns1 turns_inv_map [of "ch_turns ?h1" "ch_counter ?h1" "\<lambda>t. t\<lparr>tn_aborted := True\<rparr>"]
          by (simp add: invalidate_handler_def)
        then have "tame h (invalidate_handler ?h1)"
          by (intro tameI) (simp_all add: invalidate_handler_def link_inv_def traffic_def relay invalidate_inv
            keeps_trans [OF keeps_clear keeps_clear])
        moreover have "invalidate_handler (?h1\<lparr>ch_relay := Some (invalidate_relay r)\<rparr>) = invalidate_handler ?h1"
          by (simp add: invalidate_handler_def relay)
        ultimately show ?thesis
          using True Some False by (simp add: handler_admitted_def Let_def h1 relay_admitted_def fatal_def tame_closed)
      qed
    qed
  qed (simp add: handler_admitted_def Some)
qed (simp add: handler_admitted_def)

lemma tame_begins: "tame h (proposal_begins nt i h)"
  by (rule tame_local)
    (auto simp: proposal_begins_def set_proposal_def intro: keeps_assert_fence split: prod.splits sum.splits)

lemma tame_observes: "tame h (proposal_observes draw observed i h)"
  by (rule tame_local)
    (auto simp: proposal_observes_def set_proposal_def intro: keeps_inventory
      split: prod.splits sum.splits inventory_state.splits option.splits)

lemma tame_continues: "tame h (proposal_continues taken result i h)"
proof -
  let ?h1 = "h\<lparr>ch_proposals := drop_nth i (ch_proposals h)\<rparr>" and ?p = "ch_proposals h ! i"
  have first: "tame h ?h1" by (rule tame_local) simp_all
  have link: "link_inv h \<Longrightarrow> link_inv ?h1" by (simp add: link_inv_def)
  have "tame h (fatal g ?h1)" for g
    by (rule tame_trans [OF first tame_fatal link]) simp_all
  moreover have "tame h (send_frame b (pr_send ?p) f ?h1)" if "proposal_current ?p h" for b f
    by (rule tame_trans [OF first tame_send link]) (use that in \<open>simp_all add: proposal_current_def\<close>)
  ultimately show ?thesis
    by (simp add: proposal_continues_def Let_def split: option.split)
qed

lemma tame_refresh: "tame h (snd (refresh_inventory nt refresh h))"
proof -
  have "keeps (ch_registry h) r" if "refresh_bindings nt v (ch_registry h) = (res, r)" for v res r
    using that unfolding refresh_bindings_def by (rule keeps_after_fence) (auto simp: keeps_unbound)
  then have first: "tame h (h\<lparr>ch_generation := g, ch_registry := r\<rparr>)" if "refresh_bindings nt v (ch_registry h) = (res, r)" for v res r g
    using that by (intro tame_local) simp_all
  have link: "link_inv h \<Longrightarrow> link_inv (h\<lparr>ch_generation := g, ch_registry := r\<rparr>)" for g r by (simp add: link_inv_def)
  have bumped: "tame h (h\<lparr>ch_generation := g\<rparr>)" for g by (rule tame_local) simp_all
  have "tame h (fatal g' (h\<lparr>ch_generation := g, ch_registry := r\<rparr>))"
    if "refresh_bindings nt v (ch_registry h) = (res, r)" for v res r g g'
    by (rule tame_trans [OF first [OF that] tame_fatal link]) simp_all
  moreover have "tame h (propose x a f t (h\<lparr>ch_generation := g, ch_registry := r\<rparr>))"
    if "refresh_bindings nt v (ch_registry h) = (res, r)" for v res r g x a f t
    by (rule tame_trans [OF first [OF that] tame_propose link]) simp_all
  ultimately show ?thesis
    by (auto simp: refresh_inventory_def Let_def bumped split: prod.splits sum.splits option.splits)
qed

lemma tame_launch: "tame h (snd (launch_turn frame h))"
proof -
  have "tame h (h\<lparr>ch_counter := ch_counter h + 1, ch_turns := ch_turns h @ [u]\<rparr>)"
    if "\<not> length (ch_turns h) \<ge> max_turns" "tn_id u = ch_counter h"
      "\<not> list_ex (\<lambda>w. same_value (tn_command w) (tn_command u)) (ch_turns h)"
      "\<not> list_ex (\<lambda>w. same_value (tn_handle w) (tn_handle u)) (ch_turns h)" for u
    by (rule tame_local) (use that in \<open>auto intro: turns_inv_new [simplified]\<close>)
  then show ?thesis
    by (auto simp: launch_turn_def split: option.splits)
qed

lemma tame_without: "tame h (without_turn t h)"
  by (rule tame_local) (simp_all add: without_turn_def turns_inv_filter)

lemma tame_finally: "tame h (turn_finally taken t h)"
proof -
  have "tame h (without_turn t (send_frame b (tn_send t) f h))" if "turn_current t h" for b f
    by (rule tame_trans [OF tame_send tame_without])
      (use that in \<open>simp_all add: turn_current_def same_admission_def\<close>)
  moreover have "tame h (without_turn t (fatal g h))" for g
    by (rule tame_trans [OF tame_fatal tame_without link_fatal]) (simp_all add: fatal_def invalidate_handler_def)
  ultimately show ?thesis by (simp add: turn_finally_def tame_without)
qed

lemma tame_set_turn:
  assumes "t \<in> set (ch_turns h)" and "tn_id t' = tn_id t" "tn_command t' = tn_command t" "tn_handle t' = tn_handle t"
  shows "tame h (set_turn t' h)"
  by (rule tame_local) (simp_all add: set_turn_def turns_inv_set [OF _ assms, unfolded assms(2)] assms(2))

lemma tame_event:
  assumes "t \<in> set (ch_turns h)"
  shows "tame h (turn_event ans event t h)"
proof -
  have "tame h (set_turn (t\<lparr>tn_terminal := b\<rparr>) (send_frame True (tn_send t) f h))" if "turn_current t h" for b f
    by (rule tame_trans [OF tame_send tame_set_turn])
      (use that assms in \<open>simp_all add: turn_current_def same_admission_def\<close>)
  moreover have "tame h (turn_finally b t (fatal g h))" for b g
    by (rule tame_trans [OF tame_fatal tame_finally link_fatal]) (simp_all add: fatal_def invalidate_handler_def)
  ultimately show ?thesis by (simp add: turn_event_def Let_def tame_finally)
qed

lemma tame_cancel: "tame h (snd (cancel_turn nt frame h))"
  by (auto simp: cancel_turn_def find_Some_iff intro!: tame_set_turn [OF nth_mem] split: option.splits)

lemma tame_bind: "tame h (snd (bind_sessions nt frame f h))"
proof -
  have "keeps (ch_registry h) r" if "bind_handles nt v b (ch_registry h) = (res, r)" for v b res r
    using that unfolding bind_handles_def by (rule keeps_after_fence) (rule keeps_bind)
  then show ?thesis by (auto simp: bind_sessions_def Let_def intro: tame_local split: prod.split)
qed

text \<open>A step of the relay alone.\<close>

lemma tame_relay:
  assumes "ch_relay h = Some r" and "relay_step nt r r'" and "rl_send r' = rl_send r"
  shows "tame h (h\<lparr>ch_relay := Some r'\<rparr>)"
proof (rule tameI)
  show "link_inv h \<Longrightarrow> link_inv (h\<lparr>ch_relay := Some r'\<rparr>)"
    using assms relay_step_inv by (auto simp: link_inv_def)
  fix t assume "link_inv h" "ch_send h \<noteq> Some t"
  with assms(1) have "rl_send r \<noteq> Some t" by (auto simp: link_inv_def)
  with relay_step_sends [OF assms(2)] obtain new where "rl_sent r' = rl_sent r @ new" "list_all (\<lambda>(u, _). u \<noteq> t) new"
    by (force simp: sent_now_def list_all_iff)
  then show "traffic t (h\<lparr>ch_relay := Some r'\<rparr>) = traffic t h"
    using assms(1) by (auto simp: traffic_def list_all_iff filter_empty_conv)
qed simp_all

lemma tame_lane: "tame h (snd (relay_lane nt ans m h))"
proof (cases "ch_relay h")
  case (Some r)
  with tame_relay [OF Some relay_receives receive_link] show ?thesis
    by (simp add: relay_lane_def case_prod_unfold)
qed (simp add: relay_lane_def)

lemmas tame_operations = tame_refresh tame_launch tame_cancel tame_bind tame_lane tame_invalidate

lemma tame_receive: "tame h (snd (handler_receive nt dp stamp ans approves m h))"
  unfolding handler_receive_def Let_def
  by (auto simp: tame_operations split: option.splits)

lemma handler_step_tame: "handler_step nt dp stamp h h' \<Longrightarrow> tame h h'"
proof (induction rule: handler_step.induct)
  case (adapter_looked_up v handle h found r)
  then have "keeps (ch_registry h) r" unfolding native_session_id_for_handle_def by (auto elim!: keeps_after_fence)
  then show ?case by (intro tame_local) simp_all
next
  case (native_session_ended n h b r)
  then have "keeps (ch_registry h) r" by (auto simp: end_native_session_def intro: keeps_trans keeps_generation keeps_release)
  then show ?case by (intro tame_local) simp_all
next
  case (endpoint_registered h r ans m dispatches allow_existing)
  then show ?case by (rule tame_relay [OF _ relay_registers register_link])
next
  case (extension_reported h r i ans payload)
  then show ?case by (intro tame_relay [OF _ relay_reports reports_link])
next
  case (extension_ended h r i d ans)
  then show ?case by (intro tame_relay [OF _ relay_finishes end_task_link])
qed (simp_all add: tame_admitted tame_begins tame_observes tame_continues tame_receive tame_event tame_finally tame_invalidate)

interpretation connector: guarded_system handler_start "handler_step nt dp stamp" handler_inv for nt dp stamp
proof
  show "handler_inv h" if "handler_start h" for h
  proof -
    have "relay_inv new_relay" by (rule host_relay.inv_start) (simp add: relay_start_def)
    moreover have "registry_inv new_registry" by (simp add: new_registry_def registry_inv_def alias_pool_def)
    moreover have "rl_send new_relay = None" by (simp add: new_relay_def)
    ultimately show ?thesis
      using that by (auto simp: handler_start_def new_handler_def handler_inv_def turns_inv_def link_inv_def
          simp del: if_split_asm split: if_splits)
  qed
  show "handler_inv h'" if "handler_inv h" and "handler_step nt dp stamp h h'" for h h'
    using handler_step_tame [OF that(2)] that(1) by (simp add: tame_def)
qed

section \<open>Properties\<close>

text \<open>C7. A lost transport hears nothing.  From any reachable state, once a transport is lost or its
  device revoked, neither the connector nor the host extension lane behind it puts another frame on
  that transport until it is admitted again, whatever turns, inventories and extension tasks are
  still running and however their ends interleave with other transports.\<close>

theorem lost_transport_hears_nothing:
  assumes "reach handler_start (handler_step nt dp stamp) h"
    and "(\<lambda>a b. handler_step nt dp stamp a b \<and> ch_send b \<noteq> Some t)\<^sup>*\<^sup>* (invalidate_handler h) h'"
  shows "traffic t h' = traffic t h"
proof -
  have start: "handler_inv (invalidate_handler h)" "traffic t (invalidate_handler h) = traffic t h"
  proof -
    have "handler_inv h" by (rule connector.reachable_inv [OF assms(1)])
    then show "handler_inv (invalidate_handler h)" using tame_invalidate by (simp add: tame_def)
    show "traffic t (invalidate_handler h) = traffic t h"
      by (simp add: invalidate_handler_def traffic_def split: option.split)
  qed
  from assms(2) have "handler_inv h' \<and> ch_send h' \<noteq> Some t \<and> traffic t h' = traffic t h"
  proof (induction rule: rtranclp_induct)
    case base
    with start show ?case by (simp add: invalidate_handler_def)
  next
    case (step a b)
    with handler_step_tame [of nt dp stamp a b] show ?case by (simp add: tame_def handler_inv_def)
  qed
  then show ?thesis by blast
qed

text \<open>Eight turns, each on its own command and session.  However frames, events, ends, losses and
  readmissions interleave, at most eight turns are in flight, no two of them answer to the same
  command or address the same session, and the host extension lane is admitted to exactly the
  transport the connector is admitted to.\<close>

theorem turns_in_flight:
  assumes "reach handler_start (handler_step nt dp stamp) h"
  shows "length (ch_turns h) \<le> 8 \<and>
    (\<forall>t \<in> set (ch_turns h). \<forall>u \<in> set (ch_turns h).
       same_value (tn_command t) (tn_command u) \<or> same_value (tn_handle t) (tn_handle u) \<longrightarrow> t = u) \<and>
    (\<forall>r. ch_relay h = Some r \<longrightarrow> rl_send r = ch_send h)"
proof -
  have inv: "handler_inv h" by (rule connector.reachable_inv [OF assms])
  then have "inj_on tn_id (set (ch_turns h))" by (simp add: handler_inv_def turns_inv_def distinct_map)
  with inv show ?thesis
    by (auto simp: handler_inv_def turns_inv_def max_turns_def link_inv_def dest: inj_onD)
qed

section \<open>A run\<close>

text \<open>A transport is admitted and a turn starts on it.\<close>

definition admitted_handler :: handler where
  "admitted_handler = handler_admitted (\<lambda>_. []) sample_fence (Some 7) (new_handler True)"

definition turn_message :: message where
  "turn_message = (300, Some (JObj [(''type'', JStr ''turn.request''), (''protocolVersion'', jint 1), (''fence'', sample_fence),
     (''commandId'', JStr ''d''), (''sessionHandle'', sample_handle), (''message'', JStr ''b'')]))"

definition sample_turn :: turn where
  "sample_turn = \<lparr>tn_id = 1, tn_command = JStr ''d'', tn_handle = sample_handle, tn_generation = 1, tn_admission = 0,
     tn_fence = fence_of sample_fence, tn_send = 7, tn_aborted = False, tn_terminal = False\<rparr>"

definition busy_handler :: handler where
  "busy_handler = admitted_handler\<lparr>ch_counter := 2, ch_turns := [sample_turn]\<rparr>"

lemma sample_handler_fence: "handler_fence (\<lambda>_. []) sample_fence"
  by (simp add: handler_fence_def plain_exact_def sample_fence_def identifier_test_def sample_texts)

lemma admitted_fields:
  "ch_send admitted_handler = Some 7" "ch_admitted admitted_handler = Some (0, fence_of sample_fence)"
  "ch_turns admitted_handler = []" "ch_counter admitted_handler = 1" "ch_generation admitted_handler = 1"
  by (simp_all add: admitted_handler_def handler_admitted_def sample_handler_fence new_handler_def invalidate_handler_def
      relay_admitted_def sample_frames propose_def)

lemma turn_received:
  "handler_receive (\<lambda>_. []) dp stamp ans approves turn_message admitted_handler = (True, busy_handler)"
proof -
  let ?frame = "the (snd turn_message)"
  have "parse_raw turn_message = Some ?frame" by (simp add: parse_raw_def turn_message_def)
  moreover have "js_get ?frame ''type'' = JStr ''turn.request''" "js_get ?frame ''fence'' = sample_fence"
    "js_get ?frame ''protocolVersion'' = jint 1" "js_get ?frame ''commandId'' = JStr ''d''"
    "js_get ?frame ''sessionHandle'' = sample_handle"
    by (simp_all add: turn_message_def)
  moreover have "same_fence sample_fence (fence_of sample_fence)"
    by (simp add: same_fence_def same_value_def fence_of_def sample_fence_def)
  moreover have "turn_request_ok (\<lambda>_. []) ?frame"
    by (simp add: turn_request_ok_def turn_message_def plain_exact_def identifier_test_def handle_test_def sample_texts
        sample_handle_def text_bytes_def codes_def unit_bytes_def)
  ultimately show ?thesis
    by (simp add: handler_receive_def Let_def admitted_fields sample_handler_fence starts_with_def launch_turn_def max_turns_def
        busy_handler_def sample_turn_def)
qed

lemma busy_handler_reached: "reach handler_start (handler_step (\<lambda>_. []) dp stamp) busy_handler"
proof -
  let ?R = "reach handler_start (handler_step (\<lambda>_. []) dp stamp)"
  have "?R (new_handler True)" by (rule reach_start) (simp add: handler_start_def)
  then have "?R admitted_handler" unfolding admitted_handler_def by (rule reach_move) (rule transport_admitted)
  then have "?R (snd (handler_receive (\<lambda>_. []) dp stamp (\<lambda>_. True) True turn_message admitted_handler))"
    by (rule reach_move) (rule frame_received)
  then show ?thesis by (simp only: turn_received snd_conv)
qed

theorem lost_transport_hears_nothing_witness:
  "traffic 7 (turn_event (\<lambda>_. True) JNull (sample_turn\<lparr>tn_aborted := True\<rparr>) (invalidate_handler busy_handler)) = traffic 7 busy_handler"
proof (rule lost_transport_hears_nothing [OF busy_handler_reached], rule r_into_rtranclp, rule conjI)
  let ?t = "sample_turn\<lparr>tn_aborted := True\<rparr>"
  have "?t \<in> set (ch_turns (invalidate_handler busy_handler))" by (simp add: invalidate_handler_def busy_handler_def)
  then show "handler_step (\<lambda>_. []) (\<lambda>_. NaN) (\<lambda>_. []) (invalidate_handler busy_handler)
      (turn_event (\<lambda>_. True) JNull ?t (invalidate_handler busy_handler))"
    by (rule turn_reported)
  have "\<not> turn_current ?t (invalidate_handler busy_handler)"
    by (simp add: turn_current_def same_admission_def invalidate_handler_def)
  then show "ch_send (turn_event (\<lambda>_. True) JNull ?t (invalidate_handler busy_handler)) \<noteq> Some 7"
    by (simp add: turn_event_def turn_finally_def without_turn_def Let_def invalidate_handler_def)
qed

theorem turns_in_flight_witness: "ch_turns busy_handler \<noteq> [] \<and> length (ch_turns busy_handler) \<le> 8"
  using turns_in_flight [OF busy_handler_reached [of "\<lambda>_. NaN" "\<lambda>_. []"]] by (simp add: busy_handler_def)

end
