(* ===== verification/ArchiveContracts.thy ===== *)
theory ArchiveContracts
  imports CanonicalJson
begin

text \<open>
  The records of the transcript archive, \<^verbatim>\<open>lib/transcript-archive/contracts.js\<close>: canonical
  serialisation, manifests with their content address, durability receipts, verification evidence and
  audit events.  A validator is the list of its errors, one after the other; where the code would
  throw instead the result is \<open>None\<close>.  Parameters: the text of a number \<open>nt\<close>, SHA-256 in hexadecimal as
  \<open>hash\<close>, \<^verbatim>\<open>Date.parse\<close> as \<open>dp\<close> and \<^verbatim>\<open>toISOString\<close> as \<open>stamp\<close>.  The sign of zero is not modelled, so a size
  of minus zero, which the serialiser refuses, is the size zero here.
\<close>

section \<open>Canonical serialisation\<close>

fun serializable :: "js \<Rightarrow> bool" where
  "serializable JUndef = False"
| "serializable JNull = True"
| "serializable (JBool b) = True"
| "serializable (JStr s) = True"
| "serializable (JNum n) = num_is_finite n"
| "serializable (JArr vs) = list_all serializable vs"
| "serializable (JObj kvs) =
     list_all (\<lambda>kv. fst kv \<notin> {''__proto__'', ''constructor'', ''prototype''} \<and> serializable (snd kv)) kvs"

definition canonical_serialize :: "(jsnum \<Rightarrow> string) \<Rightarrow> js \<Rightarrow> string option" where
  "canonical_serialize nt v = (if serializable v then Some (canonical_json nt v) else None)"

definition canonical_hash :: "(jsnum \<Rightarrow> string) \<Rightarrow> (string \<Rightarrow> string) \<Rightarrow> js \<Rightarrow> string option" where
  "canonical_hash nt hash v = map_option hash (canonical_serialize nt v)"

text \<open>The parts of a session identity, and the text that is its key.\<close>

definition identity_part :: "js \<Rightarrow> string option" where
  "identity_part v = (case v of JStr s \<Rightarrow> if s = [] \<or> s \<noteq> js_trim s \<or> nul \<in> set s then None else Some s | _ \<Rightarrow> None)"

definition logical_session_key :: "js \<Rightarrow> string option" where
  "logical_session_key v =
     (case (identity_part (js_get v ''brainId''), identity_part (js_get v ''provider''), identity_part (js_get v ''sessionId'')) of
        (Some b, Some p, Some s) \<Rightarrow> Some (b @ [nul] @ p @ [nul] @ s)
      | _ \<Rightarrow> None)"

section \<open>Patterns\<close>

definition sha256_value :: "js \<Rightarrow> bool" where
  "sha256_value v = (case v of JStr s \<Rightarrow> hex_text 64 s | _ \<Rightarrow> False)"

definition archive_id_text :: "string \<Rightarrow> bool" where
  "archive_id_text s \<longleftrightarrow> starts_with s ''av_'' \<and> hex_text 64 (drop 3 s)"

definition safe_id_text :: "string \<Rightarrow> bool" where
  "safe_id_text s \<longleftrightarrow>
     s \<noteq> [] \<and> is_alnum_char (hd s) \<and> list_all (\<lambda>c. is_alnum_char c \<or> c \<in> set ''._:@+-='') (tl s)"

definition safe_metadata_text :: "string \<Rightarrow> bool" where
  "safe_metadata_text s \<longleftrightarrow> list_all (\<lambda>c. c = CHR 0x09 \<or> CHR 0x20 \<le> c \<and> c \<noteq> CHR 0x7F) s"

definition signature_text :: "string \<Rightarrow> bool" where
  "signature_text s \<longleftrightarrow> s \<noteq> [] \<and> list_all (\<lambda>c. is_alnum_char c \<or> c \<in> set ''+/_=.:-'') s"

text \<open>The path pattern, on code units.  The dot of \<^verbatim>\<open>(?!.*...)\<close> stops at a line terminator.\<close>

definition line_terminator :: "nat \<Rightarrow> bool" where
  "line_terminator c \<longleftrightarrow> c \<in> {0x0A, 0x0D, 0x2028, 0x2029}"

definition dots_ahead :: "nat list \<Rightarrow> bool" where
  "dots_ahead us \<longleftrightarrow> take 2 us = [0x2E, 0x2E] \<and> (drop 2 us = [] \<or> hd (drop 2 us) = 0x2F)"

fun dots_found :: "nat list \<Rightarrow> bool" where
  "dots_found [] = False"
| "dots_found (c # us) = (c = 0x2F \<and> dots_ahead us \<or> \<not> line_terminator c \<and> dots_found us)"

fun backslash_found :: "nat list \<Rightarrow> bool" where
  "backslash_found [] = False"
| "backslash_found (c # us) = (c = 0x5C \<or> \<not> line_terminator c \<and> backslash_found us)"

definition source_path_units :: "nat list \<Rightarrow> bool" where
  "source_path_units us \<longleftrightarrow>
     us \<noteq> [] \<and> hd us \<noteq> 0x2F \<and> \<not> dots_ahead us \<and> \<not> dots_found us \<and> \<not> backslash_found us \<and>
     list_all (\<lambda>c. c \<notin> {0, 0x0A, 0x0D}) us"

text \<open>The strings of manifests have 8-bit units here; a path with larger ones has its place in \<open>source_path_units\<close> only.\<close>

definition source_path_text :: "string \<Rightarrow> bool" where
  "source_path_text s = source_path_units (codes s)"

definition fits_template :: "string \<Rightarrow> string \<Rightarrow> bool" where
  "fits_template tmpl s = list_all2 (\<lambda>t c. if t = CHR ''d'' then is_digit_char c else c = t) tmpl s"

definition instant_shape :: "string \<Rightarrow> bool" where
  "instant_shape s \<longleftrightarrow>
     fits_template ''dddd-dd-ddTdd:dd:dd'' (take 19 s) \<and>
     (case drop 19 s of
        [] \<Rightarrow> False
      | c # r \<Rightarrow> c = CHR ''Z'' \<and> r = [] \<or>
          c = CHR ''.'' \<and> 2 \<le> length r \<and> length r \<le> 10 \<and> last r = CHR ''Z'' \<and> list_all is_digit_char (butlast r))"

definition is_iso_instant :: "(string \<Rightarrow> jsnum) \<Rightarrow> (rat \<Rightarrow> string) \<Rightarrow> js \<Rightarrow> bool" where
  "is_iso_instant dp stamp v =
     (case v of
        JStr s \<Rightarrow> length s \<le> 40 \<and> instant_shape s \<and> (case dp s of Fin t \<Rightarrow> take 19 (stamp t) = take 19 s | _ \<Rightarrow> False)
      | _ \<Rightarrow> False)"

section \<open>Field checks\<close>

datatype archive_error =
  NotPlainObject string | UnknownField string string | UnsupportedSchema string | Missing string | TooLong string
| BadCharacters string | NotSha256 string | BadByteSize | UnsupportedAlgorithm | BlobHashMismatch | BadInstant string
| SelfReference | Unsupported string | IdMismatch

definition check_metadata :: "js \<Rightarrow> string \<Rightarrow> nat \<Rightarrow> (string \<Rightarrow> bool) \<Rightarrow> bool \<Rightarrow> archive_error list" where
  "check_metadata v field max_length pattern optional =
     (if optional \<and> (js_nullish v \<or> v = JStr []) then []
      else case v of
             JStr s \<Rightarrow> if s = [] then [Missing field]
                       else (if length s > max_length then [TooLong field] else []) @ (if \<not> pattern s then [BadCharacters field] else [])
           | _ \<Rightarrow> [Missing field])"

definition exact_fields :: "js \<Rightarrow> string list \<Rightarrow> string \<Rightarrow> archive_error list" where
  "exact_fields v allowed name =
     (if \<not> js_is_record v then [NotPlainObject name] else map (UnknownField name) (filter (\<lambda>k. k \<notin> set allowed) (js_keys v)))"

definition error_if :: "bool \<Rightarrow> archive_error \<Rightarrow> archive_error list" where
  "error_if b e = (if b then [e] else [])"

definition bad_schema :: "js \<Rightarrow> string \<Rightarrow> bool" where
  "bad_schema v name \<longleftrightarrow> js_get v ''schema'' \<noteq> JStr name \<or> js_get v ''schemaVersion'' \<noteq> jint 1"

definition identity_schema :: string where "identity_schema = ''agentbootup.transcript.logical-session.v1''"
definition manifest_schema :: string where "manifest_schema = ''agentbootup.transcript.manifest.v1''"
definition blob_schema :: string where "blob_schema = ''agentbootup.transcript.blob.v1''"
definition receipt_schema :: string where "receipt_schema = ''agentbootup.transcript.receipt.v1''"
definition evidence_schema :: string where "evidence_schema = ''agentbootup.transcript.verification.v1''"
definition audit_schema :: string where "audit_schema = ''agentbootup.transcript.audit-event.v1''"

definition durability_classes :: "string list" where
  "durability_classes = [''unknown'', ''single_region_versioned'', ''versioned_replicated'']"

definition receipt_statuses :: "string list" where
  "receipt_statuses = [''remote_committed'', ''replication_confirmed'']"

definition identity_fields :: "string list" where
  "identity_fields = [''brainId'', ''provider'', ''sessionId'']"

definition bad_size :: "js \<Rightarrow> bool" where
  "bad_size v = (\<not> js_int_between 0 max_safe_integer v)"

definition check_identity :: "js \<Rightarrow> archive_error list" where
  "check_identity v = concat (map (\<lambda>k. check_metadata (js_get v k) k 256 safe_id_text False) identity_fields)"

section \<open>Manifests\<close>

definition archive_identity :: "js \<Rightarrow> js" where
  "archive_identity m =
     JObj [(''schema'', js_get m ''schema''), (''schemaVersion'', js_get m ''schemaVersion''),
           (''logicalIdentity'', js_get m ''logicalIdentity''), (''contentHash'', js_get m ''contentHash''),
           (''byteSize'', js_get m ''byteSize''), (''storageGeneration'', js_get (js_get m ''blob'') ''storageGeneration''),
           (''priorGeneration'', js_get m ''priorGeneration''),
           (''provenance'', JObj [(''sourceMachineId'', js_get (js_get m ''provenance'') ''sourceMachineId'')])]"

text \<open>The shapes of the objects of a manifest.\<close>

definition manifest_shape_errors :: "js \<Rightarrow> archive_error list" where
  "manifest_shape_errors m =
     exact_fields m [''schema'', ''schemaVersion'', ''logicalIdentity'', ''contentHash'', ''byteSize'', ''blob'', ''provenance'',
       ''timestamps'', ''priorGeneration'', ''storageDurabilityClass'', ''archiveVersionId''] ''manifest'' @
     exact_fields (js_get m ''logicalIdentity'') ([''schema'', ''schemaVersion''] @ identity_fields) ''logicalIdentity'' @
     exact_fields (js_get m ''blob'') [''schema'', ''schemaVersion'', ''algorithm'', ''hash'', ''storageGeneration''] ''blob'' @
     exact_fields (js_get m ''provenance'') [''sourceMachineId'', ''sourceRelativePath'', ''matchConfidence'', ''matchMethod''] ''provenance'' @
     exact_fields (js_get m ''timestamps'') [''first'', ''last'', ''collected''] ''timestamps'' @
     error_if (bad_schema m manifest_schema) (UnsupportedSchema ''manifest'') @
     error_if (\<not> js_has_own (js_get m ''provenance'') ''matchMethod'') (Missing ''matchMethod'') @
     error_if (bad_schema (js_get m ''logicalIdentity'') identity_schema) (UnsupportedSchema ''logicalIdentity'') @
     error_if (bad_schema (js_get m ''blob'') blob_schema) (UnsupportedSchema ''blob'')"

definition manifest_field_errors :: "(string \<Rightarrow> jsnum) \<Rightarrow> (rat \<Rightarrow> string) \<Rightarrow> js \<Rightarrow> archive_error list" where
  "manifest_field_errors dp stamp m =
     (let blob = js_get m ''blob''; provenance = js_get m ''provenance''; prior = js_get m ''priorGeneration'' in
      check_identity (js_get m ''logicalIdentity'') @
      error_if (\<not> sha256_value (js_get m ''contentHash'')) (NotSha256 ''contentHash'') @
      error_if (bad_size (js_get m ''byteSize'')) BadByteSize @
      error_if (\<not> sha256_value (js_get blob ''hash'')) (NotSha256 ''blob.hash'') @
      error_if (js_get blob ''algorithm'' \<noteq> JStr ''sha256'') UnsupportedAlgorithm @
      error_if (\<not> same_value (js_get blob ''hash'') (js_get m ''contentHash'')) BlobHashMismatch @
      check_metadata (js_get blob ''storageGeneration'') ''storageGeneration'' 128 safe_id_text False @
      check_metadata (js_get provenance ''sourceMachineId'') ''sourceMachineId'' 256 safe_id_text False @
      check_metadata (js_get provenance ''sourceRelativePath'') ''sourceRelativePath'' 1024 source_path_text False @
      check_metadata (js_get provenance ''matchConfidence'') ''matchConfidence'' 32 safe_id_text False @
      check_metadata (js_get provenance ''matchMethod'') ''matchMethod'' 128 safe_metadata_text True @
      concat (map (\<lambda>k. let v = js_get (js_get m ''timestamps'') k in error_if (v \<noteq> JNull \<and> \<not> is_iso_instant dp stamp v) (BadInstant k))
        [''first'', ''last'', ''collected'']) @
      (if prior = JNull then [] else check_metadata prior ''priorGeneration'' 80 archive_id_text False) @
      error_if (same_value prior (js_get m ''archiveVersionId'')) SelfReference @
      error_if (\<not> field_in durability_classes (js_get m ''storageDurabilityClass'')) (Unsupported ''storageDurabilityClass'') @
      check_metadata (js_get m ''archiveVersionId'') ''archiveVersionId'' 67 archive_id_text False)"

definition validate_archive_manifest ::
    "(jsnum \<Rightarrow> string) \<Rightarrow> (string \<Rightarrow> string) \<Rightarrow> (string \<Rightarrow> jsnum) \<Rightarrow> (rat \<Rightarrow> string) \<Rightarrow> js \<Rightarrow> archive_error list option" where
  "validate_archive_manifest nt hash dp stamp m =
     (let errors = manifest_shape_errors m @ manifest_field_errors dp stamp m in
      if errors \<noteq> [] then Some errors
      else map_option (\<lambda>h. error_if (js_get m ''archiveVersionId'' \<noteq> JStr (''av_'' @ h)) IdMismatch)
             (canonical_hash nt hash (archive_identity m)))"

definition identity_object :: "js \<Rightarrow> js" where
  "identity_object v =
     JObj ([(''schema'', JStr identity_schema), (''schemaVersion'', jint 1)] @ map (\<lambda>k. (k, js_get v k)) identity_fields)"

definition manifest_core :: "js \<Rightarrow> (string \<times> js) list" where
  "manifest_core input =
     [(''schema'', JStr manifest_schema), (''schemaVersion'', jint 1), (''logicalIdentity'', identity_object input),
      (''contentHash'', js_get input ''contentHash''), (''byteSize'', js_get input ''byteSize''),
      (''blob'', JObj [(''schema'', JStr blob_schema), (''schemaVersion'', jint 1), (''algorithm'', JStr ''sha256''),
         (''hash'', js_get input ''contentHash''), (''storageGeneration'', js_get input ''storageGeneration'')]),
      (''provenance'', JObj [(''sourceMachineId'', js_get input ''sourceMachineId''),
         (''sourceRelativePath'', js_get input ''sourceRelativePath''),
         (''matchConfidence'', js_or (js_get input ''matchConfidence'') (JStr ''unknown'')),
         (''matchMethod'', js_or (js_get input ''matchMethod'') (JStr []))]),
      (''timestamps'', JObj [(''first'', js_or (js_get input ''firstTimestamp'') JNull),
         (''last'', js_or (js_get input ''lastTimestamp'') JNull), (''collected'', js_get input ''collectedAt'')]),
      (''priorGeneration'', js_or (js_get input ''priorGeneration'') JNull),
      (''storageDurabilityClass'', js_get input ''storageDurabilityClass'')]"

definition with_id :: "(string \<times> js) list \<Rightarrow> string \<Rightarrow> js" where
  "with_id core h = JObj (core @ [(''archiveVersionId'', JStr (''av_'' @ h))])"

definition create_manifest ::
    "(jsnum \<Rightarrow> string) \<Rightarrow> (string \<Rightarrow> string) \<Rightarrow> (string \<Rightarrow> jsnum) \<Rightarrow> (rat \<Rightarrow> string) \<Rightarrow> js \<Rightarrow> js option" where
  "create_manifest nt hash dp stamp input =
     (let core = manifest_core input in
      Option.bind (validate_archive_manifest nt hash dp stamp (with_id core (replicate 64 CHR ''0''))) (\<lambda>errors.
      if filter (\<lambda>e. e \<noteq> IdMismatch) errors \<noteq> [] then None
      else map_option (with_id core) (canonical_hash nt hash (archive_identity (JObj core)))))"

section \<open>Receipts, evidence and audit events\<close>

definition validate_durability_receipt :: "(string \<Rightarrow> jsnum) \<Rightarrow> (rat \<Rightarrow> string) \<Rightarrow> js \<Rightarrow> archive_error list" where
  "validate_durability_receipt dp stamp r =
     (let identity = js_get r ''logicalIdentity''; auth = js_get r ''authentication'' in
      exact_fields r [''schema'', ''schemaVersion'', ''archiveVersionId'', ''manifestHash'', ''contentHash'', ''byteSize'',
        ''storageGeneration'', ''durabilityClass'', ''committedAt'', ''verificationStatus'', ''logicalIdentity'', ''sourceMachineId'',
        ''authentication''] ''receipt'' @
      exact_fields identity ([''schema'', ''schemaVersion''] @ identity_fields) ''receipt logicalIdentity'' @
      exact_fields auth [''keyId'', ''signature'', ''algorithm''] ''receipt authentication'' @
      error_if (bad_schema r receipt_schema) (UnsupportedSchema ''receipt'') @
      error_if (bad_schema identity identity_schema) (UnsupportedSchema ''logicalIdentity'') @
      check_metadata (js_get r ''archiveVersionId'') ''archiveVersionId'' 67 archive_id_text False @
      check_identity identity @
      check_metadata (js_get r ''sourceMachineId'') ''sourceMachineId'' 256 safe_id_text False @
      check_metadata (js_get r ''storageGeneration'') ''storageGeneration'' 128 safe_id_text False @
      error_if (\<not> field_in durability_classes (js_get r ''durabilityClass'')) (Unsupported ''durabilityClass'') @
      error_if (\<not> field_in receipt_statuses (js_get r ''verificationStatus'')) (Unsupported ''verificationStatus'') @
      error_if (\<not> is_iso_instant dp stamp (js_get r ''committedAt'')) (BadInstant ''committedAt'') @
      concat (map (\<lambda>k. error_if (\<not> sha256_value (js_get r k)) (NotSha256 k)) [''manifestHash'', ''contentHash'']) @
      error_if (bad_size (js_get r ''byteSize'')) BadByteSize @
      check_metadata (js_get auth ''keyId'') ''keyId'' 128 safe_id_text False @
      check_metadata (js_get auth ''signature'') ''signature'' 1024 signature_text False @
      check_metadata (js_get auth ''algorithm'') ''algorithm'' 32 safe_id_text False)"

definition some_text :: "js \<Rightarrow> bool" where
  "some_text v = (case v of JStr s \<Rightarrow> s \<noteq> [] | _ \<Rightarrow> False)"

definition create_durability_receipt :: "(string \<Rightarrow> jsnum) \<Rightarrow> (rat \<Rightarrow> string) \<Rightarrow> js \<Rightarrow> js option" where
  "create_durability_receipt dp stamp input =
     (let auth = js_get input ''authentication'';
          receipt = JObj [(''schema'', JStr receipt_schema), (''schemaVersion'', jint 1),
            (''archiveVersionId'', js_get input ''archiveVersionId''), (''manifestHash'', js_get input ''manifestHash''),
            (''contentHash'', js_get input ''contentHash''), (''byteSize'', js_get input ''byteSize''),
            (''storageGeneration'', js_get input ''storageGeneration''), (''durabilityClass'', js_get input ''durabilityClass''),
            (''committedAt'', js_get input ''committedAt''), (''verificationStatus'', js_get input ''verificationStatus''),
            (''logicalIdentity'', identity_object (js_get input ''logicalIdentity'')),
            (''sourceMachineId'', js_get input ''sourceMachineId''),
            (''authentication'', JObj [(''keyId'', js_get auth ''keyId''), (''signature'', js_get auth ''signature''),
               (''algorithm'', js_or (js_get auth ''algorithm'') (JStr ''server-defined''))])]
      in if \<not> js_is_record auth \<or> \<not> some_text (js_get auth ''keyId'') \<or> \<not> some_text (js_get auth ''signature'') then None
         else if validate_durability_receipt dp stamp receipt \<noteq> [] then None else Some receipt)"

definition validate_evidence :: "(string \<Rightarrow> jsnum) \<Rightarrow> (rat \<Rightarrow> string) \<Rightarrow> js \<Rightarrow> archive_error list" where
  "validate_evidence dp stamp e =
     exact_fields e [''schema'', ''schemaVersion'', ''archiveVersionId'', ''contentHash'', ''byteSize'', ''verifiedAt'', ''source'',
       ''manifestHash'', ''storageGeneration'', ''committedReadId'', ''verifierId''] ''verification evidence'' @
     error_if (bad_schema e evidence_schema) (UnsupportedSchema ''verification'') @
     check_metadata (js_get e ''archiveVersionId'') ''archiveVersionId'' 67 archive_id_text False @
     concat (map (\<lambda>k. error_if (\<not> sha256_value (js_get e k)) (NotSha256 k)) [''contentHash'', ''manifestHash'']) @
     error_if (bad_size (js_get e ''byteSize'')) BadByteSize @
     error_if (\<not> is_iso_instant dp stamp (js_get e ''verifiedAt'')) (BadInstant ''verifiedAt'') @
     error_if (js_get e ''source'' \<noteq> JStr ''committed_restore'') (Unsupported ''source'') @
     concat (map (\<lambda>k. check_metadata (js_get e k) k 128 safe_id_text False) [''storageGeneration'', ''committedReadId'', ''verifierId''])"

definition create_evidence :: "(string \<Rightarrow> jsnum) \<Rightarrow> (rat \<Rightarrow> string) \<Rightarrow> js \<Rightarrow> js option" where
  "create_evidence dp stamp input =
     (let evidence = JObj [(''schema'', JStr evidence_schema), (''schemaVersion'', jint 1),
            (''archiveVersionId'', js_get input ''archiveVersionId''), (''contentHash'', js_get input ''contentHash''),
            (''byteSize'', js_get input ''byteSize''), (''verifiedAt'', js_get input ''verifiedAt''),
            (''source'', js_or (js_get input ''source'') (JStr ''committed_restore'')), (''manifestHash'', js_get input ''manifestHash''),
            (''storageGeneration'', js_get input ''storageGeneration''), (''committedReadId'', js_get input ''committedReadId''),
            (''verifierId'', js_get input ''verifierId'')]
      in if validate_evidence dp stamp evidence \<noteq> [] then None else Some evidence)"

definition audit_fields :: "string list" where
  "audit_fields = [''eventId'', ''type'', ''occurredAt'', ''archiveVersionId'', ''brainId'', ''provider'', ''actor'', ''result'', ''reason'']"

definition audit_field_ok :: "string \<times> js \<Rightarrow> bool" where
  "audit_field_ok kv =
     (fst kv \<in> set audit_fields \<and>
      (case snd kv of
         JUndef \<Rightarrow> True
       | JStr s \<Rightarrow> safe_metadata_text s \<and> length s \<le> (if fst kv = ''reason'' then 256 else 128)
       | _ \<Rightarrow> False))"

definition text_field :: "(string \<Rightarrow> bool) \<Rightarrow> js \<Rightarrow> bool" where
  "text_field P v = (case v of JStr s \<Rightarrow> P s | _ \<Rightarrow> False)"

definition create_audit_event :: "(string \<Rightarrow> jsnum) \<Rightarrow> (rat \<Rightarrow> string) \<Rightarrow> js \<Rightarrow> js option" where
  "create_audit_event dp stamp input =
     (if js_is_record input \<and> list_all audit_field_ok (js_entries input) \<and>
         list_all (\<lambda>k. k = ''archiveVersionId'' \<or> some_text (js_get input k)) audit_fields \<and>
         list_all (\<lambda>k. text_field safe_id_text (js_get input k)) [''eventId'', ''brainId'', ''provider'', ''actor''] \<and>
         is_iso_instant dp stamp (js_get input ''occurredAt'') \<and>
         field_in [''declare'', ''upload'', ''commit'', ''verify'', ''restore'', ''offload'', ''delete'', ''error''] (js_get input ''type'') \<and>
         field_in [''success'', ''failure'', ''blocked''] (js_get input ''result'') \<and>
         field_in [''none'', ''auth_failed'', ''integrity_failed'', ''durability_insufficient'', ''source_changed'', ''unsupported'',
           ''conflict'', ''io_error''] (js_get input ''reason'') \<and>
         (js_get input ''archiveVersionId'' = JUndef \<or> text_field archive_id_text (js_get input ''archiveVersionId''))
      then Some (JObj ([(''schema'', JStr audit_schema), (''schemaVersion'', jint 1)] @
                       map (\<lambda>k. (k, js_get input k)) (filter (\<lambda>k. js_get input k \<noteq> JUndef) audit_fields)))
      else None)"

section \<open>Created manifests\<close>

lemma error_if_simps [simp]: "error_if b e = [] \<longleftrightarrow> \<not> b" "error_if False e = []" "error_if True e = [e]"
  by (simp_all add: error_if_def)

lemma js_get_with_id [simp]:
  "k \<noteq> ''archiveVersionId'' \<Longrightarrow> js_get (with_id core h) k = js_get (JObj core) k"
  by (simp add: with_id_def map_add_def split: option.split)

lemma manifest_core_id:
  "js_get (with_id (manifest_core input) h) ''archiveVersionId'' = JStr (''av_'' @ h)"
  by (simp add: with_id_def manifest_core_def)

lemma archive_identity_with_id: "archive_identity (with_id core h) = archive_identity (JObj core)"
  by (simp add: archive_identity_def del: js_get.simps)

lemma shape_with_id: "manifest_shape_errors (with_id core h) = manifest_shape_errors (with_id core h')"
proof -
  have "exact_fields (with_id core h) ks n = exact_fields (with_id core h') ks n" for ks n
    by (simp add: exact_fields_def with_id_def)
  then show ?thesis by (simp add: manifest_shape_errors_def bad_schema_def del: js_get.simps)
qed

lemma check_archive_id: "hex_text 64 h \<Longrightarrow> check_metadata (JStr (''av_'' @ h)) f 67 archive_id_text False = []"
  by (simp add: check_metadata_def archive_id_text_def hex_text_def starts_with_def)

lemma same_value_text: "same_value v (JStr s) \<longleftrightarrow> v = JStr s"
  by (auto simp: same_value_def)

lemma fields_with_id:
  assumes "manifest_field_errors dp stamp (with_id (manifest_core input) h) = []" and "hex_text 64 h'"
  shows "manifest_field_errors dp stamp (with_id (manifest_core input) h') =
    error_if (js_get (with_id (manifest_core input) h') ''priorGeneration'' = JStr (''av_'' @ h')) SelfReference"
  using assms
  by (simp add: manifest_field_errors_def Let_def manifest_core_id check_archive_id [simplified] same_value_text del: js_get.simps)

lemma no_mismatch_checks:
  "IdMismatch \<notin> set (check_metadata v f n P b)" "IdMismatch \<notin> set (exact_fields v ks name)"
  "IdMismatch \<in> set (error_if c e) \<longleftrightarrow> c \<and> e = IdMismatch"
  by (auto simp: check_metadata_def exact_fields_def error_if_def split: js.splits)

lemma no_mismatch: "IdMismatch \<notin> set (manifest_shape_errors m @ manifest_field_errors dp stamp m)"
  by (simp add: manifest_shape_errors_def manifest_field_errors_def check_identity_def identity_fields_def Let_def no_mismatch_checks)

text \<open>C24. What is created validates.  Whenever \<^verbatim>\<open>createArchiveManifest\<close> returns a manifest, its validator
  finds nothing wrong with it, the content address included; the only exception is a manifest whose
  prior generation is its own address, which creation, comparing with a placeholder, cannot see.\<close>

theorem created_manifest_validates:
  assumes "\<And>t. hex_text 64 (hash t)" and "create_manifest nt hash dp stamp input = Some m"
  shows "validate_archive_manifest nt hash dp stamp m =
    Some (error_if (js_get m ''priorGeneration'' = js_get m ''archiveVersionId'') SelfReference)"
proof -
  let ?core = "manifest_core input" and ?p = "with_id (manifest_core input) (replicate 64 CHR ''0'')"
  from assms(2) obtain errors h where valid: "validate_archive_manifest nt hash dp stamp ?p = Some errors"
      "filter (\<lambda>e. e \<noteq> IdMismatch) errors = []"
    and h: "canonical_hash nt hash (archive_identity (JObj ?core)) = Some h" and m: "m = with_id ?core h"
    by (auto simp: create_manifest_def Let_def bind_eq_Some_conv split: if_splits)
  have none: "manifest_shape_errors ?p = []" "manifest_field_errors dp stamp ?p = []"
  proof -
    have "manifest_shape_errors ?p @ manifest_field_errors dp stamp ?p = []"
    proof (rule ccontr)
      assume errs: "\<not> ?thesis"
      with valid(1) have all: "errors = manifest_shape_errors ?p @ manifest_field_errors dp stamp ?p"
        unfolding validate_archive_manifest_def Let_def by (simp only: if_True if_False not_False_eq_True option.inject)
      have "filter (\<lambda>e. e \<noteq> IdMismatch) errors = errors"
        unfolding all by (rule filter_True) (use no_mismatch [of ?p dp stamp] in blast)
      with valid(2) errs all show False by metis
    qed
    then show "manifest_shape_errors ?p = []" "manifest_field_errors dp stamp ?p = []" by simp_all
  qed
  have hex: "hex_text 64 h" using h assms(1) by (auto simp: canonical_hash_def)
  have id: "js_get m ''archiveVersionId'' = JStr (''av_'' @ h)" unfolding m by (rule manifest_core_id)
  have shape: "manifest_shape_errors m = []"
    unfolding m using none(1) shape_with_id [of ?core h] by metis
  have field: "manifest_field_errors dp stamp m =
      error_if (js_get m ''priorGeneration'' = js_get m ''archiveVersionId'') SelfReference"
    unfolding id unfolding m by (rule fields_with_id [OF none(2) hex])
  have address: "canonical_hash nt hash (archive_identity m) = Some h"
    unfolding m archive_identity_with_id by (rule h)
  show ?thesis
    unfolding validate_archive_manifest_def Let_def shape field address id by simp
qed

section \<open>What a valid manifest says\<close>

lemma check_metadata_text:
  "check_metadata v f n P False = [] \<longleftrightarrow> (\<exists>s. v = JStr s \<and> s \<noteq> [] \<and> length s \<le> n \<and> P s)"
  by (cases v) (auto simp: check_metadata_def)

lemma exact_fields_record: "exact_fields v ks name = [] \<longleftrightarrow> (\<exists>kvs. v = JObj kvs \<and> fst ` set kvs \<subseteq> set ks)"
  by (cases v) (auto simp: exact_fields_def filter_empty_conv)

lemma sha256_value_text: "sha256_value v \<longleftrightarrow> (\<exists>s. v = JStr s \<and> hex_text 64 s)"
  by (cases v) (auto simp: sha256_value_def)

lemma size_number: "\<not> bad_size v \<Longrightarrow> \<exists>q. v = JNum (Fin q)"
  by (cases v) (auto simp: bad_size_def elim: js_int_between.elims)

text \<open>The facts that a manifest without errors gives, as a bundle.\<close>

lemma valid_manifest:
  assumes "validate_archive_manifest nt hash dp stamp m = Some []"
  shows "manifest_shape_errors m = []" "manifest_field_errors dp stamp m = []"
    "\<exists>t. canonical_serialize nt (archive_identity m) = Some t \<and> js_get m ''archiveVersionId'' = JStr (''av_'' @ hash t)"
proof -
  let ?errors = "manifest_shape_errors m @ manifest_field_errors dp stamp m"
  have errors: "?errors = []"
    using assms unfolding validate_archive_manifest_def Let_def by (metis option.inject)
  then show "manifest_shape_errors m = []" "manifest_field_errors dp stamp m = []" by simp_all
  have "map_option (\<lambda>h. error_if (js_get m ''archiveVersionId'' \<noteq> JStr (''av_'' @ h)) IdMismatch)
      (canonical_hash nt hash (archive_identity m)) = Some []"
    using assms errors unfolding validate_archive_manifest_def Let_def by metis
  then show "\<exists>t. canonical_serialize nt (archive_identity m) = Some t \<and> js_get m ''archiveVersionId'' = JStr (''av_'' @ hash t)"
    by (auto simp: canonical_hash_def)
qed

text \<open>The identity of a generation: the session, the content, where it is stored, what it follows and
  which machine it comes from.\<close>

definition identity_view :: "js \<Rightarrow> js list" where
  "identity_view m =
     map (js_get (js_get m ''logicalIdentity'')) identity_fields @
     [js_get m ''contentHash'', js_get m ''byteSize'', js_get (js_get m ''blob'') ''storageGeneration'', js_get m ''priorGeneration'',
      js_get (js_get m ''provenance'') ''sourceMachineId'']"

definition plain_scalar :: "js \<Rightarrow> bool" where
  "plain_scalar v \<longleftrightarrow> v = JNull \<or> (\<exists>s. v = JStr s) \<or> (\<exists>q. v = JNum (Fin q))"

lemma plain_scalar_simps [simp]: "plain_scalar v \<Longrightarrow> ordered v = v" "plain_scalar v \<Longrightarrow> json_value v" "plain_scalar v \<Longrightarrow> v \<noteq> JUndef"
  by (auto simp: plain_scalar_def)

lemma valid_identity_view:
  assumes "manifest_field_errors dp stamp m = []"
  shows "list_all plain_scalar (identity_view m)"
  using assms size_number [of "js_get m ''byteSize''"]
  by (auto simp: manifest_field_errors_def Let_def check_identity_def identity_fields_def identity_view_def check_metadata_text
      sha256_value_text plain_scalar_def split: if_splits)

lemma valid_logical_identity:
  assumes "manifest_shape_errors m = []"
  shows "js_get m ''schema'' = JStr manifest_schema" "js_get m ''schemaVersion'' = jint 1"
    "\<exists>kvs. js_get m ''logicalIdentity'' = JObj kvs \<and> fst ` set kvs \<subseteq> set ([''schema'', ''schemaVersion''] @ identity_fields) \<and>
       js_get (JObj kvs) ''schema'' = JStr identity_schema \<and> js_get (JObj kvs) ''schemaVersion'' = jint 1"
  using assms by (auto simp: manifest_shape_errors_def exact_fields_record bad_schema_def simp del: js_get.simps)

lemma json_value_field: "json_value v \<Longrightarrow> js_get v k = JUndef \<or> json_value (js_get v k)"
  by (cases v) (auto simp: list_all_iff split: option.split dest: map_of_SomeD)

lemma js_get_agree: "js_get (JObj xs) k = js_get (JObj ys) k \<and> js_get (JObj xs) k \<noteq> JUndef \<Longrightarrow> map_of xs k = map_of ys k"
  by (cases "map_of xs k"; cases "map_of ys k") simp_all

lemma identity_fields_same:
  assumes "manifest_field_errors dp stamp m = []" and "manifest_shape_errors m = []" and "json_value m"
    and "manifest_field_errors dp stamp m' = []" and "manifest_shape_errors m' = []" and "json_value m'"
    and same: "identity_view m = identity_view m'"
  shows "ordered (js_get m ''logicalIdentity'') = ordered (js_get m' ''logicalIdentity'')"
proof -
  let ?keys = "[''schema'', ''schemaVersion''] @ identity_fields"
  obtain xs where xs: "js_get m ''logicalIdentity'' = JObj xs" "fst ` set xs \<subseteq> set ?keys"
      "js_get (JObj xs) ''schema'' = JStr identity_schema" "js_get (JObj xs) ''schemaVersion'' = jint 1"
    using valid_logical_identity [OF assms(2)] by metis
  obtain ys where ys: "js_get m' ''logicalIdentity'' = JObj ys" "fst ` set ys \<subseteq> set ?keys"
      "js_get (JObj ys) ''schema'' = JStr identity_schema" "js_get (JObj ys) ''schemaVersion'' = jint 1"
    using valid_logical_identity [OF assms(5)] by metis
  have parts: "map (js_get (JObj xs)) identity_fields = map (js_get (JObj ys)) identity_fields"
    using same xs(1) ys(1) by (simp add: identity_view_def identity_fields_def del: js_get.simps)
  have defined: "js_get (JObj xs) k \<noteq> JUndef" if "k \<in> set identity_fields" for k
    using valid_identity_view [OF assms(1)] that xs(1) by (auto simp: identity_view_def list_all_iff simp del: js_get.simps)
  have "js_get (JObj xs) k = js_get (JObj ys) k \<and> js_get (JObj xs) k \<noteq> JUndef" if k: "k \<in> set ?keys" for k
  proof -
    consider "k = ''schema''" | "k = ''schemaVersion''" | "k \<in> set identity_fields" using k by auto
    then show ?thesis
    proof cases
      case 3
      with parts have "js_get (JObj xs) k = js_get (JObj ys) k" by (simp only: map_eq_conv)
      with 3 defined show ?thesis by blast
    qed (simp_all only: xs ys js.distinct simp_thms)
  qed
  then have "map_of xs k = map_of ys k" if "k \<in> set ?keys" for k
    using that by (blast intro: js_get_agree)
  moreover have "map_of xs k = None \<and> map_of ys k = None" if "k \<notin> set ?keys" for k
    using that xs(2) ys(2) by (auto simp: map_of_eq_None_iff)
  ultimately have "map_of xs = map_of ys" by (intro ext) metis
  moreover have "json_value (JObj xs)" "json_value (JObj ys)"
    using json_value_field [OF assms(3), of "''logicalIdentity''"] json_value_field [OF assms(6), of "''logicalIdentity''"] xs(1) ys(1)
    by simp_all
  ultimately show ?thesis unfolding xs(1) ys(1) by (intro ordered_fields) simp_all
qed

lemma identity_json:
  assumes "manifest_field_errors dp stamp m = []" and "manifest_shape_errors m = []" and "json_value m"
  shows "json_value (archive_identity m)"
proof -
  have "list_all json_value (identity_view m)" using valid_identity_view [OF assms(1)] by (auto simp: list_all_iff)
  moreover have "json_value (js_get m ''logicalIdentity'')"
    using json_value_field [OF assms(3), of "''logicalIdentity''"] valid_logical_identity(3) [OF assms(2)] by fastforce
  ultimately show ?thesis
    using valid_logical_identity(1,2) [OF assms(2)]
    by (simp add: archive_identity_def identity_view_def del: js_get.simps)
qed

lemma archive_identity_fields:
  "js_get (archive_identity m) ''logicalIdentity'' = js_get m ''logicalIdentity''"
  "js_get (archive_identity m) ''contentHash'' = js_get m ''contentHash''" "js_get (archive_identity m) ''byteSize'' = js_get m ''byteSize''"
  "js_get (archive_identity m) ''storageGeneration'' = js_get (js_get m ''blob'') ''storageGeneration''"
  "js_get (archive_identity m) ''priorGeneration'' = js_get m ''priorGeneration''"
  "js_get (js_get (archive_identity m) ''provenance'') ''sourceMachineId'' = js_get (js_get m ''provenance'') ''sourceMachineId''"
  by (simp_all add: archive_identity_def)

text \<open>Two valid manifests have the same ordered identity exactly when they agree on what an identity is.\<close>

lemma ordered_identity_iff:
  assumes m: "manifest_field_errors dp stamp m = []" "manifest_shape_errors m = []" "json_value m"
    and m': "manifest_field_errors dp stamp m' = []" "manifest_shape_errors m' = []" "json_value m'"
  shows "ordered (archive_identity m) = ordered (archive_identity m') \<longleftrightarrow> identity_view m = identity_view m'"
proof
  assume same: "ordered (archive_identity m) = ordered (archive_identity m')"
  note json = identity_json [OF m] identity_json [OF m']
  have sub: "ordered (js_get (archive_identity m) k) = ordered (js_get (archive_identity m') k)" for k
    using same js_get_ordered [OF json(1)] js_get_ordered [OF json(2)] by metis
  have subsub: "ordered (js_get (js_get (archive_identity m) k) k') = ordered (js_get (js_get (archive_identity m') k) k')"
    if "json_value (js_get (archive_identity m) k)" "json_value (js_get (archive_identity m') k)" for k k'
    using sub [of k] js_get_ordered [OF that(1)] js_get_ordered [OF that(2)] by metis
  have defined: "js_get (archive_identity x) ''provenance'' \<noteq> JUndef" for x by (simp add: archive_identity_def)
  have session: "js_get (archive_identity x) ''logicalIdentity'' \<noteq> JUndef" if "manifest_shape_errors x = []" for x
    using valid_logical_identity(3) [OF that] archive_identity_fields(1) [of x] by auto
  have part: "json_value (js_get (archive_identity m) k)" "json_value (js_get (archive_identity m') k)"
    if "k \<in> {''logicalIdentity'', ''provenance''}" for k
    using json_value_field [OF json(1), of k] json_value_field [OF json(2), of k] that defined session [OF m(2)] session [OF m'(2)]
    by blast+
  have "map ordered (identity_view m) = map ordered (identity_view m')"
    using sub [of "''contentHash''"] sub [of "''byteSize''"] sub [of "''storageGeneration''"] sub [of "''priorGeneration''"]
      subsub [OF part, of "''provenance''" "''sourceMachineId''"] subsub [OF part, of "''logicalIdentity''"]
    by (simp add: identity_view_def archive_identity_fields del: js_get.simps)
  moreover have "map ordered (identity_view x) = identity_view x" if "list_all plain_scalar (identity_view x)" for x
    using that by (auto simp: list_all_iff intro: map_idI)
  ultimately show "identity_view m = identity_view m'"
    using valid_identity_view [OF m(1)] valid_identity_view [OF m'(1)] by metis
next
  assume same: "identity_view m = identity_view m'"
  then have "ordered (js_get m ''logicalIdentity'') = ordered (js_get m' ''logicalIdentity'')"
    using identity_fields_same [OF m m'] by blast
  with same show "ordered (archive_identity m) = ordered (archive_identity m')"
    using valid_logical_identity(1,2) [OF m(2)] valid_logical_identity(1,2) [OF m'(2)]
    by (simp add: archive_identity_def identity_view_def identity_fields_def del: js_get.simps)
qed

text \<open>C14. The address names the generation.  Two valid manifests whose serialised identities the hash
  tells apart have the same archive version exactly when they are of the same session, content, size,
  storage generation, prior generation and machine; where the transcript was found, when it was
  collected and how it is stored do not enter.\<close>

theorem version_names_generation:
  assumes "number_text nt" and "json_value m" and "json_value m'"
    and "validate_archive_manifest nt hash dp stamp m = Some []" and "validate_archive_manifest nt hash dp stamp m' = Some []"
    and "\<And>a b. canonical_serialize nt (archive_identity m) = Some a \<Longrightarrow> canonical_serialize nt (archive_identity m') = Some b \<Longrightarrow>
      hash a = hash b \<Longrightarrow> a = b"
  shows "js_get m ''archiveVersionId'' = js_get m' ''archiveVersionId'' \<longleftrightarrow> identity_view m = identity_view m'"
proof -
  note m = valid_manifest [OF assms(4)] and m' = valid_manifest [OF assms(5)]
  obtain t u where t: "canonical_serialize nt (archive_identity m) = Some t" "js_get m ''archiveVersionId'' = JStr (''av_'' @ hash t)"
    and u: "canonical_serialize nt (archive_identity m') = Some u" "js_get m' ''archiveVersionId'' = JStr (''av_'' @ hash u)"
    using m(3) m'(3) by blast
  have "js_get m ''archiveVersionId'' = js_get m' ''archiveVersionId'' \<longleftrightarrow> hash t = hash u" using t(2) u(2) by simp
  also have "\<dots> \<longleftrightarrow> t = u" using assms(6) [OF t(1) u(1)] by blast
  also have "\<dots> \<longleftrightarrow> canonical_json nt (archive_identity m) = canonical_json nt (archive_identity m')"
    using t(1) u(1) by (auto simp: canonical_serialize_def split: if_splits)
  also have "\<dots> \<longleftrightarrow> ordered (archive_identity m) = ordered (archive_identity m')"
    using identity_json [OF m(2,1) assms(2)] identity_json [OF m'(2,1) assms(3)] by (rule canonical_text_names [OF assms(1)])
  also have "\<dots> \<longleftrightarrow> identity_view m = identity_view m'"
    by (rule ordered_identity_iff [OF m(2,1) assms(2) m'(2,1) assms(3)])
  finally show ?thesis .
qed

section \<open>Source paths\<close>

lemma hd_split_on: "hd (split_on c s) = takeWhile (\<lambda>x. x \<noteq> c) s"
  by (induction s) (auto split: list.splits)

lemma code_char: "(of_char c :: nat) = of_char d \<longleftrightarrow> c = d"
  by simp

lemma dots_ahead_iff: "dots_ahead (codes s) \<longleftrightarrow> hd (split_on CHR ''/'' s) = ''..''"
proof -
  have dot: "(of_char c :: nat) = 0x2E \<longleftrightarrow> c = CHR ''.''" "(of_char c :: nat) = 0x2F \<longleftrightarrow> c = CHR ''/''" for c
    using code_char [of c "CHR ''.''"] code_char [of c "CHR ''/''"] by simp_all
  show ?thesis
  proof (cases s)
    case (Cons a r)
    then show ?thesis
      by (cases r; cases "tl r") (auto simp: dots_ahead_def hd_split_on codes_def dot simp del: split_on.simps)
  qed (simp add: dots_ahead_def codes_def)
qed

lemma dots_found_iff:
  assumes "list_all (\<lambda>c. \<not> line_terminator c) (codes s)"
  shows "dots_found (codes s) \<longleftrightarrow> ''..'' \<in> set (tl (split_on CHR ''/'' s))"
  using assms
proof (induction s)
  case (Cons c s)
  have dot: "(of_char c :: nat) = 0x2F \<longleftrightarrow> c = CHR ''/''" using code_char [of c "CHR ''/''"] by simp
  have whole: "set (split_on CHR ''/'' s) = insert (hd (split_on CHR ''/'' s)) (set (tl (split_on CHR ''/'' s)))"
    by (cases "split_on CHR ''/'' s") simp_all
  have step: "dots_found (codes (c # s)) \<longleftrightarrow> c = CHR ''/'' \<and> dots_ahead (codes s) \<or> dots_found (codes s)"
    using Cons.prems dot by (simp add: codes_def)
  have IH: "dots_found (codes s) \<longleftrightarrow> ''..'' \<in> set (tl (split_on CHR ''/'' s))"
    using Cons by (simp add: codes_def)
  show ?case
  proof (cases "c = CHR ''/''")
    case True
    then have "tl (split_on CHR ''/'' (c # s)) = split_on CHR ''/'' s" by simp
    then show ?thesis using step IH dots_ahead_iff [of s] whole True by (metis insert_iff)
  next
    case False
    then show ?thesis using step IH by (auto split: list.splits)
  qed
qed (simp add: codes_def)

lemma backslash_found_iff:
  "list_all (\<lambda>c. \<not> line_terminator c) us \<Longrightarrow> backslash_found us \<longleftrightarrow> 0x5C \<in> set us"
  by (induction us) auto

text \<open>The path pattern on full UTF-16 code units, read off decompositions of the text.\<close>

definition one_line :: "nat list \<Rightarrow> bool" where
  "one_line us \<longleftrightarrow> set us \<inter> Collect line_terminator = {}"

lemma one_line_simps [simp]: "one_line []" "one_line (c # us) \<longleftrightarrow> \<not> line_terminator c \<and> one_line us"
  "one_line (us @ vs) \<longleftrightarrow> one_line us \<and> one_line vs"
  by (auto simp: one_line_def)

lemma dots_ahead_decomposed:
  "dots_ahead us \<longleftrightarrow> (\<exists>post. us = [0x2E, 0x2E] @ post \<and> (post = [] \<or> hd post = 0x2F))"
  by (cases us; cases "tl us") (auto simp: dots_ahead_def numeral_2_eq_2)

lemma dots_found_decomposed:
  "dots_found us \<longleftrightarrow> (\<exists>pre post. us = pre @ 0x2F # [0x2E, 0x2E] @ post \<and> one_line pre \<and> (post = [] \<or> hd post = 0x2F))"
  (is "_ \<longleftrightarrow> ?found us")
proof (induction us)
  case (Cons c us)
  have "?found (c # us) \<longleftrightarrow>
      (\<exists>post. c # us = 0x2F # [0x2E, 0x2E] @ post \<and> (post = [] \<or> hd post = 0x2F)) \<or> \<not> line_terminator c \<and> ?found us"
  proof
    assume "?found (c # us)"
    then obtain pre post where pp: "c # us = pre @ 0x2F # [0x2E, 0x2E] @ post" "one_line pre" "post = [] \<or> hd post = 0x2F"
      by blast
    show "(\<exists>post. c # us = 0x2F # [0x2E, 0x2E] @ post \<and> (post = [] \<or> hd post = 0x2F)) \<or> \<not> line_terminator c \<and> ?found us"
    proof (cases pre)
      case (Cons d pre')
      with pp have "\<not> line_terminator c" "us = pre' @ 0x2F # [0x2E, 0x2E] @ post" "one_line pre'" by simp_all
      with pp(3) show ?thesis by blast
    qed (use pp in auto)
  next
    assume "(\<exists>post. c # us = 0x2F # [0x2E, 0x2E] @ post \<and> (post = [] \<or> hd post = 0x2F)) \<or> \<not> line_terminator c \<and> ?found us"
    then show "?found (c # us)"
    proof
      assume "\<exists>post. c # us = 0x2F # [0x2E, 0x2E] @ post \<and> (post = [] \<or> hd post = 0x2F)"
      then show ?thesis by - (rule exI [of _ "[]"], simp)
    next
      assume "\<not> line_terminator c \<and> ?found us"
      then obtain pre post where "us = pre @ 0x2F # [0x2E, 0x2E] @ post" "one_line pre" "\<not> line_terminator c" "post = [] \<or> hd post = 0x2F"
        by blast
      then show ?thesis by - (rule exI [of _ "c # pre"], rule exI [of _ post], simp)
    qed
  qed
  with Cons show ?case by (auto simp: dots_ahead_decomposed)
qed simp

lemma backslash_found_decomposed:
  "backslash_found us \<longleftrightarrow> (\<exists>pre post. us = pre @ 0x5C # post \<and> one_line pre)"
proof (induction us)
  case (Cons c us)
  have "(\<exists>pre post. c # us = pre @ 0x5C # post \<and> one_line pre) \<longleftrightarrow>
      c = 0x5C \<or> \<not> line_terminator c \<and> (\<exists>pre post. us = pre @ 0x5C # post \<and> one_line pre)"
    by (auto simp: Cons_eq_append_conv) (metis append_Cons one_line_simps(2))+
  with Cons show ?case by simp
qed simp

text \<open>C26. The path pattern of manifests, exactly, on UTF-16 code units.  A text is accepted if and only if
  it is not empty, does not begin with a slash, has no NUL, line feed or carriage return, and has no parent
  segment and no backslash that can be reached without crossing a line terminator.  (A parent segment is
  two dots at the start or after a slash, and before a slash or the end.)  So a path without U+2028
  and U+2029 has no parent segment and no backslash at all.\<close>

theorem source_path_pattern_exact:
  "source_path_units us \<longleftrightarrow>
     us \<noteq> [] \<and> hd us \<noteq> 0x2F \<and> set us \<inter> {0, 0x0A, 0x0D} = {} \<and>
     \<not> (\<exists>pre post. us = pre @ [0x2E, 0x2E] @ post \<and> (pre = [] \<or> last pre = 0x2F) \<and> (post = [] \<or> hd post = 0x2F) \<and>
          set pre \<inter> {0x0A, 0x0D, 0x2028, 0x2029} = {}) \<and>
     \<not> (\<exists>pre post. us = pre @ [0x5C] @ post \<and> set pre \<inter> {0x0A, 0x0D, 0x2028, 0x2029} = {})"
proof -
  have lines: "set pre \<inter> {0x0A, 0x0D, 0x2028, 0x2029} = {} \<longleftrightarrow> one_line pre" for pre
    by (auto simp: one_line_def line_terminator_def)
  have slash: "\<not> line_terminator 0x2F" by (simp add: line_terminator_def)
  have parent: "(\<exists>pre post. us = pre @ [0x2E, 0x2E] @ post \<and> (pre = [] \<or> last pre = 0x2F) \<and> (post = [] \<or> hd post = 0x2F) \<and> one_line pre)
      \<longleftrightarrow> dots_ahead us \<or> dots_found us" (is "?P \<longleftrightarrow> _")
  proof
    assume ?P
    then obtain pre post where pp: "us = pre @ [0x2E, 0x2E] @ post" "pre = [] \<or> last pre = 0x2F" "post = [] \<or> hd post = 0x2F" "one_line pre"
      by blast
    show "dots_ahead us \<or> dots_found us"
    proof (cases pre rule: rev_cases)
      case Nil
      with pp show ?thesis by (simp add: dots_ahead_decomposed)
    next
      case (snoc q c)
      then have "us = q @ 0x2F # [0x2E, 0x2E] @ post" "one_line q" using pp by simp_all
      with pp(3) show ?thesis unfolding dots_found_decomposed by blast
    qed
  next
    assume "dots_ahead us \<or> dots_found us"
    then show ?P
    proof
      assume "dots_ahead us"
      then show ?thesis unfolding dots_ahead_decomposed by - (rule exI [of _ "[]"], simp)
    next
      assume "dots_found us"
      then obtain pre post where "us = pre @ 0x2F # [0x2E, 0x2E] @ post" "one_line pre" "post = [] \<or> hd post = 0x2F"
        unfolding dots_found_decomposed by blast
      then show ?thesis using slash by - (rule exI [of _ "pre @ [0x2F]"], rule exI [of _ post], simp)
    qed
  qed
  have "list_all (\<lambda>c. c \<notin> {0, 0x0A, 0x0D}) us \<longleftrightarrow> set us \<inter> {0, 0x0A, 0x0D} = {}"
    unfolding list_all_iff by blast
  moreover have "(\<exists>pre post. us = pre @ [0x5C] @ post \<and> one_line pre) \<longleftrightarrow> backslash_found us"
    by (simp add: backslash_found_decomposed)
  ultimately show ?thesis unfolding source_path_units_def lines parent by (simp only: de_Morgan_disj conj_ac simp_thms)
qed

text \<open>What that means for a manifest whose texts have 8-bit units, as the strings of this model: the path it
  records is relative and not empty, has no segment \<^verbatim>\<open>..\<close>, no backslash and no control character that
  ends a line.\<close>

theorem source_path_stays_below:
  assumes "validate_archive_manifest nt hash dp stamp m = Some []"
  shows "\<exists>s. js_get (js_get m ''provenance'') ''sourceRelativePath'' = JStr s \<and> s \<noteq> [] \<and> hd s \<noteq> CHR ''/'' \<and>
    ''..'' \<notin> set (split_on CHR ''/'' s) \<and> set s \<inter> {CHR 0x5C, nul, CHR 0x0A, CHR 0x0D} = {}"
proof -
  obtain s where s: "js_get (js_get m ''provenance'') ''sourceRelativePath'' = JStr s" "s \<noteq> []" "source_path_units (codes s)"
    using valid_manifest(2) [OF assms]
    by (auto simp: manifest_field_errors_def Let_def check_metadata_text source_path_text_def simp del: js_get.simps)
  have code: "(of_char c :: nat) = of_char d \<Longrightarrow> c = d" for c d by simp
  have plain: "list_all (\<lambda>c. c \<notin> {0, 0x0A, 0x0D}) (codes s)" using s(3) by (simp add: source_path_units_def)
  have lines: "list_all (\<lambda>c. \<not> line_terminator c) (codes s)"
    unfolding list_all_iff
  proof
    fix c assume c: "c \<in> set (codes s)"
    then have "c < 256" by (auto simp: codes_def)
    with c plain show "\<not> line_terminator c" by (auto simp: line_terminator_def list_all_iff)
  qed
  have "\<not> dots_ahead (codes s)" "\<not> dots_found (codes s)" "\<not> backslash_found (codes s)" "hd (codes s) \<noteq> 0x2F"
    using s(3) by (simp_all add: source_path_units_def)
  then have "''..'' \<notin> set (split_on CHR ''/'' s)" "0x5C \<notin> set (codes s)"
    using dots_ahead_iff [of s] dots_found_iff [OF lines] backslash_found_iff [OF lines]
    by (cases "split_on CHR ''/'' s"; simp)+
  moreover have "hd s \<noteq> CHR ''/''" using \<open>hd (codes s) \<noteq> 0x2F\<close> s(2) by (cases s) (auto simp: codes_def)
  moreover have "set s \<inter> {CHR 0x5C, nul, CHR 0x0A, CHR 0x0D} = {}"
    using plain \<open>0x5C \<notin> set (codes s)\<close> by (force simp: codes_def list_all_iff nul_def)
  ultimately show ?thesis using s by blast
qed

text \<open>The path pattern is not what it looks like: its lookaheads stop at a line separator, which the
  pattern itself admits.  After any accepted path and a line or paragraph separator, everything without
  NUL, line feed and carriage return is accepted, parent segments and backslashes included.\<close>

theorem line_separator_hides_parents:
  assumes "source_path_units p" and "sep \<in> {0x2028, 0x2029}" and "set rest \<inter> {0, 0x0A, 0x0D} = {}"
  shows "source_path_units (p @ sep # rest)"
proof -
  have sep: "line_terminator sep" "sep \<notin> {0, 0x0A, 0x0D, 0x2E, 0x2F, 0x5C}" using assms(2) by (auto simp: line_terminator_def)
  have p: "p \<noteq> []" "hd p \<noteq> 0x2F" "\<not> dots_ahead p" "\<not> dots_found p" "\<not> backslash_found p" "list_all (\<lambda>c. c \<notin> {0, 0x0A, 0x0D}) p"
    using assms(1) by (simp_all add: source_path_units_def)
  have ahead: "\<not> dots_ahead (q @ sep # rest)" if "\<not> dots_ahead q" for q
    using that sep(2) by (cases q; cases "tl q"; cases "tl (tl q)") (auto simp: dots_ahead_def numeral_2_eq_2)
  have found: "\<not> dots_found (q @ sep # rest)" if "\<not> dots_found q" for q
    using that sep ahead by (induction q) auto
  have slash: "\<not> backslash_found (q @ sep # rest)" if "\<not> backslash_found q" for q
    using that sep by (induction q) auto
  have "\<forall>c \<in> set rest. c \<notin> {0, 0x0A, 0x0D}" using assms(3) by blast
  then have "list_all (\<lambda>c. c \<notin> {0, 0x0A, 0x0D}) (p @ sep # rest)" using p(6) sep(2) by (auto simp: list_all_iff)
  with p ahead found slash show ?thesis by (simp add: source_path_units_def)
qed

lemma plain_path_unit: "source_path_units [0x61]"
  by (simp add: source_path_units_def dots_ahead_def numeral_2_eq_2)

theorem line_separator_hides_parents_witness:
  "source_path_units ([0x61] @ 0x2028 # codes ''/../../x'') \<and> \<not> source_path_units ([0x61] @ codes ''/../../x'')"
proof
  show "source_path_units ([0x61] @ 0x2028 # codes ''/../../x'')"
    by (rule line_separator_hides_parents [OF plain_path_unit]) (simp_all add: codes_def)
  show "\<not> source_path_units ([0x61] @ codes ''/../../x'')"
    by (simp add: source_path_units_def codes_def dots_ahead_def line_terminator_def numeral_2_eq_2)
qed

section \<open>Session keys\<close>

lemma split_at_nul:
  assumes "a @ nul # b = a' @ nul # b'" and "nul \<notin> set a" and "nul \<notin> set a'"
  shows "a = a' \<and> b = b'"
proof -
  have "takeWhile (\<lambda>c. c \<noteq> nul) (x @ nul # y) = x" if "nul \<notin> set x" for x y
    using that by (induction x) auto
  with assms have "a = a'" by metis
  with assms(1) show ?thesis by simp
qed

lemma identity_part_Some: "identity_part v = Some s \<longleftrightarrow> v = JStr s \<and> s \<noteq> [] \<and> s = js_trim s \<and> nul \<notin> set s"
  by (cases v) (auto simp: identity_part_def)

text \<open>The key of a session determines its brain, its provider and its number.\<close>

lemma session_key_inj:
  assumes "logical_session_key v = Some k" and "logical_session_key w = Some k"
  shows "map (js_get v) identity_fields = map (js_get w) identity_fields"
proof -
  obtain b p s where v: "js_get v ''brainId'' = JStr b" "js_get v ''provider'' = JStr p" "js_get v ''sessionId'' = JStr s"
    "nul \<notin> set b" "nul \<notin> set p" "k = b @ nul # p @ nul # s"
    using assms(1) by (auto simp: logical_session_key_def identity_part_Some split: option.splits)
  obtain b' p' s' where w: "js_get w ''brainId'' = JStr b'" "js_get w ''provider'' = JStr p'" "js_get w ''sessionId'' = JStr s'"
    "nul \<notin> set b'" "nul \<notin> set p'" "k = b' @ nul # p' @ nul # s'"
    using assms(2) by (auto simp: logical_session_key_def identity_part_Some split: option.splits)
  have "b = b' \<and> p @ nul # s = p' @ nul # s'" by (rule split_at_nul) (use v w in auto)
  moreover from this have "p = p' \<and> s = s'" by (intro split_at_nul) (use v w in auto)
  ultimately show ?thesis using v(1-3) w(1-3) by (simp add: identity_fields_def)
qed

section \<open>A run\<close>

text \<open>The same transcript, archived from two places of one machine.\<close>

definition sample_digest :: string where
  "sample_digest = replicate 64 CHR ''1''"

definition sample_input :: "string \<Rightarrow> js" where
  "sample_input path = JObj [(''brainId'', JStr ''b''), (''provider'', JStr ''d''), (''sessionId'', JStr ''1''),
     (''contentHash'', JStr sample_digest), (''byteSize'', jint 1), (''storageGeneration'', JStr ''g''),
     (''sourceMachineId'', JStr ''d''), (''sourceRelativePath'', JStr path), (''collectedAt'', JNull),
     (''storageDurabilityClass'', JStr ''unknown'')]"

definition sample_manifest :: "string \<Rightarrow> js" where
  "sample_manifest path = with_id (manifest_core (sample_input path)) sample_digest"

lemma sample_digest_hex: "hex_text 64 sample_digest" "hex_text 64 (replicate 64 CHR ''0'')"
  by (simp_all add: sample_digest_def hex_text_def list_all_iff is_hex_char_def is_digit_char_def less_eq_char_def)

lemma sample_ids:
  "safe_id_text ''b''" "safe_id_text ''d''" "safe_id_text ''1''" "safe_id_text ''g''" "safe_id_text ''unknown''"
  "source_path_text ''x''" "source_path_text ''y''"
  by (simp_all add: safe_id_text_def is_alnum_char_def is_ascii_alpha_def is_ascii_lower_def is_ascii_upper_def is_digit_char_def
      less_eq_char_def source_path_text_def source_path_units_def codes_def dots_ahead_def line_terminator_def)

lemma sample_fields:
  "js_get (JObj (manifest_core (sample_input p))) ''logicalIdentity'' = identity_object (sample_input p)"
  "js_get (JObj (manifest_core (sample_input p))) ''contentHash'' = JStr sample_digest"
  "js_get (JObj (manifest_core (sample_input p))) ''byteSize'' = jint 1"
  "js_get (JObj (manifest_core (sample_input p))) ''priorGeneration'' = JNull"
  "js_get (JObj (manifest_core (sample_input p))) ''storageDurabilityClass'' = JStr ''unknown''"
  "js_get (JObj (manifest_core (sample_input p))) ''schema'' = JStr manifest_schema"
  "js_get (JObj (manifest_core (sample_input p))) ''schemaVersion'' = jint 1"
  "js_get (JObj (manifest_core (sample_input p))) ''blob'' = JObj [(''schema'', JStr blob_schema), (''schemaVersion'', jint 1),
     (''algorithm'', JStr ''sha256''), (''hash'', JStr sample_digest), (''storageGeneration'', JStr ''g'')]"
  "js_get (JObj (manifest_core (sample_input p))) ''provenance'' = JObj [(''sourceMachineId'', JStr ''d''),
     (''sourceRelativePath'', JStr p), (''matchConfidence'', JStr ''unknown''), (''matchMethod'', JStr [])]"
  "js_get (JObj (manifest_core (sample_input p))) ''timestamps'' = JObj [(''first'', JNull), (''last'', JNull), (''collected'', JNull)]"
  by (simp_all add: manifest_core_def sample_input_def js_or_def)

lemma sample_shape: "manifest_shape_errors (with_id (manifest_core (sample_input p)) h) = []"
proof -
  have "exact_fields (with_id (manifest_core (sample_input p)) h) [''schema'', ''schemaVersion'', ''logicalIdentity'', ''contentHash'',
      ''byteSize'', ''blob'', ''provenance'', ''timestamps'', ''priorGeneration'', ''storageDurabilityClass'', ''archiveVersionId''] n = []" for n
    by (simp add: exact_fields_def with_id_def manifest_core_def)
  then show ?thesis
    by (simp add: manifest_shape_errors_def sample_fields bad_schema_def del: js_get.simps)
      (simp add: identity_object_def identity_fields_def exact_fields_def)
qed

lemma sample_field_errors:
  assumes "source_path_text p" and "0 < length p" and "length p \<le> 1024" and "hex_text 64 h"
  shows "manifest_field_errors dp stamp (with_id (manifest_core (sample_input p)) h) = []"
  using assms
  by (simp add: manifest_field_errors_def Let_def sample_fields manifest_core_id check_archive_id [simplified] same_value_text del: js_get.simps)
    (simp add: identity_object_def identity_fields_def check_identity_def check_metadata_def sample_ids sha256_value_def sample_digest_hex
      bad_size_def max_safe_integer_def field_in_def durability_classes_def sample_input_def)

lemma sample_identity:
  "archive_identity (JObj (manifest_core (sample_input p))) =
     JObj [(''schema'', JStr manifest_schema), (''schemaVersion'', jint 1), (''logicalIdentity'', identity_object (sample_input [])),
       (''contentHash'', JStr sample_digest), (''byteSize'', jint 1), (''storageGeneration'', JStr ''g''), (''priorGeneration'', JNull),
       (''provenance'', JObj [(''sourceMachineId'', JStr ''d'')])]"
  "serializable (archive_identity (JObj (manifest_core (sample_input p))))"
proof -
  show eq: "archive_identity (JObj (manifest_core (sample_input p))) =
     JObj [(''schema'', JStr manifest_schema), (''schemaVersion'', jint 1), (''logicalIdentity'', identity_object (sample_input [])),
       (''contentHash'', JStr sample_digest), (''byteSize'', jint 1), (''storageGeneration'', JStr ''g''), (''priorGeneration'', JNull),
       (''provenance'', JObj [(''sourceMachineId'', JStr ''d'')])]"
    by (simp only: archive_identity_def sample_fields) (simp add: identity_object_def identity_fields_def sample_input_def)
  show "serializable (archive_identity (JObj (manifest_core (sample_input p))))"
    unfolding eq by (simp add: identity_object_def identity_fields_def sample_input_def)
qed

lemma sample_created:
  assumes "p \<in> {''x'', ''y''}"
  shows "create_manifest unary_text (\<lambda>_. sample_digest) dp stamp (sample_input p) = Some (sample_manifest p)"
proof -
  have path: "source_path_text p" "0 < length p" "length p \<le> 1024" using assms sample_ids by auto
  let ?p = "with_id (manifest_core (sample_input p)) (replicate 64 CHR ''0'')"
  have "\<exists>errors. validate_archive_manifest unary_text (\<lambda>_. sample_digest) dp stamp ?p = Some errors \<and> filter (\<lambda>e. e \<noteq> IdMismatch) errors = []"
    using sample_identity(2) [of p] sample_shape sample_field_errors [OF path sample_digest_hex(2)]
    by (simp add: validate_archive_manifest_def archive_identity_with_id canonical_hash_def canonical_serialize_def error_if_def)
  then show ?thesis
    using sample_identity(2) [of p]
    by (auto simp: create_manifest_def Let_def canonical_hash_def canonical_serialize_def sample_manifest_def)
qed

theorem created_manifest_validates_witness:
  "validate_archive_manifest unary_text (\<lambda>_. sample_digest) (\<lambda>_. NaN) (\<lambda>_. []) (sample_manifest ''x'') = Some []"
proof -
  have "validate_archive_manifest unary_text (\<lambda>_. sample_digest) (\<lambda>_. NaN) (\<lambda>_. []) (sample_manifest ''x'') =
      Some (error_if (js_get (sample_manifest ''x'') ''priorGeneration'' = js_get (sample_manifest ''x'') ''archiveVersionId'') SelfReference)"
    by (rule created_manifest_validates [OF sample_digest_hex(1) sample_created]) simp
  moreover have "js_get (sample_manifest ''x'') ''priorGeneration'' = JNull"
    by (simp add: sample_manifest_def sample_fields del: js_get.simps)
  moreover have "js_get (sample_manifest ''x'') ''archiveVersionId'' \<noteq> JNull" by (simp add: sample_manifest_def manifest_core_id)
  ultimately show ?thesis by simp
qed

lemma sample_valid:
  assumes "p \<in> {''x'', ''y''}"
  shows "validate_archive_manifest unary_text (\<lambda>_. sample_digest) dp stamp (sample_manifest p) = Some []"
proof -
  have path: "source_path_text p" "0 < length p" "length p \<le> 1024" using assms sample_ids by auto
  show ?thesis
    using sample_identity(2) [of p] sample_shape sample_field_errors [OF path sample_digest_hex(1)]
    by (simp add: validate_archive_manifest_def archive_identity_with_id canonical_hash_def canonical_serialize_def sample_manifest_def manifest_core_id)
qed

lemma sample_json: "json_value (sample_manifest p)"
  by (simp add: sample_manifest_def with_id_def manifest_core_def sample_input_def identity_object_def identity_fields_def js_or_def)

theorem version_names_generation_witness:
  "identity_view (sample_manifest ''x'') = identity_view (sample_manifest ''y'') \<and>
   js_get (js_get (sample_manifest ''x'') ''provenance'') ''sourceRelativePath'' \<noteq> js_get (js_get (sample_manifest ''y'') ''provenance'') ''sourceRelativePath''"
proof
  have "js_get (sample_manifest ''x'') ''archiveVersionId'' = js_get (sample_manifest ''y'') ''archiveVersionId'' \<longleftrightarrow>
      identity_view (sample_manifest ''x'') = identity_view (sample_manifest ''y'')"
  proof (rule version_names_generation [OF unary_number_text sample_json sample_json])
    show "validate_archive_manifest unary_text (\<lambda>_. sample_digest) (\<lambda>_. NaN) (\<lambda>_. []) (sample_manifest ''x'') = Some []"
      "validate_archive_manifest unary_text (\<lambda>_. sample_digest) (\<lambda>_. NaN) (\<lambda>_. []) (sample_manifest ''y'') = Some []"
      by (rule sample_valid, simp)+
    show "a = b" if "canonical_serialize unary_text (archive_identity (sample_manifest ''x'')) = Some a"
      "canonical_serialize unary_text (archive_identity (sample_manifest ''y'')) = Some b" for a b
      using that by (simp only: sample_manifest_def archive_identity_with_id sample_identity(1) option.inject)
  qed
  then show "identity_view (sample_manifest ''x'') = identity_view (sample_manifest ''y'')"
    by (simp add: sample_manifest_def manifest_core_id)
  show "js_get (js_get (sample_manifest ''x'') ''provenance'') ''sourceRelativePath'' \<noteq>
      js_get (js_get (sample_manifest ''y'') ''provenance'') ''sourceRelativePath''"
    by (simp add: sample_manifest_def sample_fields del: js_get.simps) simp
qed

theorem source_path_stays_below_witness:
  "''..'' \<notin> set (split_on CHR ''/'' ''x'') \<and> js_get (js_get (sample_manifest ''x'') ''provenance'') ''sourceRelativePath'' = JStr ''x''"
proof
  show path: "js_get (js_get (sample_manifest ''x'') ''provenance'') ''sourceRelativePath'' = JStr ''x''"
    by (simp add: sample_manifest_def sample_fields del: js_get.simps) simp
  show "''..'' \<notin> set (split_on CHR ''/'' ''x'')"
    using source_path_stays_below [OF sample_valid [of "''x''" "\<lambda>_. NaN" "\<lambda>_. []"]] path by auto
qed

end
