(* ===== verification/ArchiveLedger.thy ===== *)
theory ArchiveLedger
  imports ArchiveContracts "HOL-Library.AList"
begin

text \<open>
  The ledger of archived transcripts, \<^verbatim>\<open>lib/transcript-archive/ledger.js\<close>: what a source may claim about
  its archive, the life cycle of a source, and the operations that read the ledger, change it and
  write it back.  An operation holds the ledger lock from reading to writing, so it is one step on the
  contents of the file; one that throws, times out or cannot write leaves the file as it is and is
  \<open>None\<close>.  What is written is what \<^verbatim>\<open>JSON.stringify\<close> keeps.  Parameters: those of the contracts, the
  answers of the authenticated verifiers (nothing when they throw, time out or are missing), the digest
  and length of restored bytes, and whether the text fits the byte limit.
\<close>

section \<open>Checks\<close>

definition dangerous_keys :: "string list" where
  "dangerous_keys = [''__proto__'', ''constructor'', ''prototype'']"

definition bounded_text :: "nat \<Rightarrow> (string \<Rightarrow> bool) \<Rightarrow> js \<Rightarrow> bool" where
  "bounded_text n P v = (case v of JStr s \<Rightarrow> s \<noteq> [] \<and> length s \<le> n \<and> P s | _ \<Rightarrow> False)"

definition allowed_fields :: "js \<Rightarrow> string list \<Rightarrow> bool" where
  "allowed_fields v allowed \<longleftrightarrow> js_is_record v \<and> list_all (\<lambda>k. k \<in> set allowed) (js_keys v)"

definition composite_id_text :: "string \<Rightarrow> bool" where
  "composite_id_text s \<longleftrightarrow> list_all (\<lambda>c. c = nul \<or> c = CHR 0x09 \<or> CHR 0x20 \<le> c \<and> c \<noteq> CHR 0x7F) s"

definition decimal_text :: "string \<Rightarrow> bool" where
  "decimal_text s \<longleftrightarrow> s \<noteq> [] \<and> length s \<le> 32 \<and> list_all is_digit_char s"

definition scalar :: "js \<Rightarrow> bool" where
  "scalar v = (case v of JStr s \<Rightarrow> True | JNum n \<Rightarrow> True | _ \<Rightarrow> False)"

definition fingerprint_fields :: "string list" where
  "fingerprint_fields = [''device'', ''inode'', ''size'', ''mtimeNs'', ''ctimeNs'']"

definition fingerprint_ok :: "js \<Rightarrow> bool" where
  "fingerprint_ok v \<longleftrightarrow>
     allowed_fields v fingerprint_fields \<and>
     list_all (\<lambda>(k, x). if k = ''size'' then js_int_between 0 max_safe_integer x
                       else (case x of JStr s \<Rightarrow> decimal_text s | _ \<Rightarrow> False)) (js_entries v)"

definition absolute_normal :: "js \<Rightarrow> bool" where
  "absolute_normal v = (case v of JStr s \<Rightarrow> path_is_absolute s \<and> posix_normalize s = s | _ \<Rightarrow> False)"

definition size_of :: "js \<Rightarrow> js" where
  "size_of v = js_get (js_get v ''statFingerprint'') ''size''"

section \<open>Snapshots\<close>

definition snapshot_fields :: "string list" where
  "snapshot_fields =
     [''sourceId'', ''logicalSessionKey'', ''sourcePath'', ''sourceRelativePath'', ''brainId'', ''provider'', ''sessionId'',
      ''machineId'', ''matchConfidence'', ''matchMethod'', ''statFingerprint'', ''contentHash'', ''byteSize'',
      ''firstTimestamp'', ''lastTimestamp'', ''collectedAt'', ''priorGeneration'']"

definition snapshot_limits :: "(string \<times> nat \<times> (string \<Rightarrow> bool)) list" where
  "snapshot_limits =
     [(''sourceId'', 2048, composite_id_text), (''logicalSessionKey'', 1024, composite_id_text), (''sourcePath'', 4096, safe_metadata_text),
      (''sourceRelativePath'', 1024, source_path_text), (''brainId'', 256, safe_id_text), (''provider'', 32, safe_id_text),
      (''sessionId'', 256, safe_id_text), (''machineId'', 256, safe_id_text), (''matchConfidence'', 32, safe_metadata_text),
      (''matchMethod'', 128, safe_metadata_text), (''contentHash'', 64, hex_text 64), (''firstTimestamp'', 40, safe_metadata_text),
      (''lastTimestamp'', 40, safe_metadata_text), (''collectedAt'', 40, safe_metadata_text), (''priorGeneration'', 80, safe_metadata_text)]"

text \<open>A composite source id is the key of the session, a colon and a suffix.\<close>

definition composite_ok :: "js \<Rightarrow> bool" where
  "composite_ok v =
     (case (js_get v ''logicalSessionKey'', js_get v ''sourceId'') of
        (JStr k, JStr s) \<Rightarrow>
          (if k \<noteq> [] then nul \<in> set s else True) \<and>
          (nul \<in> set s \<longrightarrow> k \<noteq> [] \<and> starts_with s (k @ '':'') \<and> drop (length k + 1) s \<noteq> [] \<and> nul \<notin> set (drop (length k + 1) s))
      | (JStr k, _) \<Rightarrow> k = []
      | (_, JStr s) \<Rightarrow> nul \<notin> set s
      | _ \<Rightarrow> True)"

definition valid_snapshot :: "(string \<Rightarrow> jsnum) \<Rightarrow> (rat \<Rightarrow> string) \<Rightarrow> js \<Rightarrow> bool" where
  "valid_snapshot dp stamp v \<longleftrightarrow>
     allowed_fields v snapshot_fields \<and>
     (js_get v ''statFingerprint'' = JUndef \<or> fingerprint_ok (js_get v ''statFingerprint'')) \<and>
     list_all (\<lambda>k. case js_get v k of JStr s \<Rightarrow> s \<notin> set dangerous_keys | _ \<Rightarrow> True) [''sourceId'', ''logicalSessionKey''] \<and>
     list_all (\<lambda>(k, x). k = ''statFingerprint'' \<or> js_nullish x \<or> scalar x) (js_entries v) \<and>
     list_all (\<lambda>(k, n, P). js_nullish (js_get v k) \<or> bounded_text n P (js_get v k)) snapshot_limits \<and>
     (\<not> truthy (js_get v ''logicalSessionKey'') \<or> list_all (\<lambda>k. js_get v k \<noteq> JUndef) identity_fields) \<and>
     composite_ok v \<and>
     (js_get v ''contentHash'' = JUndef \<or> sha256_value (js_get v ''contentHash'')) \<and>
     (js_get v ''byteSize'' = JUndef \<or> \<not> bad_size (js_get v ''byteSize'')) \<and>
     (js_get v ''sourcePath'' = JUndef \<or> absolute_normal (js_get v ''sourcePath'')) \<and>
     (js_get v ''byteSize'' = JUndef \<or> size_of v = JUndef \<or> same_value (js_get v ''byteSize'') (size_of v)) \<and>
     (js_get v ''logicalSessionKey'' = JUndef \<or> list_ex (\<lambda>k. js_get v k = JUndef) identity_fields \<or>
      (case logical_session_key v of Some k \<Rightarrow> js_get v ''logicalSessionKey'' = JStr k | None \<Rightarrow> False)) \<and>
     list_all (\<lambda>k. js_nullish (js_get v k) \<or> is_iso_instant dp stamp (js_get v k)) [''firstTimestamp'', ''lastTimestamp'', ''collectedAt'']"

section \<open>Records\<close>

definition receipt_fields_ok :: "js \<Rightarrow> bool" where
  "receipt_fields_ok r \<longleftrightarrow>
     allowed_fields r [''schema'', ''schemaVersion'', ''archiveVersionId'', ''manifestHash'', ''contentHash'', ''byteSize'',
       ''storageGeneration'', ''durabilityClass'', ''committedAt'', ''verificationStatus'', ''logicalIdentity'', ''sourceMachineId'', ''authentication''] \<and>
     allowed_fields (js_get r ''authentication'') [''keyId'', ''signature'', ''algorithm''] \<and>
     allowed_fields (js_get r ''logicalIdentity'') ([''schema'', ''schemaVersion''] @ identity_fields) \<and>
     list_all (\<lambda>(k, x). k \<in> {''authentication'', ''logicalIdentity''} \<or> scalar x) (js_entries r) \<and>
     list_all (\<lambda>(k, x). js_is_str x) (js_entries (js_get r ''authentication''))"

definition text_fields_ok :: "string \<Rightarrow> nat \<Rightarrow> nat \<Rightarrow> js \<Rightarrow> bool" where
  "text_fields_ok long n m v = list_all (\<lambda>(k, x). \<not> js_is_str x \<or> bounded_text (if k = long then n else m) safe_metadata_text x) (js_entries v)"

definition restore_fields :: "string list" where
  "restore_fields = [''restoredAt'', ''destination'', ''mode'', ''archiveVersionId'', ''contentHash'', ''byteSize'', ''result'']"

definition archive_id_test :: "(jsnum \<Rightarrow> string) \<Rightarrow> js \<Rightarrow> bool" where
  "archive_id_test nt v = archive_id_text (js_to_string nt v)"

definition restore_record_ok :: "(jsnum \<Rightarrow> string) \<Rightarrow> (string \<Rightarrow> jsnum) \<Rightarrow> (rat \<Rightarrow> string) \<Rightarrow> js \<Rightarrow> bool" where
  "restore_record_ok nt dp stamp r \<longleftrightarrow>
     allowed_fields r restore_fields \<and> list_all (\<lambda>(k, x). scalar x) (js_entries r) \<and>
     list_all (\<lambda>k. js_get r k \<noteq> JUndef) restore_fields \<and> text_fields_ok ''destination'' 4096 256 r \<and>
     absolute_normal (js_get r ''destination'') \<and> is_iso_instant dp stamp (js_get r ''restoredAt'') \<and>
     field_in [''analysis_cache'', ''native''] (js_get r ''mode'') \<and>
     field_in [''restored'', ''already_present'', ''conflict'', ''error''] (js_get r ''result'') \<and>
     archive_id_test nt (js_get r ''archiveVersionId'') \<and> sha256_value (js_get r ''contentHash'') \<and> \<not> bad_size (js_get r ''byteSize'')"

definition offload_schema :: string where
  "offload_schema = ''agentbootup.transcript.offload-record.v1''"

definition offload_fields :: "string list" where
  "offload_fields = [''schema'', ''schemaVersion'', ''offloadedAt'', ''originalPath'', ''archiveVersionId'', ''contentHash'', ''byteSize'', ''result'', ''reason'']"

definition reason_code_names :: "string list" where
  "reason_code_names = [''none'', ''auth_failed'', ''integrity_failed'', ''durability_insufficient'', ''source_changed'', ''unsupported'', ''conflict'', ''io_error'']"

definition offload_record_ok :: "(jsnum \<Rightarrow> string) \<Rightarrow> (string \<Rightarrow> jsnum) \<Rightarrow> (rat \<Rightarrow> string) \<Rightarrow> js \<Rightarrow> bool" where
  "offload_record_ok nt dp stamp r \<longleftrightarrow>
     allowed_fields r offload_fields \<and> list_all (\<lambda>k. js_get r k \<noteq> JUndef) offload_fields \<and> \<not> bad_schema r offload_schema \<and>
     text_fields_ok ''originalPath'' 4096 256 r \<and> is_iso_instant dp stamp (js_get r ''offloadedAt'') \<and>
     absolute_normal (js_get r ''originalPath'') \<and> archive_id_test nt (js_get r ''archiveVersionId'') \<and>
     sha256_value (js_get r ''contentHash'') \<and> \<not> bad_size (js_get r ''byteSize'') \<and>
     field_in [''deleted'', ''retained'', ''failed''] (js_get r ''result'') \<and> field_in reason_code_names (js_get r ''reason'')"

definition audit_required :: "string list" where
  "audit_required = [''eventId'', ''type'', ''occurredAt'', ''brainId'', ''provider'', ''actor'', ''result'', ''reason'']"

definition audit_record_ok :: "(jsnum \<Rightarrow> string) \<Rightarrow> (string \<Rightarrow> jsnum) \<Rightarrow> (rat \<Rightarrow> string) \<Rightarrow> js \<Rightarrow> bool" where
  "audit_record_ok nt dp stamp r \<longleftrightarrow>
     allowed_fields r ([''schema'', ''schemaVersion''] @ audit_fields) \<and> list_all (\<lambda>(k, x). scalar x) (js_entries r) \<and>
     \<not> bad_schema r audit_schema \<and> text_fields_ok ''reason'' 256 128 r \<and> list_all (\<lambda>k. js_get r k \<noteq> JUndef) audit_required \<and>
     list_all (\<lambda>k. safe_id_text (js_to_string nt (js_get r k))) [''eventId'', ''brainId'', ''provider'', ''actor''] \<and>
     is_iso_instant dp stamp (js_get r ''occurredAt'') \<and>
     field_in [''declare'', ''upload'', ''commit'', ''verify'', ''restore'', ''offload'', ''delete'', ''error''] (js_get r ''type'') \<and>
     field_in [''success'', ''failure'', ''blocked''] (js_get r ''result'') \<and> field_in reason_code_names (js_get r ''reason'') \<and>
     (js_get r ''archiveVersionId'' = JUndef \<or> archive_id_test nt (js_get r ''archiveVersionId''))"

definition marker_counts :: "string list" where
  "marker_counts = [''audit'', ''generations'', ''restorations'', ''offloads'']"

definition history_marker_ok :: "js \<Rightarrow> bool" where
  "history_marker_ok v \<longleftrightarrow>
     allowed_fields v [''destination'', ''contentHash'', ''byteSize'', ''counts''] \<and> absolute_normal (js_get v ''destination'') \<and>
     sha256_value (js_get v ''contentHash'') \<and> \<not> bad_size (js_get v ''byteSize'') \<and> allowed_fields (js_get v ''counts'') marker_counts \<and>
     list_all (\<lambda>k. \<not> bad_size (js_get (js_get v ''counts'') k)) marker_counts"

section \<open>Trust and bindings\<close>

text \<open>What the ledger is given: the text of a number, the digest, the clock's parser and printer, the
  answers of the verifiers to an entry and an operation (for the second also to what is claimed to have
  been read), whether a text fits the byte limit, and the history limits.\<close>

record archive_env =
  en_nt :: "jsnum \<Rightarrow> string"
  en_hash :: "string \<Rightarrow> string"
  en_dp :: "string \<Rightarrow> jsnum"
  en_stamp :: "rat \<Rightarrow> string"
  en_receipt :: "js \<Rightarrow> string \<Rightarrow> js option"
  en_restore :: "js \<Rightarrow> js \<Rightarrow> string \<Rightarrow> js option"
  en_fits :: "js \<Rightarrow> bool"
  en_generations :: nat
  en_audit :: nat
  en_restores :: nat
  en_offloads :: nat

definition hash_of :: "archive_env \<Rightarrow> js \<Rightarrow> string option" where
  "hash_of env v = canonical_hash (en_nt env) (en_hash env) v"

definition instant :: "archive_env \<Rightarrow> js \<Rightarrow> bool" where
  "instant env v = is_iso_instant (en_dp env) (en_stamp env) v"

definition manifest_ok :: "archive_env \<Rightarrow> js \<Rightarrow> bool" where
  "manifest_ok env m \<longleftrightarrow> validate_archive_manifest (en_nt env) (en_hash env) (en_dp env) (en_stamp env) m = Some []"

definition receipt_ok :: "archive_env \<Rightarrow> js \<Rightarrow> bool" where
  "receipt_ok env r \<longleftrightarrow> validate_durability_receipt (en_dp env) (en_stamp env) r = []"

definition trust_fields :: "string list" where
  "trust_fields =
     [''receiptHash'', ''manifestHash'', ''archiveVersionId'', ''contentHash'', ''byteSize'', ''storageGeneration'', ''brainId'',
      ''provider'', ''sessionId'', ''sourceMachineId'', ''manifestLookup'', ''verifierId'', ''authenticatedAt'', ''durabilityPolicy'',
      ''serverTimePolicy'', ''bindingPolicy'']"

definition is_hash_of :: "archive_env \<Rightarrow> js \<Rightarrow> js \<Rightarrow> bool" where
  "is_hash_of env h v = (case hash_of env v of Some t \<Rightarrow> h = JStr t | None \<Rightarrow> False)"

definition receipt_trust_ok :: "archive_env \<Rightarrow> js \<Rightarrow> js \<Rightarrow> bool" where
  "receipt_trust_ok env trust receipt \<longleftrightarrow>
     allowed_fields trust trust_fields \<and> bounded_text 64 (hex_text 64) (js_get trust ''receiptHash'') \<and>
     bounded_text 128 safe_id_text (js_get trust ''verifierId'') \<and> instant env (js_get trust ''authenticatedAt'') \<and>
     field_in [''insufficient'', ''versioned_replicated_confirmed''] (js_get trust ''durabilityPolicy'') \<and>
     field_in [''untrusted'', ''authenticated_store_time''] (js_get trust ''serverTimePolicy'') \<and>
     field_in [''mismatch'', ''exact_manifest_content_size_generation''] (js_get trust ''bindingPolicy'') \<and>
     is_hash_of env (js_get trust ''receiptHash'') receipt \<and>
     list_all (\<lambda>k. same_value (js_get trust k) (js_get receipt k))
       [''manifestHash'', ''archiveVersionId'', ''contentHash'', ''byteSize'', ''storageGeneration'', ''sourceMachineId''] \<and>
     list_all (\<lambda>k. same_value (js_get trust k) (js_get (js_get receipt ''logicalIdentity'') k)) identity_fields \<and>
     js_get trust ''manifestLookup'' = JStr ''authoritative_match''"

text \<open>The identity a verifier has to answer for; computing it hashes the manifest when its hash is missing.\<close>

definition expected_binding :: "archive_env \<Rightarrow> js \<Rightarrow> (string \<times> js) list option" where
  "expected_binding env e =
     (let m = js_get e ''manifest'' in
      map_option (\<lambda>mh.
        [(''archiveVersionId'', js_coalesce (js_get e ''archiveVersionId'') (js_get m ''archiveVersionId'')), (''manifestHash'', mh),
         (''contentHash'', js_get e ''contentHash''), (''byteSize'', size_of e),
         (''storageGeneration'', js_get (js_get m ''blob'') ''storageGeneration''), (''brainId'', js_get e ''brainId''),
         (''provider'', js_get e ''provider''), (''sessionId'', js_get e ''sessionId''), (''sourceMachineId'', js_get e ''machineId'')])
        (if \<not> js_nullish (js_get e ''manifestHash'') then Some (js_get e ''manifestHash'')
         else if truthy m then map_option JStr (hash_of env m) else Some JUndef))"

definition trust_matches :: "js \<Rightarrow> (string \<times> js) list \<Rightarrow> bool" where
  "trust_matches trust expected = list_all (\<lambda>(k, v). same_value (js_get trust k) v) expected"

definition manifest_binding_ok :: "archive_env \<Rightarrow> js \<Rightarrow> js \<Rightarrow> js \<Rightarrow> bool" where
  "manifest_binding_ok env m e mh \<longleftrightarrow>
     manifest_ok env m \<and>
     (js_get e ''archiveVersionId'' = JUndef \<or> same_value (js_get e ''archiveVersionId'') (js_get m ''archiveVersionId'')) \<and>
     is_hash_of env mh m \<and>
     list_all (\<lambda>k. same_value (js_get (js_get m ''logicalIdentity'') k) (js_get e k)) identity_fields \<and>
     same_value (js_get (js_get m ''provenance'') ''sourceMachineId'') (js_get e ''machineId'') \<and>
     same_value (js_get m ''contentHash'') (js_get e ''contentHash'') \<and> same_value (js_get m ''byteSize'') (size_of e)"

definition inventory_binding_ok :: "archive_env \<Rightarrow> js \<Rightarrow> bool" where
  "inventory_binding_ok env item \<longleftrightarrow>
     (let m = js_get item ''manifest''; r = js_get item ''receipt'' in
      js_is_record item \<and> same_value (js_get r ''archiveVersionId'') (js_get m ''archiveVersionId'') \<and>
      is_hash_of env (js_get r ''manifestHash'') m \<and> same_value (js_get r ''contentHash'') (js_get m ''contentHash'') \<and>
      same_value (js_get r ''byteSize'') (js_get m ''byteSize'') \<and>
      same_value (js_get r ''storageGeneration'') (js_get (js_get m ''blob'') ''storageGeneration'') \<and>
      list_all (\<lambda>k. same_value (js_get (js_get r ''logicalIdentity'') k) (js_get (js_get m ''logicalIdentity'') k)) identity_fields \<and>
      same_value (js_get r ''sourceMachineId'') (js_get (js_get m ''provenance'') ''sourceMachineId''))"

section \<open>Stored sources\<close>

definition archive_status :: "string list" where
  "archive_status =
     [''local_only'', ''hashing'', ''uploading'', ''remote_committed'', ''restore_verified'', ''eviction_eligible'', ''offloaded'',
      ''changed_since_backup'', ''blocked_durability'', ''local_restored'', ''blocked_active'', ''legacy_unverified'',
      ''inventory_present_unverified'', ''error'']"

definition committed_states :: "string list" where
  "committed_states = [''remote_committed'', ''restore_verified'', ''eviction_eligible'', ''offloaded'', ''local_restored'', ''blocked_durability'']"

definition authoritative_fields :: "string list" where
  "authoritative_fields = [''receipt'', ''receiptTrust'', ''verification'', ''archiveVersionId'', ''manifestHash'', ''manifest'']"

definition entry_fields :: "string list" where
  "entry_fields = snapshot_fields @ [''state'', ''generations''] @ authoritative_fields @
     [''inventoryReference'', ''uploadProgress'', ''restorationHistory'', ''offloadHistory'', ''historyArchive'']"

definition generation_ok :: "js \<Rightarrow> bool" where
  "generation_ok g \<longleftrightarrow>
     allowed_fields g [''contentHash'', ''machineId'', ''statFingerprint''] \<and> sha256_value (js_get g ''contentHash'') \<and>
     (js_nullish (js_get g ''machineId'') \<or> bounded_text 256 safe_id_text (js_get g ''machineId'')) \<and>
     (js_nullish (js_get g ''statFingerprint'') \<or> fingerprint_ok (js_get g ''statFingerprint''))"

definition history_limit :: nat where "history_limit = 100000"

definition history_ok :: "(js \<Rightarrow> bool) \<Rightarrow> js \<Rightarrow> bool" where
  "history_ok P v = (case v of JUndef \<Rightarrow> True | JArr vs \<Rightarrow> length vs \<le> history_limit \<and> list_all P vs | _ \<Rightarrow> False)"

definition committed_entry :: "js \<Rightarrow> bool" where
  "committed_entry e \<longleftrightarrow> field_in committed_states (js_get e ''state'') \<or> list_ex (\<lambda>k. js_get e k \<noteq> JUndef) authoritative_fields"

definition inventory_reference_ok :: "archive_env \<Rightarrow> js \<Rightarrow> js \<Rightarrow> bool" where
  "inventory_reference_ok env e r \<longleftrightarrow>
     allowed_fields r [''archiveVersionId'', ''manifestHash'', ''receiptHash'', ''contentHash'', ''byteSize'', ''storageGeneration'',
       ''brainId'', ''provider'', ''sessionId'', ''sourceMachineId'', ''observedAt'', ''durabilityClass'', ''verificationStatus'',
       ''lastDeepVerifiedAt''] \<and>
     bounded_text 67 archive_id_text (js_get r ''archiveVersionId'') \<and>
     list_all (\<lambda>k. sha256_value (js_get r k)) [''manifestHash'', ''receiptHash'', ''contentHash''] \<and>
     list_all (\<lambda>k. bounded_text 256 safe_id_text (js_get r k)) (''storageGeneration'' # identity_fields @ [''sourceMachineId'']) \<and>
     list_all (\<lambda>k. bounded_text 64 safe_id_text (js_get r k)) [''durabilityClass'', ''verificationStatus''] \<and>
     instant env (js_get r ''observedAt'') \<and>
     (js_get r ''lastDeepVerifiedAt'' = JUndef \<or> instant env (js_get r ''lastDeepVerifiedAt'')) \<and> \<not> bad_size (js_get r ''byteSize'') \<and>
     same_value (js_get r ''contentHash'') (js_get e ''contentHash'') \<and> same_value (js_get r ''byteSize'') (size_of e) \<and>
     list_all (\<lambda>k. same_value (js_get r k) (js_get e k)) identity_fields \<and>
     same_value (js_get r ''sourceMachineId'') (js_get e ''machineId'')"

definition upload_progress_fields :: "string list" where
  "upload_progress_fields = [''uploadId'', ''totalParts'', ''receivedParts'', ''updatedAt'']"

definition upload_id_text :: "string \<Rightarrow> bool" where
  "upload_id_text s \<longleftrightarrow> starts_with s ''up_'' \<and> hex_text 64 (drop 3 s)"

definition part_index :: "js \<Rightarrow> js \<Rightarrow> bool" where
  "part_index parts v =
     (case (v, parts) of (JNum (Fin q), JNum (Fin t)) \<Rightarrow> js_is_safe_integer v \<and> 0 \<le> q \<and> q < t | _ \<Rightarrow> False)"

definition upload_progress_ok :: "archive_env \<Rightarrow> js \<Rightarrow> js \<Rightarrow> bool" where
  "upload_progress_ok env e p \<longleftrightarrow>
     allowed_fields p upload_progress_fields \<and> bounded_text 67 upload_id_text (js_get p ''uploadId'') \<and>
     js_int_between 1 max_safe_integer (js_get p ''totalParts'') \<and>
     (case js_get p ''receivedParts'' of
        JArr vs \<Rightarrow> list_all (part_index (js_get p ''totalParts'')) vs \<and> distinct vs | _ \<Rightarrow> False) \<and>
     instant env (js_get p ''updatedAt'') \<and> js_get e ''state'' = JStr ''uploading''"

text \<open>The evidence of a source that claims an archive.\<close>

definition archive_bound :: "archive_env \<Rightarrow> js \<Rightarrow> bool" where
  "archive_bound env e \<longleftrightarrow>
     (let r = js_get e ''receipt''; t = js_get e ''receiptTrust'' in
      list_all (\<lambda>k. truthy (js_get e k)) [''receipt'', ''receiptTrust'', ''archiveVersionId'', ''manifestHash'', ''manifest''] \<and>
      list_all (\<lambda>k. same_value (js_get r k) (js_get e k)) [''archiveVersionId'', ''manifestHash'', ''contentHash''] \<and>
      same_value (js_get r ''byteSize'') (size_of e) \<and>
      js_get t ''serverTimePolicy'' = JStr ''authenticated_store_time'' \<and>
      js_get t ''bindingPolicy'' = JStr ''exact_manifest_content_size_generation'' \<and>
      manifest_binding_ok env (js_get e ''manifest'') e (js_get e ''manifestHash''))"

definition verification_bound :: "js \<Rightarrow> bool" where
  "verification_bound e \<longleftrightarrow>
     (let v = js_get e ''verification'' in
      list_all (\<lambda>k. same_value (js_get v k) (js_get e k)) [''archiveVersionId'', ''contentHash''] \<and>
      same_value (js_get v ''byteSize'') (size_of e))"

definition stored_entry_ok :: "archive_env \<Rightarrow> js \<Rightarrow> bool" where
  "stored_entry_ok env e \<longleftrightarrow>
     allowed_fields e entry_fields \<and>
     valid_snapshot (en_dp env) (en_stamp env) (JObj (filter (\<lambda>kv. fst kv \<in> set snapshot_fields) (js_entries e))) \<and>
     js_is_arr (js_get e ''generations'') \<and> history_ok generation_ok (js_get e ''generations'') \<and>
     field_in archive_status (js_get e ''state'') \<and>
     (js_get e ''archiveVersionId'' = JUndef \<or> bounded_text 67 archive_id_text (js_get e ''archiveVersionId'')) \<and>
     (js_get e ''manifestHash'' = JUndef \<or> sha256_value (js_get e ''manifestHash'')) \<and>
     (\<not> truthy (js_get e ''receipt'') \<or> receipt_fields_ok (js_get e ''receipt'') \<and> receipt_ok env (js_get e ''receipt'')) \<and>
     (\<not> truthy (js_get e ''verification'') \<or> validate_evidence (en_dp env) (en_stamp env) (js_get e ''verification'') = []) \<and>
     (\<not> truthy (js_get e ''manifest'') \<or> manifest_ok env (js_get e ''manifest'')) \<and>
     (\<not> truthy (js_get e ''receiptTrust'') \<or> receipt_trust_ok env (js_get e ''receiptTrust'') (js_get e ''receipt'')) \<and>
     history_ok (restore_record_ok (en_nt env) (en_dp env) (en_stamp env)) (js_get e ''restorationHistory'') \<and>
     history_ok (offload_record_ok (en_nt env) (en_dp env) (en_stamp env)) (js_get e ''offloadHistory'') \<and>
     (js_get e ''historyArchive'' = JUndef \<or> history_marker_ok (js_get e ''historyArchive'')) \<and>
     (js_get e ''inventoryReference'' = JUndef \<or> inventory_reference_ok env e (js_get e ''inventoryReference'')) \<and>
     (js_get e ''uploadProgress'' = JUndef \<or> upload_progress_ok env e (js_get e ''uploadProgress'')) \<and>
     (\<not> committed_entry e \<or> archive_bound env e) \<and>
     (\<not> truthy (js_get e ''verification'') \<or> verification_bound e) \<and>
     (\<not> field_in [''restore_verified'', ''eviction_eligible'', ''offloaded'', ''local_restored''] (js_get e ''state'') \<or>
      truthy (js_get e ''verification'')) \<and>
     (\<not> field_in [''eviction_eligible'', ''offloaded''] (js_get e ''state'') \<or>
      js_get (js_get e ''receipt'') ''durabilityClass'' = JStr ''versioned_replicated'' \<and>
      js_get (js_get e ''receiptTrust'') ''durabilityPolicy'' = JStr ''versioned_replicated_confirmed'')"

section \<open>The ledger and its file\<close>

record ledger =
  ld_sources :: "(string \<times> js) list"
  ld_audit :: "js list"
  ld_history :: js

datatype ledger_file = NoLedger | UnreadableLedger | LedgerDoc js

definition empty_ledger :: ledger where
  "empty_ledger = \<lparr>ld_sources = [], ld_audit = [], ld_history = JUndef\<rparr>"

definition ledger_doc :: "ledger \<Rightarrow> js" where
  "ledger_doc l =
     JObj ([(''schemaVersion'', jint 1), (''sources'', JObj (ld_sources l)), (''audit'', JArr (ld_audit l))] @
           (if ld_history l = JUndef then [] else [(''historyArchive'', ld_history l)]))"

definition safe_map :: "js \<Rightarrow> bool" where
  "safe_map v \<longleftrightarrow> js_is_record v \<and> list_all (\<lambda>k. k \<notin> set dangerous_keys) (js_keys v)"

definition max_sources :: nat where "max_sources = 10000"
definition max_records :: nat where "max_records = 1000000"

definition record_count :: "js \<Rightarrow> nat" where
  "record_count e = sum_list (map (\<lambda>k. length (js_elems (js_get e k))) [''generations'', ''restorationHistory'', ''offloadHistory''])"

definition validate_ledger :: "archive_env \<Rightarrow> js \<Rightarrow> ledger option" where
  "validate_ledger env v =
     (let sources = js_entries (js_get v ''sources''); audit = (if js_has_own v ''audit'' then js_get v ''audit'' else JArr []) in
      if js_get v ''schemaVersion'' = jint 1 \<and>
         allowed_fields v [''schemaVersion'', ''sources'', ''audit'', ''historyArchive''] \<and>
         safe_map (js_get v ''sources'') \<and> length sources \<le> max_sources \<and>
         (js_get v ''historyArchive'' = JUndef \<or> history_marker_ok (js_get v ''historyArchive'')) \<and>
         js_is_arr audit \<and> length (js_elems audit) \<le> history_limit \<and>
         list_all (audit_record_ok (en_nt env) (en_dp env) (en_stamp env)) (js_elems audit) \<and>
         length (js_elems audit) + sum_list (map (\<lambda>kv. record_count (snd kv)) sources) \<le> max_records \<and>
         list_all (\<lambda>kv. stored_entry_ok env (snd kv)) sources
      then Some \<lparr>ld_sources = sources, ld_audit = js_elems audit, ld_history = js_get v ''historyArchive''\<rparr>
      else None)"

text \<open>A source of the previous schema keeps its snapshot only.\<close>

definition legacy_entry :: "archive_env \<Rightarrow> string \<times> js \<Rightarrow> (string \<times> js) option" where
  "legacy_entry env kv =
     (let snapshot = AList.update ''sourceId'' (JStr (fst kv)) (filter (\<lambda>f. fst f \<in> set snapshot_fields) (js_entries (snd kv))) in
      if js_is_record (snd kv) \<and> valid_snapshot (en_dp env) (en_stamp env) (JObj snapshot)
      then Some (fst kv, JObj (snapshot @ [(''state'', JStr ''local_only''), (''generations'', JArr [])]))
      else None)"

definition migrate_ledger :: "archive_env \<Rightarrow> js \<Rightarrow> ledger option" where
  "migrate_ledger env v =
     (if js_get v ''schemaVersion'' = jint 1 then validate_ledger env v
      else if js_get v ''schemaVersion'' = jint 0 \<and> safe_map (js_get v ''sources'') \<and>
              length (js_entries (js_get v ''sources'')) \<le> max_sources
      then map_option (\<lambda>sources. empty_ledger\<lparr>ld_sources := sources\<rparr>)
             (those (map (legacy_entry env) (js_entries (js_get v ''sources''))))
      else None)"

definition read_ledger :: "archive_env \<Rightarrow> ledger_file \<Rightarrow> ledger option" where
  "read_ledger env f =
     (case f of NoLedger \<Rightarrow> Some empty_ledger | UnreadableLedger \<Rightarrow> None | LedgerDoc v \<Rightarrow> migrate_ledger env v)"

text \<open>The file that a write puts in place, if it validates and fits.  The write is by a temporary file and a
  rename; that it can fail (before the rename, and the old file stays; or after it, in the checks of the
  directory, and the caller gets an error though this file is in place) is not part of the value.\<close>

definition write_ledger :: "archive_env \<Rightarrow> ledger \<Rightarrow> ledger_file option" where
  "write_ledger env l =
     (case validate_ledger env (ledger_doc l) of
        Some l' \<Rightarrow> let doc = json_stored (ledger_doc l') in if en_fits env doc then Some (LedgerDoc doc) else None
      | None \<Rightarrow> None)"

definition update_source :: "string \<Rightarrow> js \<Rightarrow> ledger \<Rightarrow> ledger" where
  "update_source sid e l = l\<lparr>ld_sources := AList.update sid e (ld_sources l)\<rparr>"

text \<open>\<^verbatim>\<open>{ ...e, ...changes }\<close>.\<close>

definition spread :: "js \<Rightarrow> (string \<times> js) list \<Rightarrow> js" where
  "spread e changes = JObj (put_all (js_entries e) changes)"

definition drop_undefined :: "string list \<Rightarrow> js \<Rightarrow> js" where
  "drop_undefined ks e = JObj (filter (\<lambda>kv. fst kv \<in> set ks \<longrightarrow> snd kv \<noteq> JUndef) (js_entries e))"

section \<open>Authentication\<close>

definition authenticate_receipt :: "archive_env \<Rightarrow> js \<Rightarrow> string \<Rightarrow> js option" where
  "authenticate_receipt env e operation =
     Option.bind (expected_binding env e) (\<lambda>expected.
     if hash_of env (js_get e ''receipt'') = None \<or> hash_of env (js_get e ''manifest'') = None then None
     else Option.bind (en_receipt env e operation) (\<lambda>trust.
       if receipt_trust_ok env trust (js_get e ''receipt'') \<and> trust_matches trust expected \<and>
          js_get trust ''serverTimePolicy'' = JStr ''authenticated_store_time'' \<and>
          js_get trust ''bindingPolicy'' = JStr ''exact_manifest_content_size_generation''
       then Some trust else None))"

definition restore_proof_fields :: "string list" where
  "restore_proof_fields =
     [''archiveVersionId'', ''manifestHash'', ''contentHash'', ''byteSize'', ''storageGeneration'', ''brainId'', ''provider'',
      ''sessionId'', ''sourceMachineId'', ''committedReadId'', ''verifierId'', ''authenticatedAt'']"

definition authenticate_restore :: "archive_env \<Rightarrow> js \<Rightarrow> string \<Rightarrow> js option" where
  "authenticate_restore env e operation =
     (let v = js_get e ''verification'' in
      Option.bind (expected_binding env e) (\<lambda>expected.
      Option.bind (en_restore env e v operation) (\<lambda>proof.
      if allowed_fields proof restore_proof_fields \<and> trust_matches proof expected \<and> \<not> js_nullish v \<and>
         same_value (js_get proof ''committedReadId'') (js_get v ''committedReadId'') \<and>
         same_value (js_get proof ''verifierId'') (js_get v ''verifierId'') \<and> instant env (js_get proof ''authenticatedAt'')
      then Some proof else None)))"

section \<open>Snapshots of sources\<close>

definition or_null :: "js \<Rightarrow> js" where
  "or_null v = js_coalesce v JNull"

definition same_fingerprint :: "js \<Rightarrow> js \<Rightarrow> bool" where
  "same_fingerprint a b =
     list_all (\<lambda>k. same_value (or_null (js_get (js_get a ''statFingerprint'') k)) (or_null (js_get (js_get b ''statFingerprint'') k)))
       fingerprint_fields"

definition generation_machine :: "js \<Rightarrow> js \<Rightarrow> js" where
  "generation_machine snapshot e = or_null (js_coalesce (js_get snapshot ''machineId'') (js_get e ''machineId''))"

definition same_generation :: "js \<Rightarrow> js \<Rightarrow> js \<Rightarrow> bool" where
  "same_generation snapshot machine g \<longleftrightarrow>
     same_value (js_get g ''contentHash'') (js_get snapshot ''contentHash'') \<and> same_value (js_get g ''machineId'') machine \<and>
     same_fingerprint g snapshot"

text \<open>A new generation; when the list is full the oldest make room, if the history has been archived.\<close>

definition push_generation :: "nat \<Rightarrow> js \<Rightarrow> js list \<Rightarrow> js \<Rightarrow> js list option" where
  "push_generation limit e gs g =
     (if length gs < limit then Some (gs @ [g])
      else if truthy (js_get e ''historyArchive'') then Some (drop (length gs - limit + 1) gs @ [g])
      else None)"

definition archive_reset_fields :: "string list" where
  "archive_reset_fields = authoritative_fields @ [''uploadProgress'']"

definition unchanged_source :: "js \<Rightarrow> js \<Rightarrow> bool" where
  "unchanged_source previous snapshot \<longleftrightarrow>
     truthy (js_get previous ''state'') \<and> js_get snapshot ''contentHash'' \<noteq> JUndef \<and>
     same_value (js_get previous ''contentHash'') (js_get snapshot ''contentHash'') \<and> same_fingerprint previous snapshot \<and>
     list_all (\<lambda>k. js_get snapshot k = JUndef \<or> same_value (js_get snapshot k) (js_get previous k)) (identity_fields @ [''machineId''])"

definition snapshot_entry :: "js \<Rightarrow> js \<Rightarrow> js list \<Rightarrow> js" where
  "snapshot_entry previous snapshot generations =
     (let unchanged = unchanged_source previous snapshot;
          state = (if unchanged then js_get previous ''state''
                   else if field_in [''remote_committed'', ''restore_verified'', ''eviction_eligible'', ''local_restored'',
                     ''changed_since_backup''] (js_get previous ''state'') then JStr ''changed_since_backup''
                   else JStr ''local_only'');
          e = spread previous (js_entries snapshot @ [(''generations'', JArr generations), (''state'', state)] @
                (if unchanged then [] else map (\<lambda>k. (k, JUndef)) archive_reset_fields));
          gone = (\<lambda>k. k \<in> {''statFingerprint'', ''contentHash''} \<and> \<not> js_has_own snapshot k)
      in drop_undefined archive_reset_fields (JObj (filter (\<lambda>kv. \<not> gone (fst kv)) (js_entries e))))"

definition apply_snapshot :: "archive_env \<Rightarrow> string \<Rightarrow> js \<Rightarrow> ledger \<Rightarrow> ledger option" where
  "apply_snapshot env sid snapshot l =
     (let previous = (case map_of (ld_sources l) sid of Some e \<Rightarrow> e | None \<Rightarrow> JObj [(''generations'', JArr [])]);
          old = js_elems (js_get previous ''generations''); machine = generation_machine snapshot previous in
      if truthy (js_get previous ''receipt'') \<and> (js_get snapshot ''contentHash'' = JUndef \<or> js_get snapshot ''statFingerprint'' = JUndef)
      then None
      else Option.bind
        (if truthy (js_get snapshot ''contentHash'') \<and> \<not> list_ex (same_generation snapshot machine) old
         then push_generation (en_generations env) previous old
           (JObj [(''contentHash'', js_get snapshot ''contentHash''), (''machineId'', machine),
                  (''statFingerprint'', js_or (js_get snapshot ''statFingerprint'') JNull)])
         else Some old) (\<lambda>generations.
      if \<not> unchanged_source previous snapshot \<and>
         field_in [''offloaded'', ''blocked_durability'', ''blocked_active'', ''legacy_unverified'', ''inventory_present_unverified'']
           (js_get previous ''state'')
      then None
      else Some (update_source sid (snapshot_entry previous snapshot generations) l)))"

text \<open>Snapshots one after the other; one that is refused is reported, by its source if it names one.\<close>

fun record_each :: "archive_env \<Rightarrow> js list \<Rightarrow> ledger \<Rightarrow> ledger \<times> string list \<times> string option list" where
  "record_each env [] l = (l, [], [])"
| "record_each env (s # ss) l =
     (case (if valid_snapshot (en_dp env) (en_stamp env) s then js_get s ''sourceId'' else JUndef) of
        JStr sid \<Rightarrow>
          (case (if sid = [] then None else apply_snapshot env sid s l) of
             Some l' \<Rightarrow> let (r, done_ids, failed) = record_each env ss l' in (r, sid # done_ids, failed)
           | None \<Rightarrow> let (r, done_ids, failed) = record_each env ss l in (r, done_ids, Some sid # failed))
      | _ \<Rightarrow> let (r, done_ids, failed) = record_each env ss l in (r, done_ids, js_str (js_get s ''sourceId'') # failed))"

definition record_snapshots :: "archive_env \<Rightarrow> js list \<Rightarrow> ledger_file \<Rightarrow> ((string list \<times> string option list) \<times> ledger_file) option" where
  "record_snapshots env snapshots f =
     (if snapshots = [] then None
      else Option.bind (read_ledger env f) (\<lambda>l.
        let (l', done_ids, failed) = record_each env snapshots l in
        if done_ids = [] then Some (([], failed), f)
        else map_option (\<lambda>f'. ((done_ids, failed), f')) (write_ledger env l')))"

definition record_snapshot :: "archive_env \<Rightarrow> js \<Rightarrow> ledger_file \<Rightarrow> ledger_file option" where
  "record_snapshot env snapshot f =
     (case record_snapshots env [snapshot] f of Some ((_, []), f') \<Rightarrow> Some f' | _ \<Rightarrow> None)"

section \<open>Remote inventory\<close>

definition archive_version_of :: "js \<Rightarrow> js" where
  "archive_version_of e = js_coalesce (js_get e ''archiveVersionId'') (js_get (js_get e ''inventoryReference'') ''archiveVersionId'')"

text \<open>The code of a refused inventory item, or nothing.\<close>

definition inventory_item_code :: "archive_env \<Rightarrow> js \<Rightarrow> js option \<Rightarrow> string option" where
  "inventory_item_code env item requested =
     (if \<not> js_is_record item \<or> \<not> manifest_ok env (js_get item ''manifest'') \<or> \<not> receipt_ok env (js_get item ''receipt'')
      then Some ''INVENTORY_METADATA_INVALID''
      else case requested of
             Some brain \<Rightarrow>
               if \<not> truthy brain then Some ''QUERY_BRAIN_MISSING''
               else if \<not> same_value (js_get (js_get (js_get item ''manifest'') ''logicalIdentity'') ''brainId'') brain then Some ''QUERY_BRAIN_MISMATCH''
               else if inventory_binding_ok env item then None else Some ''INVENTORY_METADATA_INVALID''
           | None \<Rightarrow> if inventory_binding_ok env item then None else Some ''INVENTORY_METADATA_INVALID'')"

definition inventory_reference :: "string \<Rightarrow> string \<Rightarrow> js \<Rightarrow> js \<Rightarrow> js \<Rightarrow> js \<Rightarrow> js" where
  "inventory_reference mh rh m r observed previous =
     (let identity = js_get m ''logicalIdentity''; deep = js_get (js_get previous ''inventoryReference'') ''lastDeepVerifiedAt'' in
      JObj ([(''archiveVersionId'', js_get m ''archiveVersionId''), (''manifestHash'', JStr mh), (''receiptHash'', JStr rh),
        (''contentHash'', js_get m ''contentHash''), (''byteSize'', js_get m ''byteSize''),
        (''storageGeneration'', js_get (js_get m ''blob'') ''storageGeneration''), (''brainId'', js_get identity ''brainId''),
        (''provider'', js_get identity ''provider''), (''sessionId'', js_get identity ''sessionId''),
        (''sourceMachineId'', js_get (js_get m ''provenance'') ''sourceMachineId''), (''observedAt'', observed),
        (''durabilityClass'', js_get r ''durabilityClass''), (''verificationStatus'', js_get r ''verificationStatus'')] @
        (if truthy deep then [(''lastDeepVerifiedAt'', deep)] else [])))"

definition kept_field :: "js \<Rightarrow> string \<Rightarrow> (string \<times> js) list" where
  "kept_field e k = (if truthy (js_get e k) then [(k, js_get e k)] else [])"

definition present_field :: "string \<Rightarrow> js \<Rightarrow> (string \<times> js) list" where
  "present_field k v = (if js_nullish v then [] else [(k, v)])"

definition inventory_entry :: "string \<Rightarrow> string \<Rightarrow> js \<Rightarrow> js \<Rightarrow> js \<Rightarrow> js" where
  "inventory_entry sid key m reference previous =
     (let identity = js_get m ''logicalIdentity''; provenance = js_get m ''provenance''; times = js_get m ''timestamps'';
          size = JObj [(''size'', js_get m ''byteSize'')]; machine = js_get provenance ''sourceMachineId'' in
      JObj ([(''sourceId'', JStr sid), (''logicalSessionKey'', JStr key), (''sourceRelativePath'', js_get provenance ''sourceRelativePath'')] @
        map (\<lambda>k. (k, js_get identity k)) identity_fields @
        [(''machineId'', machine), (''matchConfidence'', js_get provenance ''matchConfidence'')] @
        kept_field provenance ''matchMethod'' @
        [(''statFingerprint'', size), (''contentHash'', js_get m ''contentHash''), (''byteSize'', js_get m ''byteSize'')] @
        present_field ''firstTimestamp'' (js_get times ''first'') @ present_field ''lastTimestamp'' (js_get times ''last'') @
        [(''collectedAt'', js_get times ''collected'')] @ present_field ''priorGeneration'' (js_get m ''priorGeneration'') @
        [(''state'', JStr ''inventory_present_unverified''),
         (''generations'', JArr [JObj [(''contentHash'', js_get m ''contentHash''), (''machineId'', machine), (''statFingerprint'', size)]])] @
        concat (map (kept_field previous) [''restorationHistory'', ''offloadHistory'', ''historyArchive'']) @
        [(''inventoryReference'', reference)]))"

text \<open>A valid item enters the ledger, or completes the source that already has its archive version.\<close>

definition record_inventory_item :: "archive_env \<Rightarrow> js \<Rightarrow> js \<Rightarrow> ledger \<Rightarrow> ledger option" where
  "record_inventory_item env observed item l =
     (let m = js_get item ''manifest''; r = js_get item ''receipt''; identity = js_get m ''logicalIdentity'';
          matches = filter (\<lambda>kv. same_value (archive_version_of (snd kv)) (js_get m ''archiveVersionId'')) (ld_sources l) in
      if length matches > 1 then None
      else case (logical_session_key identity, hash_of env m, hash_of env r) of
        (Some key, Some mh, Some rh) \<Rightarrow>
          let fresh = JStr (key @ '':'' @ js_to_string (en_nt env) (js_get m ''archiveVersionId''));
              sid = js_to_string (en_nt env) (case matches of (_, e) # _ \<Rightarrow> js_coalesce (js_get e ''sourceId'') fresh | [] \<Rightarrow> fresh);
              found = map_of (ld_sources l) sid;
              previous = (case found of Some e \<Rightarrow> e | None \<Rightarrow> JUndef);
              reference = inventory_reference mh rh m r observed previous in
          if found \<noteq> None \<and> js_get previous ''state'' \<noteq> JStr ''inventory_present_unverified'' then
            (if same_value (js_get previous ''contentHash'') (js_get m ''contentHash'') \<and>
                same_value (size_of previous) (js_get m ''byteSize'') \<and>
                list_all (\<lambda>k. same_value (js_get previous k) (js_get identity k)) identity_fields \<and>
                same_value (js_get previous ''machineId'') (js_get (js_get m ''provenance'') ''sourceMachineId'')
             then Some (update_source sid (spread previous [(''inventoryReference'', reference)]) l)
             else None)
          else Some (update_source sid (inventory_entry sid key m reference previous) l)
      | _ \<Rightarrow> None)"

fun record_items ::
    "archive_env \<Rightarrow> js \<Rightarrow> bool \<Rightarrow> nat \<Rightarrow> (js \<times> js option) list \<Rightarrow> ledger \<Rightarrow> (ledger \<times> nat \<times> (nat \<times> string) list) option" where
  "record_items env observed isolate i [] l = Some (l, 0, [])"
| "record_items env observed isolate i ((item, requested) # items) l =
     (case inventory_item_code env item requested of
        Some code \<Rightarrow>
          if isolate then map_option (\<lambda>(l', n, bad). (l', n, (i, code) # bad)) (record_items env observed isolate (i + 1) items l)
          else None
      | None \<Rightarrow>
          Option.bind (record_inventory_item env observed item l) (\<lambda>l'.
          map_option (\<lambda>(l'', n, bad). (l'', n + 1, bad)) (record_items env observed isolate (i + 1) items l')))"

definition record_inventory_entries ::
    "archive_env \<Rightarrow> js list \<Rightarrow> js \<Rightarrow> bool \<Rightarrow> js list option \<Rightarrow> ledger_file \<Rightarrow> ((nat \<times> (nat \<times> string) list) \<times> ledger_file) option" where
  "record_inventory_entries env items observed isolate brains f =
     (let requested = (case brains of Some bs \<Rightarrow> map Some bs | None \<Rightarrow> replicate (length items) None) in
      if length requested \<noteq> length items \<or> \<not> instant env observed then None
      else Option.bind (read_ledger env f) (\<lambda>l.
           Option.bind (record_items env observed isolate 0 (zip items requested) l) (\<lambda>(l', n, bad).
           if n = 0 then Some ((0, bad), f) else map_option (\<lambda>f'. ((n, bad), f')) (write_ledger env l'))))"

section \<open>One source at a time\<close>

text \<open>The shape of most operations: read, change one known source, write.\<close>

definition change_source :: "archive_env \<Rightarrow> string \<Rightarrow> (js \<Rightarrow> js option) \<Rightarrow> ledger_file \<Rightarrow> ledger_file option" where
  "change_source env sid change f =
     Option.bind (read_ledger env f) (\<lambda>l.
     Option.bind (map_of (ld_sources l) sid) (\<lambda>e.
     Option.bind (change e) (\<lambda>e'. write_ledger env (update_source sid e' l))))"

definition cmp_parts :: "js \<Rightarrow> js \<Rightarrow> int" where
  "cmp_parts a b = (case (a, b) of (JNum (Fin p), JNum (Fin q)) \<Rightarrow> if p < q then - 1 else if q < p then 1 else 0 | _ \<Rightarrow> 0)"

text \<open>Part indexes that are not numbers are refused whatever order a sort leaves them in.\<close>

definition record_upload_progress :: "archive_env \<Rightarrow> string \<Rightarrow> js \<Rightarrow> ledger_file \<Rightarrow> ledger_file option" where
  "record_upload_progress env sid progress f =
     (if \<not> allowed_fields progress upload_progress_fields then None
      else change_source env sid (\<lambda>e.
        let parts = (case js_get progress ''receivedParts'' of
                       JArr vs \<Rightarrow> JArr (sort_by cmp_parts vs)
                     | JStr s \<Rightarrow> JArr (map (\<lambda>c. JStr [c]) s)
                     | _ \<Rightarrow> JUndef);
            e' = spread e [(''uploadProgress'', spread progress [(''receivedParts'', parts)])] in
        if js_get e ''state'' = JStr ''uploading'' \<and> stored_entry_ok env e' then Some e' else None) f)"

definition has_reference :: "string \<Rightarrow> string \<Rightarrow> js \<Rightarrow> bool" where
  "has_reference brain version e \<longleftrightarrow>
     js_get (js_get e ''inventoryReference'') ''brainId'' = JStr brain \<and>
     js_get (js_get e ''inventoryReference'') ''archiveVersionId'' = JStr version"

definition record_deep_verification :: "archive_env \<Rightarrow> string \<Rightarrow> string \<Rightarrow> js \<Rightarrow> ledger_file \<Rightarrow> ledger_file option" where
  "record_deep_verification env brain version verified f =
     (if \<not> instant env verified then None
      else Option.bind (read_ledger env f) (\<lambda>l.
        case filter (\<lambda>kv. has_reference brain version (snd kv)) (ld_sources l) of
          (sid, e) # _ \<Rightarrow>
            write_ledger env (update_source sid
              (spread e [(''inventoryReference'', spread (js_get e ''inventoryReference'') [(''lastDeepVerifiedAt'', verified)])]) l)
        | [] \<Rightarrow> None))"

section \<open>The life cycle of a source\<close>

definition archive_transitions :: "(string \<times> string list) list" where
  "archive_transitions =
     [(''local_only'', [''hashing'', ''uploading'', ''remote_committed'', ''error'']),
      (''hashing'', [''uploading'', ''local_only'', ''error'']),
      (''uploading'', [''local_only'', ''remote_committed'', ''error'']),
      (''remote_committed'', [''restore_verified'', ''blocked_durability'', ''changed_since_backup'', ''error'']),
      (''restore_verified'', [''eviction_eligible'', ''changed_since_backup'', ''error'']),
      (''eviction_eligible'', [''offloaded'', ''changed_since_backup'', ''error'']),
      (''error'', [''local_only'', ''hashing'', ''uploading'', ''remote_committed'']),
      (''blocked_durability'', [''remote_committed'', ''restore_verified'', ''error'']),
      (''changed_since_backup'', [''local_only'', ''hashing'', ''uploading'', ''error'']),
      (''offloaded'', [''local_restored'']),
      (''local_restored'', [''eviction_eligible'', ''changed_since_backup'', ''error'']),
      (''legacy_unverified'', [''local_only'', ''hashing'', ''error'']),
      (''inventory_present_unverified'', [''local_only'', ''hashing'', ''error'']),
      (''blocked_active'', [''local_only'', ''hashing'', ''error''])]"

definition can_move :: "js \<Rightarrow> string \<Rightarrow> bool" where
  "can_move state next_state =
     (case state of JStr s \<Rightarrow> (case map_of archive_transitions s of Some ts \<Rightarrow> next_state \<in> set ts | None \<Rightarrow> False) | _ \<Rightarrow> False)"

text \<open>The evidence given with a transition: an object, or the object that holds the bytes of a committed
  restore read, by their digest, their length and the read's id.\<close>

datatype evidence = Fields js | RestoreRead string nat js

definition commit_evidence :: "archive_env \<Rightarrow> js \<Rightarrow> evidence \<Rightarrow> (string \<times> js) list option" where
  "commit_evidence env e ev =
     (case ev of
        Fields v \<Rightarrow>
          (let m = js_get v ''manifest''; r = js_get v ''receipt'' in
           if allowed_fields v [''archiveVersionId'', ''manifestHash'', ''manifest'', ''receipt''] \<and>
              list_all (\<lambda>k. truthy (js_get v k)) [''archiveVersionId'', ''manifestHash'', ''manifest'', ''receipt''] \<and>
              same_value (js_get v ''archiveVersionId'') (js_get m ''archiveVersionId'') \<and> \<not> bad_size (size_of e) \<and>
              manifest_binding_ok env m e (js_get v ''manifestHash'') \<and> receipt_fields_ok r \<and> receipt_ok env r \<and>
              list_all (\<lambda>k. same_value (js_get r k) (js_get v k)) [''archiveVersionId'', ''manifestHash''] \<and>
              same_value (js_get r ''contentHash'') (js_get e ''contentHash'') \<and> same_value (js_get r ''byteSize'') (size_of e) \<and>
              same_value (js_get r ''storageGeneration'') (js_get (js_get m ''blob'') ''storageGeneration'') \<and>
              list_all (\<lambda>k. same_value (js_get (js_get r ''logicalIdentity'') k) (js_get e k)) identity_fields \<and>
              same_value (js_get r ''sourceMachineId'') (js_get e ''machineId'')
           then map_option
             (\<lambda>trust. js_entries v @ [(''receiptTrust'', trust), (''verification'', JUndef), (''uploadProgress'', JUndef)])
             (authenticate_receipt env (spread e (js_entries v @ [(''state'', JStr ''remote_committed'')])) ''record_remote_commit'')
           else None)
      | RestoreRead _ _ _ \<Rightarrow> None)"

definition restore_evidence :: "archive_env \<Rightarrow> js \<Rightarrow> evidence \<Rightarrow> (string \<times> js) list option" where
  "restore_evidence env e ev =
     (case ev of
        Fields v \<Rightarrow> None
      | RestoreRead digest len rid \<Rightarrow>
          if \<not> bounded_text 128 safe_id_text rid then None
          else Option.bind (authenticate_receipt env e ''record_restore_verification'') (\<lambda>_.
            if js_get e ''contentHash'' \<noteq> JStr digest \<or> size_of e \<noteq> jint (int len) then None
            else Option.bind (expected_binding env e) (\<lambda>expected.
              Option.bind
                (en_restore env e (JObj [(''committedReadId'', rid), (''contentHash'', JStr digest), (''byteSize'', jint (int len))])
                   ''record_restore_verification'') (\<lambda>proof.
              if allowed_fields proof restore_proof_fields \<and> trust_matches proof expected \<and>
                 same_value (js_get proof ''committedReadId'') rid \<and> instant env (js_get proof ''authenticatedAt'')
              then map_option (\<lambda>v. [(''verification'', v)])
                (create_evidence (en_dp env) (en_stamp env) (JObj
                  [(''archiveVersionId'', js_get e ''archiveVersionId''), (''contentHash'', JStr digest), (''byteSize'', jint (int len)),
                   (''verifiedAt'', js_get proof ''authenticatedAt''), (''manifestHash'', js_get e ''manifestHash''),
                   (''storageGeneration'', js_get (js_get (js_get e ''manifest'') ''blob'') ''storageGeneration''),
                   (''committedReadId'', js_get proof ''committedReadId''), (''verifierId'', js_get proof ''verifierId'')]))
              else None))))"

definition no_evidence :: "evidence \<Rightarrow> bool" where
  "no_evidence ev = (case ev of Fields v \<Rightarrow> allowed_fields v [] | RestoreRead _ _ _ \<Rightarrow> False)"

definition eviction_evidence :: "archive_env \<Rightarrow> js \<Rightarrow> evidence \<Rightarrow> (string \<times> js) list option" where
  "eviction_evidence env e ev =
     (if \<not> no_evidence ev then None
      else Option.bind (authenticate_receipt env e ''eviction_eligibility'') (\<lambda>trust.
        if js_get trust ''durabilityPolicy'' = JStr ''versioned_replicated_confirmed'' \<and>
           js_get (js_get e ''receipt'') ''durabilityClass'' = JStr ''versioned_replicated'' \<and> verification_bound e
        then map_option (\<lambda>_. [(''receiptTrust'', trust)]) (authenticate_restore env e ''eviction_eligibility'')
        else None))"

definition offload_evidence :: "archive_env \<Rightarrow> js \<Rightarrow> evidence \<Rightarrow> (string \<times> js) list option" where
  "offload_evidence env e ev =
     (case ev of
        Fields v \<Rightarrow>
          (let r = js_get v ''offloadRecord''; history = js_elems (js_get e ''offloadHistory'') in
           if allowed_fields v [''offloadRecord''] \<and> offload_record_ok (en_nt env) (en_dp env) (en_stamp env) r \<and>
              list_all (\<lambda>k. same_value (js_get r k) (js_get e k)) [''archiveVersionId'', ''contentHash''] \<and>
              same_value (js_get r ''byteSize'') (size_of e) \<and> same_value (js_get r ''originalPath'') (js_get e ''sourcePath'') \<and>
              js_get r ''result'' = JStr ''deleted''
           then Option.bind (authenticate_receipt env e ''record_offload'') (\<lambda>trust.
             if js_get trust ''durabilityPolicy'' \<noteq> JStr ''versioned_replicated_confirmed'' then None
             else Option.bind (authenticate_restore env e ''record_offload'') (\<lambda>_.
               if en_offloads env \<le> length history then None
               else Some [(''offloadHistory'', JArr (history @ [r]))]))
           else None)
      | RestoreRead _ _ _ \<Rightarrow> None)"

definition local_states :: "string list" where
  "local_states = [''local_only'', ''hashing'', ''uploading'', ''changed_since_backup'', ''error'']"

definition transition_evidence :: "archive_env \<Rightarrow> string \<Rightarrow> js \<Rightarrow> evidence \<Rightarrow> (string \<times> js) list option" where
  "transition_evidence env next_state e ev =
     (if next_state = ''local_restored'' then None
      else if next_state = ''remote_committed'' then commit_evidence env e ev
      else if next_state = ''restore_verified'' then restore_evidence env e ev
      else if next_state = ''eviction_eligible'' then eviction_evidence env e ev
      else if next_state = ''offloaded'' then offload_evidence env e ev
      else if \<not> no_evidence ev then None
      else Some (if next_state \<in> set local_states
        then map (\<lambda>k. (k, JUndef)) (authoritative_fields @ [''inventoryReference''] @ (if next_state = ''uploading'' then [] else [''uploadProgress'']))
        else []))"

definition archive_transition :: "archive_env \<Rightarrow> string \<Rightarrow> string \<Rightarrow> evidence \<Rightarrow> ledger_file \<Rightarrow> ledger_file option" where
  "archive_transition env sid next_state ev f =
     change_source env sid (\<lambda>e.
       if can_move (js_get e ''state'') next_state
       then map_option
         (\<lambda>changes. let e' = spread e (changes @ [(''state'', JStr next_state)]) in drop_undefined (js_keys e') e')
         (transition_evidence env next_state e ev)
       else None) f"

section \<open>Restores\<close>

definition add_restore :: "archive_env \<Rightarrow> js \<Rightarrow> js \<Rightarrow> js option" where
  "add_restore env e r =
     (let history = js_elems (js_get e ''restorationHistory'') in
      if en_restores env \<le> length history then None else Some (spread e [(''restorationHistory'', JArr (history @ [r]))]))"

definition record_restore :: "archive_env \<Rightarrow> string \<Rightarrow> js \<Rightarrow> ledger_file \<Rightarrow> ledger_file option" where
  "record_restore env sid r f =
     (if \<not> restore_record_ok (en_nt env) (en_dp env) (en_stamp env) r \<or> js_get r ''result'' = JStr ''restored'' then None
      else change_source env sid (\<lambda>e.
        if list_all (\<lambda>k. same_value (js_get r k) (js_get e k)) [''archiveVersionId'', ''contentHash''] \<and>
           same_value (js_get r ''byteSize'') (size_of e)
        then add_restore env e r else None) f)"

definition archived_as :: "js \<Rightarrow> js" where
  "archived_as e = js_coalesce (js_get e ''inventoryReference'') e"

definition record_restore_by_archive :: "archive_env \<Rightarrow> string \<Rightarrow> js \<Rightarrow> ledger_file \<Rightarrow> ledger_file option" where
  "record_restore_by_archive env version r f =
     (if \<not> restore_record_ok (en_nt env) (en_dp env) (en_stamp env) r \<or> js_get r ''archiveVersionId'' \<noteq> JStr version then None
      else Option.bind (read_ledger env f) (\<lambda>l.
        case filter (\<lambda>kv. archive_version_of (snd kv) = JStr version) (ld_sources l) of
          [(sid, e)] \<Rightarrow>
            if list_all (\<lambda>k. same_value (js_get r k) (js_get (archived_as e) k)) [''contentHash'', ''byteSize'']
            then Option.bind (add_restore env e r) (\<lambda>e'. write_ledger env (update_source sid e' l))
            else None
        | _ \<Rightarrow> None))"

definition restored_generations :: "archive_env \<Rightarrow> js \<Rightarrow> js \<Rightarrow> js list option" where
  "restored_generations env e snapshot =
     (let gs = js_elems (js_get e ''generations''); machine = generation_machine snapshot e in
      if list_ex (same_generation snapshot machine) gs then Some gs
      else push_generation (en_generations env) e gs
        (JObj [(''contentHash'', js_get snapshot ''contentHash''), (''machineId'', machine),
               (''statFingerprint'', js_get snapshot ''statFingerprint'')]))"

text \<open>The record and the snapshot of a native restore say exactly what the ledger says.\<close>

definition restore_bound :: "js \<Rightarrow> js \<Rightarrow> js \<Rightarrow> bool" where
  "restore_bound e snapshot r \<longleftrightarrow>
     (let expected = archived_as e;
          destination = (if js_get e ''state'' = JStr ''inventory_present_unverified'' then js_get r ''destination'' else js_get e ''sourcePath'') in
      js_get r ''mode'' = JStr ''native'' \<and> field_in [''restored'', ''already_present''] (js_get r ''result'') \<and>
      same_value (js_get r ''destination'') destination \<and>
      list_all (\<lambda>k. same_value (js_get r k) (js_get expected k)) [''archiveVersionId'', ''contentHash''] \<and>
      same_value (js_get r ''byteSize'') (js_coalesce (js_get expected ''byteSize'') (size_of e)) \<and>
      same_value (js_get snapshot ''sourcePath'') destination \<and>
      same_value (js_get snapshot ''contentHash'') (js_get expected ''contentHash'') \<and> same_value (size_of snapshot) (size_of e) \<and>
      list_all (\<lambda>k. js_get snapshot k = JUndef \<or> same_value (js_get snapshot k) (js_get e k)) (identity_fields @ [''machineId'']))"

definition restored_entry :: "archive_env \<Rightarrow> js \<Rightarrow> js \<Rightarrow> js \<Rightarrow> js option" where
  "restored_entry env e snapshot r =
     (let history = js_elems (js_get e ''restorationHistory'');
          unverified = js_get e ''state'' = JStr ''inventory_present_unverified'' in
      if \<not> unverified \<and> \<not> can_move (js_get e ''state'') ''local_restored'' \<or> \<not> restore_bound e snapshot r \<or>
         en_restores env \<le> length history then None
      else if unverified
      then Some (spread e (js_entries snapshot @
        [(''state'', JStr ''inventory_present_unverified''), (''restorationHistory'', JArr (history @ [r]))]))
      else Option.bind (authenticate_receipt env e ''record_native_restore'') (\<lambda>trust.
        if js_get trust ''durabilityPolicy'' \<noteq> JStr ''versioned_replicated_confirmed'' then None
        else Option.bind (authenticate_restore env e ''record_native_restore'') (\<lambda>_.
          map_option (\<lambda>gs. spread e (js_entries snapshot @
              [(''receiptTrust'', trust), (''generations'', JArr gs), (''state'', JStr ''local_restored''),
               (''restorationHistory'', JArr (history @ [r]))]))
            (restored_generations env e snapshot))))"

definition record_restored_snapshot :: "archive_env \<Rightarrow> string \<Rightarrow> js \<Rightarrow> js \<Rightarrow> ledger_file \<Rightarrow> ledger_file option" where
  "record_restored_snapshot env sid snapshot r f =
     (if valid_snapshot (en_dp env) (en_stamp env) snapshot \<and> restore_record_ok (en_nt env) (en_dp env) (en_stamp env) r \<and>
         js_get snapshot ''sourceId'' = JStr sid
      then change_source env sid (\<lambda>e. restored_entry env e snapshot r) f else None)"

section \<open>Audit, history and replacement\<close>

definition record_audit :: "archive_env \<Rightarrow> js \<Rightarrow> ledger_file \<Rightarrow> ledger_file option" where
  "record_audit env r f =
     (if \<not> audit_record_ok (en_nt env) (en_dp env) (en_stamp env) r then None
      else Option.bind (read_ledger env f) (\<lambda>l.
        if en_audit env \<le> length (ld_audit l) then None else write_ledger env (l\<lparr>ld_audit := ld_audit l @ [r]\<rparr>)))"

definition history_counts :: "ledger \<Rightarrow> js" where
  "history_counts l =
     (let count = (\<lambda>k. jint (int (sum_list (map (\<lambda>kv. length (js_elems (js_get (snd kv) k))) (ld_sources l))))) in
      JObj [(''audit'', jint (int (length (ld_audit l)))), (''generations'', count ''generations''),
            (''restorations'', count ''restorationHistory''), (''offloads'', count ''offloadHistory'')])"

definition history_artifact :: "string \<Rightarrow> ledger \<Rightarrow> js" where
  "history_artifact file l =
     JObj [(''schema'', JStr ''agentbootup.transcript.ledger-history-archive.v1''), (''schemaVersion'', jint 1),
           (''sourceLedger'', JStr file), (''counts'', history_counts l), (''ledger'', ledger_doc l)]"

definition last_generation :: "js \<Rightarrow> js list" where
  "last_generation e = (let gs = js_elems (js_get e ''generations'') in drop (length gs - 1) gs)"

definition compacted :: "js \<Rightarrow> ledger \<Rightarrow> ledger" where
  "compacted marker l =
     \<lparr>ld_sources = map (\<lambda>(sid, e). (sid, spread e [(''historyArchive'', marker), (''generations'', JArr (last_generation e)),
        (''restorationHistory'', JArr []), (''offloadHistory'', JArr [])])) (ld_sources l),
      ld_audit = [], ld_history = marker\<rparr>"

text \<open>\<open>archived\<close> is what writing the artifact to the destination answers: the digest and the length of the
  bytes that were read back, or nothing when the destination could not be written and verified.\<close>

definition archive_history_to :: "archive_env \<Rightarrow> string \<Rightarrow> (js \<Rightarrow> (string \<times> nat) option) \<Rightarrow> string \<Rightarrow> ledger_file \<Rightarrow> ledger_file option" where
  "archive_history_to env destination archived file f =
     Option.bind (read_ledger env f) (\<lambda>l.
     Option.bind (archived (history_artifact file l)) (\<lambda>(digest, size).
       write_ledger env (compacted (JObj [(''destination'', JStr destination), (''contentHash'', JStr digest),
         (''byteSize'', jint (int size)), (''counts'', history_counts l)]) l)))"

definition ledger_revision :: "archive_env \<Rightarrow> js \<Rightarrow> string option" where
  "ledger_revision env v = Option.bind (migrate_ledger env v) (\<lambda>l. hash_of env (ledger_doc l))"

text \<open>Every source with some evidence is verified again; the sweep is all or nothing.\<close>

definition verify_loaded :: "archive_env \<Rightarrow> ledger \<Rightarrow> bool" where
  "verify_loaded env l =
     list_all (\<lambda>kv. let e = snd kv in
       list_all (\<lambda>k. js_get e k = JUndef) authoritative_fields \<or>
       (case authenticate_receipt env e ''ledger_load'' of
          None \<Rightarrow> False
        | Some trust \<Rightarrow>
            (\<not> truthy (js_get e ''verification'') \<or> authenticate_restore env e ''ledger_load'' \<noteq> None) \<and>
            (\<not> field_in [''eviction_eligible'', ''offloaded''] (js_get e ''state'') \<or>
             js_get trust ''durabilityPolicy'' = JStr ''versioned_replicated_confirmed''))) (ld_sources l)"

definition ledger_read :: "archive_env \<Rightarrow> bool \<Rightarrow> ledger_file \<Rightarrow> ledger option" where
  "ledger_read env verify f =
     Option.bind (read_ledger env f) (\<lambda>l. if verify \<and> \<not> verify_loaded env l then None else Some l)"

text \<open>A ledger replaced as a whole, by a caller that names the revision it has read.\<close>

definition replace_ledger :: "archive_env \<Rightarrow> js \<Rightarrow> string option \<Rightarrow> ledger_file \<Rightarrow> ledger_file option" where
  "replace_ledger env v expected f =
     Option.bind (migrate_ledger env v) (\<lambda>l'.
     if (case expected of Some h \<Rightarrow> \<not> hex_text 64 h | None \<Rightarrow> False) then None
     else Option.bind (read_ledger env f) (\<lambda>l.
       if f \<noteq> NoLedger \<and> (expected = None \<or> ledger_revision env (ledger_doc l) \<noteq> expected) then None
       else if \<not> verify_loaded env l' then None
       else write_ledger env l'))"

end
