(* ===== verification/ArchiveLifecycle.thy ===== *)
theory ArchiveLifecycle
  imports ArchiveLedger
begin

text \<open>
  What the archive ledger promises: what a source that may be deleted, or has been, is known to be
  backed by; what it takes to record the deletion; and that the evidence then stays whatever happens to
  the ledger.
\<close>

section \<open>A source of a ledger that was read\<close>

lemma validate_ledger_entry:
  "validate_ledger env v = Some l \<Longrightarrow> kv \<in> set (ld_sources l) \<Longrightarrow> stored_entry_ok env (snd kv)"
  by (auto simp: validate_ledger_def Let_def list_all_iff split: if_splits)

lemma legacy_entry_state:
  assumes "legacy_entry env kv = Some kv'"
  shows "js_get (snd kv') ''state'' = JStr ''local_only''"
proof -
  let ?own = "filter (\<lambda>f. fst f \<in> set snapshot_fields) (js_entries (snd kv))"
  have "map_of ?own ''state'' = None"
    unfolding map_of_filter_fst [of "\<lambda>k. k \<in> set snapshot_fields"] by (simp add: snapshot_fields_def)
  then have "map_of (AList.update ''sourceId'' (JStr (fst kv)) ?own) ''state'' = None" by (simp add: update_conv' del: map_of_eq_None_iff)
  moreover have "snd kv' = JObj (AList.update ''sourceId'' (JStr (fst kv)) ?own @ [(''state'', JStr ''local_only''), (''generations'', JArr [])])"
    using assms by (auto simp: legacy_entry_def Let_def split: if_splits)
  ultimately show ?thesis by (simp add: map_add_def del: map_of_eq_None_iff)
qed

lemma those_map_mem: "those (map f xs) = Some ys \<Longrightarrow> y \<in> set ys \<Longrightarrow> \<exists>x\<in>set xs. f x = Some y"
  by (induction xs arbitrary: ys) (auto split: option.splits)

lemma read_ledger_entry:
  assumes "read_ledger env f = Some l" and "(sid, e) \<in> set (ld_sources l)"
  shows "stored_entry_ok env e \<or> js_get e ''state'' = JStr ''local_only''"
proof -
  from assms obtain v where f: "migrate_ledger env v = Some l"
    by (auto simp: read_ledger_def empty_ledger_def split: ledger_file.splits)
  show ?thesis
  proof (cases "js_get v ''schemaVersion'' = jint 1")
    case True
    with f assms(2) show ?thesis using validate_ledger_entry [of env v l "(sid, e)"] by (simp add: migrate_ledger_def)
  next
    case False
    with f obtain ss where "those (map (legacy_entry env) (js_entries (js_get v ''sources''))) = Some ss" "ld_sources l = ss"
      by (auto simp: migrate_ledger_def split: if_splits)
    with assms(2) those_map_mem [of "legacy_entry env" _ ss "(sid, e)"] obtain kv where "legacy_entry env kv = Some (sid, e)" by blast
    then show ?thesis using legacy_entry_state [of env kv "(sid, e)"] by simp
  qed
qed

definition evictable :: "js \<Rightarrow> bool" where
  "evictable e = field_in [''eviction_eligible'', ''offloaded''] (js_get e ''state'')"

lemma is_hash_of_text: "is_hash_of env h v \<longleftrightarrow> (\<exists>t. hash_of env v = Some t \<and> h = JStr t)"
  by (auto simp: is_hash_of_def split: option.splits)

lemma manifest_ok_address:
  assumes "manifest_ok env m"
  obtains h where "hash_of env (archive_identity m) = Some h" and "js_get m ''archiveVersionId'' = JStr (''av_'' @ h)"
  using assms by (auto simp: manifest_ok_def validate_archive_manifest_def hash_of_def Let_def split: if_splits)

lemma same_value_eq: "same_value a b \<Longrightarrow> a = b"
  by (simp add: same_value_def)

text \<open>The checks on a stored source that matter before its file may be deleted.\<close>

lemma evictable_entry:
  assumes "stored_entry_ok env e" and "evictable e"
  shows "archive_bound env e" and "truthy (js_get e ''verification'')" and "verification_bound e"
    and "receipt_trust_ok env (js_get e ''receiptTrust'') (js_get e ''receipt'')"
    and "js_get (js_get e ''receipt'') ''durabilityClass'' = JStr ''versioned_replicated''"
    and "js_get (js_get e ''receiptTrust'') ''durabilityPolicy'' = JStr ''versioned_replicated_confirmed''"
proof -
  from assms(2) have st: "field_in [''restore_verified'', ''eviction_eligible'', ''offloaded'', ''local_restored''] (js_get e ''state'')"
      "committed_entry e"
    by (auto simp: evictable_def field_in_def committed_entry_def committed_states_def split: js.splits)
  note ok = assms(1) [unfolded stored_entry_ok_def]
  show bound: "archive_bound env e" using ok st by blast
  show ver: "truthy (js_get e ''verification'')" using ok st by blast
  show "verification_bound e" using ok ver by blast
  have "truthy (js_get e ''receiptTrust'')" using bound by (simp add: archive_bound_def Let_def)
  then show "receipt_trust_ok env (js_get e ''receiptTrust'') (js_get e ''receipt'')" using ok by blast
  show "js_get (js_get e ''receipt'') ''durabilityClass'' = JStr ''versioned_replicated''"
    and "js_get (js_get e ''receiptTrust'') ''durabilityPolicy'' = JStr ''versioned_replicated_confirmed''"
    using ok assms(2) by (auto simp: evictable_def)
qed

text \<open>C4. What may be deleted is archived.  In whatever ledger the code accepts, a source that is eligible for
  eviction or offloaded has a manifest whose address is the archive version and whose hash is the
  recorded one; the receipt of the store is bound to that manifest, and the content hash and size of the
  local file are those of the manifest, of the receipt and of the verified restore; and the trust in that
  very receipt says that replication is confirmed.\<close>

theorem evictable_sources_are_backed:
  assumes "read_ledger env f = Some l" and "(sid, e) \<in> set (ld_sources l)"
    and "field_in [''eviction_eligible'', ''offloaded''] (js_get e ''state'')"
  shows "\<exists>version mh rh.
    hash_of env (archive_identity (js_get e ''manifest'')) = Some version \<and> js_get e ''archiveVersionId'' = JStr (''av_'' @ version) \<and>
    hash_of env (js_get e ''manifest'') = Some mh \<and> js_get e ''manifestHash'' = JStr mh \<and>
    hash_of env (js_get e ''receipt'') = Some rh \<and> js_get (js_get e ''receiptTrust'') ''receiptHash'' = JStr rh \<and>
    (\<forall>k\<in>{''receipt'', ''receiptTrust''}. js_get (js_get e k) ''manifestHash'' = JStr mh) \<and>
    (\<forall>k\<in>{''manifest'', ''receipt'', ''receiptTrust'', ''verification''}.
       js_get (js_get e k) ''archiveVersionId'' = js_get e ''archiveVersionId'' \<and>
       js_get (js_get e k) ''contentHash'' = js_get e ''contentHash'' \<and>
       js_get (js_get e k) ''byteSize'' = js_get (js_get e ''statFingerprint'') ''size'') \<and>
    js_get (js_get e ''receipt'') ''durabilityClass'' = JStr ''versioned_replicated'' \<and>
    js_get (js_get e ''receiptTrust'') ''durabilityPolicy'' = JStr ''versioned_replicated_confirmed''"
proof -
  have ok: "stored_entry_ok env e" using read_ledger_entry [OF assms(1,2)] assms(3) by (auto simp: field_in_def)
  note ev = evictable_entry [OF ok, unfolded evictable_def, OF assms(3)]
  let ?m = "js_get e ''manifest''" and ?r = "js_get e ''receipt''"
  from ev(1) have m: "manifest_binding_ok env ?m e (js_get e ''manifestHash'')" and truthy: "truthy (js_get e ''archiveVersionId'')"
    and r: "js_get ?r ''archiveVersionId'' = js_get e ''archiveVersionId''" "js_get ?r ''manifestHash'' = js_get e ''manifestHash''"
      "js_get ?r ''contentHash'' = js_get e ''contentHash''" "js_get ?r ''byteSize'' = size_of e"
    by (auto simp: archive_bound_def Let_def dest: same_value_eq)
  from m have mm: "js_get ?m ''contentHash'' = js_get e ''contentHash''" "js_get ?m ''byteSize'' = size_of e" "manifest_ok env ?m"
      "is_hash_of env (js_get e ''manifestHash'') ?m"
      "js_get e ''archiveVersionId'' = JUndef \<or> js_get e ''archiveVersionId'' = js_get ?m ''archiveVersionId''"
    by (auto simp: manifest_binding_ok_def dest: same_value_eq)
  from manifest_ok_address [OF mm(3)] obtain h where h: "hash_of env (archive_identity ?m) = Some h" "js_get ?m ''archiveVersionId'' = JStr (''av_'' @ h)" .
  have id: "js_get ?m ''archiveVersionId'' = js_get e ''archiveVersionId''" using mm(5) truthy by auto
  have t: "js_get (js_get e ''receiptTrust'') k = js_get ?r k"
    if "k \<in> {''manifestHash'', ''archiveVersionId'', ''contentHash'', ''byteSize''}" for k
    using ev(4) that by (auto simp: receipt_trust_ok_def dest: same_value_eq)
  from ev(4) obtain rh where "hash_of env ?r = Some rh" "js_get (js_get e ''receiptTrust'') ''receiptHash'' = JStr rh"
    by (auto simp: receipt_trust_ok_def is_hash_of_text)
  moreover obtain mh where "hash_of env ?m = Some mh" "js_get e ''manifestHash'' = JStr mh" using mm(4) by (auto simp: is_hash_of_text)
  moreover have "js_get (js_get e ''verification'') ''archiveVersionId'' = js_get e ''archiveVersionId''"
      "js_get (js_get e ''verification'') ''contentHash'' = js_get e ''contentHash''"
      "js_get (js_get e ''verification'') ''byteSize'' = size_of e"
    using ev(3) by (auto simp: verification_bound_def Let_def dest: same_value_eq)
  ultimately show ?thesis using h id r mm(1,2) t ev(5,6) by (auto simp: size_of_def)
qed

section \<open>What a step may do to a source\<close>

text \<open>The evidence of a deletion: what restoring the source depends on.\<close>

definition evidence_fields :: "string list" where
  "evidence_fields = [''receipt'', ''receiptTrust'', ''verification'', ''archiveVersionId'', ''manifestHash'', ''manifest'', ''contentHash'', ''state'']"

definition offloaded_with :: "js \<Rightarrow> js \<Rightarrow> bool" where
  "offloaded_with e e' \<longleftrightarrow>
     distinct (js_keys e') \<and> js_get e' ''state'' = JStr ''offloaded'' \<and> list_all (\<lambda>k. js_get e' k = js_get e k) evidence_fields"

lemma js_get_spread: "js_get (spread e changes) k = (case map_of (rev changes) k of None \<Rightarrow> js_get e k | Some v \<Rightarrow> v)"
  by (cases e) (auto simp: spread_def map_of_put_all split: option.splits)

lemma distinct_spread: "distinct (js_keys e) \<Longrightarrow> distinct (js_keys (spread e changes))"
  by (cases e) (auto simp: spread_def distinct_put_all [of "[]", simplified] intro: distinct_put_all)

lemma offloaded_same:
  assumes "offloaded_with e e'" and "distinct (js_keys e'')" and "\<And>k. k \<in> set evidence_fields \<Longrightarrow> js_get e'' k = js_get e' k"
  shows "offloaded_with e e''"
proof -
  have "js_get e'' ''state'' = js_get e' ''state''" by (rule assms(3)) (simp add: evidence_fields_def)
  with assms show ?thesis unfolding offloaded_with_def list_all_iff by metis
qed

lemma offloaded_spread:
  assumes "offloaded_with e e'"
    and "\<And>k v. k \<in> set evidence_fields \<Longrightarrow> map_of (rev changes) k = Some v \<Longrightarrow> v = js_get e' k"
  shows "offloaded_with e (spread e' changes)"
proof (rule offloaded_same [OF assms(1)])
  show "distinct (js_keys (spread e' changes))" using assms(1) by (simp add: offloaded_with_def distinct_spread)
  show "js_get (spread e' changes) k = js_get e' k" if "k \<in> set evidence_fields" for k
    using assms(2) [OF that] by (auto simp: js_get_spread split: option.splits)
qed

lemma offloaded_spread_other:
  "offloaded_with e e' \<Longrightarrow> fst ` set changes \<inter> set evidence_fields = {} \<Longrightarrow> offloaded_with e (spread e' changes)"
  by (rule offloaded_spread) (force dest!: map_of_SomeD)+

section \<open>What is written\<close>

text \<open>A source in a file of the current schema; files and records are what a parser returns, so no key is
  repeated and nothing in a record is lost when it is written again.\<close>

definition parsed_record :: "js \<Rightarrow> bool" where
  "parsed_record e \<longleftrightarrow> json_stored e = e \<and> distinct (js_keys e)"

definition stored_source :: "string \<Rightarrow> js \<Rightarrow> ledger_file \<Rightarrow> bool" where
  "stored_source sid e f =
     (case f of
        LedgerDoc d \<Rightarrow> js_get d ''schemaVersion'' = jint 1 \<and> distinct (js_keys (js_get d ''sources'')) \<and>
          map_of (js_entries (js_get d ''sources'')) sid = Some e
      | _ \<Rightarrow> False)"

definition kept_in :: "string \<Rightarrow> js \<Rightarrow> ledger_file \<Rightarrow> bool" where
  "kept_in sid e f \<longleftrightarrow> parsed_record e \<and> (\<exists>e'. stored_source sid e' f \<and> offloaded_with e e')"

definition kept_by :: "string \<Rightarrow> js \<Rightarrow> ledger \<Rightarrow> bool" where
  "kept_by sid e l \<longleftrightarrow>
     distinct (map fst (ld_sources l)) \<and> (\<exists>e'. map_of (ld_sources l) sid = Some e' \<and> offloaded_with e e')"

lemma kept_read:
  assumes "kept_in sid e f" and "read_ledger env f = Some l"
  shows "kept_by sid e l"
proof -
  from assms(1) obtain e' where e': "stored_source sid e' f" "offloaded_with e e'" by (auto simp: kept_in_def)
  then obtain d where d: "f = LedgerDoc d" by (cases f) (simp_all add: stored_source_def)
  with e' have doc: "js_get d ''schemaVersion'' = jint 1" "distinct (map fst (js_entries (js_get d ''sources'')))"
      "map_of (js_entries (js_get d ''sources'')) sid = Some e'"
    by (simp_all add: stored_source_def js_keys_entries)
  with d assms(2) have "validate_ledger env d = Some l" by (simp add: read_ledger_def migrate_ledger_def)
  then have "ld_sources l = js_entries (js_get d ''sources'')" by (auto simp: validate_ledger_def Let_def split: if_splits)
  with doc e'(2) show ?thesis by (auto simp: kept_by_def)
qed

lemma offloaded_stored:
  assumes "offloaded_with e e'" and "parsed_record e"
  shows "offloaded_with e (json_stored e')"
proof -
  have "js_get (json_stored e') k = js_get e k" if "k \<in> set evidence_fields" for k
  proof -
    have "js_get (json_stored e') k = json_stored (js_get e k)"
      using assms(1) that by (simp add: offloaded_with_def list_all_iff js_get_stored)
    also have "\<dots> = js_get (json_stored e) k" by (rule js_get_stored [symmetric]) (use assms(2) in \<open>simp add: parsed_record_def\<close>)
    also have "json_stored e = e" using assms(2) by (simp add: parsed_record_def)
    finally show ?thesis .
  qed
  with assms(1) show ?thesis by (simp add: offloaded_with_def list_all_iff distinct_stored js_get_stored)
qed

lemma validated_doc: "validate_ledger env (ledger_doc l) = Some l' \<Longrightarrow> l' = l"
  by (cases l) (auto simp: validate_ledger_def ledger_doc_def Let_def split: if_splits)

lemma kept_write:
  assumes "kept_by sid e l" and "parsed_record e" and "write_ledger env l = Some f"
  shows "kept_in sid e f"
proof -
  from assms(1) obtain e' where e': "map_of (ld_sources l) sid = Some e'" "offloaded_with e e'" "distinct (map fst (ld_sources l))"
    by (auto simp: kept_by_def)
  from assms(3) obtain l' where valid: "validate_ledger env (ledger_doc l) = Some l'" and f: "f = LedgerDoc (json_stored (ledger_doc l))"
    by (auto simp: write_ledger_def Let_def dest: validated_doc split: option.splits if_splits)
  have sources: "js_get (ledger_doc l) ''sources'' = JObj (ld_sources l)" by (simp add: ledger_doc_def)
  have "\<forall>kv\<in>set (ld_sources l). js_is_record (snd kv)"
    using valid by (auto simp: validate_ledger_def Let_def sources list_all_iff stored_entry_ok_def allowed_fields_def split: if_splits)
  then have all: "filter (\<lambda>kv. snd kv \<noteq> JUndef) (map (\<lambda>(k, v). (k, json_stored v)) (ld_sources l)) = map (\<lambda>(k, v). (k, json_stored v)) (ld_sources l)"
    by (intro filter_True) auto
  have "js_get (json_stored (ledger_doc l)) ''sources'' = json_stored (JObj (ld_sources l))"
      "js_get (json_stored (ledger_doc l)) ''schemaVersion'' = jint 1"
    by (simp_all add: ledger_doc_def)
  moreover have "map_of (map (\<lambda>(k, v). (k, json_stored v)) (ld_sources l)) sid = Some (json_stored e')"
    unfolding map_of_map using e'(1) by (simp del: map_of_eq_Some_iff)
  moreover have "distinct (map fst (map (\<lambda>(k, v). (k, json_stored v)) (ld_sources l)))"
    using e'(3) by (simp add: comp_def case_prod_unfold)
  ultimately have "stored_source sid (json_stored e') f"
    using all by (simp only: f stored_source_def ledger_file.case json_stored.simps js_entries.simps js_keys.simps simp_thms)
  with offloaded_stored [OF e'(2) assms(2)] assms(2) show ?thesis by (auto simp: kept_in_def)
qed

lemma kept_update:
  "kept_by sid e l \<Longrightarrow> (sid' = sid \<Longrightarrow> offloaded_with e e') \<Longrightarrow> kept_by sid e (update_source sid' e' l)"
  by (auto simp: kept_by_def update_source_def update_conv' distinct_update)

text \<open>An operation that reads the ledger, changes it and writes it.\<close>

lemma kept_change:
  assumes "kept_in sid e f" and "Option.bind (read_ledger env f) (\<lambda>l. Option.bind (change l) (write_ledger env)) = Some f'"
    and "\<And>l l'. kept_by sid e l \<Longrightarrow> change l = Some l' \<Longrightarrow> kept_by sid e l'"
  shows "kept_in sid e f'"
proof -
  from assms(2) obtain l l' where l: "read_ledger env f = Some l" "change l = Some l'" "write_ledger env l' = Some f'"
    by (auto simp: bind_eq_Some_conv)
  have "kept_by sid e l'" by (rule assms(3) [OF kept_read [OF assms(1) l(1)] l(2)])
  moreover have "parsed_record e" using assms(1) by (simp add: kept_in_def)
  ultimately show ?thesis by (rule kept_write [OF _ _ l(3)])
qed

lemma kept_change_source:
  assumes "kept_in sid e f" and "change_source env sid' change f = Some f'"
    and "\<And>e' e''. sid' = sid \<Longrightarrow> offloaded_with e e' \<Longrightarrow> change e' = Some e'' \<Longrightarrow> offloaded_with e e''"
  shows "kept_in sid e f'"
proof (rule kept_change [OF assms(1)])
  let ?change = "\<lambda>l. Option.bind (map_of (ld_sources l) sid') (\<lambda>e. map_option (\<lambda>e'. update_source sid' e' l) (change e))"
  show "Option.bind (read_ledger env f) (\<lambda>l. Option.bind (?change l) (write_ledger env)) = Some f'"
    using assms(2) by (simp add: change_source_def bind_map_option comp_def Option.bind_assoc)
  show "kept_by sid e l'" if "kept_by sid e l" "?change l = Some l'" for l l'
  proof -
    from that(2) obtain e' e'' where e': "map_of (ld_sources l) sid' = Some e'" "change e' = Some e''" "l' = update_source sid' e'' l"
      by (auto simp: bind_eq_Some_conv)
    from that(1) have "offloaded_with e e'" if "sid' = sid" using e'(1) that by (auto simp: kept_by_def)
    with assms(3) e'(2) have "offloaded_with e e''" if "sid' = sid" using that by blast
    with that(1) show ?thesis unfolding e'(3) by (rule kept_update)
  qed
qed

section \<open>The operations\<close>

lemma snapshot_allowed: "valid_snapshot dp stamp s \<Longrightarrow> fst ` set (js_entries s) \<subseteq> set snapshot_fields"
proof -
  assume "valid_snapshot dp stamp s"
  then have "allowed_fields s snapshot_fields" unfolding valid_snapshot_def by blast
  then show ?thesis by (auto simp: allowed_fields_def js_keys_entries list_all_iff simp del: map_of_eq_Some_iff)
qed

lemma evidence_not_snapshot: "k \<in> set snapshot_fields \<Longrightarrow> k \<in> set evidence_fields \<Longrightarrow> k = ''contentHash''"
  by (auto simp: snapshot_fields_def evidence_fields_def)

lemma js_get_filtered: "js_get (JObj (filter (\<lambda>kv. P (fst kv)) (js_entries v))) k = (if P k then js_get v k else JUndef)"
  by (cases v) (auto simp: map_of_filter_fst simp del: map_of_eq_Some_iff)

lemma distinct_filtered: "distinct (js_keys v) \<Longrightarrow> distinct (js_keys (JObj (filter P (js_entries v))))"
  by (simp add: js_keys_entries distinct_map_filter)

lemma js_get_drop_undefined:
  assumes "distinct (js_keys v)"
  shows "js_get (drop_undefined ks v) k = js_get v k"
proof -
  have "map_of (filter (\<lambda>kv. fst kv \<in> set ks \<longrightarrow> snd kv \<noteq> JUndef) kvs) k =
      (case map_of kvs k of None \<Rightarrow> None | Some v \<Rightarrow> if k \<in> set ks \<and> v = JUndef then None else Some v)"
    if "distinct (map fst kvs)" for kvs
    using that
  proof (induction kvs)
    case (Cons kv kvs)
    show ?case
    proof (cases "fst kv = k")
      case True
      with Cons.prems have "map_of kvs k = None" by (auto simp: map_of_eq_None_iff)
      with True Cons show ?thesis by (cases kv) simp
    next
      case False
      with Cons show ?thesis by (cases kv) simp
    qed
  qed simp
  from this [of "js_entries v"] assms show ?thesis
    by (cases v) (auto simp: drop_undefined_def split: option.splits simp del: map_of_eq_Some_iff)
qed

lemma js_has_own_get: "js_get v k \<noteq> JUndef \<Longrightarrow> js_has_own v k"
  by (cases v) (force dest: map_of_SomeD split: option.splits simp del: map_of_eq_Some_iff)+

lemma offloaded_snapshot:
  assumes "offloaded_with e p" and "unchanged_source p s" and "fst ` set (js_entries s) \<subseteq> set snapshot_fields"
    and "distinct (js_keys s)"
  shows "offloaded_with e (snapshot_entry p s gs)"
proof -
  let ?changes = "js_entries s @ [(''generations'', JArr gs), (''state'', js_get p ''state'')]"
  let ?gone = "\<lambda>k. k \<in> {''statFingerprint'', ''contentHash''} \<and> \<not> js_has_own s k"
  let ?e = "JObj (filter (\<lambda>kv. \<not> ?gone (fst kv)) (js_entries (spread p ?changes)))"
  have hash: "js_get s ''contentHash'' = js_get p ''contentHash''" and "js_get s ''contentHash'' \<noteq> JUndef"
    using assms(2) by (auto simp: unchanged_source_def dest: same_value_eq)
  then have own: "js_has_own s ''contentHash''" by (intro js_has_own_get)
  have "offloaded_with e (spread p ?changes)"
  proof (rule offloaded_spread [OF assms(1)])
    fix k v
    assume k: "k \<in> set evidence_fields" and v: "map_of (rev ?changes) k = Some v"
    show "v = js_get p k"
    proof (cases "k = ''state'' \<or> k = ''generations''")
      case True
      with k v show ?thesis by (auto simp: evidence_fields_def)
    next
      case False
      with v have s: "map_of (rev (js_entries s)) k = Some v" by (simp del: map_of_eq_Some_iff)
      then have "k \<in> fst ` set (js_entries s)" by (force dest: map_of_SomeD)
      with assms(3) k evidence_not_snapshot have "k = ''contentHash''" by blast
      moreover have "js_get s k = v"
        using s map_of_rev_distinct [of "js_entries s" k] assms(4) by (cases s) (simp_all del: map_of_eq_Some_iff)
      ultimately show ?thesis using hash by simp
    qed
  qed
  then have spread: "offloaded_with e (spread p ?changes)" .
  have e: "js_get ?e k = js_get (spread p ?changes) k" if "k \<in> set evidence_fields" for k
    unfolding js_get_filtered [of "\<lambda>k. \<not> ?gone k"] using that own by (auto simp: evidence_fields_def)
  have d: "distinct (js_keys ?e)" by (rule distinct_filtered) (use spread in \<open>simp add: offloaded_with_def\<close>)
  have "snapshot_entry p s gs = drop_undefined archive_reset_fields ?e"
    using assms(2) by (simp add: snapshot_entry_def Let_def)
  moreover have "distinct (js_keys (drop_undefined archive_reset_fields ?e))"
    unfolding drop_undefined_def by (rule distinct_filtered [OF d])
  ultimately show ?thesis
    by (intro offloaded_same [OF spread]) (simp_all only: js_get_drop_undefined [OF d] e)
qed

lemma kept_snapshot:
  assumes "kept_by sid e l" and "apply_snapshot env sid' s l = Some l'"
    and "valid_snapshot dp stamp s" and "distinct (js_keys s)"
  shows "kept_by sid e l'"
proof -
  define p where "p = (case map_of (ld_sources l) sid' of Some e \<Rightarrow> e | None \<Rightarrow> JObj [(''generations'', JArr [])])"
  from assms(2) obtain gs where l': "l' = update_source sid' (snapshot_entry p s gs) l"
      and ok: "unchanged_source p s \<or> \<not> field_in [''offloaded'', ''blocked_durability'', ''blocked_active'',
        ''legacy_unverified'', ''inventory_present_unverified''] (js_get p ''state'')"
    unfolding apply_snapshot_def Let_def p_def [symmetric] by (auto simp only: bind_eq_Some_conv option.inject split: if_splits)
  show ?thesis
    unfolding l'
  proof (rule kept_update [OF assms(1)])
    assume "sid' = sid"
    with assms(1) have p: "offloaded_with e p" by (auto simp: kept_by_def p_def simp del: map_of_eq_Some_iff)
    then have "js_get p ''state'' = JStr ''offloaded''" by (simp add: offloaded_with_def)
    with ok have "unchanged_source p s" by (simp add: field_in_def)
    then show "offloaded_with e (snapshot_entry p s gs)"
      by (rule offloaded_snapshot [OF p _ snapshot_allowed [OF assms(3)] assms(4)])
  qed
qed

lemma record_each_step:
  assumes "record_each env (s # ss) l = (l', done_ids, failed)"
  obtains l1 ids bad where "record_each env ss l1 = (l', ids, bad)"
    and "l1 = l \<or> valid_snapshot (en_dp env) (en_stamp env) s \<and> (\<exists>sid. apply_snapshot env sid s l = Some l1)"
  using assms by (cases "record_each env ss l")
    (auto split: js.splits option.splits if_splits prod.splits)

lemma kept_snapshots:
  "kept_by sid e l \<Longrightarrow> \<forall>s\<in>set ss. distinct (js_keys s) \<Longrightarrow> record_each env ss l = (l', done_ids, failed) \<Longrightarrow> kept_by sid e l'"
proof (induction ss arbitrary: l l' done_ids failed)
  case (Cons s ss)
  from record_each_step [OF Cons.prems(3)] obtain l1 ids bad where rest: "record_each env ss l1 = (l', ids, bad)"
    and "l1 = l \<or> valid_snapshot (en_dp env) (en_stamp env) s \<and> (\<exists>sid. apply_snapshot env sid s l = Some l1)" .
  with Cons.prems(1,2) have "kept_by sid e l1" using kept_snapshot by (metis list.set_intros(1))
  with Cons.IH rest Cons.prems(2) show ?case by simp
qed simp

lemma kept_item:
  assumes "kept_by sid e l" and "record_inventory_item env observed item l = Some l'"
  shows "kept_by sid e l'"
proof -
  from assms(2) obtain sid' p e' where l': "l' = update_source sid' e' l"
      and cases: "(\<exists>r. map_of (ld_sources l) sid' = Some p \<and> e' = spread p [(''inventoryReference'', r)]) \<or>
        map_of (ld_sources l) sid' = None \<or>
        map_of (ld_sources l) sid' = Some p \<and> js_get p ''state'' = JStr ''inventory_present_unverified''"
    by (auto simp: record_inventory_item_def Let_def simp del: map_of_eq_Some_iff split: if_splits option.splits)
  show ?thesis
    unfolding l'
  proof (rule kept_update [OF assms(1)])
    assume "sid' = sid"
    with assms(1) cases have "offloaded_with e p" "\<exists>r. e' = spread p [(''inventoryReference'', r)]"
      by (auto simp: kept_by_def offloaded_with_def simp del: map_of_eq_Some_iff)
    then show "offloaded_with e e'" by (auto simp: evidence_fields_def intro!: offloaded_spread_other)
  qed
qed

lemma kept_items:
  "kept_by sid e l \<Longrightarrow> record_items env observed isolate i items l = Some (l', n, bad) \<Longrightarrow> kept_by sid e l'"
  by (induction env observed isolate i items l arbitrary: l' n bad rule: record_items.induct)
    (auto simp: bind_eq_Some_conv split: option.splits if_splits dest: kept_item)

section \<open>Every operation keeps the evidence\<close>

text \<open>One operation by any caller, whatever the verifiers answer to it; only replacing the whole ledger and
  recording a restore of the source itself are left out.  A step is the change of the file, so that it is also
  what an operation leaves behind that throws after its rename.  Objects have no repeated keys.\<close>

inductive archive_step :: "string \<Rightarrow> ledger_file \<Rightarrow> ledger_file \<Rightarrow> bool" for sid :: string where
  step_snapshots: "\<lbrakk>record_snapshots env ss f = Some (r, f'); \<forall>s\<in>set ss. distinct (js_keys s)\<rbrakk> \<Longrightarrow> archive_step sid f f'"
| step_inventory: "record_inventory_entries env items observed isolate brains f = Some (r, f') \<Longrightarrow> archive_step sid f f'"
| step_progress: "record_upload_progress env sid' progress f = Some f' \<Longrightarrow> archive_step sid f f'"
| step_deep: "record_deep_verification env brain version t f = Some f' \<Longrightarrow> archive_step sid f f'"
| step_transition: "archive_transition env sid' next_state ev f = Some f' \<Longrightarrow> archive_step sid f f'"
| step_restore: "record_restore env sid' r f = Some f' \<Longrightarrow> archive_step sid f f'"
| step_restore_by_archive: "record_restore_by_archive env version r f = Some f' \<Longrightarrow> archive_step sid f f'"
| step_restored: "\<lbrakk>record_restored_snapshot env sid' s r f = Some f'; sid' \<noteq> sid\<rbrakk> \<Longrightarrow> archive_step sid f f'"
| step_audit: "record_audit env r f = Some f' \<Longrightarrow> archive_step sid f f'"
| step_history: "archive_history_to env destination archived name f = Some f' \<Longrightarrow> archive_step sid f f'"

lemma offloaded_restores: "offloaded_with e e' \<Longrightarrow> add_restore env e' r = Some e'' \<Longrightarrow> offloaded_with e e''"
  by (auto simp: add_restore_def Let_def evidence_fields_def split: if_splits intro!: offloaded_spread_other)

lemma offloaded_stays:
  assumes "js_get e ''state'' = JStr ''offloaded''" and "can_move (js_get e ''state'') next_state"
  shows "transition_evidence env next_state e ev = None"
  using assms by (simp add: can_move_def archive_transitions_def transition_evidence_def)

lemma kept_found:
  assumes "kept_by sid e l" and "(sid, e') \<in> set (ld_sources l)"
  shows "offloaded_with e e'"
  using assms by (auto simp: kept_by_def dest: eq_key_imp_eq_value)

lemma kept_compacted: "kept_by sid e l \<Longrightarrow> kept_by sid e (compacted marker l)"
proof -
  let ?f = "\<lambda>e. spread e [(''historyArchive'', marker), (''generations'', JArr (last_generation e)),
    (''restorationHistory'', JArr []), (''offloadHistory'', JArr [])]"
  assume "kept_by sid e l"
  then obtain e' where e': "map_of (ld_sources l) sid = Some e'" "offloaded_with e e'" "distinct (map fst (ld_sources l))"
    by (auto simp: kept_by_def)
  have "map_of (map (\<lambda>(k, v). (k, ?f v)) (ld_sources l)) sid = Some (?f e')"
    unfolding map_of_map using e'(1) by (simp del: map_of_eq_Some_iff)
  moreover have "offloaded_with e (?f e')" by (rule offloaded_spread_other [OF e'(2)]) (simp add: evidence_fields_def)
  ultimately show ?thesis
    using e'(3) by (auto simp: kept_by_def compacted_def comp_def case_prod_unfold simp del: map_of_eq_Some_iff)
qed

lemma kept_then_write:
  assumes "kept_in sid e f" and "kept_by sid e l" and "write_ledger env l = Some f'"
  shows "kept_in sid e f'"
  using assms by (auto simp: kept_in_def intro: kept_write [unfolded kept_in_def, THEN conjunct2])

lemma kept_step:
  assumes "kept_in sid e f" and "archive_step sid f f'"
  shows "kept_in sid e f'"
  using assms(2)
proof cases
  case (step_snapshots env ss r)
  then obtain l where read: "read_ledger env f = Some l" by (auto simp: record_snapshots_def bind_eq_Some_conv split: if_splits)
  obtain l' ids bad where l: "record_each env ss l = (l', ids, bad)" by (cases "record_each env ss l")
  have "f' = f \<or> write_ledger env l' = Some f'" using step_snapshots(1) read l by (auto simp: record_snapshots_def split: if_splits)
  moreover have "kept_by sid e l'" by (rule kept_snapshots [OF kept_read [OF assms(1) read] _ l]) fact
  ultimately show ?thesis using assms(1) kept_then_write by blast
next
  case (step_inventory env items observed isolate brains r)
  then obtain l l' its n bad where l: "read_ledger env f = Some l" "record_items env observed isolate 0 its l = Some (l', n, bad)"
    and "f' = f \<or> write_ledger env l' = Some f'"
    by (auto simp: record_inventory_entries_def Let_def bind_eq_Some_conv split: if_splits)
  moreover have "kept_by sid e l'" by (rule kept_items [OF kept_read [OF assms(1) l(1)] l(2)])
  ultimately show ?thesis using assms(1) kept_then_write by blast
next
  case (step_progress env sid' progress)
  then show ?thesis
    by (auto simp: record_upload_progress_def Let_def evidence_fields_def split: if_splits
      intro!: kept_change_source [OF assms(1)] offloaded_spread_other)
next
  case (step_deep env brain version t)
  let ?named = "\<lambda>kv. has_reference brain version (snd kv)"
  from step_deep obtain l where read: "read_ledger env f = Some l"
    by (auto simp: record_deep_verification_def bind_eq_Some_conv split: if_splits)
  with step_deep obtain s p rest where found: "filter ?named (ld_sources l) = (s, p) # rest"
    by (cases "filter ?named (ld_sources l)") (auto simp: record_deep_verification_def split: if_splits)
  let ?e = "spread p [(''inventoryReference'', spread (js_get p ''inventoryReference'') [(''lastDeepVerifiedAt'', t)])]"
  have l: "write_ledger env (update_source s ?e l) = Some f'"
    using step_deep read found by (simp add: record_deep_verification_def split: if_splits)
  have "(s, p) \<in> set (ld_sources l)" using found by (metis filter_is_subset list.set_intros(1) subset_iff)
  with kept_read [OF assms(1) read] have "kept_by sid e (update_source s ?e l)"
    by (intro kept_update) (auto simp: evidence_fields_def intro!: offloaded_spread_other intro: kept_found)
  then show ?thesis by (rule kept_then_write [OF assms(1) _ l])
next
  case (step_transition env sid' next_state ev)
  then show ?thesis
    unfolding archive_transition_def
    by (rule kept_change_source [OF assms(1)]) (auto simp: offloaded_with_def offloaded_stays split: if_splits)
next
  case (step_restore env sid' r)
  then show ?thesis
    by (auto simp: record_restore_def split: if_splits intro!: kept_change_source [OF assms(1)] intro: offloaded_restores)
next
  case (step_restore_by_archive env version r)
  let ?named = "\<lambda>kv. archive_version_of (snd kv) = JStr version"
  from step_restore_by_archive obtain l where read: "read_ledger env f = Some l"
    by (auto simp: record_restore_by_archive_def bind_eq_Some_conv split: if_splits)
  with step_restore_by_archive obtain s p where found: "filter ?named (ld_sources l) = [(s, p)]"
    by (cases "filter ?named (ld_sources l)" rule: remdups_adj.cases) (auto simp: record_restore_by_archive_def split: if_splits)
  with step_restore_by_archive read obtain p' where l: "read_ledger env f = Some l" "add_restore env p r = Some p'"
      "write_ledger env (update_source s p' l) = Some f'"
    by (auto simp: record_restore_by_archive_def bind_eq_Some_conv split: if_splits)
  have "(s, p) \<in> set (ld_sources l)" using found by (metis filter_is_subset list.set_intros(1) subset_iff)
  with kept_read [OF assms(1) l(1)] have "kept_by sid e (update_source s p' l)"
    by (intro kept_update) (auto intro: kept_found offloaded_restores [OF _ l(2)])
  then show ?thesis by (rule kept_then_write [OF assms(1) _ l(3)])
next
  case (step_restored env sid' s r)
  then show ?thesis
    by (auto simp: record_restored_snapshot_def split: if_splits intro!: kept_change_source [OF assms(1)])
next
  case (step_audit env r)
  then obtain l where l: "read_ledger env f = Some l" "write_ledger env (l\<lparr>ld_audit := ld_audit l @ [r]\<rparr>) = Some f'"
    by (auto simp: record_audit_def bind_eq_Some_conv split: if_splits)
  have "kept_by sid e (l\<lparr>ld_audit := ld_audit l @ [r]\<rparr>)" using kept_read [OF assms(1) l(1)] by (simp add: kept_by_def del: map_of_eq_Some_iff)
  then show ?thesis by (rule kept_then_write [OF assms(1) _ l(2)])
next
  case (step_history env destination archived name)
  then obtain l marker where l: "read_ledger env f = Some l" "write_ledger env (compacted marker l) = Some f'"
    by (auto simp: archive_history_to_def bind_eq_Some_conv)
  then show ?thesis using kept_compacted [OF kept_read [OF assms(1) l(1)]] kept_then_write [OF assms(1)] by blast
qed

interpretation archive_evidence: guarded_system "kept_in sid e" "archive_step sid" "kept_in sid e" for sid e
  by unfold_locales (auto intro: kept_step)

text \<open>C8. The evidence of a deletion stays.  Once a source is offloaded, whatever operations other than the
  write of a whole new ledger follow, with whatever answers of the verifiers, it remains a source of the
  ledger, offloaded, with the very receipt, trust, manifest, verification, archive version and content
  hash, until a restore of that source is recorded.  (The one operation left out, \<open>replace_ledger\<close>, puts
  a caller's ledger in place of the stored one and can drop or change any source of it.)\<close>

theorem offloaded_evidence_is_permanent:
  assumes "stored_source sid e f" and "parsed_record e" and "js_get e ''state'' = JStr ''offloaded''"
    and "reach (\<lambda>g. g = f) (archive_step sid) f'"
  shows "\<exists>e'. stored_source sid e' f' \<and> js_get e' ''state'' = JStr ''offloaded'' \<and>
    (\<forall>k\<in>{''receipt'', ''receiptTrust'', ''verification'', ''archiveVersionId'', ''manifestHash'', ''manifest'', ''contentHash''}.
       js_get e' k = js_get e k)"
proof -
  have "kept_in sid e f" using assms(1-3) by (auto simp: kept_in_def offloaded_with_def parsed_record_def list_all_iff)
  with assms(4) have "reach (kept_in sid e) (archive_step sid) f'" by (induction rule: reach.induct) (auto intro: reach.intros)
  then have "kept_in sid e f'" by (rule archive_evidence.reachable_inv)
  then show ?thesis by (auto simp: kept_in_def offloaded_with_def evidence_fields_def)
qed

section \<open>Recording a deletion\<close>

text \<open>C13. A deletion is recorded only with proof.  When a transition to offloaded succeeds, the source was
  eligible for eviction; the record says that exactly the source's file was deleted and names its archive
  version, content hash and size; and at that moment the receipt verifier answered, for the recorded
  receipt, that replication is confirmed, and the restore verifier for the committed read that the
  recorded verification names.\<close>

theorem offload_needs_proof:
  assumes "archive_transition env sid ''offloaded'' ev f = Some f'"
  shows "\<exists>l e v r trust answer rh. read_ledger env f = Some l \<and> map_of (ld_sources l) sid = Some e \<and>
    js_get e ''state'' = JStr ''eviction_eligible'' \<and> ev = Fields v \<and> r = js_get v ''offloadRecord'' \<and>
    js_get r ''result'' = JStr ''deleted'' \<and> js_get r ''originalPath'' = js_get e ''sourcePath'' \<and>
    js_get r ''archiveVersionId'' = js_get e ''archiveVersionId'' \<and> js_get r ''contentHash'' = js_get e ''contentHash'' \<and>
    js_get r ''byteSize'' = js_get (js_get e ''statFingerprint'') ''size'' \<and>
    en_receipt env e ''record_offload'' = Some trust \<and> hash_of env (js_get e ''receipt'') = Some rh \<and>
    js_get trust ''receiptHash'' = JStr rh \<and> js_get trust ''durabilityPolicy'' = JStr ''versioned_replicated_confirmed'' \<and>
    en_restore env e (js_get e ''verification'') ''record_offload'' = Some answer \<and>
    js_get answer ''committedReadId'' = js_get (js_get e ''verification'') ''committedReadId''"
proof -
  from assms obtain l e changes where l: "read_ledger env f = Some l" "map_of (ld_sources l) sid = Some e"
    and move: "can_move (js_get e ''state'') ''offloaded''" and changes: "offload_evidence env e ev = Some changes"
    by (auto simp: archive_transition_def change_source_def bind_eq_Some_conv transition_evidence_def simp del: map_of_eq_Some_iff split: if_splits)
  have state: "js_get e ''state'' = JStr ''eviction_eligible''"
    using move by (auto simp: can_move_def archive_transitions_def split: js.splits if_splits)
  from changes obtain v trust answer where ev: "ev = Fields v" and r: "js_get (js_get v ''offloadRecord'') ''result'' = JStr ''deleted''"
      "list_all (\<lambda>k. same_value (js_get (js_get v ''offloadRecord'') k) (js_get e k)) [''archiveVersionId'', ''contentHash'']"
      "same_value (js_get (js_get v ''offloadRecord'') ''byteSize'') (size_of e)"
      "same_value (js_get (js_get v ''offloadRecord'') ''originalPath'') (js_get e ''sourcePath'')"
    and trust: "authenticate_receipt env e ''record_offload'' = Some trust" "js_get trust ''durabilityPolicy'' = JStr ''versioned_replicated_confirmed''"
    and answer: "authenticate_restore env e ''record_offload'' = Some answer"
    by (auto simp: offload_evidence_def Let_def bind_eq_Some_conv split: evidence.splits if_splits)
  from trust(1) obtain rh where "en_receipt env e ''record_offload'' = Some trust" "hash_of env (js_get e ''receipt'') = Some rh"
      "js_get trust ''receiptHash'' = JStr rh"
    by (auto simp: authenticate_receipt_def bind_eq_Some_conv receipt_trust_ok_def is_hash_of_text split: if_splits)
  moreover from answer have "en_restore env e (js_get e ''verification'') ''record_offload'' = Some answer"
      "js_get answer ''committedReadId'' = js_get (js_get e ''verification'') ''committedReadId''"
    by (auto simp: authenticate_restore_def Let_def bind_eq_Some_conv dest: same_value_eq split: if_splits)
  ultimately show ?thesis
    using l state ev r trust(2) by (auto simp: size_of_def dest!: same_value_eq simp del: map_of_eq_Some_iff)
qed

section \<open>A run\<close>

text \<open>A source, archived and verified, whose file is deleted, and an audit event after it.\<close>

definition sample_time :: js where "sample_time = JStr ''2026-01-01T00:00:00Z''"

definition sample_identity_fields :: "(string \<times> js) list" where
  "sample_identity_fields = [(''brainId'', JStr ''b''), (''provider'', JStr ''d''), (''sessionId'', JStr ''1'')]"

definition sample_address :: js where "sample_address = JStr (''av_'' @ sample_digest)"

definition sample_facts :: "(string \<times> js) list" where
  "sample_facts = [(''archiveVersionId'', sample_address), (''manifestHash'', JStr sample_digest), (''contentHash'', JStr sample_digest),
     (''byteSize'', jint 1), (''storageGeneration'', JStr ''g'')]"

definition sample_receipt :: js where
  "sample_receipt = JObj ([(''schema'', JStr receipt_schema), (''schemaVersion'', jint 1)] @ sample_facts @
     [(''durabilityClass'', JStr ''versioned_replicated''), (''committedAt'', sample_time), (''verificationStatus'', JStr ''replication_confirmed''),
      (''logicalIdentity'', JObj ([(''schema'', JStr identity_schema), (''schemaVersion'', jint 1)] @ sample_identity_fields)),
      (''sourceMachineId'', JStr ''d''),
      (''authentication'', JObj [(''keyId'', JStr ''k''), (''signature'', JStr ''s''), (''algorithm'', JStr ''a'')])])"

definition sample_trust :: js where
  "sample_trust = JObj ([(''receiptHash'', JStr sample_digest)] @ sample_facts @ sample_identity_fields @
     [(''sourceMachineId'', JStr ''d''), (''manifestLookup'', JStr ''authoritative_match''), (''verifierId'', JStr ''v''),
      (''authenticatedAt'', sample_time), (''durabilityPolicy'', JStr ''versioned_replicated_confirmed''),
      (''serverTimePolicy'', JStr ''authenticated_store_time''), (''bindingPolicy'', JStr ''exact_manifest_content_size_generation'')])"

definition sample_verification :: js where
  "sample_verification = JObj ([(''schema'', JStr evidence_schema), (''schemaVersion'', jint 1)] @ sample_facts @
     [(''verifiedAt'', sample_time), (''source'', JStr ''committed_restore''), (''committedReadId'', JStr ''c''), (''verifierId'', JStr ''v'')])"

definition sample_proof :: js where
  "sample_proof = JObj (sample_facts @ sample_identity_fields @
     [(''sourceMachineId'', JStr ''d''), (''committedReadId'', JStr ''c''), (''verifierId'', JStr ''v''), (''authenticatedAt'', sample_time)])"

text \<open>The source, in a state and with the record of its deletion or without.\<close>

definition sample_source :: "string \<Rightarrow> js list \<Rightarrow> js" where
  "sample_source state records = JObj (sample_identity_fields @
     [(''sourcePath'', JStr ''/x''), (''machineId'', JStr ''d''), (''statFingerprint'', JObj [(''size'', jint 1)]), (''contentHash'', JStr sample_digest),
      (''state'', JStr state), (''generations'', JArr []), (''receipt'', sample_receipt), (''receiptTrust'', sample_trust),
      (''verification'', sample_verification), (''archiveVersionId'', sample_address), (''manifestHash'', JStr sample_digest),
      (''manifest'', sample_manifest ''x'')] @ (if records = [] then [] else [(''offloadHistory'', JArr records)]))"

definition sample_ledger :: "string \<Rightarrow> js list \<Rightarrow> js list \<Rightarrow> ledger" where
  "sample_ledger state records audit = \<lparr>ld_sources = [(''s'', sample_source state records)], ld_audit = audit, ld_history = JUndef\<rparr>"

definition sample_env :: archive_env where
  "sample_env = \<lparr>en_nt = unary_text, en_hash = \<lambda>_. sample_digest, en_dp = \<lambda>_. Fin 0, en_stamp = \<lambda>_. ''2026-01-01T00:00:00'',
     en_receipt = \<lambda>_ _. Some sample_trust, en_restore = \<lambda>_ _ _. Some sample_proof, en_fits = \<lambda>_. True,
     en_generations = 9, en_audit = 9, en_restores = 9, en_offloads = 9\<rparr>"

definition sample_record :: js where
  "sample_record = JObj [(''schema'', JStr offload_schema), (''schemaVersion'', jint 1), (''offloadedAt'', sample_time),
     (''originalPath'', JStr ''/x''), (''archiveVersionId'', sample_address), (''contentHash'', JStr sample_digest), (''byteSize'', jint 1),
     (''result'', JStr ''deleted''), (''reason'', JStr ''none'')]"


lemma sample_env_simps [simp]:
  "en_nt sample_env = unary_text" "en_hash sample_env = (\<lambda>_. sample_digest)" "en_dp sample_env = (\<lambda>_. Fin 0)"
  "en_stamp sample_env = (\<lambda>_. ''2026-01-01T00:00:00'')" "en_receipt sample_env = (\<lambda>_ _. Some sample_trust)"
  "en_restore sample_env = (\<lambda>_ _ _. Some sample_proof)" "en_fits sample_env = (\<lambda>_. True)" "en_offloads sample_env = 9"
  "en_audit sample_env = 9"
  by (simp_all add: sample_env_def)

lemma sample_more_ids: "safe_id_text ''k''" "safe_id_text ''a''" "safe_id_text ''v''" "safe_id_text ''c''" "signature_text ''s''"
  by (simp_all add: safe_id_text_def signature_text_def is_alnum_char_def is_ascii_alpha_def is_ascii_lower_def is_ascii_upper_def
      is_digit_char_def less_eq_char_def)

lemma sample_instant: "is_iso_instant (\<lambda>_. Fin 0) (\<lambda>_. ''2026-01-01T00:00:00'') sample_time"
  by (simp add: is_iso_instant_def sample_time_def instant_shape_def fits_template_def is_digit_char_def less_eq_char_def)

lemma sample_time_scalar: "scalar sample_time"
  by (simp add: scalar_def sample_time_def)

lemma sample_digest_length: "length sample_digest = 64" "sample_digest \<noteq> []"
  by (simp_all add: sample_digest_def)

lemma sample_address_text: "archive_id_text (''av_'' @ sample_digest)"
  using sample_digest_hex by (simp add: archive_id_text_def starts_with_def)

lemma sample_receipt_ok: "receipt_fields_ok sample_receipt" "receipt_ok sample_env sample_receipt"
  by (simp_all add: sample_time_scalar [unfolded scalar_def] receipt_fields_ok_def receipt_ok_def validate_durability_receipt_def Let_def sample_receipt_def sample_facts_def
    sample_identity_fields_def sample_address_def allowed_fields_def identity_fields_def scalar_def exact_fields_def bad_schema_def
    check_identity_def check_metadata_def sample_ids sample_more_ids sample_address_text [simplified] sample_digest_hex sha256_value_def sample_digest_length
    field_in_def durability_classes_def receipt_statuses_def sample_instant bad_size_def max_safe_integer_def)

lemma sample_hash: "hash_of sample_env v = (if serializable v then Some sample_digest else None)"
  by (simp add: hash_of_def canonical_hash_def canonical_serialize_def)

lemma sample_serializable: "serializable sample_receipt" "serializable (sample_manifest ''x'')"
  by (simp_all add: sample_receipt_def sample_facts_def sample_identity_fields_def sample_address_def sample_time_def receipt_schema_def
      identity_schema_def)
    (simp add: sample_manifest_def with_id_def manifest_core_def sample_input_def identity_object_def identity_fields_def js_or_def)

lemma sample_trust_ok: "receipt_trust_ok sample_env sample_trust sample_receipt"
  by (simp add: receipt_trust_ok_def is_hash_of_def sample_hash sample_serializable allowed_fields_def trust_fields_def bounded_text_def instant_def field_in_def)
    (simp add: sample_trust_def sample_receipt_def sample_facts_def sample_identity_fields_def sample_address_def same_value_def identity_fields_def
      sample_more_ids sample_digest_hex sample_digest_length sample_instant)

lemma sample_verification_ok: "validate_evidence (\<lambda>_. Fin 0) (\<lambda>_. ''2026-01-01T00:00:00'') sample_verification = []"
  by (simp add: validate_evidence_def sample_verification_def sample_facts_def sample_address_def exact_fields_def bad_schema_def check_metadata_def
    sample_ids sample_more_ids sample_address_text [simplified] sample_digest_hex sha256_value_def sample_digest_length sample_instant bad_size_def max_safe_integer_def)

lemma sample_source_fields:
  "js_get (sample_source st rs) ''receipt'' = sample_receipt" "js_get (sample_source st rs) ''receiptTrust'' = sample_trust"
  "js_get (sample_source st rs) ''verification'' = sample_verification" "js_get (sample_source st rs) ''archiveVersionId'' = sample_address"
  "js_get (sample_source st rs) ''manifestHash'' = JStr sample_digest" "js_get (sample_source st rs) ''manifest'' = sample_manifest ''x''"
  "js_get (sample_source st rs) ''contentHash'' = JStr sample_digest" "js_get (sample_source st rs) ''state'' = JStr st"
  "js_get (sample_source st rs) ''generations'' = JArr []" "js_get (sample_source st rs) ''machineId'' = JStr ''d''"
  "js_get (sample_source st rs) ''brainId'' = JStr ''b''" "js_get (sample_source st rs) ''provider'' = JStr ''d''"
  "js_get (sample_source st rs) ''sessionId'' = JStr ''1''" "js_get (sample_source st rs) ''sourcePath'' = JStr ''/x''"
  "size_of (sample_source st rs) = jint 1" "js_get (sample_source st rs) ''restorationHistory'' = JUndef"
  "js_get (sample_source st rs) ''offloadHistory'' = (if rs = [] then JUndef else JArr rs)" "js_get (sample_source st rs) ''historyArchive'' = JUndef"
  "js_get (sample_source st rs) ''inventoryReference'' = JUndef" "js_get (sample_source st rs) ''uploadProgress'' = JUndef"
  by (simp_all add: sample_source_def sample_identity_fields_def size_of_def)

lemma sample_source_path: "absolute_normal (JStr ''/x'')" "safe_metadata_text ''/x''"
proof -
  have "path_is_absolute ''/x''" "posix_normalize ''/x'' = ''/x''" by code_simp+
  then show "absolute_normal (JStr ''/x'')" by (simp add: absolute_normal_def)
qed (simp add: safe_metadata_text_def less_eq_char_def)

lemma sample_snapshot:
  "valid_snapshot (\<lambda>_. Fin 0) (\<lambda>_. ''2026-01-01T00:00:00'') (JObj (filter (\<lambda>kv. fst kv \<in> set snapshot_fields) (js_entries (sample_source st rs))))"
proof -
  have "filter (\<lambda>kv. fst kv \<in> set snapshot_fields) (js_entries (sample_source st rs)) = sample_identity_fields @
     [(''sourcePath'', JStr ''/x''), (''machineId'', JStr ''d''), (''statFingerprint'', JObj [(''size'', jint 1)]), (''contentHash'', JStr sample_digest)]"
    by (simp add: sample_source_def sample_identity_fields_def snapshot_fields_def)
  then show ?thesis
    using sample_source_path
    by (simp add: valid_snapshot_def allowed_fields_def snapshot_fields_def sample_identity_fields_def fingerprint_ok_def fingerprint_fields_def
      max_safe_integer_def dangerous_keys_def scalar_def snapshot_limits_def bounded_text_def sample_ids sample_digest_hex sample_digest_length
      identity_fields_def composite_ok_def sha256_value_def size_of_def)
qed

lemma sample_manifest_fields:
  "js_get (sample_manifest p) ''archiveVersionId'' = sample_address" "js_get (sample_manifest p) ''contentHash'' = JStr sample_digest"
  "js_get (sample_manifest p) ''byteSize'' = jint 1" "js_get (js_get (sample_manifest p) ''blob'') ''storageGeneration'' = JStr ''g''"
  "js_get (js_get (sample_manifest p) ''provenance'') ''sourceMachineId'' = JStr ''d''"
  "js_get (js_get (sample_manifest p) ''logicalIdentity'') ''brainId'' = JStr ''b''"
  "js_get (js_get (sample_manifest p) ''logicalIdentity'') ''provider'' = JStr ''d''"
  "js_get (js_get (sample_manifest p) ''logicalIdentity'') ''sessionId'' = JStr ''1''"
  by (simp_all add: sample_manifest_def with_id_def manifest_core_def sample_input_def identity_object_def identity_fields_def sample_address_def)

lemma sample_manifest_ok: "manifest_ok sample_env (sample_manifest ''x'')"
  by (simp add: manifest_ok_def sample_valid)

lemma sample_truthy: "truthy sample_receipt" "truthy sample_trust" "truthy sample_verification" "truthy sample_address" "truthy (sample_manifest p)"
    "js_nullish sample_verification = False" "js_nullish sample_address = False"
  by (simp_all add: sample_receipt_def sample_trust_def sample_verification_def sample_address_def sample_manifest_def with_id_def)

lemma sample_receipt_fields:
  "js_get sample_receipt ''archiveVersionId'' = sample_address" "js_get sample_receipt ''manifestHash'' = JStr sample_digest"
  "js_get sample_receipt ''contentHash'' = JStr sample_digest" "js_get sample_receipt ''byteSize'' = jint 1"
  "js_get sample_receipt ''durabilityClass'' = JStr ''versioned_replicated''"
  "js_get sample_trust ''serverTimePolicy'' = JStr ''authenticated_store_time''"
  "js_get sample_trust ''bindingPolicy'' = JStr ''exact_manifest_content_size_generation''"
  "js_get sample_trust ''durabilityPolicy'' = JStr ''versioned_replicated_confirmed''"
  "js_get sample_verification ''archiveVersionId'' = sample_address" "js_get sample_verification ''contentHash'' = JStr sample_digest"
  "js_get sample_verification ''byteSize'' = jint 1" "js_get sample_verification ''committedReadId'' = JStr ''c''"
  "js_get sample_verification ''verifierId'' = JStr ''v''"
  by (simp_all add: sample_receipt_def sample_trust_def sample_verification_def sample_facts_def sample_identity_fields_def)

lemma sample_bound: "archive_bound sample_env (sample_source st rs)" "verification_bound (sample_source st rs)"
  by (simp_all add: archive_bound_def verification_bound_def Let_def manifest_binding_ok_def sample_source_fields sample_manifest_fields
    sample_manifest_ok sample_truthy sample_receipt_fields same_value_def is_hash_of_def sample_hash sample_serializable identity_fields_def
    sample_digest_length sample_address_def del: js_get.simps)

lemma sample_metadata: "list_all (\<lambda>c. c = CHR 0x09 \<or> CHR 0x20 \<le> c \<and> c \<noteq> CHR 0x7F) sample_digest"
  by (simp add: sample_digest_def list_all_iff less_eq_char_def)

lemma sample_record_ok: "offload_record_ok unary_text (\<lambda>_. Fin 0) (\<lambda>_. ''2026-01-01T00:00:00'') sample_record"
  using sample_source_path
  by (simp add: offload_record_ok_def sample_record_def allowed_fields_def offload_fields_def sample_time_def sample_address_def bad_schema_def
      text_fields_ok_def bounded_text_def archive_id_test_def sample_address_text [simplified] sha256_value_def sample_digest_hex bad_size_def
      max_safe_integer_def field_in_def reason_code_names_def sample_instant [unfolded sample_time_def] offload_schema_def
      safe_metadata_text_def sample_metadata sample_digest_length)

lemma sample_stored:
  assumes "st \<in> {''eviction_eligible'', ''offloaded''}" and "set rs \<subseteq> {sample_record}" and "length rs \<le> 1"
  shows "stored_entry_ok sample_env (sample_source st rs)"
proof -
  have "list_all (offload_record_ok unary_text (\<lambda>_. Fin 0) (\<lambda>_. ''2026-01-01T00:00:00'')) rs"
    using assms(2) sample_record_ok by (auto simp: list_all_iff)
  moreover have "allowed_fields (sample_source st rs) entry_fields"
    by (simp add: sample_source_def allowed_fields_def entry_fields_def snapshot_fields_def authoritative_fields_def sample_identity_fields_def)
  moreover have "field_in archive_status (JStr st)" "bounded_text 67 archive_id_text sample_address" "sha256_value (JStr sample_digest)"
    using assms(1) sample_address_text sample_digest_hex
    by (auto simp: field_in_def archive_status_def bounded_text_def sample_address_def sample_digest_length sha256_value_def)
  ultimately show ?thesis
    using assms(1,3) sample_bound [of st rs] sample_snapshot [of st rs] sample_verification_ok sample_trust_ok sample_receipt_ok sample_manifest_ok
    by (auto simp: stored_entry_ok_def sample_source_fields history_ok_def history_limit_def sample_receipt_fields sample_truthy simp del: js_get.simps)
qed

lemma sample_validated:
  assumes "stored_entry_ok sample_env (sample_source st rs)" and "length rs \<le> 1"
    and "length audit \<le> 1" and "list_all (audit_record_ok unary_text (\<lambda>_. Fin 0) (\<lambda>_. ''2026-01-01T00:00:00'')) audit"
  shows "validate_ledger sample_env (ledger_doc (sample_ledger st rs audit)) = Some (sample_ledger st rs audit)"
proof -
  have "record_count (sample_source st rs) \<le> 1"
    using assms(2) by (simp add: record_count_def sample_source_fields)
  then show ?thesis
    using assms by (simp add: validate_ledger_def ledger_doc_def sample_ledger_def allowed_fields_def safe_map_def dangerous_keys_def
      max_sources_def history_limit_def max_records_def)
qed

lemma sample_read:
  assumes "stored_entry_ok sample_env (sample_source st rs)" and "length rs \<le> 1"
  shows "read_ledger sample_env (LedgerDoc (ledger_doc (sample_ledger st rs []))) = Some (sample_ledger st rs [])"
proof -
  have "js_get (ledger_doc (sample_ledger st rs [])) ''schemaVersion'' = jint 1" by (simp add: ledger_doc_def)
  then show ?thesis using sample_validated [OF assms, of "[]"] by (simp add: read_ledger_def migrate_ledger_def)
qed

lemma sample_json_values: "json_stored sample_receipt = sample_receipt" "json_stored sample_trust = sample_trust"
    "json_stored sample_verification = sample_verification" "json_stored (sample_manifest ''x'') = sample_manifest ''x''"
    "json_stored sample_record = sample_record" "json_stored sample_address = sample_address"
  by (simp_all add: sample_receipt_def sample_trust_def sample_verification_def sample_record_def sample_address_def sample_facts_def
    sample_identity_fields_def sample_time_def sample_manifest_def with_id_def manifest_core_def sample_input_def identity_object_def
    identity_fields_def js_or_def)

lemma sample_defined: "sample_receipt \<noteq> JUndef" "sample_trust \<noteq> JUndef" "sample_verification \<noteq> JUndef" "sample_manifest p \<noteq> JUndef"
    "sample_address \<noteq> JUndef" "sample_record \<noteq> JUndef"
  by (simp_all add: sample_receipt_def sample_trust_def sample_verification_def sample_address_def sample_manifest_def with_id_def sample_record_def)

lemma sample_source_json:
  assumes "rs = [] \<or> rs = [sample_record]"
  shows "json_stored (sample_source st rs) = sample_source st rs"
  using assms by (auto simp: sample_source_def sample_identity_fields_def sample_json_values sample_defined)

definition sample_event :: js where
  "sample_event = JObj [(''schema'', JStr audit_schema), (''schemaVersion'', jint 1), (''eventId'', JStr ''k''), (''type'', JStr ''offload''),
     (''occurredAt'', sample_time), (''brainId'', JStr ''b''), (''provider'', JStr ''d''), (''actor'', JStr ''a''), (''result'', JStr ''success''),
     (''reason'', JStr ''none'')]"

lemma sample_event_ok: "audit_record_ok unary_text (\<lambda>_. Fin 0) (\<lambda>_. ''2026-01-01T00:00:00'') sample_event"
  by (simp add: audit_record_ok_def sample_event_def allowed_fields_def audit_fields_def scalar_def sample_time_def bad_schema_def text_fields_ok_def
      bounded_text_def audit_required_def sample_ids sample_more_ids sample_instant [unfolded sample_time_def] field_in_def reason_code_names_def
      audit_schema_def safe_metadata_text_def less_eq_char_def)

lemma sample_doc_json:
  assumes "rs = [] \<or> rs = [sample_record]" and "audit = [] \<or> audit = [sample_event]"
  shows "json_stored (ledger_doc (sample_ledger st rs audit)) = ledger_doc (sample_ledger st rs audit)"
proof -
  have "json_stored sample_event = sample_event" "sample_event \<noteq> JUndef" by (simp_all add: sample_event_def sample_time_def)
  moreover have "sample_source st rs \<noteq> JUndef" by (simp add: sample_source_def)
  ultimately show ?thesis using assms sample_source_json [OF assms(1)] by (auto simp: ledger_doc_def sample_ledger_def)
qed

lemma sample_written:
  assumes "st \<in> {''eviction_eligible'', ''offloaded''}" and "rs = [] \<or> rs = [sample_record]" and "audit = [] \<or> audit = [sample_event]"
  shows "write_ledger sample_env (sample_ledger st rs audit) = Some (LedgerDoc (ledger_doc (sample_ledger st rs audit)))"
proof -
  have "validate_ledger sample_env (ledger_doc (sample_ledger st rs audit)) = Some (sample_ledger st rs audit)"
    using assms sample_event_ok by (intro sample_validated sample_stored) auto
  then show ?thesis using sample_doc_json [OF assms(2,3)] by (simp add: write_ledger_def)
qed

abbreviation sample_file :: "string \<Rightarrow> js list \<Rightarrow> js list \<Rightarrow> ledger_file" where
  "sample_file st rs audit \<equiv> LedgerDoc (ledger_doc (sample_ledger st rs audit))"

theorem evictable_sources_are_backed_witness:
  "read_ledger sample_env (sample_file ''eviction_eligible'' [] []) = Some (sample_ledger ''eviction_eligible'' [] []) \<and>
   (\<exists>version. hash_of sample_env (archive_identity (sample_manifest ''x'')) = Some version \<and> sample_address = JStr (''av_'' @ version))"
proof
  show read: "read_ledger sample_env (sample_file ''eviction_eligible'' [] []) = Some (sample_ledger ''eviction_eligible'' [] [])"
    by (rule sample_read) (simp_all add: sample_stored)
  show "\<exists>version. hash_of sample_env (archive_identity (sample_manifest ''x'')) = Some version \<and> sample_address = JStr (''av_'' @ version)"
    using evictable_sources_are_backed [OF read, of "''s''" "sample_source ''eviction_eligible'' []"]
    by (simp add: sample_ledger_def sample_source_fields field_in_def) blast
qed

lemma sample_authenticated:
  "authenticate_receipt sample_env (sample_source st rs) op = Some sample_trust"
  "authenticate_restore sample_env (sample_source st rs) op = Some sample_proof"
proof -
  let ?expected = "[(''archiveVersionId'', sample_address), (''manifestHash'', JStr sample_digest), (''contentHash'', JStr sample_digest),
    (''byteSize'', jint 1), (''storageGeneration'', JStr ''g''), (''brainId'', JStr ''b''), (''provider'', JStr ''d''),
    (''sessionId'', JStr ''1''), (''sourceMachineId'', JStr ''d'')]"
  have expected: "expected_binding sample_env (sample_source st rs) = Some ?expected"
    by (simp add: expected_binding_def Let_def sample_source_fields sample_manifest_fields js_coalesce_def sample_truthy del: js_get.simps)
  have trust: "trust_matches sample_trust ?expected"
    by (simp add: trust_matches_def sample_trust_def sample_facts_def sample_identity_fields_def same_value_def sample_address_def)
  have proof_ok: "trust_matches sample_proof ?expected" "allowed_fields sample_proof restore_proof_fields"
      "js_get sample_proof ''committedReadId'' = JStr ''c''" "js_get sample_proof ''verifierId'' = JStr ''v''" "js_get sample_proof ''authenticatedAt'' = sample_time"
    by (simp_all add: trust_matches_def sample_proof_def sample_facts_def sample_identity_fields_def same_value_def sample_address_def
      allowed_fields_def restore_proof_fields_def)
  show "authenticate_receipt sample_env (sample_source st rs) op = Some sample_trust"
    using trust by (simp add: authenticate_receipt_def expected sample_hash sample_serializable sample_source_fields sample_trust_ok
      sample_receipt_fields del: js_get.simps)
  show "authenticate_restore sample_env (sample_source st rs) op = Some sample_proof"
    using proof_ok by (simp add: authenticate_restore_def expected sample_source_fields sample_receipt_fields sample_truthy same_value_def instant_def
      sample_instant del: js_get.simps)
qed

lemma sample_offload:
  "archive_transition sample_env ''s'' ''offloaded'' (Fields (JObj [(''offloadRecord'', sample_record)])) (sample_file ''eviction_eligible'' [] []) =
     Some (sample_file ''offloaded'' [sample_record] [])"
proof -
  let ?e = "sample_source ''eviction_eligible'' []" and ?v = "JObj [(''offloadRecord'', sample_record)]"
  have read: "read_ledger sample_env (sample_file ''eviction_eligible'' [] []) = Some (sample_ledger ''eviction_eligible'' [] [])"
    by (rule sample_read) (simp_all add: sample_stored)
  have rec: "js_get sample_record ''archiveVersionId'' = sample_address" "js_get sample_record ''contentHash'' = JStr sample_digest"
      "js_get sample_record ''byteSize'' = jint 1" "js_get sample_record ''originalPath'' = JStr ''/x''" "js_get sample_record ''result'' = JStr ''deleted''"
    by (simp_all add: sample_record_def)
  have "js_get ?v ''offloadRecord'' = sample_record" "allowed_fields ?v [''offloadRecord'']" by (simp_all add: allowed_fields_def)
  then have evidence: "offload_evidence sample_env ?e (Fields ?v) = Some [(''offloadHistory'', JArr [sample_record])]"
    using sample_record_ok
    by (simp add: offload_evidence_def Let_def rec sample_source_fields sample_authenticated sample_receipt_fields same_value_def sample_address_def
      del: js_get.simps)
  have "can_move (js_get ?e ''state'') ''offloaded''"
    by (simp add: can_move_def archive_transitions_def sample_source_fields del: js_get.simps)
  moreover have "spread ?e [(''offloadHistory'', JArr [sample_record]), (''state'', JStr ''offloaded'')] = sample_source ''offloaded'' [sample_record]"
    by (simp add: spread_def put_all_def sample_source_def sample_identity_fields_def)
  moreover have "drop_undefined ks (sample_source ''offloaded'' [sample_record]) = sample_source ''offloaded'' [sample_record]" for ks
    by (simp add: drop_undefined_def sample_source_def sample_identity_fields_def sample_defined)
  moreover have "update_source ''s'' (sample_source ''offloaded'' [sample_record]) (sample_ledger ''eviction_eligible'' [] []) =
      sample_ledger ''offloaded'' [sample_record] []"
    by (simp add: update_source_def sample_ledger_def)
  moreover have "map_of (ld_sources (sample_ledger ''eviction_eligible'' [] [])) ''s'' = Some ?e" by (simp add: sample_ledger_def)
  ultimately show ?thesis
    using read evidence sample_written [of "''offloaded''" "[sample_record]" "[]"]
    by (simp add: archive_transition_def change_source_def transition_evidence_def Let_def del: map_of_eq_Some_iff js_get.simps)
qed

theorem offload_needs_proof_witness:
  "\<exists>trust rh. en_receipt sample_env (sample_source ''eviction_eligible'' []) ''record_offload'' = Some trust \<and>
     hash_of sample_env sample_receipt = Some rh \<and> js_get trust ''receiptHash'' = JStr rh"
proof -
  have read: "read_ledger sample_env (sample_file ''eviction_eligible'' [] []) = Some (sample_ledger ''eviction_eligible'' [] [])"
    by (rule sample_read) (simp_all add: sample_stored)
  have found: "map_of (ld_sources (sample_ledger ''eviction_eligible'' [] [])) ''s'' = Some (sample_source ''eviction_eligible'' [])"
    by (simp add: sample_ledger_def)
  from offload_needs_proof [OF sample_offload] obtain e trust rh where
    "map_of (ld_sources (sample_ledger ''eviction_eligible'' [] [])) ''s'' = Some e" "en_receipt sample_env e ''record_offload'' = Some trust"
    "hash_of sample_env (js_get e ''receipt'') = Some rh" "js_get trust ''receiptHash'' = JStr rh"
    unfolding read option.inject by metis
  then show ?thesis unfolding found option.inject by (metis sample_source_fields(1))
qed

theorem offloaded_evidence_is_permanent_witness:
  "\<exists>e'. stored_source ''s'' e' (sample_file ''offloaded'' [sample_record] [sample_event]) \<and> js_get e' ''contentHash'' = JStr sample_digest"
proof -
  let ?e = "sample_source ''offloaded'' [sample_record]" and ?f = "sample_file ''offloaded'' [sample_record] []"
    and ?g = "sample_file ''offloaded'' [sample_record] [sample_event]"
  have "read_ledger sample_env ?f = Some (sample_ledger ''offloaded'' [sample_record] [])" by (rule sample_read) (simp_all add: sample_stored)
  then have "record_audit sample_env sample_event ?f = Some ?g"
    using sample_written [of "''offloaded''" "[sample_record]" "[sample_event]"] by (simp add: record_audit_def sample_event_ok sample_ledger_def)
  then have "archive_step ''s'' ?f ?g" by (rule step_audit)
  with reach_start [of "\<lambda>g. g = ?f" ?f] have "reach (\<lambda>g. g = ?f) (archive_step ''s'') ?g" by (blast intro: reach_move)
  moreover have "stored_source ''s'' ?e ?f" by (simp add: stored_source_def ledger_doc_def sample_ledger_def)
  moreover have "parsed_record ?e" using sample_source_json [of "[sample_record]"]
    by (simp add: parsed_record_def) (simp add: sample_source_def sample_identity_fields_def)
  ultimately show ?thesis
    using offloaded_evidence_is_permanent [of "''s''" ?e ?f ?g] by (auto simp: sample_source_fields simp del: js_get.simps)
qed

end
