(* ===== verification/BootstrapPlan.thy ===== *)
theory BootstrapPlan
  imports PosixPath
begin

text \<open>
  Plans for bringing up a machine, \<^verbatim>\<open>lib/network/bootstrap-plan.js\<close>: creating a plan from loose input,
  validating one that was read, and the instructions printed for an agent.  A plan is a record; its
  document is what is written and validated.  Errors name the field.  The working directory is a
  parameter.
\<close>

section \<open>Plans\<close>

datatype plan_error =
  NeedsObject string | NeedsString string | WrongKind | WrongVersion | RepositoryMissing | NotOneOf string | NotText string
| CheckoutForbidden string | CheckoutMissing string | NeedsBoolean string | PlanNotFound | PlanInvalidJson | UnsupportedMode

record plan =
  pl_project :: string
  pl_url :: "string option"
  pl_existing :: "string option"
  pl_adopt :: string
  pl_root :: string
  pl_env :: string
  pl_credentials :: string
  pl_strategy :: string
  pl_checkout :: "string option"
  pl_start :: bool
  pl_brain :: bool
  pl_transcripts :: bool
  pl_scope :: string

definition plan_kind :: string where "plan_kind = ''agentbootup-bootstrap-plan''"

definition adopt_modes :: "string list" where "adopt_modes = [''prefer-existing'', ''require-existing'', ''clone-if-missing'']"
definition credential_modes :: "string list" where "credential_modes = [''existing-required'', ''existing-or-inline'', ''handoff-required'']"
definition runtime_strategies :: "string list" where "runtime_strategies = [''auto'', ''global'', ''checkout'']"
definition transcript_scopes :: "string list" where "transcript_scopes = [''project'', ''portfolio'']"

definition optional_field :: "string \<Rightarrow> string option \<Rightarrow> (string \<times> js) list" where
  "optional_field k v = (case v of Some s \<Rightarrow> [(k, JStr s)] | None \<Rightarrow> [])"

definition plan_doc :: "plan \<Rightarrow> js" where
  "plan_doc p =
     JObj [(''kind'', JStr plan_kind), (''version'', jint 1), (''project_id'', JStr (pl_project p)),
       (''repo'', JObj (optional_field ''url'' (pl_url p) @ optional_field ''existing_path'' (pl_existing p) @ [(''adopt_mode'', JStr (pl_adopt p))])),
       (''network_root'', JStr (pl_root p)), (''env_config_path'', JStr (pl_env p)),
       (''credentials'', JObj [(''mode'', JStr (pl_credentials p))]),
       (''runtime'', JObj ([(''strategy'', JStr (pl_strategy p))] @ optional_field ''checkout_path'' (pl_checkout p))),
       (''daemon'', JObj [(''start'', JBool (pl_start p)), (''brain'', JBool (pl_brain p)), (''transcripts'', JBool (pl_transcripts p)),
          (''transcript_scope'', JStr (pl_scope p))])]"

section \<open>Fields\<close>

definition require_object :: "js \<Rightarrow> string \<Rightarrow> plan_error + js" where
  "require_object v label = throw_if (\<not> js_is_record v) (NeedsObject label) (Inr v)"

definition require_text :: "js \<Rightarrow> string \<Rightarrow> plan_error + string" where
  "require_text v label = (case v of JStr s \<Rightarrow> throw_if (js_trim s = []) (NeedsString label) (Inr (js_trim s)) | _ \<Rightarrow> Inl (NeedsString label))"

definition optional_text :: "js \<Rightarrow> string option" where
  "optional_text v = (case v of JStr s \<Rightarrow> if js_trim s = [] then None else Some (js_trim s) | _ \<Rightarrow> None)"

text \<open>\<^verbatim>\<open>(v || fallback).trim()\<close>, which throws on a truthy value that is not a string, and its mode.\<close>

definition choice :: "js \<Rightarrow> string \<Rightarrow> string list \<Rightarrow> string \<Rightarrow> plan_error + string" where
  "choice v fallback allowed label =
     bind_r (if truthy v then (case v of JStr s \<Rightarrow> Inr (js_trim s) | _ \<Rightarrow> Inl (NotText label)) else Inr fallback) (\<lambda>s.
     throw_if (s \<notin> set allowed) (NotOneOf label) (Inr s))"

definition one_of :: "js \<Rightarrow> string list \<Rightarrow> string \<Rightarrow> plan_error + string" where
  "one_of v allowed label = bind_r (require_text v label) (\<lambda>s. throw_if (s \<notin> set allowed) (NotOneOf label) (Inr s))"

definition normalize_checkout :: "string \<Rightarrow> string option \<Rightarrow> string \<Rightarrow> bool \<Rightarrow> plan_error + string option" where
  "normalize_checkout strategy checkout label legacy =
     (if strategy \<noteq> ''checkout''
      then (if checkout \<noteq> None \<and> \<not> legacy then Inl (CheckoutForbidden label) else Inr None)
      else (if checkout = None then Inl (CheckoutMissing label) else Inr checkout))"

definition require_bool :: "js \<Rightarrow> string \<Rightarrow> plan_error + bool" where
  "require_bool v label = (case v of JBool b \<Rightarrow> Inr b | _ \<Rightarrow> Inl (NeedsBoolean label))"

section \<open>Creation\<close>

definition create_plan :: "js \<Rightarrow> plan_error + plan" where
  "create_plan input =
     bind_r (require_text (js_get input ''project_id'') ''project_id'') (\<lambda>project.
     let url = optional_text (js_get input ''repo_url''); existing = optional_text (js_get input ''existing_repo_path'') in
     throw_if (url = None \<and> existing = None) RepositoryMissing (
     bind_r (require_text (js_get input ''network_root'') ''network_root'') (\<lambda>root.
     bind_r (require_text (js_get input ''env_config_path'') ''env_config_path'') (\<lambda>env_path.
     bind_r (choice (js_get input ''repo_adopt_mode'') ''prefer-existing'' adopt_modes ''repo_adopt_mode'') (\<lambda>adopt.
     bind_r (choice (js_get input ''credential_mode'') ''existing-or-inline'' credential_modes ''credential_mode'') (\<lambda>credentials.
     bind_r (choice (js_get input ''runtime_strategy'') ''auto'' runtime_strategies ''runtime_strategy'') (\<lambda>strategy.
     bind_r (normalize_checkout strategy (optional_text (js_get input ''runtime_checkout_path'')) ''runtime_checkout_path'' False) (\<lambda>checkout.
     bind_r (choice (js_get input ''transcript_scope'') ''project'' transcript_scopes ''transcript_scope'') (\<lambda>scope.
     Inr \<lparr>pl_project = project, pl_url = url, pl_existing = existing, pl_adopt = adopt, pl_root = root, pl_env = env_path,
       pl_credentials = credentials, pl_strategy = strategy, pl_checkout = checkout,
       pl_start = (js_get input ''start_daemon'' \<noteq> JBool False), pl_brain = (js_get input ''start_brain_daemon'' \<noteq> JBool False),
       pl_transcripts = (js_get input ''start_transcript_daemon'' \<noteq> JBool False), pl_scope = scope\<rparr>)))))))))"

section \<open>Validation\<close>

definition plan_base :: "string \<Rightarrow> string \<Rightarrow> string" where
  "plan_base cwd file = (if file = ''<inline>'' then cwd else resolved_dirname (path_resolve cwd file))"

definition resolve_plan_path :: "string \<Rightarrow> string \<Rightarrow> string" where
  "resolve_plan_path base p = (if path_is_absolute p then p else path_resolve base p)"

definition validate_plan :: "string \<Rightarrow> string \<Rightarrow> js \<Rightarrow> plan_error + plan" where
  "validate_plan cwd file v =
     bind_r (require_object v ''root'') (\<lambda>plan.
     let resolve = resolve_plan_path (plan_base cwd file) in
     bind_r (require_text (js_get plan ''kind'') ''kind'') (\<lambda>kind.
     throw_if (kind \<noteq> plan_kind) WrongKind (
     throw_if (js_get plan ''version'' \<noteq> jint 1) WrongVersion (
     bind_r (require_text (js_get plan ''project_id'') ''project_id'') (\<lambda>project.
     bind_r (require_object (js_get plan ''repo'') ''repo'') (\<lambda>repo.
     bind_r (require_text (js_get plan ''network_root'') ''network_root'') (\<lambda>root.
     bind_r (require_text (js_get plan ''env_config_path'') ''env_config_path'') (\<lambda>env_path.
     bind_r (require_object (js_get plan ''credentials'') ''credentials'') (\<lambda>credentials.
     bind_r (if js_nullish (js_get plan ''runtime'') then Inr (JObj [(''strategy'', JStr ''auto'')])
             else require_object (js_get plan ''runtime'') ''runtime'') (\<lambda>runtime.
     bind_r (require_object (js_get plan ''daemon'') ''daemon'') (\<lambda>daemon.
     let url = optional_text (js_get repo ''url''); existing = optional_text (js_get repo ''existing_path'') in
     throw_if (url = None \<and> existing = None) RepositoryMissing (
     bind_r (one_of (js_get repo ''adopt_mode'') adopt_modes ''repo.adopt_mode'') (\<lambda>adopt.
     bind_r (one_of (js_get credentials ''mode'') credential_modes ''credentials.mode'') (\<lambda>mode.
     bind_r (one_of (js_get runtime ''strategy'') runtime_strategies ''runtime.strategy'') (\<lambda>strategy.
     bind_r (normalize_checkout strategy (optional_text (js_get runtime ''checkout_path'')) ''runtime.checkout_path'' True) (\<lambda>checkout.
     bind_r (require_bool (js_get daemon ''start'') ''daemon.start'') (\<lambda>start.
     bind_r (require_bool (js_get daemon ''brain'') ''daemon.brain'') (\<lambda>brain.
     bind_r (require_bool (js_get daemon ''transcripts'') ''daemon.transcripts'') (\<lambda>transcripts.
     bind_r (one_of (js_get daemon ''transcript_scope'') transcript_scopes ''daemon.transcript_scope'') (\<lambda>scope.
     Inr \<lparr>pl_project = project, pl_url = url, pl_existing = map_option resolve existing, pl_adopt = adopt, pl_root = resolve root,
       pl_env = resolve env_path, pl_credentials = mode, pl_strategy = strategy, pl_checkout = map_option resolve checkout,
       pl_start = start, pl_brain = brain, pl_transcripts = transcripts, pl_scope = scope\<rparr>))))))))))))))))))))"

datatype plan_file = PlanAbsent | PlanUnparsable | PlanText js

definition load_plan :: "string \<Rightarrow> (string \<Rightarrow> plan_file) \<Rightarrow> string \<Rightarrow> plan_error + plan" where
  "load_plan cwd disk file =
     (case disk (path_resolve cwd file) of
        PlanAbsent \<Rightarrow> Inl PlanNotFound
      | PlanUnparsable \<Rightarrow> Inl PlanInvalidJson
      | PlanText v \<Rightarrow> validate_plan cwd (path_resolve cwd file) v)"

section \<open>Instructions\<close>

definition yes_no :: "bool \<Rightarrow> string" where "yes_no b = (if b then ''yes'' else ''no'')"

definition format_summary :: "plan \<Rightarrow> string list" where
  "format_summary p =
     [''project: '' @ pl_project p, ''repo url: '' @ (case pl_url p of Some s \<Rightarrow> s | None \<Rightarrow> ''(none)''),
      ''existing repo path: '' @ (case pl_existing p of Some s \<Rightarrow> s | None \<Rightarrow> ''(none)''), ''adopt mode: '' @ pl_adopt p,
      ''network root: '' @ pl_root p, ''env config: '' @ pl_env p, ''credential mode: '' @ pl_credentials p,
      ''runtime strategy: '' @ pl_strategy p @ (case pl_checkout p of Some s \<Rightarrow> '' ('' @ s @ '')'' | None \<Rightarrow> []),
      ''daemon start: '' @ yes_no (pl_start p), ''brain daemon: '' @ yes_no (pl_brain p),
      ''transcript daemon: '' @ yes_no (pl_transcripts p), ''transcript scope: '' @ pl_scope p]"

definition run_command :: "string \<Rightarrow> string" where
  "run_command manifest = ''agentbootup bootup-machine --plan '' @ [CHR 0x22] @ manifest @ [CHR 0x22]"

definition format_instructions :: "plan \<Rightarrow> string \<Rightarrow> string \<Rightarrow> plan_error + string list" where
  "format_instructions p mode manifest =
     (let run = run_command (if manifest = [] then ''<manifest-path>'' else manifest);
          repo_line = (case pl_existing p of Some s \<Rightarrow> ''existing repo path: '' @ s
                       | None \<Rightarrow> ''repo url: '' @ (case pl_url p of Some s \<Rightarrow> s | None \<Rightarrow> ''undefined''));
          runtime_line = (case pl_checkout p of
              Some s \<Rightarrow> if pl_strategy p = ''checkout'' then ''runtime: checkout ('' @ s @ '')'' else ''runtime: '' @ pl_strategy p
            | None \<Rightarrow> ''runtime: '' @ pl_strategy p);
          facts = [''project: '' @ pl_project p, repo_line, ''network root: '' @ pl_root p, ''env config: '' @ pl_env p, runtime_line,
            ''credentials: '' @ pl_credentials p]
      in if mode = [] \<or> mode = ''summary'' then Inr (format_summary p)
         else if mode = ''script'' then Inr
           [''# Script mode'', ''# Stage the manifest and referenced paths on the target machine, then run:'', run]
         else if mode = ''push'' then Inr ([''# Push mode (source-machine agent)''] @ facts @
           [''1. Copy this manifest to the target machine.'',
            ''2. Ensure the target machine has the env config at '' @ pl_env p @ ''.'',
            ''3. If the repo already exists on the target, keep it at the declared existing path or linked network path.'',
            ''4. On the target machine, run: '' @ run])
         else if mode = ''pull'' then Inr ([''# Pull mode (target-machine agent)''] @ facts @
           [''1. Fetch or receive this manifest onto the target machine.'',
            ''2. Verify the referenced env config and optional existing repo path are present.'', ''3. Run: '' @ run])
         else Inl UnsupportedMode)"

section \<open>What is created validates\<close>

text \<open>What the validator does to a plan that is already in order: it resolves the paths.\<close>

definition resolved_plan :: "string \<Rightarrow> plan \<Rightarrow> plan" where
  "resolved_plan base p = p\<lparr>pl_existing := map_option (resolve_plan_path base) (pl_existing p), pl_root := resolve_plan_path base (pl_root p),
     pl_env := resolve_plan_path base (pl_env p), pl_checkout := map_option (resolve_plan_path base) (pl_checkout p)\<rparr>"

definition trimmed :: "string \<Rightarrow> bool" where
  "trimmed s \<longleftrightarrow> s \<noteq> [] \<and> js_trim s = s"

definition orderly :: "plan \<Rightarrow> bool" where
  "orderly p \<longleftrightarrow>
     trimmed (pl_project p) \<and> trimmed (pl_root p) \<and> trimmed (pl_env p) \<and> (pl_url p \<noteq> None \<or> pl_existing p \<noteq> None) \<and>
     pred_option trimmed (pl_url p) \<and> pred_option trimmed (pl_existing p) \<and> pred_option trimmed (pl_checkout p) \<and>
     pl_adopt p \<in> set adopt_modes \<and> pl_credentials p \<in> set credential_modes \<and> pl_strategy p \<in> set runtime_strategies \<and>
     pl_scope p \<in> set transcript_scopes \<and> (pl_strategy p = ''checkout'' \<longleftrightarrow> pl_checkout p \<noteq> None)"

lemma js_trim_twice [simp]: "js_trim (js_trim s) = js_trim s"
proof -
  let ?d = "dropWhile is_js_space"
  define t where "t = ?d s"
  have head: "t = [] \<or> \<not> is_js_space (hd t)" unfolding t_def by (metis hd_dropWhile dropWhile_eq_Nil_conv)
  have "?d (rev (?d (rev t))) = rev (?d (rev t))"
  proof (cases "rev (?d (rev t))")
    case (Cons c cs)
    obtain ys where "rev t = ys @ ?d (rev t)" using takeWhile_dropWhile_id [of is_js_space "rev t"] by metis
    then have "t = rev (?d (rev t)) @ rev ys" by (metis rev_append rev_rev_ident)
    with Cons have "hd t = c" "t \<noteq> []" by auto
    with head Cons show ?thesis by simp
  next
    case Nil
    show ?thesis unfolding Nil by simp
  qed
  then show ?thesis by (simp add: js_trim_def t_def [symmetric])
qed

lemma require_text_Inr: "require_text v l = Inr s \<Longrightarrow> trimmed s"
  by (auto simp: require_text_def trimmed_def throw_if_def split: js.splits if_splits)

lemma optional_text_trimmed: "pred_option trimmed (optional_text v)"
  by (auto simp: optional_text_def trimmed_def split: js.splits)

lemma optional_text_Some: "optional_text v = Some s \<Longrightarrow> trimmed s"
  using optional_text_trimmed [of v] by simp

lemma trimmed_fields [simp]:
  "trimmed s \<Longrightarrow> require_text (JStr s) l = Inr s" "trimmed s \<Longrightarrow> optional_text (JStr s) = Some s" "optional_text JUndef = None"
  by (simp_all add: require_text_def optional_text_def trimmed_def)

lemma choice_Inr: "choice v d allowed l = Inr s \<Longrightarrow> s \<in> set allowed"
  by (auto simp: choice_def bind_r_def throw_if_def split: sum.splits if_splits)

lemma modes_trimmed:
  "s \<in> set adopt_modes \<Longrightarrow> trimmed s" "s \<in> set credential_modes \<Longrightarrow> trimmed s" "s \<in> set runtime_strategies \<Longrightarrow> trimmed s"
  "s \<in> set transcript_scopes \<Longrightarrow> trimmed s" "trimmed plan_kind"
  by (auto simp: adopt_modes_def credential_modes_def runtime_strategies_def transcript_scopes_def plan_kind_def trimmed_def js_trim_def
    is_js_space_def less_eq_char_def)

lemma one_of_trimmed: "trimmed s \<Longrightarrow> s \<in> set allowed \<Longrightarrow> one_of (JStr s) allowed l = Inr s"
  by (simp add: one_of_def)

lemma created_orderly: "create_plan input = Inr p \<Longrightarrow> orderly p"
  by (auto simp: create_plan_def bind_r_Inr Let_def orderly_def normalize_checkout_def optional_text_trimmed
    dest!: require_text_Inr choice_Inr dest: optional_text_Some split: if_splits)

lemma plan_doc_fields:
  "js_get (plan_doc p) ''kind'' = JStr plan_kind" "js_get (plan_doc p) ''version'' = jint 1" "js_is_record (plan_doc p)"
  "js_get (plan_doc p) ''project_id'' = JStr (pl_project p)" "js_get (plan_doc p) ''network_root'' = JStr (pl_root p)"
  "js_get (plan_doc p) ''env_config_path'' = JStr (pl_env p)"
  "js_get (plan_doc p) ''repo'' =
     JObj (optional_field ''url'' (pl_url p) @ optional_field ''existing_path'' (pl_existing p) @ [(''adopt_mode'', JStr (pl_adopt p))])"
  "js_get (plan_doc p) ''credentials'' = JObj [(''mode'', JStr (pl_credentials p))]"
  "js_get (plan_doc p) ''runtime'' = JObj ((''strategy'', JStr (pl_strategy p)) # optional_field ''checkout_path'' (pl_checkout p))"
  "js_get (plan_doc p) ''daemon'' = JObj [(''start'', JBool (pl_start p)), (''brain'', JBool (pl_brain p)),
     (''transcripts'', JBool (pl_transcripts p)), (''transcript_scope'', JStr (pl_scope p))]"
  by (simp_all add: plan_doc_def)

lemma optional_field_get:
  "js_get (JObj (optional_field k v @ kvs)) k = (case v of Some s \<Rightarrow> JStr s | None \<Rightarrow> js_get (JObj kvs) k)"
  "k \<noteq> k' \<Longrightarrow> js_get (JObj (optional_field k' v @ kvs)) k = js_get (JObj kvs) k"
  by (auto simp: optional_field_def split: option.splits)

lemma optional_text_option: "pred_option trimmed v \<Longrightarrow> optional_text (case v of Some s \<Rightarrow> JStr s | None \<Rightarrow> JUndef) = v"
  by (cases v) auto

lemma orderly_validates:
  assumes "orderly p"
  shows "validate_plan cwd file (plan_doc p) = Inr (resolved_plan (plan_base cwd file) p)"
proof -
  let ?repo = "JObj (optional_field ''url'' (pl_url p) @ optional_field ''existing_path'' (pl_existing p) @ [(''adopt_mode'', JStr (pl_adopt p))])"
  let ?runtime = "JObj ((''strategy'', JStr (pl_strategy p)) # optional_field ''checkout_path'' (pl_checkout p))"
  note o = assms [unfolded orderly_def]
  have repo: "optional_text (js_get ?repo ''url'') = pl_url p" "optional_text (js_get ?repo ''existing_path'') = pl_existing p"
      "js_get ?repo ''adopt_mode'' = JStr (pl_adopt p)"
    using o by (auto simp: optional_field_def split: option.splits)
  have runtime: "js_get ?runtime ''strategy'' = JStr (pl_strategy p)" "optional_text (js_get ?runtime ''checkout_path'') = pl_checkout p"
    using o optional_text_option [of "pl_checkout p"] by (auto simp: optional_field_def split: option.splits)
  have checkout: "normalize_checkout (pl_strategy p) (pl_checkout p) l True = Inr (pl_checkout p)" for l
    using o by (auto simp: normalize_checkout_def)
  have modes: "one_of (JStr (pl_adopt p)) adopt_modes l = Inr (pl_adopt p)" "one_of (JStr (pl_credentials p)) credential_modes l = Inr (pl_credentials p)"
      "one_of (JStr (pl_strategy p)) runtime_strategies l = Inr (pl_strategy p)" "one_of (JStr (pl_scope p)) transcript_scopes l = Inr (pl_scope p)" for l
    using o by (auto intro!: one_of_trimmed intro: modes_trimmed)
  let ?daemon = "JObj [(''start'', JBool (pl_start p)), (''brain'', JBool (pl_brain p)), (''transcripts'', JBool (pl_transcripts p)),
    (''transcript_scope'', JStr (pl_scope p))]"
  have daemon: "js_get ?daemon ''start'' = JBool (pl_start p)" "js_get ?daemon ''brain'' = JBool (pl_brain p)"
      "js_get ?daemon ''transcripts'' = JBool (pl_transcripts p)" "js_get ?daemon ''transcript_scope'' = JStr (pl_scope p)"
      "js_get (JObj [(''mode'', JStr (pl_credentials p))]) ''mode'' = JStr (pl_credentials p)"
    by simp_all
  have "pl_url p \<noteq> None \<or> pl_existing p \<noteq> None" "trimmed (pl_project p)" "trimmed (pl_root p)" "trimmed (pl_env p)" using o by blast+
  then have "validate_plan cwd file (plan_doc p) = Inr (let resolve = resolve_plan_path (plan_base cwd file) in
     \<lparr>pl_project = pl_project p, pl_url = pl_url p, pl_existing = map_option resolve (pl_existing p), pl_adopt = pl_adopt p, pl_root = resolve (pl_root p),
      pl_env = resolve (pl_env p), pl_credentials = pl_credentials p, pl_strategy = pl_strategy p, pl_checkout = map_option resolve (pl_checkout p),
      pl_start = pl_start p, pl_brain = pl_brain p, pl_transcripts = pl_transcripts p, pl_scope = pl_scope p\<rparr>)"
    unfolding validate_plan_def require_object_def Let_def
    by (simp add: plan_doc_fields modes_trimmed repo runtime checkout modes daemon require_bool_def bind_r_simps del: bind_r_Inr js_get.simps)
  then show ?thesis by (cases p) (simp add: resolved_plan_def Let_def)
qed

text \<open>C36. Whatever plan is created, its document validates, wherever it is read from, and validation changes
  nothing in it but to resolve the paths against the directory of the document.\<close>

theorem created_plan_validates:
  assumes "create_plan input = Inr p"
  shows "validate_plan cwd file (plan_doc p) = Inr (resolved_plan (plan_base cwd file) p)"
  by (rule orderly_validates [OF created_orderly [OF assms]])

theorem created_plan_validates_witness:
  "\<exists>p. create_plan (JObj [(''project_id'', JStr '' p ''), (''existing_repo_path'', JStr ''repo''), (''network_root'', JStr ''../n''),
       (''env_config_path'', JStr ''/e''), (''runtime_strategy'', JStr ''checkout''), (''runtime_checkout_path'', JStr ''c'')]) = Inr p \<and>
     validate_plan ''/w'' ''d/plan.json'' (plan_doc p) = Inr (resolved_plan ''/w/d'' p) \<and> pl_root (resolved_plan ''/w/d'' p) = ''/w/n''"
proof -
  let ?i = "JObj [(''project_id'', JStr '' p ''), (''existing_repo_path'', JStr ''repo''), (''network_root'', JStr ''../n''),
       (''env_config_path'', JStr ''/e''), (''runtime_strategy'', JStr ''checkout''), (''runtime_checkout_path'', JStr ''c'')]"
  let ?p = "\<lparr>pl_project = ''p'', pl_url = None, pl_existing = Some ''repo'', pl_adopt = ''prefer-existing'', pl_root = ''../n'', pl_env = ''/e'',
    pl_credentials = ''existing-or-inline'', pl_strategy = ''checkout'', pl_checkout = Some ''c'', pl_start = True, pl_brain = True,
    pl_transcripts = True, pl_scope = ''project''\<rparr>"
  have created: "create_plan ?i = Inr ?p" by code_simp
  have base: "plan_base ''/w'' ''d/plan.json'' = ''/w/d''" and root: "pl_root (resolved_plan ''/w/d'' ?p) = ''/w/n''" by code_simp+
  show ?thesis using created_plan_validates [OF created, of "''/w''" "''d/plan.json''"] created root unfolding base by blast
qed

text \<open>A validated plan, read back.\<close>

lemma resolved_absolute: "path_is_absolute (resolve_plan_path base s)"
  by (simp add: resolve_plan_path_def)

lemma one_of_Inr: "one_of v allowed l = Inr s \<Longrightarrow> s \<in> set allowed"
  by (auto simp: one_of_def throw_if_def split: if_splits)

definition plan_paths :: "plan \<Rightarrow> string list" where
  "plan_paths p = pl_root p # pl_env p # (case pl_existing p of Some s \<Rightarrow> [s] | None \<Rightarrow> []) @ (case pl_checkout p of Some s \<Rightarrow> [s] | None \<Rightarrow> [])"

lemma validated_shape:
  assumes "validate_plan cwd file v = Inr p"
  shows "trimmed (pl_project p)" "pl_url p \<noteq> None \<or> pl_existing p \<noteq> None" "pred_option trimmed (pl_url p)"
    "pl_adopt p \<in> set adopt_modes" "pl_credentials p \<in> set credential_modes" "pl_strategy p \<in> set runtime_strategies"
    "pl_scope p \<in> set transcript_scopes" "pl_strategy p = ''checkout'' \<longleftrightarrow> pl_checkout p \<noteq> None"
    "list_all path_is_absolute (plan_paths p)"
proof -
  note unfold = validate_plan_def Let_def plan_paths_def resolved_absolute
  show "trimmed (pl_project p)" using assms by (auto simp: unfold dest: require_text_Inr)
  show "pl_url p \<noteq> None \<or> pl_existing p \<noteq> None" "pred_option trimmed (pl_url p)"
    using assms by (auto simp: unfold optional_text_trimmed dest: optional_text_Some)
  show "pl_adopt p \<in> set adopt_modes" "pl_credentials p \<in> set credential_modes" "pl_strategy p \<in> set runtime_strategies"
    "pl_scope p \<in> set transcript_scopes"
    using assms by (auto simp: unfold dest: one_of_Inr)
  have "\<exists>given c. normalize_checkout (pl_strategy p) given ''runtime.checkout_path'' True = Inr c \<and>
      pl_checkout p = map_option (resolve_plan_path (plan_base cwd file)) c"
    using assms unfolding validate_plan_def Let_def by (clarsimp simp: bind_r_Inr) blast
  then obtain given c where c: "normalize_checkout (pl_strategy p) given ''runtime.checkout_path'' True = Inr c"
      "pl_checkout p = map_option (resolve_plan_path (plan_base cwd file)) c" by blast
  then show "pl_strategy p = ''checkout'' \<longleftrightarrow> pl_checkout p \<noteq> None"
    by (auto simp: normalize_checkout_def split: if_splits)
  have "\<exists>r d x. pl_root p = resolve_plan_path (plan_base cwd file) r \<and> pl_env p = resolve_plan_path (plan_base cwd file) d \<and>
      pl_existing p = map_option (resolve_plan_path (plan_base cwd file)) x"
    using assms unfolding validate_plan_def Let_def by (clarsimp simp: bind_r_Inr) blast
  with c(2) show "list_all path_is_absolute (plan_paths p)"
    by (auto simp: plan_paths_def resolved_absolute map_option_case split: option.splits)
qed

text \<open>C40. Validation is stable.  A plan that was validated, written and read again from anywhere is the same
  plan, as long as no resolved path begins or ends with white space (the directory it was resolved
  against may); it names a repository, its modes are known ones, all its paths are absolute, and it has a
  checkout path exactly when its strategy is to use one.\<close>

theorem validated_plan_is_stable:
  assumes "validate_plan cwd file v = Inr p" and "list_all (\<lambda>s. js_trim s = s) (plan_paths p)"
  shows "validate_plan cwd' file' (plan_doc p) = Inr p \<and> list_all path_is_absolute (plan_paths p) \<and>
    (pl_strategy p = ''checkout'' \<longleftrightarrow> pl_checkout p \<noteq> None)"
proof -
  note shape = validated_shape [OF assms(1)]
  have texts: "list_all trimmed (plan_paths p)"
    using assms(2) shape(9) by (auto simp: list_all_iff trimmed_def path_is_absolute_def starts_with_def)
  then have "orderly p"
    using shape by (auto simp: orderly_def plan_paths_def split: option.splits)
  moreover have "resolved_plan base p = p" for base
    using shape(9) by (cases p) (auto simp: resolved_plan_def resolve_plan_path_def plan_paths_def split: option.splits)
  ultimately show ?thesis using orderly_validates [of p cwd' file'] shape(8,9) by simp
qed

theorem validated_plan_is_stable_witness:
  "\<exists>p. validate_plan ''/w'' ''<inline>'' (JObj [(''kind'', JStr plan_kind), (''version'', jint 1), (''project_id'', JStr ''p''),
      (''repo'', JObj [(''url'', JStr ''u''), (''adopt_mode'', JStr ''require-existing'')]), (''network_root'', JStr ''n''),
      (''env_config_path'', JStr ''e''), (''credentials'', JObj [(''mode'', JStr ''existing-required'')]),
      (''daemon'', JObj [(''start'', JBool True), (''brain'', JBool False), (''transcripts'', JBool False),
        (''transcript_scope'', JStr ''portfolio'')])]) = Inr p \<and>
    validate_plan ''/other'' ''<inline>'' (plan_doc p) = Inr p \<and> pl_root p = ''/w/n''"
proof -
  let ?v = "JObj [(''kind'', JStr plan_kind), (''version'', jint 1), (''project_id'', JStr ''p''),
      (''repo'', JObj [(''url'', JStr ''u''), (''adopt_mode'', JStr ''require-existing'')]), (''network_root'', JStr ''n''),
      (''env_config_path'', JStr ''e''), (''credentials'', JObj [(''mode'', JStr ''existing-required'')]),
      (''daemon'', JObj [(''start'', JBool True), (''brain'', JBool False), (''transcripts'', JBool False),
        (''transcript_scope'', JStr ''portfolio'')])]"
  let ?p = "\<lparr>pl_project = ''p'', pl_url = Some ''u'', pl_existing = None, pl_adopt = ''require-existing'', pl_root = ''/w/n'', pl_env = ''/w/e'',
    pl_credentials = ''existing-required'', pl_strategy = ''auto'', pl_checkout = None, pl_start = True, pl_brain = False,
    pl_transcripts = False, pl_scope = ''portfolio''\<rparr>"
  have valid: "validate_plan ''/w'' ''<inline>'' ?v = Inr ?p" by code_simp
  have "list_all (\<lambda>s. js_trim s = s) (plan_paths ?p)" by code_simp
  from validated_plan_is_stable [OF valid this, of "''/other''" "''<inline>''"] valid show ?thesis by simp
qed

end
