(* ===== verification/ArchiveConfig.thy ===== *)
theory ArchiveConfig
  imports JsPrelude
begin

text \<open>
  Settings of the transcript archive, \<^verbatim>\<open>lib/transcript-archive/config.js\<close>: the limits with their
  ranges, the relationships between the timings, the resolution of the configuration; and the checks
  that the constructor of the ledger (\<^verbatim>\<open>lib/transcript-archive/ledger.js\<close>) makes of its own.
\<close>

section \<open>Limits\<close>

definition archive_limits :: "(string \<times> int) list" where
  "archive_limits =
     [(''snapshotMaxAttempts'', 3), (''uploadConcurrency'', 3), (''verifierConcurrency'', 3), (''verificationSweepTimeoutMs'', 120000),
      (''verificationSweepMaxTimeoutMs'', 21600000), (''requestByteLimit'', 4 * 1024 * 1024), (''eligibilityByteLimit'', 256 * 1024 * 1024),
      (''streamingFileByteLimit'', 1024 * 1024 * 1024 * 1024), (''ledgerByteLimit'', 64 * 1024 * 1024), (''retryLimit'', 5),
      (''retryBaseMs'', 500), (''verifierTimeoutMs'', 10000), (''lockTimeoutMs'', 620000), (''lockQueueTimeoutMs'', 625000),
      (''staleLockMs'', 30000), (''identityByteLimit'', 1024 * 1024), (''discoveryMaxDepth'', 8), (''discoveryMaxFailures'', 256),
      (''inventoryMaxPages'', 1000), (''inventoryMaxItems'', 100000), (''inventoryMaxEmptyPages'', 100), (''ledgerGenerationLimit'', 256),
      (''ledgerAuditLimit'', 1000), (''ledgerRestoreHistoryLimit'', 1000), (''ledgerOffloadHistoryLimit'', 1000)]"

definition archive_limit_ranges :: "(string \<times> int \<times> int) list" where
  "archive_limit_ranges =
     [(''snapshotMaxAttempts'', 1, 20), (''uploadConcurrency'', 1, 32), (''verifierConcurrency'', 1, 32),
      (''verificationSweepTimeoutMs'', 10, 1800000), (''verificationSweepMaxTimeoutMs'', 10, 86400000),
      (''requestByteLimit'', 64 * 1024, 64 * 1024 * 1024), (''eligibilityByteLimit'', 64 * 1024, 16 * 1024 * 1024 * 1024),
      (''streamingFileByteLimit'', 4 * 1024 * 1024, 16 * 1024 * 1024 * 1024 * 1024), (''ledgerByteLimit'', 64 * 1024, 1024 * 1024 * 1024),
      (''retryLimit'', 0, 20), (''retryBaseMs'', 10, 60000), (''verifierTimeoutMs'', 10, 300000), (''lockTimeoutMs'', 1020, 1800000),
      (''lockQueueTimeoutMs'', 1020, 1800000), (''staleLockMs'', 1020, 1799999), (''identityByteLimit'', 4 * 1024, 64 * 1024 * 1024),
      (''discoveryMaxDepth'', 1, 64), (''discoveryMaxFailures'', 1, 10000), (''inventoryMaxPages'', 1, 100000),
      (''inventoryMaxItems'', 1, 10000000), (''inventoryMaxEmptyPages'', 1, 10000), (''ledgerGenerationLimit'', 1, 100000),
      (''ledgerAuditLimit'', 1, 100000), (''ledgerRestoreHistoryLimit'', 1, 100000), (''ledgerOffloadHistoryLimit'', 1, 100000)]"

definition closed_age_range :: "int \<times> int" where "closed_age_range = (0, 24 * 365)"

datatype setting_error =
  OutOfRange string | UnknownLimit string | LockBudget | SweepBudget | SweepOrder | StaleBudget | StaleOrder
| NotPlainObject string | UnknownSetting string string | BadCapture | BadEnabled | BadUpload | BadRetention
| ConflictingVerifier | UnsafeHooksRefused | HookOutOfRange string

fun js_int :: "js \<Rightarrow> int" where
  "js_int (JNum (Fin q)) = \<lfloor>q\<rfloor>"
| "js_int _ = 0"

definition int_in :: "int \<times> int \<Rightarrow> js \<Rightarrow> bool" where
  "int_in r v \<longleftrightarrow> js_is_safe_integer v \<and> fst r \<le> js_int v \<and> js_int v \<le> snd r"

definition bounded_integer :: "string \<Rightarrow> js \<Rightarrow> int \<Rightarrow> int \<times> int \<Rightarrow> setting_error + int" where
  "bounded_integer name v fallback r =
     (if v = JUndef then Inr fallback else throw_if (\<not> int_in r v) (OutOfRange name) (Inr (js_int v)))"

text \<open>A limit that is in the table has a range: the module checks it when it is loaded, see below.\<close>

definition range_of :: "string \<Rightarrow> int \<times> int" where
  "range_of key = the (map_of archive_limit_ranges key)"

definition resolve_limit :: "string \<Rightarrow> js \<Rightarrow> setting_error + int" where
  "resolve_limit name v =
     (case map_of archive_limits name of
        None \<Rightarrow> Inl (UnknownLimit name)
      | Some fallback \<Rightarrow> bounded_integer name v fallback (range_of name))"

abbreviation limit_at :: "(string \<times> int) list \<Rightarrow> string \<Rightarrow> int" where
  "limit_at limits k \<equiv> the (map_of limits k)"

definition limit_relationships :: "(string \<times> int) list \<Rightarrow> int \<Rightarrow> setting_error + unit" where
  "limit_relationships limits verifier =
     (let budget = verifier * 2 + 1000 in
      throw_if (limit_at limits ''lockTimeoutMs'' < budget \<or> limit_at limits ''lockQueueTimeoutMs'' < budget) LockBudget (
      throw_if (limit_at limits ''verificationSweepTimeoutMs'' < budget) SweepBudget (
      throw_if (limit_at limits ''verificationSweepMaxTimeoutMs'' < limit_at limits ''verificationSweepTimeoutMs'') SweepOrder (
      throw_if (limit_at limits ''staleLockMs'' < budget) StaleBudget (
      throw_if (limit_at limits ''staleLockMs'' \<ge> limit_at limits ''lockTimeoutMs'') StaleOrder (Inr ()))))))"

section \<open>The configuration\<close>

record archive_config =
  ac_capture :: string
  ac_enabled :: bool
  ac_upload :: string
  ac_age :: int
  ac_limits :: "(string \<times> int) list"

definition known_keys :: "js \<Rightarrow> string list \<Rightarrow> string \<Rightarrow> setting_error + js" where
  "known_keys v allowed name =
     (if v = JUndef then Inr (JObj [])
      else if \<not> js_is_record v then Inl (NotPlainObject name)
      else case filter (\<lambda>k. k \<notin> set allowed) (js_keys v) of k # _ \<Rightarrow> Inl (UnknownSetting name k) | [] \<Rightarrow> Inr v)"

definition text_or :: "js \<Rightarrow> string \<Rightarrow> string" where
  "text_or v d = (case v of JStr s \<Rightarrow> s | _ \<Rightarrow> d)"

definition limit_entry :: "js \<Rightarrow> string \<times> int \<Rightarrow> setting_error + string \<times> int" where
  "limit_entry limits kd =
     bind_r (bounded_integer (fst kd) (js_get limits (fst kd)) (snd kd) (range_of (fst kd))) (\<lambda>n. Inr (fst kd, n))"

definition resolve_config :: "js \<Rightarrow> setting_error + archive_config" where
  "resolve_config config =
     bind_r (known_keys (js_get config ''transcripts'') [''capture'', ''archive'', ''consent'', ''localRetention'', ''limits''] ''configuration'') (\<lambda>input.
     bind_r (known_keys (js_get input ''archive'') [''enabled''] ''archive'') (\<lambda>archive.
     bind_r (known_keys (js_get input ''consent'') [''upload''] ''consent'') (\<lambda>consent.
     bind_r (known_keys (js_get input ''localRetention'') [''mode'', ''minClosedAgeHours''] ''localRetention'') (\<lambda>retention.
     bind_r (known_keys (js_get input ''limits'') (map fst archive_limits) ''limits'') (\<lambda>limits.
     throw_if (js_get input ''capture'' \<noteq> JUndef \<and> \<not> field_in [''manual'', ''continuous''] (js_get input ''capture'')) BadCapture (
     throw_if (js_get archive ''enabled'' \<noteq> JUndef \<and> \<not> js_is_bool (js_get archive ''enabled'')) BadEnabled (
     throw_if (js_get consent ''upload'' \<noteq> JUndef \<and> \<not> field_in [''ask'', ''granted''] (js_get consent ''upload'')) BadUpload (
     throw_if (js_get retention ''mode'' \<noteq> JUndef \<and> js_get retention ''mode'' \<noteq> JStr ''keep_all'') BadRetention (
     bind_r (map_r (limit_entry limits) archive_limits) (\<lambda>resolved.
     bind_r (limit_relationships resolved (limit_at resolved ''verifierTimeoutMs'')) (\<lambda>_.
     bind_r (bounded_integer ''localRetention.minClosedAgeHours'' (js_get retention ''minClosedAgeHours'') 24 closed_age_range) (\<lambda>age.
     Inr \<lparr>ac_capture = text_or (js_get input ''capture'') ''manual'', ac_enabled = (js_get archive ''enabled'' = JBool True),
       ac_upload = text_or (js_get consent ''upload'') ''ask'', ac_age = age, ac_limits = resolved\<rparr>))))))))))))"

text \<open>The document of a resolved configuration.\<close>

definition config_doc :: "archive_config \<Rightarrow> js" where
  "config_doc c =
     JObj [(''transcripts'', JObj [(''capture'', JStr (ac_capture c)), (''archive'', JObj [(''enabled'', JBool (ac_enabled c))]),
       (''consent'', JObj [(''upload'', JStr (ac_upload c))]),
       (''localRetention'', JObj [(''mode'', JStr ''keep_all''), (''minClosedAgeHours'', jint (ac_age c))]),
       (''limits'', JObj (map (\<lambda>(k, n). (k, jint n)) (ac_limits c)))])]"

section \<open>The ledger's own checks\<close>

text \<open>The options of the constructor that bear on its timing; a missing one is undefined.  The last is
  whether the environment declares a test.\<close>

record ledger_options =
  lo_verifier :: js
  lo_limits :: "(string \<times> js) list"
  lo_lock :: js
  lo_queue :: js
  lo_stale :: js
  lo_corrupt :: js
  lo_unsafe :: js
  lo_test :: bool

record ledger_timing =
  lt_verifier :: int
  lt_limits :: "(string \<times> int) list"
  lt_lock :: js
  lt_queue :: js
  lt_stale :: js

definition option_limit :: "string \<times> js \<Rightarrow> setting_error + string \<times> int" where
  "option_limit kv =
     throw_if (fst kv \<notin> fst ` set archive_limits) (UnknownLimit (fst kv)) (
     throw_if (\<not> int_in (range_of (fst kv)) (snd kv)) (OutOfRange (fst kv)) (Inr (fst kv, js_int (snd kv))))"

definition hook_override :: "string \<times> js \<Rightarrow> setting_error + (string \<times> int) list" where
  "hook_override kv =
     (if snd kv = JUndef then Inr []
      else throw_if (\<not> int_in (range_of (fst kv)) (snd kv)) (HookOutOfRange (fst kv)) (Inr [(fst kv, js_int (snd kv))]))"

definition timing_overrides :: "ledger_options \<Rightarrow> (string \<times> js) list" where
  "timing_overrides opts = [(''lockTimeoutMs'', lo_lock opts), (''lockQueueTimeoutMs'', lo_queue opts), (''staleLockMs'', lo_stale opts)]"

definition ledger_constructor :: "ledger_options \<Rightarrow> setting_error + ledger_timing" where
  "ledger_constructor opts =
     (let own = js_get (JObj (lo_limits opts)) ''verifierTimeoutMs'';
          verifier = js_coalesce (lo_verifier opts) (js_coalesce own (jint (limit_at archive_limits ''verifierTimeoutMs'')));
          overrides = timing_overrides opts;
          unsafe = (lo_unsafe opts = JBool True \<and> lo_test opts) in
      throw_if (lo_verifier opts \<noteq> JUndef \<and> own \<noteq> JUndef \<and> \<not> same_value (lo_verifier opts) own) ConflictingVerifier (
      throw_if (\<not> int_in (range_of ''verifierTimeoutMs'') verifier) (OutOfRange ''verifierTimeoutMs'') (
      bind_r (map_r option_limit (lo_limits opts)) (\<lambda>over.
      let limits = put_all archive_limits over in
      bind_r (limit_relationships limits (js_int verifier)) (\<lambda>_.
      throw_if (lo_unsafe opts = JBool True \<and> \<not> unsafe) UnsafeHooksRefused (
      bind_r (if ((\<exists>kv \<in> set overrides. snd kv \<noteq> JUndef) \<or> lo_corrupt opts \<noteq> JUndef) \<and> \<not> unsafe
              then bind_r (map_r hook_override overrides) (\<lambda>changes.
                   throw_if (lo_corrupt opts \<noteq> JUndef \<and> \<not> int_in (1000, 86400000) (lo_corrupt opts)) (HookOutOfRange ''corruptStaleLockMs'') (
                   limit_relationships (put_all limits (concat changes)) (js_int verifier)))
              else Inr ()) (\<lambda>_.
      Inr \<lparr>lt_verifier = js_int verifier, lt_limits = limits, lt_lock = js_coalesce (lo_lock opts) (jint (limit_at limits ''lockTimeoutMs'')),
        lt_queue = js_coalesce (lo_queue opts) (jint (limit_at limits ''lockQueueTimeoutMs'')),
        lt_stale = js_coalesce (lo_stale opts) (jint (limit_at limits ''staleLockMs''))\<rparr>)))))))"

section \<open>What is resolved is in range\<close>

definition limits_in_range :: "(string \<times> int) list \<Rightarrow> bool" where
  "limits_in_range limits \<longleftrightarrow>
     map fst limits = map fst archive_limits \<and> (\<forall>(k, n) \<in> set limits. fst (range_of k) \<le> n \<and> n \<le> snd (range_of k))"

text \<open>The check that the module makes of its own tables.\<close>

lemma limit_tables_agree: "map fst archive_limits = map fst archive_limit_ranges" "distinct (map fst archive_limits)"
  by code_simp+

lemma defaults_in_range: "limits_in_range archive_limits"
  unfolding limits_in_range_def by code_simp

lemma ranges_safe:
  "k \<in> fst ` set archive_limits \<Longrightarrow> - 9007199254740991 \<le> fst (range_of k) \<and> snd (range_of k) \<le> 9007199254740991"
proof -
  have "\<forall>k \<in> set (map fst archive_limits). - 9007199254740991 \<le> fst (range_of k) \<and> snd (range_of k) \<le> 9007199254740991"
    by code_simp
  moreover assume "k \<in> fst ` set archive_limits"
  ultimately show ?thesis by auto
qed

lemma int_in_jint:
  assumes "- 9007199254740991 \<le> fst r" "snd r \<le> 9007199254740991"
  shows "int_in r (jint n) \<longleftrightarrow> fst r \<le> n \<and> n \<le> snd r"
proof -
  have "\<bar>of_int n :: rat\<bar> \<le> 9007199254740991 \<longleftrightarrow> \<bar>n\<bar> \<le> 9007199254740991"
    by (metis of_int_abs of_int_le_iff of_int_numeral)
  then show ?thesis using assms by (auto simp: int_in_def max_safe_integer_def)
qed

lemma bounded_integer_Inr:
  "bounded_integer name v d r = Inr n \<Longrightarrow> fst r \<le> d \<and> d \<le> snd r \<Longrightarrow> fst r \<le> n \<and> n \<le> snd r"
  by (auto simp: bounded_integer_def int_in_def split: if_splits)

lemma resolved_limits_in_range:
  assumes "map_r (limit_entry limits) archive_limits = Inr resolved"
  shows "limits_in_range resolved"
proof -
  have each: "list_all2 (\<lambda>x y. limit_entry limits x = Inr y) archive_limits resolved" using assms by (simp add: map_r_Inr_iff)
  have "fst y = fst x \<and> (fst (range_of (fst x)) \<le> snd x \<and> snd x \<le> snd (range_of (fst x)) \<longrightarrow>
      fst (range_of (fst x)) \<le> snd y \<and> snd y \<le> snd (range_of (fst x)))" if "limit_entry limits x = Inr y" for x y
    using that bounded_integer_Inr by (cases y) (auto simp: limit_entry_def)
  then have both: "list_all2 (\<lambda>x y. fst y = fst x \<and> (fst (range_of (fst x)) \<le> snd x \<and> snd x \<le> snd (range_of (fst x)) \<longrightarrow>
      fst (range_of (fst x)) \<le> snd y \<and> snd y \<le> snd (range_of (fst x)))) archive_limits resolved"
    by (rule list_all2_mono [OF each])
  have "map fst resolved = map fst archive_limits"
    using both by (auto simp: list_all2_conv_all_nth intro: nth_equalityI)
  moreover have "fst (range_of (fst y)) \<le> snd y \<and> snd y \<le> snd (range_of (fst y))" if y: "y \<in> set resolved" for y
  proof -
    obtain i where "i < length resolved" "y = resolved ! i" using y by (auto simp: in_set_conv_nth)
    then show ?thesis using both defaults_in_range
      by (fastforce simp: list_all2_conv_all_nth limits_in_range_def split_beta dest: nth_mem)
  qed
  ultimately show ?thesis by (auto simp: limits_in_range_def)
qed

lemma relationships_Inr:
  "limit_relationships limits v = Inr u \<longleftrightarrow>
     2 * v + 1000 \<le> limit_at limits ''staleLockMs'' \<and> limit_at limits ''staleLockMs'' < limit_at limits ''lockTimeoutMs'' \<and>
     2 * v + 1000 \<le> limit_at limits ''lockQueueTimeoutMs'' \<and> 2 * v + 1000 \<le> limit_at limits ''verificationSweepTimeoutMs'' \<and>
     limit_at limits ''verificationSweepTimeoutMs'' \<le> limit_at limits ''verificationSweepMaxTimeoutMs''"
  by (auto simp: limit_relationships_def Let_def)

text \<open>A resolved configuration, resolved again, is itself.\<close>

lemma known_keys_of: "set (map fst kvs) \<subseteq> set allowed \<Longrightarrow> known_keys (JObj kvs) allowed name = Inr (JObj kvs)"
proof -
  assume "set (map fst kvs) \<subseteq> set allowed"
  then have "filter (\<lambda>k. k \<notin> set allowed) (map fst kvs) = []" by (auto simp: filter_empty_conv)
  then show ?thesis by (simp add: known_keys_def)
qed

lemma limit_entries_again:
  assumes "limits_in_range limits"
  shows "map_r (limit_entry (JObj (map (\<lambda>(k, n). (k, jint n)) limits))) archive_limits = Inr limits"
proof -
  have keys: "map fst limits = map fst archive_limits" using assms by (simp add: limits_in_range_def)
  then have dist: "distinct (map fst limits)" using limit_tables_agree(2) by simp
  have "limit_entry (JObj (map (\<lambda>(k, n). (k, jint n)) limits)) (archive_limits ! i) = Inr (limits ! i)" if i: "i < length limits" for i
  proof -
    obtain k n where kn: "limits ! i = (k, n)" by force
    then have mem: "(k, n) \<in> set limits" using i by (metis nth_mem)
    have k: "fst (archive_limits ! i) = k" using keys i kn by (metis fst_conv length_map nth_map)
    have "map_of limits k = Some n" using dist mem by simp
    then have "js_get (JObj (map (\<lambda>(k, n). (k, jint n)) limits)) k = jint n" by (simp add: map_of_map)
    moreover have "fst (range_of k) \<le> n \<and> n \<le> snd (range_of k)" using assms mem by (auto simp: limits_in_range_def)
    moreover have "k \<in> fst ` set archive_limits" using keys mem by (metis fst_conv imageI list.set_map)
    ultimately show ?thesis
      using ranges_safe [of k] by (simp add: limit_entry_def bounded_integer_def k kn int_in_jint del: js_get.simps)
  qed
  moreover have "length limits = length archive_limits" using keys by (metis length_map)
  ultimately show ?thesis by (simp add: map_r_Inr_iff list_all2_conv_all_nth)
qed

lemma text_or_field: "v = JUndef \<or> field_in allowed v \<Longrightarrow> d \<in> set allowed \<Longrightarrow> text_or v d \<in> set allowed"
  by (auto simp: text_or_def field_in_def split: js.splits)

lemma resolved_shape:
  assumes "resolve_config config = Inr c"
  shows "limits_in_range (ac_limits c)" "limit_relationships (ac_limits c) (limit_at (ac_limits c) ''verifierTimeoutMs'') = Inr ()"
    "0 \<le> ac_age c \<and> ac_age c \<le> 8760" "ac_capture c \<in> set [''manual'', ''continuous'']" "ac_upload c \<in> set [''ask'', ''granted'']"
proof -
  note parts = assms [unfolded resolve_config_def bind_r_Inr throw_if_Inr]
  show "limits_in_range (ac_limits c)" using parts by (clarsimp simp: resolved_limits_in_range)
  show "limit_relationships (ac_limits c) (limit_at (ac_limits c) ''verifierTimeoutMs'') = Inr ()" using parts by clarsimp
  show "0 \<le> ac_age c \<and> ac_age c \<le> 8760"
    using parts by (clarsimp simp: closed_age_range_def) (drule bounded_integer_Inr, simp_all)
  show "ac_capture c \<in> set [''manual'', ''continuous'']" "ac_upload c \<in> set [''ask'', ''granted'']"
    using parts by (clarsimp simp del: list.set, intro text_or_field, blast, simp)+
qed

lemma resolve_config_twice:
  assumes "resolve_config config = Inr c"
  shows "resolve_config (config_doc c) = Inr c"
proof -
  note shape = resolved_shape [OF assms]
  let ?limits = "JObj (map (\<lambda>(k, n). (k, jint n)) (ac_limits c))"
  let ?t = "JObj [(''capture'', JStr (ac_capture c)), (''archive'', JObj [(''enabled'', JBool (ac_enabled c))]),
       (''consent'', JObj [(''upload'', JStr (ac_upload c))]),
       (''localRetention'', JObj [(''mode'', JStr ''keep_all''), (''minClosedAgeHours'', jint (ac_age c))]), (''limits'', ?limits)]"
  have keys: "known_keys ?limits (map fst archive_limits) l = Inr ?limits" for l
  proof (rule known_keys_of)
    have "map fst (map (\<lambda>(k, n). (k, jint n)) (ac_limits c)) = map fst archive_limits"
      using shape(1) by (simp add: limits_in_range_def case_prod_unfold comp_def)
    then show "set (map fst (map (\<lambda>(k, n). (k, jint n)) (ac_limits c))) \<subseteq> set (map fst archive_limits)" by (metis order_refl)
  qed
  have age: "bounded_integer l (jint (ac_age c)) 24 closed_age_range = Inr (ac_age c)" for l
    using shape(3) by (simp add: bounded_integer_def int_in_jint closed_age_range_def)
  have get: "js_get (config_doc c) ''transcripts'' = ?t" "js_get ?t ''capture'' = JStr (ac_capture c)"
      "js_get ?t ''archive'' = JObj [(''enabled'', JBool (ac_enabled c))]" "js_get ?t ''consent'' = JObj [(''upload'', JStr (ac_upload c))]"
      "js_get ?t ''localRetention'' = JObj [(''mode'', JStr ''keep_all''), (''minClosedAgeHours'', jint (ac_age c))]" "js_get ?t ''limits'' = ?limits"
    by (simp_all add: config_doc_def)
  have known: "known_keys ?t [''capture'', ''archive'', ''consent'', ''localRetention'', ''limits''] l = Inr ?t" for l
    by (rule known_keys_of) simp
  have fields: "field_in [''manual'', ''continuous''] (JStr (ac_capture c))" "field_in [''ask'', ''granted''] (JStr (ac_upload c))"
    using shape(4,5) by (simp_all add: field_in_def)
  show ?thesis
    unfolding resolve_config_def get known
    by (simp add: get known_keys_of keys age limit_entries_again [OF shape(1)] shape(2) fields text_or_def)
qed

section \<open>Timing of a ledger\<close>

lemma int_in_value: "int_in r v \<Longrightarrow> v = jint (js_int v)"
  by (cases v rule: js_int.cases) (auto simp: int_in_def rat_is_int_def)

lemma hook_override_Inr:
  assumes "hook_override (k, v) = Inr ch"
  obtains "v = JUndef" "ch = []" | n where "v = jint n" "ch = [(k, n)]" "fst (range_of k) \<le> n" "n \<le> snd (range_of k)"
proof (cases "v = JUndef")
  case False
  then have int: "int_in (range_of k) v" "ch = [(k, js_int v)]" using assms by (simp_all add: hook_override_def)
  then show thesis using that(2) [of "js_int v"] int_in_value [OF int(1)] by (simp add: int_in_def)
qed (use assms that in \<open>simp add: hook_override_def\<close>)

text \<open>The timings in effect are those of one table that passed the relationships.\<close>

lemma ledger_timing_table:
  assumes made: "ledger_constructor opts = Inr t" and safe: "\<not> (lo_unsafe opts = JBool True \<and> lo_test opts)"
  shows "\<exists>limits. limit_relationships limits (lt_verifier t) = Inr () \<and> lt_lock t = jint (limit_at limits ''lockTimeoutMs'') \<and>
    lt_queue t = jint (limit_at limits ''lockQueueTimeoutMs'') \<and> lt_stale t = jint (limit_at limits ''staleLockMs'')"
proof -
  let ?limits = "lt_limits t"
  have t: "lt_lock t = js_coalesce (lo_lock opts) (jint (limit_at ?limits ''lockTimeoutMs''))"
      "lt_queue t = js_coalesce (lo_queue opts) (jint (limit_at ?limits ''lockQueueTimeoutMs''))"
      "lt_stale t = js_coalesce (lo_stale opts) (jint (limit_at ?limits ''staleLockMs''))"
      and base: "limit_relationships ?limits (lt_verifier t) = Inr ()"
    using made unfolding ledger_constructor_def Let_def throw_if_Inr bind_r_Inr by auto
  show ?thesis
  proof (cases "(\<exists>kv \<in> set (timing_overrides opts). snd kv \<noteq> JUndef) \<or> lo_corrupt opts \<noteq> JUndef")
    case False
    then show ?thesis using t base by (auto simp: timing_overrides_def js_coalesce_def)
  next
    case True
    then obtain changes where changes: "map_r hook_override (timing_overrides opts) = Inr changes"
        and rel: "limit_relationships (put_all ?limits (concat changes)) (lt_verifier t) = Inr ()"
      using made safe unfolding ledger_constructor_def Let_def throw_if_Inr bind_r_Inr by auto
    then obtain a b c where abc: "changes = [a, b, c]" "hook_override (''lockTimeoutMs'', lo_lock opts) = Inr a"
        "hook_override (''lockQueueTimeoutMs'', lo_queue opts) = Inr b" "hook_override (''staleLockMs'', lo_stale opts) = Inr c"
      by (auto simp: timing_overrides_def)
    have "lt_lock t = jint (limit_at (put_all ?limits (concat changes)) ''lockTimeoutMs'') \<and>
        lt_queue t = jint (limit_at (put_all ?limits (concat changes)) ''lockQueueTimeoutMs'') \<and>
        lt_stale t = jint (limit_at (put_all ?limits (concat changes)) ''staleLockMs'')"
      by (rule hook_override_Inr [OF abc(2)]; rule hook_override_Inr [OF abc(3)]; rule hook_override_Inr [OF abc(4)];
          simp add: t abc(1) map_of_put_all js_coalesce_def)
    with rel show ?thesis by blast
  qed
qed

text \<open>C37. Whatever options a ledger is opened with, unless a test environment is declared, the timings of its lock
  are whole numbers that are consistent with its verifier: a lock is not taken for stale before two
  verifications could have ended, waiting for it lasts as long, and a stale lock can be reclaimed before
  the waiting ends.\<close>

theorem ledger_timing_is_sound:
  assumes "ledger_constructor opts = Inr t" and "\<not> (lo_unsafe opts = JBool True \<and> lo_test opts)"
  shows "\<exists>stale lock queue. lt_stale t = jint stale \<and> lt_lock t = jint lock \<and> lt_queue t = jint queue \<and>
    10 \<le> lt_verifier t \<and> 2 * lt_verifier t + 1000 \<le> stale \<and> stale < lock \<and> 2 * lt_verifier t + 1000 \<le> queue"
proof -
  have "10 \<le> lt_verifier t"
  proof -
    have "range_of ''verifierTimeoutMs'' = (10, 300000)" by code_simp
    then show ?thesis
      using assms(1) unfolding ledger_constructor_def Let_def throw_if_Inr bind_r_Inr by (auto simp: int_in_def)
  qed
  then show ?thesis using ledger_timing_table [OF assms] by (auto simp: relationships_Inr)
qed

theorem ledger_timing_is_sound_witness:
  "\<exists>t. ledger_constructor \<lparr>lo_verifier = JUndef, lo_limits = [(''verifierTimeoutMs'', jint 20000), (''staleLockMs'', jint 60000)],
      lo_lock = jint 600000, lo_queue = JUndef, lo_stale = JUndef, lo_corrupt = JUndef, lo_unsafe = JUndef, lo_test = False\<rparr> = Inr t \<and>
    lt_verifier t = 20000 \<and> (\<exists>stale. lt_stale t = jint stale \<and> 41000 \<le> stale)"
proof -
  let ?o = "\<lparr>lo_verifier = JUndef, lo_limits = [(''verifierTimeoutMs'', jint 20000), (''staleLockMs'', jint 60000)],
      lo_lock = jint 600000, lo_queue = JUndef, lo_stale = JUndef, lo_corrupt = JUndef, lo_unsafe = JUndef, lo_test = False\<rparr>"
  have "is_ok (ledger_constructor ?o)" by code_simp
  then obtain t where t: "ledger_constructor ?o = Inr t" by (cases "ledger_constructor ?o") auto
  have "map_option lt_verifier (case ledger_constructor ?o of Inr t \<Rightarrow> Some t | Inl _ \<Rightarrow> None) = Some 20000" by code_simp
  with t have v: "lt_verifier t = 20000" by simp
  from ledger_timing_is_sound [OF t] v have "\<exists>stale. lt_stale t = jint stale \<and> 41000 \<le> stale" by auto
  with t v show ?thesis by blast
qed

end
