(* ===== verification/StableSnapshot.thy ===== *)
theory StableSnapshot
  imports ArchiveConfig PosixPath
begin

text \<open>
  Stable snapshots of transcripts that are being written, \<^verbatim>\<open>lib/transcript-archive/snapshot.js\<close>.  The
  disk is a function of time and every system call reads it at a moment of its own, so that anything
  may happen between two calls.  What the code relies on is stated of such a history: while the
  fingerprint of a file stays the same so does its content, and device and inode tell files apart.
\<close>

section \<open>A disk that changes\<close>

record fingerprint =
  fp_device :: string
  fp_inode :: string
  fp_size :: nat
  fp_mtime :: string
  fp_ctime :: string

datatype kind = Regular | Link | Directory | OtherKind

text \<open>What a path is, what its real path is and to which file it leads; the files, with their kind,
  fingerprint and content; and how many bytes the next read returns at most.\<close>

record disk =
  dk_kind :: "string \<Rightarrow> kind option"
  dk_real :: "string \<Rightarrow> string option"
  dk_leads :: "string \<Rightarrow> nat option"
  dk_file_kind :: "nat \<Rightarrow> kind"
  dk_stat :: "nat \<Rightarrow> fingerprint"
  dk_content :: "nat \<Rightarrow> string"
  dk_chunk :: nat

datatype snap_error =
  SysFailed | NoFollowMissing | BadMaxAttempts | BadMaxBytes | RootIsLink | NotAChild | LinkComponent | ParentEscaped
| ContainmentChanged | NotRegularFile | SnapshotTooLarge | SnapshotUnstable | SnapshotChanged | PartRootMissing | BadPartRange
| PartBeyondSize | PartEndedEarly

type_synonym world = "nat \<Rightarrow> disk"
type_synonym 'a io = "world \<Rightarrow> nat \<Rightarrow> snap_error + 'a \<times> nat"

definition ret :: "'a \<Rightarrow> 'a io" where
  "ret a w t = Inr (a, t)"

definition fail :: "snap_error \<Rightarrow> 'a io" where
  "fail e w t = Inl e"

definition bind_io :: "'a io \<Rightarrow> ('a \<Rightarrow> 'b io) \<Rightarrow> 'b io" where
  "bind_io m f w t = (case m w t of Inl e \<Rightarrow> Inl e | Inr (a, t') \<Rightarrow> f a w t')"

definition fail_if :: "bool \<Rightarrow> snap_error \<Rightarrow> 'a io \<Rightarrow> 'a io" where
  "fail_if c e k = (if c then fail e else k)"

text \<open>A system call: it sees the disk of its moment, and the next one sees a later disk.\<close>

definition sys :: "(disk \<Rightarrow> 'a option) \<Rightarrow> 'a io" where
  "sys f w t = (case f (w t) of None \<Rightarrow> Inl SysFailed | Some a \<Rightarrow> Inr (a, Suc t))"

section \<open>Containment\<close>

definition path_names :: "string \<Rightarrow> string list" where
  "path_names p = filter (\<lambda>s. s \<noteq> []) (split_on (CHR ''/'') p)"

fun drop_common :: "string list \<Rightarrow> string list \<Rightarrow> string list \<times> string list" where
  "drop_common (a # as) (b # bs) = (if a = b then drop_common as bs else (a # as, b # bs))"
| "drop_common as bs = (as, bs)"

text \<open>\<^verbatim>\<open>path.relative\<close> on absolute paths in normal form.\<close>

definition path_relative :: "string \<Rightarrow> string \<Rightarrow> string" where
  "path_relative base p =
     (let (up, down) = drop_common (path_names base) (path_names p) in join_with ''/'' (map (\<lambda>_. ''..'') up @ down))"

definition outside :: "string \<Rightarrow> bool" where
  "outside relative \<longleftrightarrow> starts_with relative ''..'' \<or> path_is_absolute relative"

fun check_components :: "string \<Rightarrow> string list \<Rightarrow> unit io" where
  "check_components current [] = ret ()"
| "check_components current (c # cs) =
     (let next_path = posix_normalize (current @ ''/'' @ c) in
      bind_io (sys (\<lambda>d. dk_kind d next_path)) (\<lambda>k.
      fail_if (k = Link) LinkComponent (check_components next_path cs)))"

definition no_symlink_components :: "string \<Rightarrow> string \<Rightarrow> string \<Rightarrow> unit io" where
  "no_symlink_components cwd file trusted =
     (let root = path_resolve cwd trusted; relative = path_relative root (path_resolve cwd file) in
      bind_io (sys (\<lambda>d. dk_kind d root)) (\<lambda>k.
      fail_if (k = Link) RootIsLink (
      fail_if (relative = [] \<or> outside relative) NotAChild (
      bind_io (sys (\<lambda>d. dk_real d root)) (\<lambda>current.
      check_components current (path_names relative))))))"

record guard =
  gd_root :: string
  gd_parent :: string
  gd_root_device :: string
  gd_root_inode :: string
  gd_parent_device :: string
  gd_parent_inode :: string

definition stat_path :: "string \<Rightarrow> fingerprint io" where
  "stat_path p = sys (\<lambda>d. map_option (dk_stat d) (dk_leads d p))"

definition containment_guard :: "bool \<Rightarrow> string \<Rightarrow> string \<Rightarrow> string \<Rightarrow> guard io" where
  "containment_guard no_follow cwd file trusted =
     (let target = path_resolve cwd file; root = path_resolve cwd trusted; relative = path_relative root target in
      fail_if (\<not> no_follow) NoFollowMissing (
      fail_if (relative = [] \<or> outside relative) NotAChild (
      bind_io (no_symlink_components cwd file root) (\<lambda>_.
      bind_io (sys (\<lambda>d. dk_real d root)) (\<lambda>real_root.
      bind_io (sys (\<lambda>d. dk_real d (resolved_dirname target))) (\<lambda>real_parent.
      fail_if (outside (path_relative real_root real_parent)) ParentEscaped (
      bind_io (stat_path real_root) (\<lambda>r.
      bind_io (stat_path real_parent) (\<lambda>p.
      ret \<lparr>gd_root = real_root, gd_parent = real_parent, gd_root_device = fp_device r, gd_root_inode = fp_inode r,
        gd_parent_device = fp_device p, gd_parent_inode = fp_inode p\<rparr>)))))))))"

definition revalidate :: "bool \<Rightarrow> string \<Rightarrow> string \<Rightarrow> string \<Rightarrow> guard \<Rightarrow> unit io" where
  "revalidate no_follow cwd file trusted g =
     bind_io (containment_guard no_follow cwd file trusted) (\<lambda>current. fail_if (current \<noteq> g) ContainmentChanged (ret ()))"

section \<open>Snapshots\<close>

record snapshot =
  sn_bytes :: string
  sn_hash :: string
  sn_before :: fingerprint
  sn_after :: fingerprint
  sn_attempts :: nat

text \<open>\<^verbatim>\<open>open\<close> with \<^verbatim>\<open>O_NOFOLLOW\<close>: the last component may not be a link.\<close>

definition open_no_follow :: "string \<Rightarrow> nat io" where
  "open_no_follow p = sys (\<lambda>d. if dk_kind d p = Some Link then None else dk_leads d p)"

definition stat_open :: "nat \<Rightarrow> fingerprint io" where
  "stat_open i = sys (\<lambda>d. Some (dk_stat d i))"

text \<open>The stream of an open file: chunks from where it stands, up to an empty one.\<close>

definition chunk_at :: "disk \<Rightarrow> nat \<Rightarrow> nat \<Rightarrow> string" where
  "chunk_at d i pos = take (Suc (dk_chunk d)) (drop pos (dk_content d i))"

function read_stream :: "nat \<Rightarrow> nat \<Rightarrow> string \<Rightarrow> string io" where
  "read_stream i limit acc w t =
     (let c = chunk_at (w t) i (length acc) in
      if c = [] then Inr (acc, Suc t)
      else if length acc + length c > limit then Inl SnapshotTooLarge
      else read_stream i limit (acc @ c) w (Suc t))"
  by pat_completeness auto

termination
proof (relation "measure (\<lambda>(i, limit, acc, w, t). Suc limit - length acc)")
  fix i limit t :: nat and acc c :: string and w :: world
  assume "c = chunk_at (w t) i (length acc)" "c \<noteq> []" "\<not> length acc + length c > limit"
  then have "\<not> length acc + length c > limit" "c \<noteq> []" by simp_all
  then show "((i, limit, acc @ c, w, Suc t), i, limit, acc, w, t) \<in> measure (\<lambda>(i, limit, acc, w, t). Suc limit - length acc)"
    by (cases c) auto
qed simp

declare read_stream.simps [simp del]

definition read_attempt :: "bool \<Rightarrow> string \<Rightarrow> (string \<Rightarrow> string) \<Rightarrow> string \<Rightarrow> string \<Rightarrow> guard \<Rightarrow> nat \<Rightarrow> nat \<Rightarrow> snapshot option io" where
  "read_attempt no_follow cwd digest file trusted operation limit attempt =
     bind_io (containment_guard no_follow cwd file trusted) (\<lambda>g.
     fail_if (g \<noteq> operation) ContainmentChanged (
     bind_io (revalidate no_follow cwd file trusted g) (\<lambda>_.
     bind_io (sys (\<lambda>d. dk_kind d file)) (\<lambda>k.
     fail_if (k \<noteq> Regular) NotRegularFile (
     bind_io (open_no_follow file) (\<lambda>i.
     bind_io (sys (\<lambda>d. Some (dk_file_kind d i))) (\<lambda>opened.
     fail_if (opened \<noteq> Regular) NotRegularFile (
     bind_io (stat_open i) (\<lambda>before.
     fail_if (fp_size before > limit) SnapshotTooLarge (
     bind_io (read_stream i limit []) (\<lambda>bytes.
     bind_io (stat_open i) (\<lambda>after.
     bind_io (stat_path file) (\<lambda>current.
     bind_io (revalidate no_follow cwd file trusted g) (\<lambda>_.
     ret (if length bytes = fp_size before \<and> before = after \<and> after = current
          then Some \<lparr>sn_bytes = bytes, sn_hash = digest bytes, sn_before = before, sn_after = after, sn_attempts = attempt\<rparr>
          else None)))))))))))))))"

text \<open>The attempts that are left, and the number of the next.\<close>

fun read_attempts :: "bool \<Rightarrow> string \<Rightarrow> (string \<Rightarrow> string) \<Rightarrow> string \<Rightarrow> string \<Rightarrow> guard \<Rightarrow> nat \<Rightarrow> nat \<Rightarrow> nat \<Rightarrow> snapshot io" where
  "read_attempts no_follow cwd digest file trusted operation limit 0 attempt = fail SnapshotUnstable"
| "read_attempts no_follow cwd digest file trusted operation limit (Suc left) attempt =
     bind_io (read_attempt no_follow cwd digest file trusted operation limit attempt) (\<lambda>r.
     case r of Some s \<Rightarrow> ret s
     | None \<Rightarrow> read_attempts no_follow cwd digest file trusted operation limit left (Suc attempt))"

record snapshot_options =
  so_no_follow :: bool
  so_limits :: "(string \<times> int) list"
  so_attempts :: js
  so_bytes :: js
  so_retain :: bool
  so_root :: "string option"

definition read_stable_snapshot :: "string \<Rightarrow> (string \<Rightarrow> string) \<Rightarrow> string \<Rightarrow> snapshot_options \<Rightarrow> snapshot io" where
  "read_stable_snapshot cwd digest file opts =
     (let attempts = js_coalesce (so_attempts opts) (jint (limit_at (so_limits opts) ''snapshotMaxAttempts''));
          bytes = js_coalesce (so_bytes opts)
            (jint (limit_at (so_limits opts) (if so_retain opts then ''requestByteLimit'' else ''streamingFileByteLimit'')));
          trusted = (case so_root opts of Some r \<Rightarrow> r | None \<Rightarrow> resolved_dirname (resolved_dirname (path_resolve cwd file))) in
      fail_if (\<not> so_no_follow opts) NoFollowMissing (
      fail_if (\<not> (js_is_integer attempts \<and> 1 \<le> js_int attempts)) BadMaxAttempts (
      fail_if (\<not> (js_is_safe_integer bytes \<and> 0 \<le> js_int bytes)) BadMaxBytes (
      bind_io (containment_guard True cwd file trusted) (\<lambda>operation.
      read_attempts True cwd digest file trusted operation (nat (js_int bytes)) (nat (js_int attempts)) 1)))))"

section \<open>Parts\<close>

text \<open>The bytes of a range: reads until it is full, and an empty one is an error.\<close>

function read_range :: "nat \<Rightarrow> nat \<Rightarrow> nat \<Rightarrow> string \<Rightarrow> string io" where
  "read_range i offset len acc w t =
     (if len \<le> length acc then Inr (acc, t)
      else let c = take (len - length acc) (chunk_at (w t) i (offset + length acc)) in
        if c = [] then Inl PartEndedEarly else read_range i offset len (acc @ c) w (Suc t))"
  by pat_completeness auto

termination
proof (relation "measure (\<lambda>(i, offset, len, acc, w, t). len - length acc)")
  fix i offset len t :: nat and acc c :: string and w :: world
  assume "\<not> len \<le> length acc" "c = take (len - length acc) (chunk_at (w t) i (offset + length acc))" "c \<noteq> []"
  then have "length acc < len" "c \<noteq> []" by simp_all
  then show "((i, offset, len, acc @ c, w, Suc t), i, offset, len, acc, w, t) \<in>
      measure (\<lambda>(i, offset, len, acc, w, t). len - length acc)"
    by (cases c) auto
qed simp

declare read_range.simps [simp del]

definition read_part :: "bool \<Rightarrow> string \<Rightarrow> string \<Rightarrow> string \<Rightarrow> fingerprint option \<Rightarrow> js \<Rightarrow> js \<Rightarrow> string io" where
  "read_part no_follow cwd file trusted expected offset len =
     fail_if (trusted = []) PartRootMissing (
     fail_if (expected = None \<or> \<not> js_is_safe_integer offset \<or> js_int offset < 0 \<or> \<not> js_is_safe_integer len \<or> js_int len < 1)
       BadPartRange (
     bind_io (containment_guard no_follow cwd file trusted) (\<lambda>g.
     bind_io (open_no_follow file) (\<lambda>i.
     bind_io (stat_open i) (\<lambda>before.
     fail_if (Some before \<noteq> expected) SnapshotChanged (
     fail_if (js_int offset + js_int len > int (fp_size before)) PartBeyondSize (
     bind_io (read_range i (nat (js_int offset)) (nat (js_int len)) []) (\<lambda>bytes.
     bind_io (stat_open i) (\<lambda>after.
     bind_io (stat_path file) (\<lambda>current.
     bind_io (revalidate no_follow cwd file trusted g) (\<lambda>_.
     fail_if (Some after \<noteq> expected \<or> Some current \<noteq> expected) SnapshotChanged (ret bytes))))))))))))"

section \<open>What a history keeps\<close>

definition honest :: "world \<Rightarrow> bool" where
  "honest w \<longleftrightarrow>
     (\<forall>i t t'. t \<le> t' \<and> dk_stat (w t) i = dk_stat (w t') i \<longrightarrow> (\<forall>u. t \<le> u \<and> u \<le> t' \<longrightarrow> dk_content (w u) i = dk_content (w t) i))"

definition told_apart :: "world \<Rightarrow> bool" where
  "told_apart w \<longleftrightarrow>
     (\<forall>i j t t'. fp_device (dk_stat (w t) i) = fp_device (dk_stat (w t') j) \<and> fp_inode (dk_stat (w t) i) = fp_inode (dk_stat (w t') j)
       \<longrightarrow> i = j)"

lemma honest_between:
  "honest w \<Longrightarrow> dk_stat (w t) i = dk_stat (w t') i \<Longrightarrow> t \<le> v \<Longrightarrow> v \<le> t' \<Longrightarrow> dk_content (w v) i = dk_content (w t) i"
  unfolding honest_def using order_trans by blast

named_theorems io_simps

lemma ret_Inr [io_simps]: "ret a w t = Inr (b, t') \<longleftrightarrow> a = b \<and> t = t'"
  by (simp add: ret_def)

lemma fail_Inr [io_simps]: "fail e w t = Inr r \<longleftrightarrow> False"
  by (simp add: fail_def)

lemma fail_if_Inr [io_simps]: "fail_if c e k w t = Inr r \<longleftrightarrow> \<not> c \<and> k w t = Inr r"
  by (simp add: fail_if_def fail_def)

lemma bind_io_Inr [io_simps]: "bind_io m f w t = Inr r \<longleftrightarrow> (\<exists>a t'. m w t = Inr (a, t') \<and> f a w t' = Inr r)"
  by (auto simp: bind_io_def split: sum.splits)

lemma sys_Inr [io_simps]: "sys f w t = Inr (a, t') \<longleftrightarrow> f (w t) = Some a \<and> t' = Suc t"
  by (auto simp: sys_def split: option.splits)

lemma check_components_time: "check_components p cs w t = Inr (u, t') \<Longrightarrow> t \<le> t'"
  by (induction cs arbitrary: p t) (fastforce simp: io_simps Let_def)+

lemma containment_guard_time: "containment_guard nf cwd file trusted w t = Inr (g, t') \<Longrightarrow> t \<le> t'"
  by (auto simp: containment_guard_def no_symlink_components_def stat_path_def Let_def io_simps dest!: check_components_time)

lemma revalidate_time: "revalidate nf cwd file trusted g w t = Inr (u, t') \<Longrightarrow> t \<le> t'"
  by (auto simp: revalidate_def io_simps dest!: containment_guard_time)

text \<open>While the content stays the same, the stream is the content.\<close>

lemma read_stream_time: "read_stream i limit acc w t = Inr (bytes, t') \<Longrightarrow> t \<le> t' \<and> length bytes \<le> max limit (length acc)"
proof (induction i limit acc w t rule: read_stream.induct)
  case (1 i limit acc w t)
  from "1.prems" show ?case using "1.IH" by (subst (asm) read_stream.simps) (fastforce simp: Let_def split: if_splits)
qed

lemma take_next: "acc = take (length acc) xs \<Longrightarrow> acc @ take n (drop (length acc) xs) = take (length (acc @ take n (drop (length acc) xs))) xs"
proof -
  assume "acc = take (length acc) xs"
  then obtain d where "xs = acc @ d" by (metis append_take_drop_id)
  then show ?thesis by (simp add: min_def)
qed

lemma read_stream_content:
  assumes "read_stream i limit acc w t = Inr (bytes, t')" and "\<And>u. t \<le> u \<Longrightarrow> u \<le> t' \<Longrightarrow> dk_content (w u) i = content"
    and "acc = take (length acc) content"
  shows "bytes = content"
  using assms
proof (induction i limit acc w t rule: read_stream.induct)
  case (1 i limit acc w t)
  let ?c = "chunk_at (w t) i (length acc)"
  have t: "t \<le> t'" using read_stream_time [OF "1.prems"(1)] by simp
  then have c: "?c = take (Suc (dk_chunk (w t))) (drop (length acc) content)" using "1.prems"(2) by (simp add: chunk_at_def)
  show ?case
  proof (cases "?c = []")
    case True
    then have "length content \<le> length acc" using c by simp
    then show ?thesis using "1.prems"(1,3) True by (subst (asm) read_stream.simps) simp
  next
    case False
    then have step: "read_stream i limit (acc @ ?c) w (Suc t) = Inr (bytes, t')" "\<not> length acc + length ?c > limit"
      using "1.prems"(1) by (subst (asm) read_stream.simps, simp add: Let_def split: if_splits)+
    have "acc @ ?c = take (length (acc @ ?c)) content"
      unfolding c by (rule take_next) (rule "1.prems"(3))
    then show ?thesis by (rule "1.IH" [OF refl False step(2) step(1), rotated]) (use "1.prems"(2) in auto)
  qed
qed

lemma read_range_time: "read_range i offset len acc w t = Inr (bytes, t') \<Longrightarrow> t \<le> t'"
proof (induction i offset len acc w t rule: read_range.induct)
  case (1 i offset len acc w t)
  from "1.prems" show ?case using "1.IH" by (subst (asm) read_range.simps) (fastforce simp: Let_def split: if_splits)
qed

lemma read_range_content:
  assumes "read_range i offset len acc w t = Inr (bytes, t')" and "\<And>u. t \<le> u \<Longrightarrow> u \<le> t' \<Longrightarrow> dk_content (w u) i = content"
    and "acc = take (length acc) (drop offset content)" and "length acc \<le> len"
  shows "bytes = take len (drop offset content) \<and> length bytes = len"
  using assms
proof (induction i offset len acc w t rule: read_range.induct)
  case (1 i offset len acc w t)
  let ?c = "take (len - length acc) (chunk_at (w t) i (offset + length acc))"
  have t: "t \<le> t'" using read_range_time [OF "1.prems"(1)] .
  then have c: "?c = take (min (len - length acc) (Suc (dk_chunk (w t)))) (drop (length acc) (drop offset content))"
    using "1.prems"(2) by (simp add: chunk_at_def add.commute)
  show ?case
  proof (cases "len \<le> length acc")
    case True
    then show ?thesis using "1.prems"(1,3,4) by (subst (asm) read_range.simps) auto
  next
    case False
    then have step: "?c \<noteq> []" "read_range i offset len (acc @ ?c) w (Suc t) = Inr (bytes, t')"
      using "1.prems"(1) by (subst (asm) read_range.simps, simp add: Let_def split: if_splits)+
    have "acc @ ?c = take (length (acc @ ?c)) (drop offset content)"
      unfolding c by (rule take_next) (rule "1.prems"(3))
    then show ?thesis
      by (rule "1.IH" [OF False refl step, rotated]) (use "1.prems"(2,4) in auto)
  qed
qed

lemma read_attempt_parts:
  assumes "read_attempt nf cwd digest file trusted g limit k w t0 = Inr (Some s, t1)"
  shows "\<exists>i a b bytes c. read_stream i limit [] w (Suc a) = Inr (bytes, b) \<and> dk_leads (w (Suc b)) file = Some c \<and> t0 \<le> a \<and>
    Suc (Suc b) \<le> t1 \<and> length bytes = fp_size (dk_stat (w a) i) \<and> dk_stat (w a) i = dk_stat (w b) i \<and>
    dk_stat (w b) i = dk_stat (w (Suc b)) c \<and>
    s = \<lparr>sn_bytes = bytes, sn_hash = digest bytes, sn_before = dk_stat (w a) i, sn_after = dk_stat (w b) i, sn_attempts = k\<rparr>"
  using assms unfolding read_attempt_def open_no_follow_def stat_open_def stat_path_def io_simps
  by (clarsimp simp: io_simps split: if_splits dest!: containment_guard_time revalidate_time)
    (intro exI conjI, assumption, assumption, simp_all)

lemma read_attempt_generation:
  assumes "honest w" "told_apart w" and read: "read_attempt nf cwd digest file trusted g limit k w t0 = Inr (Some s, t1)"
  shows "\<exists>i t t' u. t0 \<le> t \<and> t < t' \<and> t' < u \<and> u \<le> t1 \<and> (\<forall>v. t \<le> v \<and> v \<le> t' \<longrightarrow> dk_content (w v) i = sn_bytes s) \<and>
    dk_stat (w t') i = sn_after s \<and> dk_leads (w u) file = Some i \<and> dk_stat (w u) i = sn_after s \<and>
    sn_hash s = digest (sn_bytes s) \<and> length (sn_bytes s) = fp_size (sn_after s) \<and> length (sn_bytes s) \<le> limit \<and> sn_attempts s = k"
proof -
  obtain i a b bytes c where parts: "read_stream i limit [] w (Suc a) = Inr (bytes, b)" "t0 \<le> a" "dk_leads (w (Suc b)) file = Some c"
      "Suc (Suc b) \<le> t1" "length bytes = fp_size (dk_stat (w a) i)" "dk_stat (w a) i = dk_stat (w b) i"
      "dk_stat (w b) i = dk_stat (w (Suc b)) c"
      "s = \<lparr>sn_bytes = bytes, sn_hash = digest bytes, sn_before = dk_stat (w a) i, sn_after = dk_stat (w b) i, sn_attempts = k\<rparr>"
    using read_attempt_parts [OF read] by blast
  have time: "Suc a \<le> b" "length bytes \<le> limit" using read_stream_time [OF parts(1)] by auto
  have same: "dk_content (w v) i = dk_content (w a) i" if "a \<le> v" "v \<le> b" for v
    by (rule honest_between [OF assms(1) parts(6) that])
  have bytes: "bytes = dk_content (w a) i"
    by (rule read_stream_content [OF parts(1)]) (rule same, simp_all)
  have c: "c = i" using assms(2) parts(7) unfolding told_apart_def by metis
  have sn: "sn_after s = dk_stat (w b) i" "sn_bytes s = bytes" "sn_hash s = digest bytes" "sn_attempts s = k" using parts(8) by simp_all
  have content: "\<forall>v. a \<le> v \<and> v \<le> b \<longrightarrow> dk_content (w v) i = sn_bytes s"
    unfolding sn(2) bytes using same by blast
  have "a < b" "b < Suc b" "Suc b \<le> t1" "dk_leads (w (Suc b)) file = Some i" "dk_stat (w (Suc b)) i = sn_after s"
      "length (sn_bytes s) = fp_size (sn_after s)"
    using time(1) parts(3-7) c sn by (simp, simp, simp, simp, metis, metis)
  with parts(2) content time(2) sn show ?thesis by metis
qed

lemma read_attempt_time: "read_attempt nf cwd digest file trusted g limit k w t0 = Inr (r, t1) \<Longrightarrow> t0 \<le> t1"
  by (clarsimp simp: read_attempt_def open_no_follow_def stat_open_def stat_path_def io_simps
      dest!: containment_guard_time revalidate_time read_stream_time)

lemma read_attempts_some:
  "read_attempts nf cwd digest file trusted g limit left k w t0 = Inr (s, t1) \<Longrightarrow>
     \<exists>k' t. t0 \<le> t \<and> k \<le> k' \<and> k' < k + left \<and> read_attempt nf cwd digest file trusted g limit k' w t = Inr (Some s, t1)"
proof (induction left arbitrary: k t0)
  case (Suc left)
  then obtain r t where r: "read_attempt nf cwd digest file trusted g limit k w t0 = Inr (r, t)"
      and rest: "(case r of Some s \<Rightarrow> ret s | None \<Rightarrow> read_attempts nf cwd digest file trusted g limit left (Suc k)) w t = Inr (s, t1)"
    by (auto simp: io_simps)
  show ?case
  proof (cases r)
    case None
    then obtain k' t'' where "t \<le> t''" "Suc k \<le> k'" "k' < Suc k + left"
        "read_attempt nf cwd digest file trusted g limit k' w t'' = Inr (Some s, t1)"
      using Suc.IH rest by fastforce
    moreover have "t0 \<le> t" using r read_attempt_time by blast
    ultimately show ?thesis by (intro exI [of _ k'] exI [of _ t'']) simp
  next
    case (Some s')
    then show ?thesis using r rest by (intro exI [of _ k] exI [of _ t0]) (simp add: io_simps)
  qed
qed (simp add: io_simps)

lemma stable_snapshot_attempt:
  assumes "read_stable_snapshot cwd digest file opts w t0 = Inr (s, t1)"
  shows "\<exists>trusted g limit tries k t. read_attempt True cwd digest file trusted g limit k w t = Inr (Some s, t1) \<and> t0 \<le> t \<and> 1 \<le> k \<and>
    k \<le> tries \<and> (\<forall>b. so_bytes opts = jint b \<longrightarrow> int limit = b) \<and> (\<forall>n. so_attempts opts = jint n \<longrightarrow> int tries = n)"
proof -
  let ?attempts = "js_coalesce (so_attempts opts) (jint (limit_at (so_limits opts) ''snapshotMaxAttempts''))"
  let ?bytes = "js_coalesce (so_bytes opts)
    (jint (limit_at (so_limits opts) (if so_retain opts then ''requestByteLimit'' else ''streamingFileByteLimit'')))"
  obtain trusted g t where guard: "containment_guard True cwd file trusted w t0 = Inr (g, t)"
      and run: "read_attempts True cwd digest file trusted g (nat (js_int ?bytes)) (nat (js_int ?attempts)) 1 w t = Inr (s, t1)"
      and ok: "1 \<le> js_int ?attempts" "0 \<le> js_int ?bytes"
    using assms unfolding read_stable_snapshot_def Let_def io_simps by blast
  obtain k t' where "t \<le> t'" "1 \<le> k" "k < 1 + nat (js_int ?attempts)"
      "read_attempt True cwd digest file trusted g (nat (js_int ?bytes)) k w t' = Inr (Some s, t1)"
    using read_attempts_some [OF run] by blast
  with containment_guard_time [OF guard] ok show ?thesis
    by - (rule exI [of _ trusted], rule exI [of _ g], rule exI [of _ "nat (js_int ?bytes)"], rule exI [of _ "nat (js_int ?attempts)"],
      rule exI [of _ k], rule exI [of _ t'], auto simp: js_coalesce_def)
qed

text \<open>A file that grows while it is read for the first time.\<close>

definition growing :: world where
  "growing t =
     \<lparr>dk_kind = (\<lambda>p. if p = ''/r/f'' then Some Regular else Some Directory), dk_real = Some,
      dk_leads = (\<lambda>p. if p = ''/r/f'' then Some 7 else Some 1), dk_file_kind = (\<lambda>_. Regular),
      dk_stat = (\<lambda>i. \<lparr>fp_device = ''d'', fp_inode = replicate i (CHR ''i''), fp_size = (if 26 \<le> t then 3 else 2),
        fp_mtime = ''m'', fp_ctime = (if 26 \<le> t then ''c2'' else ''c1'')\<rparr>),
      dk_content = (\<lambda>i. if 26 \<le> t then ''abc'' else ''ab''), dk_chunk = 1\<rparr>"

lemma growing_history: "honest growing" "told_apart growing"
proof -
  show "honest growing" by (auto simp: honest_def growing_def split: if_splits)
  show "told_apart growing" by (auto simp: told_apart_def growing_def dest: arg_cong [where f = length])
qed

definition growing_options :: snapshot_options where
  "growing_options =
     \<lparr>so_no_follow = True, so_limits = archive_limits, so_attempts = jint 3, so_bytes = jint 16, so_retain = True, so_root = Some ''/r''\<rparr>"

definition grown :: snapshot where
  "grown = \<lparr>sn_bytes = ''abc'', sn_hash = ''cba'', sn_before = dk_stat (growing 26) 7, sn_after = dk_stat (growing 26) 7, sn_attempts = 2\<rparr>"

lemma growing_run: "read_stable_snapshot ''/'' rev ''/r/f'' growing_options growing 0 = Inr (grown, 67)"
  by code_simp

text \<open>C10. A stable snapshot is of one generation.  Whatever happens to the disk while it is taken, as long as a
  fingerprint does not outlive a change of content and tells files apart: the bytes returned are the
  whole content of one file during an interval in which it did not change, the path still led to that file
  afterwards, the digest and the size are those of the bytes, and the limits on bytes and attempts hold.\<close>

theorem stable_snapshot_is_one_generation:
  assumes "honest w" and "told_apart w" and "read_stable_snapshot cwd digest file opts w t0 = Inr (s, t1)"
    and "so_bytes opts = jint max_bytes" and "so_attempts opts = jint max_attempts"
  shows "\<exists>i t t' u. t0 \<le> t \<and> t < t' \<and> t' < u \<and> u \<le> t1 \<and> (\<forall>v. t \<le> v \<and> v \<le> t' \<longrightarrow> dk_content (w v) i = sn_bytes s) \<and>
    dk_stat (w t') i = sn_after s \<and> dk_leads (w u) file = Some i \<and> dk_stat (w u) i = sn_after s \<and>
    sn_hash s = digest (sn_bytes s) \<and> length (sn_bytes s) = fp_size (sn_after s) \<and>
    int (length (sn_bytes s)) \<le> max_bytes \<and> 1 \<le> sn_attempts s \<and> int (sn_attempts s) \<le> max_attempts"
proof -
  obtain trusted g limit tries k t where tries: "read_attempt True cwd digest file trusted g limit k w t = Inr (Some s, t1)" "t0 \<le> t"
      "1 \<le> k" "k \<le> tries" "int limit = max_bytes" "int tries = max_attempts"
    using stable_snapshot_attempt [OF assms(3)] assms(4,5) by blast
  from read_attempt_generation [OF assms(1,2) tries(1)]
  obtain i t' t'' u where "t \<le> t'" "t' < t''" "t'' < u" "u \<le> t1" "\<forall>v. t' \<le> v \<and> v \<le> t'' \<longrightarrow> dk_content (w v) i = sn_bytes s"
      "dk_stat (w t'') i = sn_after s" "dk_leads (w u) file = Some i" "dk_stat (w u) i = sn_after s" "sn_hash s = digest (sn_bytes s)"
      "length (sn_bytes s) = fp_size (sn_after s)" "length (sn_bytes s) \<le> limit" "sn_attempts s = k" by blast
  with tries(2-) show ?thesis
    by - (rule exI [of _ i], rule exI [of _ t'], rule exI [of _ t''], rule exI [of _ u], simp)
qed

theorem stable_snapshot_is_one_generation_witness:
  "\<exists>i t t'. t < t' \<and> (\<forall>v. t \<le> v \<and> v \<le> t' \<longrightarrow> dk_content (growing v) i = ''abc'') \<and> int (sn_attempts grown) \<le> 3"
proof -
  have opts: "so_bytes growing_options = jint 16" "so_attempts growing_options = jint 3" by (simp_all add: growing_options_def)
  have "sn_bytes grown = ''abc''" by (simp add: grown_def)
  with stable_snapshot_is_one_generation [OF growing_history growing_run opts] show ?thesis by auto
qed

lemma read_part_calls:
  assumes "read_part no_follow cwd file trusted (Some f) (jint offset) (jint len) w t = Inr (bytes, t')"
  shows "\<exists>j a b. read_range j (nat offset) (nat len) [] w (Suc a) = Inr (bytes, b) \<and> t \<le> a \<and> 1 \<le> len \<and>
    dk_stat (w a) j = f \<and> dk_stat (w b) j = f"
  using assms unfolding read_part_def open_no_follow_def stat_open_def stat_path_def io_simps
  by (clarsimp simp: io_simps dest!: containment_guard_time revalidate_time) (intro exI conjI, assumption, simp_all)

text \<open>C19. A part read later is a part of what was hashed.  If a snapshot was taken and a part is read afterwards for the
  fingerprint of that snapshot, in whatever way the file and the path were changed in between and are
  changed meanwhile, the part is the range asked for of the bytes that were hashed.\<close>

theorem part_is_of_the_snapshot:
  assumes "honest w" and "told_apart w" and "read_stable_snapshot cwd digest file opts w t0 = Inr (s, t1)" and "t1 \<le> t2"
    and "read_part no_follow cwd file trusted (Some (sn_after s)) (jint offset) (jint len) w t2 = Inr (bytes, t3)"
  shows "bytes = take (nat len) (drop (nat offset) (sn_bytes s)) \<and> int (length bytes) = len"
proof -
  obtain i t where snap: "t \<le> t1" "dk_content (w t) i = sn_bytes s" "dk_stat (w t) i = sn_after s"
    using stable_snapshot_attempt [OF assms(3)] read_attempt_generation [OF assms(1,2)] by (meson less_imp_le le_trans order_refl)
  obtain j a b where part: "read_range j (nat offset) (nat len) [] w (Suc a) = Inr (bytes, b)" "t2 \<le> a" "1 \<le> len"
      "dk_stat (w a) j = sn_after s" "dk_stat (w b) j = sn_after s"
    using read_part_calls [OF assms(5)] by blast
  have "j = i" using assms(2) snap(3) part(4) unfolding told_apart_def by metis
  moreover have "Suc a \<le> b" using read_range_time [OF part(1)] .
  ultimately have "dk_content (w v) j = sn_bytes s" if "Suc a \<le> v" "v \<le> b" for v
    using honest_between [OF assms(1), of t i b v] snap part(2,5) that assms(4) by simp
  then have range: "bytes = take (nat len) (drop (nat offset) (sn_bytes s)) \<and> length bytes = nat len"
    by (intro read_range_content [OF part(1)]) simp_all
  moreover have "int (length bytes) = len" using range part(3) by linarith
  ultimately show ?thesis by blast
qed

theorem part_is_of_the_snapshot_witness:
  "\<exists>bytes t. read_part True ''/'' ''/r/f'' ''/r'' (Some (sn_after grown)) (jint 1) (jint 2) growing 70 = Inr (bytes, t) \<and>
    bytes = take (nat 2) (drop (nat 1) ''abc'') \<and> int (length bytes) = 2"
proof -
  have run: "read_part True ''/'' ''/r/f'' ''/r'' (Some (sn_after grown)) (jint 1) (jint 2) growing 70 = Inr (''bc'', 89)" by code_simp
  have "sn_bytes grown = ''abc''" by (simp add: grown_def)
  with part_is_of_the_snapshot [OF growing_history growing_run _ run] run show ?thesis by auto
qed

end
