(* ===== verification/OffloadPlan.thy ===== *)
theory OffloadPlan
  imports ArchiveLifecycle StableSnapshot
begin

text \<open>
  The planner of offloads, \<^verbatim>\<open>lib/transcript-archive/offload.js\<close>: what is observed of a transcript and of
  its harness, the evidence that the ledger holds for exactly these bytes, the reasons that keep the file,
  and the plan with its accounts.  What the system calls return is a parameter of each file; the
  identifier of the plan, a hash of the whole, is left out.
\<close>

section \<open>Evidence\<close>

record offload_env =
  oe_env :: archive_env
  oe_cwd :: string
  oe_locale :: "string \<Rightarrow> string \<Rightarrow> int"

record candidate =
  cd_cli :: string
  cd_path :: string
  cd_root :: string
  cd_brain :: js
  cd_session :: js
  cd_confidence :: js
  cd_stat :: js
  cd_size :: js

text \<open>A fingerprint as the value that is compared with the recorded one.\<close>

definition fp_value :: "fingerprint \<Rightarrow> js" where
  "fp_value f =
     JObj [(''device'', JStr (fp_device f)), (''inode'', JStr (fp_inode f)), (''size'', jint (int (fp_size f))), (''mtimeNs'', JStr (fp_mtime f)),
       (''ctimeNs'', JStr (fp_ctime f))]"

definition fp_same :: "js \<Rightarrow> js \<Rightarrow> bool" where
  "fp_same a b \<longleftrightarrow>
     truthy a \<and> truthy b \<and> list_all (\<lambda>k. same_value (js_get a k) (js_get b k)) [''device'', ''inode'', ''size'', ''mtimeNs'', ''ctimeNs'']"

definition fp_complete :: "js \<Rightarrow> bool" where
  "fp_complete v \<longleftrightarrow>
     truthy v \<and> js_is_safe_integer (js_get v ''size'') \<and>
     list_all (\<lambda>k. js_is_str (js_get v k) \<and> truthy (js_get v k)) [''device'', ''inode'', ''mtimeNs'', ''ctimeNs'']"

definition path_contained :: "string \<Rightarrow> string \<Rightarrow> string \<Rightarrow> bool" where
  "path_contained cwd file trusted =
     (if trusted = [] then False
      else let relative = path_relative (path_resolve cwd trusted) (path_resolve cwd file) in
        relative = [] \<or> (\<not> starts_with relative ''../'' \<and> relative \<noteq> ''..'' \<and> \<not> path_is_absolute relative))"

definition path_basename :: "string \<Rightarrow> string" where
  "path_basename p = (if path_names p = [] then [] else last (path_names p))"

definition path_hash :: "archive_env \<Rightarrow> string \<Rightarrow> string" where
  "path_hash env p = en_hash env (canonical_json (en_nt env) (JObj [(''normalizedPath'', JStr p)]))"

text \<open>The path shown for a file, and the hash that stands for it.\<close>

definition file_identity :: "offload_env \<Rightarrow> candidate \<Rightarrow> string \<times> string" where
  "file_identity oe f =
     (let normalized = path_resolve (oe_cwd oe) (cd_path f);
          relative = (if path_contained (oe_cwd oe) normalized (cd_root f)
                      then path_relative (path_resolve (oe_cwd oe) (cd_root f)) normalized else path_basename normalized)
      in (cd_cli f @ ''/'' @ relative, path_hash (oe_env oe) normalized))"

definition text_of :: "archive_env \<Rightarrow> js \<Rightarrow> string" where
  "text_of env v = (if truthy v then js_to_string (en_nt env) v else [])"

definition find_entries :: "offload_env \<Rightarrow> candidate \<Rightarrow> js \<Rightarrow> js list" where
  "find_entries oe f sources =
     sort_by (\<lambda>a b. oe_locale oe (text_of (oe_env oe) (js_get b ''collectedAt'')) (text_of (oe_env oe) (js_get a ''collectedAt'')))
       (filter (\<lambda>e. case js_get e ''sourcePath'' of
            JStr p \<Rightarrow> path_resolve (oe_cwd oe) p = path_resolve (oe_cwd oe) (cd_path f) | _ \<Rightarrow> False)
          (map snd (js_entries sources)))"

definition exact_identity :: "js \<Rightarrow> candidate \<Rightarrow> bool" where
  "exact_identity e f =
     (let identity = js_get (js_get e ''manifest'') ''logicalIdentity''; receipt = js_get (js_get e ''receipt'') ''logicalIdentity''; cli = JStr (cd_cli f) in
      (\<not> truthy (cd_session f) \<or> same_value (cd_session f) (js_get e ''sessionId'')) \<and>
      same_value (js_get identity ''brainId'') (cd_brain f) \<and> same_value (js_get identity ''provider'') cli \<and>
      same_value (js_get identity ''sessionId'') (js_get e ''sessionId'') \<and>
      same_value (js_get receipt ''brainId'') (js_get identity ''brainId'') \<and> same_value (js_get receipt ''provider'') (js_get identity ''provider'') \<and>
      same_value (js_get receipt ''sessionId'') (js_get identity ''sessionId'') \<and>
      same_value (js_get receipt ''brainId'') (js_get e ''brainId'') \<and> same_value (js_get receipt ''provider'') (js_get e ''provider'') \<and>
      same_value (js_get receipt ''sessionId'') (js_get e ''sessionId'') \<and>
      same_value (js_get e ''provider'') cli \<and> same_value (js_get e ''brainId'') (cd_brain f) \<and>
      same_value (js_get e ''machineId'') (js_get (js_get (js_get e ''manifest'') ''provenance'') ''sourceMachineId''))"

text \<open>A conjunction whose parts may throw, and a hash compared: the hash of what is not plain data throws.\<close>

definition and_o :: "bool option \<Rightarrow> bool option \<Rightarrow> bool option" where
  "and_o a b = (case a of None \<Rightarrow> None | Some True \<Rightarrow> b | Some False \<Rightarrow> Some False)"

definition hash_equals :: "archive_env \<Rightarrow> js \<Rightarrow> js \<Rightarrow> bool option" where
  "hash_equals env h v = map_option (\<lambda>t. h = JStr t) (hash_of env v)"

definition storage_generation :: "js \<Rightarrow> js" where
  "storage_generation e = js_get (js_get (js_get e ''manifest'') ''blob'') ''storageGeneration''"

definition manifest_holds :: "archive_env \<Rightarrow> js \<Rightarrow> string \<Rightarrow> nat \<Rightarrow> bool option" where
  "manifest_holds env e actual n =
     (let m = js_get e ''manifest'' in
      and_o (Some (same_value (js_get e ''archiveVersionId'') (js_get m ''archiveVersionId'')))
        (and_o (hash_equals env (js_get e ''manifestHash'') m)
          (Some (js_get e ''contentHash'' = JStr actual \<and> js_get m ''contentHash'' = JStr actual \<and> js_get m ''byteSize'' = jint (int n)))))"

definition trust_holds :: "archive_env \<Rightarrow> js \<Rightarrow> candidate \<Rightarrow> string \<Rightarrow> nat \<Rightarrow> bool option" where
  "trust_holds env e f actual n =
     (let t = js_get e ''receiptTrust'' in
      and_o (hash_equals env (js_get t ''receiptHash'') (js_get e ''receipt''))
        (Some (same_value (js_get t ''manifestHash'') (js_get e ''manifestHash'') \<and>
          same_value (js_get t ''archiveVersionId'') (js_get e ''archiveVersionId'') \<and> js_get t ''contentHash'' = JStr actual \<and>
          js_get t ''byteSize'' = jint (int n) \<and> same_value (js_get t ''storageGeneration'') (storage_generation e) \<and>
          same_value (js_get t ''brainId'') (cd_brain f) \<and> js_get t ''provider'' = JStr (cd_cli f) \<and>
          same_value (js_get t ''sessionId'') (js_get e ''sessionId'') \<and> same_value (js_get t ''sourceMachineId'') (js_get e ''machineId'') \<and>
          js_get t ''manifestLookup'' = JStr ''authoritative_match'' \<and> js_get t ''durabilityPolicy'' = JStr ''versioned_replicated_confirmed'' \<and>
          js_get t ''serverTimePolicy'' = JStr ''authenticated_store_time'' \<and>
          js_get t ''bindingPolicy'' = JStr ''exact_manifest_content_size_generation'')))"

definition receipt_holds :: "js \<Rightarrow> string \<Rightarrow> nat \<Rightarrow> bool" where
  "receipt_holds e actual n =
     (let r = js_get e ''receipt'' in
      same_value (js_get r ''manifestHash'') (js_get e ''manifestHash'') \<and> same_value (js_get r ''archiveVersionId'') (js_get e ''archiveVersionId'') \<and>
      same_value (js_get r ''storageGeneration'') (storage_generation e) \<and> same_value (js_get r ''sourceMachineId'') (js_get e ''machineId'') \<and>
      js_get r ''contentHash'' = JStr actual \<and> js_get r ''byteSize'' = jint (int n) \<and>
      js_get r ''durabilityClass'' = JStr ''versioned_replicated'' \<and> js_get r ''verificationStatus'' = JStr ''replication_confirmed'')"

definition verification_holds :: "js \<Rightarrow> string \<Rightarrow> nat \<Rightarrow> bool" where
  "verification_holds e actual n =
     (let v = js_get e ''verification'' in
      same_value (js_get v ''archiveVersionId'') (js_get e ''archiveVersionId'') \<and> same_value (js_get v ''manifestHash'') (js_get e ''manifestHash'') \<and>
      same_value (js_get v ''storageGeneration'') (storage_generation e) \<and> js_get v ''source'' = JStr ''committed_restore'' \<and>
      truthy (js_get v ''committedReadId'') \<and> js_get v ''contentHash'' = JStr actual \<and> js_get v ''byteSize'' = jint (int n))"

definition evidence_bound :: "archive_env \<Rightarrow> js \<Rightarrow> candidate \<Rightarrow> fingerprint \<Rightarrow> string \<Rightarrow> bool option" where
  "evidence_bound env e f actual_fp actual =
     and_o (Some (truthy e \<and> field_in [''restore_verified'', ''eviction_eligible''] (js_get e ''state'')))
      (and_o (map_option (\<lambda>errors. errors = []) (validate_archive_manifest (en_nt env) (en_hash env) (en_dp env) (en_stamp env) (js_get e ''manifest'')))
      (and_o (Some (receipt_ok env (js_get e ''receipt'') \<and> validate_evidence (en_dp env) (en_stamp env) (js_get e ''verification'') = []))
      (and_o (Some (exact_identity e f \<and> fp_complete (js_get e ''statFingerprint'') \<and> fp_same (fp_value actual_fp) (js_get e ''statFingerprint'')))
      (and_o (manifest_holds env e actual (fp_size actual_fp))
      (and_o (trust_holds env e f actual (fp_size actual_fp))
        (Some (receipt_holds e actual (fp_size actual_fp) \<and> verification_holds e actual (fp_size actual_fp))))))))"

section \<open>Harnesses and discovery\<close>

definition sanitize_failure :: "offload_env \<Rightarrow> js \<Rightarrow> js" where
  "sanitize_failure oe failure =
     (let text = (\<lambda>k d. case js_get failure k of JStr s \<Rightarrow> JStr s | _ \<Rightarrow> JStr d);
          hashed = (\<lambda>k l. case js_get failure k of
             JStr p \<Rightarrow> [(l, JStr (path_hash (oe_env oe) (path_resolve (oe_cwd oe) p)))] | _ \<Rightarrow> []);
          omitted = js_get failure ''omittedFailures'' in
      JObj ([(''provider'', text ''provider'' ''unknown''), (''kind'', text ''kind'' ''transcripts''), (''state'', JStr ''discovery_error''),
          (''reason'', text ''reason'' ''transcript_discovery_failed''), (''errorCode'', text ''errorCode'' ''DISCOVERY_ERROR'')] @
        (case js_get failure ''scope'' of JStr s \<Rightarrow> [(''scope'', JStr s)] | _ \<Rightarrow> []) @
        (if js_is_safe_integer omitted \<and> 0 < js_int omitted then [(''omittedFailures'', omitted)] else []) @
        hashed ''projectRoot'' ''projectPathHash'' @ hashed ''directoryPath'' ''directoryPathHash''))"

text \<open>A line of the process table: a number, white space and a command.\<close>

definition process_row :: "string \<Rightarrow> (nat \<times> string) option" where
  "process_row line =
     (let l = js_trim line; digits = takeWhile is_digit_char l; rest = dropWhile is_digit_char l; name = dropWhile is_js_space rest in
      if digits = [] \<or> rest = name \<or> name = [] \<or> CHR 0x0D \<in> set name \<or> CHR 0x0A \<in> set name then None
      else Some (digits_value 10 digits, path_basename name))"

definition drop_return :: "string \<Rightarrow> string" where
  "drop_return l = (if l \<noteq> [] \<and> last l = CHR 0x0D then butlast l else l)"

definition harness_executables :: "(string \<times> string list) list" where
  "harness_executables = [(''claude'', [''claude'']), (''codex'', [''codex''])]"

datatype process_list = Listed string | ListingFailed "string option"

definition observation :: "string \<Rightarrow> js \<Rightarrow> string \<Rightarrow> nat list \<Rightarrow> js" where
  "observation state observed_at how pids =
     JObj [(''state'', JStr state), (''observedAt'', observed_at), (''method'', JStr how), (''matchedPids'', JArr (map (\<lambda>n. jint (int n)) pids))]"

definition observe_harness :: "js \<Rightarrow> string list \<Rightarrow> process_list \<Rightarrow> (string \<times> js) list" where
  "observe_harness observed_at providers processes =
     (let requested = sort_by compare_code_units (remdups providers) in
      case processes of
        Listed out \<Rightarrow>
          (let rows = List.map_filter (\<lambda>l. process_row (drop_return l)) (split_on (CHR 0x0A) out) in
           map (\<lambda>p. (p, case map_of harness_executables p of
               None \<Rightarrow> observation ''unknown'' observed_at ''unsupported_provider'' []
             | Some names \<Rightarrow>
                 (let pids = sort (map fst (filter (\<lambda>r. snd r \<in> set names) rows)) in
                  if pids \<noteq> [] then observation ''running'' observed_at ''exact_process_executable_positive_match'' pids
                  else observation ''unknown'' observed_at ''process_snapshot_absence_not_proof_of_stopped'' pids))) requested)
      | ListingFailed code \<Rightarrow>
          map (\<lambda>p. (p, JObj [(''state'', JStr ''unknown''), (''observedAt'', observed_at), (''method'', JStr ''process_snapshot_failed''),
            (''errorCode'', JStr (case code of Some c \<Rightarrow> c | None \<Rightarrow> ''PROCESS_OBSERVATION_FAILED'')), (''matchedPids'', JArr [])])) requested)"

section \<open>One file\<close>

text \<open>What \<^verbatim>\<open>lstat\<close> and the stable snapshot of a file return; an error has the code of the exception, if that is a text.\<close>

datatype file_stat = NoStat "string option" | FileStat kind nat fingerprint
datatype file_read = ReadFailed "string option" | ReadAs fingerprint string

record planned =
  pn_display :: string
  pn_path_hash :: string
  pn_provider :: string
  pn_brain :: js
  pn_session :: js
  pn_machine :: js
  pn_bytes :: nat
  pn_discovery :: rat
  pn_harness :: js
  pn_qualification :: string
  pn_matched :: bool
  pn_claims :: bool
  pn_qualified :: bool
  pn_committed :: bool
  pn_restored :: bool
  pn_state :: string
  pn_eligible :: bool
  pn_retained :: bool
  pn_reasons :: "string list"
  pn_binding :: js

definition stat_reasons :: "file_stat \<Rightarrow> string list" where
  "stat_reasons st =
     (case st of
        NoStat _ \<Rightarrow> [''source_unavailable'']
      | FileStat k links _ \<Rightarrow>
          (if k = Link then [''symlink_source''] else if k \<noteq> Regular then [''not_regular_file'']
           else if links \<noteq> 1 then [''hard_linked_source''] else []))"

definition path_extname :: "string \<Rightarrow> string" where
  "path_extname p =
     (let base = path_basename p; ext = takeWhile (\<lambda>c. c \<noteq> CHR ''.'') (rev base); before = dropWhile (\<lambda>c. c \<noteq> CHR ''.'') (rev base) in
      if length before \<le> 1 \<or> base = ''..'' then [] else CHR ''.'' # rev ext)"

definition qualified_providers :: "string list" where "qualified_providers = [''claude'', ''codex'']"

definition strong_attribution :: "string list" where
  "strong_attribution = [''embedded_metadata'', ''encoded_path'', ''registered_metadata'', ''project_local'']"

definition attribution_reasons :: "candidate \<Rightarrow> string list" where
  "attribution_reasons f =
     (if \<not> truthy (cd_brain f) then [''unmapped_transcript'']
      else if cd_cli f \<notin> set qualified_providers then [''provider_offload_not_qualified'']
      else if to_lower (path_extname (cd_path f)) \<noteq> ''.jsonl'' then [''unsupported_transcript_format'']
      else if \<not> field_in strong_attribution (cd_confidence f) then [''low_confidence_attribution''] else [])"

definition read_reasons :: "fingerprint \<Rightarrow> file_read \<Rightarrow> string list" where
  "read_reasons initial r =
     (case r of
        ReadAs after _ \<Rightarrow> (if initial = after then [] else [''source_changed''])
      | ReadFailed code \<Rightarrow>
          (if code = Some ''SNAPSHOT_TOO_LARGE'' then [''eligibility_byte_limit_exceeded'']
           else if code = Some ''SNAPSHOT_CHANGED'' \<or> code = Some ''SNAPSHOT_UNSTABLE'' then [''source_changed''] else [''source_read_failed'']))"

definition big_int :: "string \<Rightarrow> int option" where
  "big_int s =
     (case s of
        [] \<Rightarrow> None
      | c # ds \<Rightarrow>
          (if c = CHR ''-'' \<and> ds \<noteq> [] \<and> list_all is_digit_char ds then Some (- int (digits_value 10 ds))
           else if list_all is_digit_char s then Some (int (digits_value 10 s)) else None))"

text \<open>Division of integers rounds towards zero.\<close>

definition trunc_div :: "int \<Rightarrow> int \<Rightarrow> int" where
  "trunc_div a b = (if 0 \<le> a then a div b else - (- a div b))"

definition age_reasons :: "rat \<Rightarrow> rat \<Rightarrow> fingerprint option \<Rightarrow> string list option" where
  "age_reasons clock min_hours fp =
     (case fp of
        None \<Rightarrow> Some []
      | Some f \<Rightarrow> map_option (\<lambda>ns. let age = clock - of_int (trunc_div ns 1000000) in
          if age < min_hours * 3600000 then (if age < - 1000 then [''source_timestamp_in_future''] else [''source_not_old_enough'']) else [])
          (big_int (fp_mtime f)))"

fun find_o :: "('a \<Rightarrow> bool option) \<Rightarrow> 'a list \<Rightarrow> 'a option option" where
  "find_o p [] = Some None"
| "find_o p (x # xs) = (case p x of None \<Rightarrow> None | Some True \<Rightarrow> Some (Some x) | Some False \<Rightarrow> find_o p xs)"

definition dedupe :: "string list \<Rightarrow> string list" where
  "dedupe xs = rev (remdups (rev xs))"

definition has_reason :: "string list \<Rightarrow> string list \<Rightarrow> bool" where
  "has_reason kinds reasons \<longleftrightarrow> (\<exists>r \<in> set reasons. r \<in> set kinds)"

definition planned_state :: "string list \<Rightarrow> string" where
  "planned_state reasons =
     (if has_reason [''source_unavailable'', ''source_read_failed''] reasons then ''error''
      else if has_reason [''source_changed'', ''hard_linked_source''] reasons then ''changed_since_backup''
      else if has_reason [''symlink_source'', ''not_regular_file'', ''containment_failed'', ''unmapped_transcript'', ''provider_offload_not_qualified'',
        ''unsupported_transcript_format'', ''low_confidence_attribution'', ''eligibility_byte_limit_exceeded''] reasons then ''local_only''
      else if has_reason [''harness_running'', ''harness_state_unknown'', ''source_not_old_enough'', ''source_timestamp_in_future''] reasons then ''blocked_active''
      else if has_reason [''archive_evidence_not_eligible'', ''current_authenticated_authority_unavailable''] reasons then ''blocked_durability''
      else ''local_only'')"

text \<open>\<^verbatim>\<open>Number(byteSize) || 0\<close>.  (An infinite size, which no file system reports, counts as none here; the code would
  carry it through its sums.)\<close>

definition discovery_bytes :: "candidate \<Rightarrow> rat" where
  "discovery_bytes f = (case js_number (cd_size f) of Fin q \<Rightarrow> q | _ \<Rightarrow> 0)"

text \<open>A part of an entry that is hashed if it is there.\<close>

definition hash_or_null :: "archive_env \<Rightarrow> js \<Rightarrow> js option" where
  "hash_or_null env v = (if truthy v then map_option JStr (hash_of env v) else Some JNull)"

definition harness_of :: "offload_env \<Rightarrow> (string \<times> js) list \<Rightarrow> rat \<Rightarrow> candidate \<Rightarrow> js" where
  "harness_of oe observations clock f =
     js_coalesce (js_get (JObj observations) (cd_cli f)) (observation ''unknown'' (JStr (en_stamp (oe_env oe) clock)) ''not_observed'' [])"

definition harness_reasons :: "js \<Rightarrow> string list" where
  "harness_reasons h =
     (if js_get h ''state'' = JStr ''stopped'' then []
      else if js_get h ''state'' = JStr ''running'' then [''harness_running''] else [''harness_state_unknown''])"

definition observed_of :: "bool \<Rightarrow> file_stat \<Rightarrow> file_read \<Rightarrow> fingerprint option \<times> string option \<times> js \<times> string list" where
  "observed_of inside st r =
     (case st of
        NoStat code \<Rightarrow> (None, None, JStr (case code of Some c \<Rightarrow> c | None \<Rightarrow> ''LSTAT_FAILED''), [])
      | FileStat k _ fp \<Rightarrow>
          (if k = Regular \<and> inside
           then (case r of
               ReadAs after h \<Rightarrow> (Some after, Some h, JNull, read_reasons fp r)
             | ReadFailed code \<Rightarrow> (Some fp, None, JStr (case code of Some c \<Rightarrow> c | None \<Rightarrow> ''SNAPSHOT_READ_FAILED''), read_reasons fp r))
           else (Some fp, None, JNull, [])))"

text \<open>The entry for the file: the first that is bound to these bytes, or the latest.\<close>

definition chosen_entry :: "offload_env \<Rightarrow> candidate \<Rightarrow> fingerprint option \<Rightarrow> string option \<Rightarrow> js list \<Rightarrow> js option" where
  "chosen_entry oe f fp hash entries =
     (let latest = (case entries of e # _ \<Rightarrow> e | [] \<Rightarrow> JNull) in
      case (fp, hash) of
        (Some fp, Some h) \<Rightarrow> map_option (\<lambda>found. case found of Some e \<Rightarrow> e | None \<Rightarrow> latest) (find_o (\<lambda>e. evidence_bound (oe_env oe) e f fp h) entries)
      | _ \<Rightarrow> Some latest)"

definition entry_matched :: "offload_env \<Rightarrow> candidate \<Rightarrow> fingerprint option \<Rightarrow> string option \<Rightarrow> js \<Rightarrow> bool option" where
  "entry_matched oe f fp hash e =
     (case (fp, hash) of (Some fp, Some h) \<Rightarrow> evidence_bound (oe_env oe) e f fp h | _ \<Rightarrow> Some False)"

definition changed_reasons :: "candidate \<Rightarrow> fingerprint option \<Rightarrow> string option \<Rightarrow> js \<Rightarrow> string list" where
  "changed_reasons f fp hash e =
     (case (fp, hash) of
        (Some fp, Some _) \<Rightarrow>
          (if fp_same (fp_value fp) (cd_stat f) then [] else [''source_changed'']) @
          (if fp_complete (js_get e ''statFingerprint'') \<and> \<not> fp_same (fp_value fp) (js_get e ''statFingerprint'') then [''source_changed''] else [])
      | _ \<Rightarrow> [])"

definition file_binding :: "offload_env \<Rightarrow> string \<Rightarrow> fingerprint option \<Rightarrow> string option \<Rightarrow> js \<Rightarrow> js \<Rightarrow> js option" where
  "file_binding oe path_digest fp hash observation_error e =
     Option.bind (hash_or_null (oe_env oe) (js_get e ''receipt'')) (\<lambda>receipt.
     Option.bind (hash_or_null (oe_env oe) (js_get e ''receiptTrust'')) (\<lambda>trust.
     Option.bind (hash_or_null (oe_env oe) (js_get e ''verification'')) (\<lambda>verification.
     Some (JObj [(''pathHash'', JStr path_digest), (''contentHash'', case hash of Some h \<Rightarrow> JStr h | None \<Rightarrow> JNull),
       (''statFingerprint'', case fp of Some f \<Rightarrow> fp_value f | None \<Rightarrow> JNull),
       (''observation'', JStr (if hash = None then ''metadata_or_error_only'' else ''stable_snapshot'')), (''observationError'', observation_error),
       (''archiveContentHash'', or_null (js_get e ''contentHash'')), (''archiveVersionId'', or_null (js_get e ''archiveVersionId'')),
       (''manifestHash'', or_null (js_get e ''manifestHash'')), (''receiptHash'', receipt), (''receiptTrustHash'', trust),
       (''verificationHash'', verification)]))))"

definition planning_failed :: "offload_env \<Rightarrow> (string \<times> js) list \<Rightarrow> candidate \<Rightarrow> planned" where
  "planning_failed oe observations f =
     (let (display, digest) = file_identity oe f in
      \<lparr>pn_display = display, pn_path_hash = digest, pn_provider = cd_cli f, pn_brain = or_null (cd_brain f), pn_session = or_null (cd_session f),
       pn_machine = JNull, pn_bytes = 0, pn_discovery = discovery_bytes f, pn_harness = or_null (js_get (JObj observations) (cd_cli f)),
       pn_qualification = ''not_qualified'', pn_matched = False, pn_claims = False, pn_qualified = False, pn_committed = False,
       pn_restored = False, pn_state = ''error'', pn_eligible = False, pn_retained = True,
       pn_reasons = [''planning_error'', ''production_evidence_pause''],
       pn_binding = JObj [(''pathHash'', JStr digest), (''contentHash'', JNull), (''statFingerprint'', JNull),
         (''observation'', JStr ''metadata_or_error_only''), (''observationError'', JStr ''PLANNING_ERROR'')]\<rparr>)"

definition classified ::
    "offload_env \<Rightarrow> js \<Rightarrow> (string \<times> js) list \<Rightarrow> rat \<Rightarrow> rat \<Rightarrow> candidate \<Rightarrow> file_stat \<Rightarrow> file_read \<Rightarrow> planned option" where
  "classified oe sources observations clock min_hours f st r =
     (let (display, digest) = file_identity oe f;
          inside = path_contained (oe_cwd oe) (cd_path f) (cd_root f);
          (fp, hash, observation_error, observed_reasons) = observed_of inside st r;
          harness = harness_of oe observations clock f in
      Option.bind (chosen_entry oe f fp hash (find_entries oe f sources)) (\<lambda>e.
      Option.bind (age_reasons clock min_hours fp) (\<lambda>age.
      Option.bind (entry_matched oe f fp hash e) (\<lambda>matched.
      Option.bind (file_binding oe digest fp hash observation_error e) (\<lambda>binding.
      let reasons = dedupe (stat_reasons st @ (if inside then [] else [''containment_failed'']) @ attribution_reasons f @ observed_reasons @
            changed_reasons f fp hash e @ harness_reasons harness @ age @
            [if matched then ''current_authenticated_authority_unavailable'' else ''archive_evidence_not_eligible'', ''production_evidence_pause'']) in
      Some \<lparr>pn_display = display, pn_path_hash = digest, pn_provider = cd_cli f, pn_brain = or_null (cd_brain f),
        pn_session = js_coalesce (cd_session f) (or_null (js_get e ''sessionId'')), pn_machine = or_null (js_get e ''machineId''),
        pn_bytes = (case fp of Some x \<Rightarrow> fp_size x | None \<Rightarrow> 0), pn_discovery = discovery_bytes f, pn_harness = harness,
        pn_qualification = (if matched then ''historically_authenticated_not_currently_revalidated'' else ''not_qualified''),
        pn_matched = matched, pn_claims = matched, pn_qualified = False, pn_committed = False, pn_restored = False,
        pn_state = planned_state reasons, pn_eligible = False, pn_retained = True, pn_reasons = reasons, pn_binding = binding\<rparr>)))))"

definition classify ::
    "offload_env \<Rightarrow> js \<Rightarrow> (string \<times> js) list \<Rightarrow> rat \<Rightarrow> rat \<Rightarrow> candidate \<Rightarrow> file_stat \<Rightarrow> file_read \<Rightarrow> planned" where
  "classify oe sources observations clock min_hours f st r =
     (case classified oe sources observations clock min_hours f st r of Some p \<Rightarrow> p | None \<Rightarrow> planning_failed oe observations f)"

section \<open>The plan\<close>

record totals =
  tt_files :: nat
  tt_bytes :: nat
  tt_discovery :: rat
  tt_committed :: "nat \<times> nat"
  tt_restored :: "nat \<times> nat"
  tt_eligible :: "nat \<times> nat"
  tt_claimed :: "nat \<times> nat"
  tt_claimed_restored :: "nat \<times> nat"
  tt_qualified :: "nat \<times> nat"
  tt_retained :: "nat \<times> nat"
  tt_reclaimable :: nat
  tt_unsupported :: nat

definition no_totals :: totals where
  "no_totals =
     \<lparr>tt_files = 0, tt_bytes = 0, tt_discovery = 0, tt_committed = (0, 0), tt_restored = (0, 0), tt_eligible = (0, 0), tt_claimed = (0, 0),
      tt_claimed_restored = (0, 0), tt_qualified = (0, 0), tt_retained = (0, 0), tt_reclaimable = 0, tt_unsupported = 0\<rparr>"

text \<open>One more file, with its bytes, if it counts.\<close>

definition tally :: "bool \<Rightarrow> nat \<Rightarrow> nat \<times> nat \<Rightarrow> nat \<times> nat" where
  "tally c n t = (if c then (Suc (fst t), snd t + n) else t)"

definition add_planned :: "planned \<Rightarrow> totals \<Rightarrow> totals" where
  "add_planned p t =
     t\<lparr>tt_files := Suc (tt_files t), tt_bytes := tt_bytes t + pn_bytes p, tt_discovery := tt_discovery t + pn_discovery p,
       tt_retained := tally True (pn_bytes p) (tt_retained t), tt_committed := tally (pn_committed p) (pn_bytes p) (tt_committed t),
       tt_restored := tally (pn_restored p) (pn_bytes p) (tt_restored t), tt_claimed := tally (pn_claims p) (pn_bytes p) (tt_claimed t),
       tt_claimed_restored := tally (pn_claims p) (pn_bytes p) (tt_claimed_restored t)\<rparr>"

text \<open>\<^verbatim>\<open>o[k] ??= init\<close> and a change of it.  (The objects of the code inherit names such as \<^verbatim>\<open>constructor\<close>, which no
  provider has; they are absent here.)\<close>

definition bump :: "'v \<Rightarrow> ('v \<Rightarrow> 'v) \<Rightarrow> string \<Rightarrow> (string \<times> 'v) list \<Rightarrow> (string \<times> 'v) list" where
  "bump init change k kvs = AList.update k (change (case map_of kvs k of Some v \<Rightarrow> v | None \<Rightarrow> init)) kvs"

definition provider_totals :: "planned list \<Rightarrow> string list \<Rightarrow> (string \<times> totals) list" where
  "provider_totals planned unsupported =
     fold (bump no_totals (\<lambda>t. t\<lparr>tt_unsupported := Suc (tt_unsupported t)\<rparr>)) unsupported
       (fold (\<lambda>p. bump no_totals (add_planned p) (pn_provider p)) planned [])"

definition blocked_totals :: "planned list \<Rightarrow> (string \<times> nat \<times> nat) list" where
  "blocked_totals planned = fold (\<lambda>p. fold (bump (0, 0) (tally True (pn_bytes p))) (pn_reasons p)) planned []"

definition reason_counts :: "js list \<Rightarrow> (string \<times> nat) list" where
  "reason_counts failures = fold (\<lambda>f. bump 0 Suc (case js_get f ''reason'' of JStr s \<Rightarrow> s | _ \<Rightarrow> [])) failures []"

record summary =
  sm_selected :: "nat \<times> nat"
  sm_discovery :: rat
  sm_committed :: "nat \<times> nat"
  sm_restored :: "nat \<times> nat"
  sm_claimed :: "nat \<times> nat"
  sm_claimed_restored :: "nat \<times> nat"
  sm_blocked :: "nat \<times> nat"
  sm_eligible :: "nat \<times> nat"
  sm_qualified :: "nat \<times> nat"
  sm_retained :: "nat \<times> nat"
  sm_reclaimable :: nat
  sm_unsupported :: nat
  sm_failures :: nat
  sm_warnings :: nat

definition count_of :: "(planned \<Rightarrow> bool) \<Rightarrow> planned list \<Rightarrow> nat \<times> nat" where
  "count_of c planned = (length (filter c planned), sum_list (map pn_bytes (filter c planned)))"

definition summary_of :: "planned list \<Rightarrow> nat \<Rightarrow> nat \<Rightarrow> nat \<Rightarrow> summary" where
  "summary_of planned unsupported failures warnings =
     \<lparr>sm_selected = count_of (\<lambda>_. True) planned, sm_discovery = sum_list (map pn_discovery planned),
      sm_committed = count_of pn_committed planned, sm_restored = count_of pn_restored planned, sm_claimed = count_of pn_claims planned,
      sm_claimed_restored = count_of pn_claims planned, sm_blocked = count_of (\<lambda>_. True) planned, sm_eligible = (0, 0),
      sm_qualified = (0, 0), sm_retained = count_of (\<lambda>_. True) planned, sm_reclaimable = 0, sm_unsupported = unsupported,
      sm_failures = failures, sm_warnings = warnings\<rparr>"

record offload_plan =
  op_generated :: string
  op_expires :: string
  op_incomplete :: bool
  op_apply_allowed :: bool
  op_verdict :: string
  op_concurrency :: nat
  op_summary :: summary
  op_providers :: "(string \<times> totals) list"
  op_blocked :: "(string \<times> nat \<times> nat) list"
  op_files :: "planned list"
  op_unsupported :: "(string \<times> string \<times> string) list"
  op_failures :: "js list"
  op_failure_reasons :: "(string \<times> nat) list"
  op_warnings :: "js list"
  op_warning_reasons :: "(string \<times> nat) list"

definition sort_key :: "offload_env \<Rightarrow> candidate \<Rightarrow> string" where
  "sort_key oe f = cd_cli f @ [nul] @ path_resolve (oe_cwd oe) (cd_path f)"

definition unsupported_row :: "offload_env \<Rightarrow> js \<Rightarrow> string \<times> string \<times> string" where
  "unsupported_row oe item =
     (let t = (\<lambda>k d. js_to_string (en_nt (oe_env oe)) (js_coalesce (js_get item k) (JStr d))) in
      (t ''provider'' ''unknown'', t ''kind'' ''transcripts'', t ''reason'' ''unsupported''))"

definition failure_key :: "js \<Rightarrow> string" where
  "failure_key v =
     join_with [nul] (map (\<lambda>k. case js_get v k of JStr s \<Rightarrow> s | _ \<Rightarrow> [])
       [''provider'', ''reason'', ''errorCode'', ''projectPathHash'', ''directoryPathHash''])"

definition planning_concurrency :: "nat \<Rightarrow> nat \<Rightarrow> candidate list \<Rightarrow> nat" where
  "planning_concurrency uploads byte_limit files =
     (let size = (\<lambda>f. let q = discovery_bytes f in min (if q = 0 then 1 else q) (of_nat byte_limit));
          largest = fold max (map size files) 1 in
      max 1 (min uploads (max 1 (nat \<lfloor>of_nat byte_limit / largest\<rfloor>))))"

text \<open>The files with what was observed of each; the workers return their results at the places of the files.\<close>

definition build_plan ::
    "offload_env \<Rightarrow> js \<Rightarrow> (string \<times> js) list \<Rightarrow> rat \<Rightarrow> rat \<Rightarrow> rat \<Rightarrow> nat \<Rightarrow> nat \<Rightarrow> (candidate \<times> file_stat \<times> file_read) list \<Rightarrow>
     js list \<Rightarrow> js list \<Rightarrow> js list \<Rightarrow> offload_plan" where
  "build_plan oe sources observations clock ttl min_hours uploads byte_limit files unsupported failures warnings =
     (let sorted_files = sort_by (\<lambda>a b. oe_locale oe (sort_key oe (fst a)) (sort_key oe (fst b))) files;
          planned = map (\<lambda>(f, st, r). classify oe sources observations clock min_hours f st r) sorted_files;
          kept = sort_by (\<lambda>a b. oe_locale oe (fst a @ [nul] @ fst (snd a) @ [nul] @ snd (snd a)) (fst b @ [nul] @ fst (snd b) @ [nul] @ snd (snd b)))
            (map (unsupported_row oe) unsupported);
          failed = sort_by (\<lambda>a b. oe_locale oe (failure_key a) (failure_key b)) (map (sanitize_failure oe) failures);
          warned = sort_by (\<lambda>a b. oe_locale oe (failure_key a) (failure_key b)) (map (sanitize_failure oe) warnings)
      in \<lparr>op_generated = en_stamp (oe_env oe) clock, op_expires = en_stamp (oe_env oe) (clock + ttl), op_incomplete = (failed \<noteq> []),
          op_apply_allowed = False, op_verdict = ''PAUSE'', op_concurrency = planning_concurrency uploads byte_limit (map fst sorted_files),
          op_summary = summary_of planned (length kept) (length failed) (length warned),
          op_providers = provider_totals planned (map fst kept),
          op_blocked = sort_by (\<lambda>a b. oe_locale oe (fst a) (fst b)) (blocked_totals planned), op_files = planned, op_unsupported = kept,
          op_failures = failed, op_failure_reasons = sort_by (\<lambda>a b. oe_locale oe (fst a) (fst b)) (reason_counts failed),
          op_warnings = warned, op_warning_reasons = sort_by (\<lambda>a b. oe_locale oe (fst a) (fst b)) (reason_counts warned)\<rparr>)"

section \<open>Accounts\<close>

lemma bump_distinct: "distinct (map fst kvs) \<Longrightarrow> distinct (map fst (bump init change k kvs))"
  by (simp add: bump_def distinct_update)

lemma sum_bump:
  fixes m :: "'v \<Rightarrow> 'n::comm_monoid_add"
  assumes "m init = 0" "\<And>v. m (change v) = m v + d" "distinct (map fst kvs)"
  shows "sum_list (map (\<lambda>kv. m (snd kv)) (bump init change k kvs)) = sum_list (map (\<lambda>kv. m (snd kv)) kvs) + d"
  using assms(3)
proof (induction kvs)
  case (Cons kv kvs)
  have rest: "fst kv \<noteq> k \<Longrightarrow> bump init change k (kv # kvs) = kv # bump init change k kvs"
    by (cases kv) (simp add: bump_def)
  show ?case
  proof (cases "fst kv = k")
    case True
    then show ?thesis using assms(1,2) by (cases kv) (simp add: bump_def ac_simps)
  next
    case False
    then show ?thesis using Cons rest by (simp add: ac_simps)
  qed
qed (simp add: bump_def assms)

text \<open>A number that every planned file adds to, over all the providers.\<close>

lemma provider_sum:
  fixes m :: "totals \<Rightarrow> 'n::comm_monoid_add"
  assumes "m no_totals = 0" "\<And>p t. m (add_planned p t) = m t + g p" "\<And>t. m (t\<lparr>tt_unsupported := Suc (tt_unsupported t)\<rparr>) = m t"
  shows "sum_list (map (\<lambda>kv. m (snd kv)) (provider_totals planned unsupported)) = sum_list (map g planned)"
proof -
  let ?files = "fold (\<lambda>p. bump no_totals (add_planned p) (pn_provider p))"
  let ?rest = "fold (bump no_totals (\<lambda>t. t\<lparr>tt_unsupported := Suc (tt_unsupported t)\<rparr>))"
  have files: "distinct (map fst (?files planned kvs)) \<and>
      sum_list (map (\<lambda>kv. m (snd kv)) (?files planned kvs)) = sum_list (map (\<lambda>kv. m (snd kv)) kvs) + sum_list (map g planned)"
    if "distinct (map fst kvs)" for kvs
    using that
  proof (induction planned arbitrary: kvs)
    case (Cons p ps)
    from Cons.IH [OF bump_distinct [OF Cons.prems]] sum_bump [of m no_totals "add_planned p" "g p", OF assms(1,2) Cons.prems]
    show ?case by (simp add: ac_simps)
  qed simp
  have rest: "sum_list (map (\<lambda>kv. m (snd kv)) (?rest unsupported kvs)) = sum_list (map (\<lambda>kv. m (snd kv)) kvs)"
    if "distinct (map fst kvs)" for kvs
    using that
  proof (induction unsupported arbitrary: kvs)
    case (Cons u us)
    from Cons.IH [OF bump_distinct [OF Cons.prems]]
      sum_bump [of m no_totals "\<lambda>t. t\<lparr>tt_unsupported := Suc (tt_unsupported t)\<rparr>" 0, OF assms(1) _ Cons.prems]
    show ?case by (simp add: assms(3))
  qed simp
  show ?thesis using files [of "[]"] rest [of "?files planned []"] by (simp add: provider_totals_def)
qed

lemma count_of_sums: "count_of c planned = (sum_list (map (\<lambda>p. if c p then 1 else 0) planned), sum_list (map (\<lambda>p. if c p then pn_bytes p else 0) planned))"
  by (induction planned) (auto simp: count_of_def)

lemma planned_of_files:
  "op_files (build_plan oe sources observations clock ttl hours uploads cap files unsupported failures warnings) =
     map (\<lambda>(f, st, r). classify oe sources observations clock hours f st r)
       (sort_by (\<lambda>a b. oe_locale oe (sort_key oe (fst a)) (sort_key oe (fst b))) files)"
  by (simp add: build_plan_def Let_def)

lemma plan_accounts:
  assumes plan: "plan = build_plan oe sources observations clock ttl hours uploads cap files unsupported failures warnings"
  shows "mset (op_files plan) = image_mset (\<lambda>(f, st, r). classify oe sources observations clock hours f st r) (mset files) \<and>
    sm_selected (op_summary plan) = (length files, sum_list (map (\<lambda>kv. tt_bytes (snd kv)) (op_providers plan))) \<and>
    sum_list (map (\<lambda>kv. tt_files (snd kv)) (op_providers plan)) = length files \<and>
    sum_list (map (\<lambda>kv. tt_discovery (snd kv)) (op_providers plan)) = sm_discovery (op_summary plan) \<and>
    sum_list (map (\<lambda>kv. snd (tt_retained (snd kv))) (op_providers plan)) = snd (sm_selected (op_summary plan)) \<and>
    sum_list (map (\<lambda>kv. snd (tt_claimed (snd kv))) (op_providers plan)) = snd (sm_claimed (op_summary plan)) \<and>
    sm_retained (op_summary plan) = sm_selected (op_summary plan) \<and> sm_reclaimable (op_summary plan) = 0 \<and>
    sum_list (map (\<lambda>kv. tt_reclaimable (snd kv)) (op_providers plan)) = 0"
proof -
  let ?planned = "op_files plan"
  obtain names where providers: "op_providers plan = provider_totals ?planned names" by (simp add: plan build_plan_def Let_def)
  have summary: "sm_selected (op_summary plan) = count_of (\<lambda>_. True) ?planned" "sm_discovery (op_summary plan) = sum_list (map pn_discovery ?planned)"
      "sm_claimed (op_summary plan) = count_of pn_claims ?planned" "sm_retained (op_summary plan) = sm_selected (op_summary plan)"
      "sm_reclaimable (op_summary plan) = 0"
    by (simp_all add: plan build_plan_def Let_def summary_of_def)
  have length: "length ?planned = length files" by (simp add: plan planned_of_files)
  note simps = no_totals_def add_planned_def tally_def
  have sums: "sum_list (map (\<lambda>kv. tt_bytes (snd kv)) (op_providers plan)) = sum_list (map pn_bytes ?planned)"
      "sum_list (map (\<lambda>kv. tt_files (snd kv)) (op_providers plan)) = sum_list (map (\<lambda>_. 1) ?planned)"
      "sum_list (map (\<lambda>kv. tt_discovery (snd kv)) (op_providers plan)) = sum_list (map pn_discovery ?planned)"
      "sum_list (map (\<lambda>kv. snd (tt_retained (snd kv))) (op_providers plan)) = sum_list (map pn_bytes ?planned)"
      "sum_list (map (\<lambda>kv. snd (tt_claimed (snd kv))) (op_providers plan)) = sum_list (map (\<lambda>p. if pn_claims p then pn_bytes p else 0) ?planned)"
      "sum_list (map (\<lambda>kv. tt_reclaimable (snd kv)) (op_providers plan)) = sum_list (map (\<lambda>_. 0) ?planned)"
    unfolding providers by (rule provider_sum; simp add: simps)+
  have "mset ?planned = image_mset (\<lambda>(f, st, r). classify oe sources observations clock hours f st r) (mset files)"
    by (simp add: plan planned_of_files)
  then show ?thesis using summary sums length by (simp add: count_of_sums sum_list_triv)
qed

text \<open>C33. The accounts of a plan balance: every selected file is planned exactly once; the files and bytes of the
  providers add up to those of the summary, as do the bytes found on discovery, what is retained and what
  was claimed to be committed; everything selected is retained and nothing is reclaimable.\<close>

theorem offload_accounts_balance:
  "let plan = build_plan oe sources observations clock ttl hours uploads cap files unsupported failures warnings in
    mset (op_files plan) = image_mset (\<lambda>(f, st, r). classify oe sources observations clock hours f st r) (mset files) \<and>
    sm_selected (op_summary plan) = (length files, sum_list (map (\<lambda>kv. tt_bytes (snd kv)) (op_providers plan))) \<and>
    sum_list (map (\<lambda>kv. tt_files (snd kv)) (op_providers plan)) = length files \<and>
    sum_list (map (\<lambda>kv. tt_discovery (snd kv)) (op_providers plan)) = sm_discovery (op_summary plan) \<and>
    sum_list (map (\<lambda>kv. snd (tt_retained (snd kv))) (op_providers plan)) = snd (sm_selected (op_summary plan)) \<and>
    sum_list (map (\<lambda>kv. snd (tt_claimed (snd kv))) (op_providers plan)) = snd (sm_claimed (op_summary plan)) \<and>
    sm_retained (op_summary plan) = sm_selected (op_summary plan) \<and> sm_reclaimable (op_summary plan) = 0 \<and>
    sum_list (map (\<lambda>kv. tt_reclaimable (snd kv)) (op_providers plan)) = 0"
  unfolding Let_def by (rule plan_accounts [OF refl])

section \<open>Evidence that is matched\<close>

lemma and_o_True [simp]: "and_o a b = Some True \<longleftrightarrow> a = Some True \<and> b = Some True"
  by (auto simp: and_o_def split: option.splits bool.splits)

lemma find_o_Some: "find_o p xs = Some (Some x) \<Longrightarrow> x \<in> set xs"
  by (induction xs) (auto split: option.splits bool.splits)

lemma chosen_entry_mem:
  assumes "chosen_entry oe f fp hash entries = Some e" "truthy e"
  shows "e \<in> set entries"
proof -
  let ?latest = "case entries of e # _ \<Rightarrow> e | [] \<Rightarrow> JNull"
  have latest: "?latest = e \<Longrightarrow> e \<in> set entries" using assms(2) by (cases entries) auto
  show ?thesis
  proof (cases "\<exists>x h. fp = Some x \<and> hash = Some h")
    case True
    then obtain x h where "fp = Some x" "hash = Some h" by blast
    with assms(1) obtain found where "find_o (\<lambda>e. evidence_bound (oe_env oe) e f x h) entries = Some found"
        "(case found of Some e \<Rightarrow> e | None \<Rightarrow> ?latest) = e"
      by (auto simp: chosen_entry_def Let_def simp del: find_o.simps)
    then show ?thesis using latest find_o_Some by (cases found) auto
  next
    case False
    then have "?latest = e" using assms(1) by (auto simp: chosen_entry_def Let_def split: option.splits)
    then show ?thesis by (rule latest)
  qed
qed

lemma evidence_bound_facts:
  assumes "evidence_bound env e f fp h = Some True"
  shows "truthy e" "field_in [''restore_verified'', ''eviction_eligible''] (js_get e ''state'')" "manifest_ok env (js_get e ''manifest'')"
    "receipt_ok env (js_get e ''receipt'')" "js_get (js_get e ''manifest'') ''contentHash'' = JStr h"
    "js_get (js_get e ''manifest'') ''byteSize'' = jint (int (fp_size fp))" "js_get (js_get e ''receipt'') ''contentHash'' = JStr h"
    "js_get (js_get e ''receipt'') ''verificationStatus'' = JStr ''replication_confirmed''"
    "js_get (js_get e ''verification'') ''contentHash'' = JStr h" "js_get (js_get e ''verification'') ''source'' = JStr ''committed_restore''"
    "is_hash_of env (js_get e ''manifestHash'') (js_get e ''manifest'')" "fp_same (fp_value fp) (js_get e ''statFingerprint'')"
  using assms
  by (auto simp: evidence_bound_def manifest_ok_def manifest_holds_def trust_holds_def receipt_holds_def verification_holds_def hash_equals_def
      is_hash_of_def Let_def)

lemma observed_hash:
  "observed_of inside st r = (fp, Some h, err, reasons) \<Longrightarrow> inside \<and> (\<exists>links initial after. st = FileStat Regular links initial \<and> r = ReadAs after h \<and> fp = Some after)"
  by (auto simp: observed_of_def split: file_stat.splits file_read.splits if_splits)

lemma dedupe_set [simp]: "set (dedupe xs) = set xs"
  by (simp add: dedupe_def)

lemma file_identity_hash: "file_identity oe f = (display, digest) \<Longrightarrow> digest = path_hash (oe_env oe) (path_resolve (oe_cwd oe) (cd_path f))"
  by (simp add: file_identity_def Let_def)

lemma file_binding_fields:
  assumes "file_binding oe digest fp hash err e = Some b"
  shows "js_get b ''pathHash'' = JStr digest" "js_get b ''contentHash'' = (case hash of Some h \<Rightarrow> JStr h | None \<Rightarrow> JNull)"
    "js_get b ''statFingerprint'' = (case fp of Some x \<Rightarrow> fp_value x | None \<Rightarrow> JNull)"
    "js_get b ''archiveVersionId'' = or_null (js_get e ''archiveVersionId'')" "js_get b ''manifestHash'' = or_null (js_get e ''manifestHash'')"
    "hash_or_null (oe_env oe) (js_get e ''receipt'') = Some (js_get b ''receiptHash'')"
  using assms by (auto simp: file_binding_def bind_eq_Some_conv)

text \<open>What a planned file says of itself, whether or not its classification failed.\<close>

lemma planned_identity:
  "pn_provider (classify oe sources observations clock hours f st r) = cd_cli f \<and>
   pn_path_hash (classify oe sources observations clock hours f st r) = path_hash (oe_env oe) (path_resolve (oe_cwd oe) (cd_path f)) \<and>
   js_get (pn_binding (classify oe sources observations clock hours f st r)) ''pathHash'' =
     JStr (path_hash (oe_env oe) (path_resolve (oe_cwd oe) (cd_path f)))"
proof (cases "classified oe sources observations clock hours f st r")
  case None
  then show ?thesis by (auto simp: classify_def planning_failed_def dest: file_identity_hash split: prod.splits)
next
  case (Some p)
  then have "pn_provider p = cd_cli f \<and> pn_path_hash p = path_hash (oe_env oe) (path_resolve (oe_cwd oe) (cd_path f)) \<and>
      js_get (pn_binding p) ''pathHash'' = JStr (path_hash (oe_env oe) (path_resolve (oe_cwd oe) (cd_path f)))"
    unfolding classified_def Let_def
    by (auto simp: bind_eq_Some_conv file_binding_fields dest: file_identity_hash split: prod.splits)
  with Some show ?thesis by (simp add: classify_def)
qed

lemma planned_unmatched:
  assumes "\<not> pn_matched (classify oe sources observations clock hours f st r)"
  shows "''archive_evidence_not_eligible'' \<in> set (pn_reasons (classify oe sources observations clock hours f st r)) \<or>
    ''planning_error'' \<in> set (pn_reasons (classify oe sources observations clock hours f st r))"
proof (cases "classified oe sources observations clock hours f st r")
  case None
  then show ?thesis by (simp add: classify_def planning_failed_def split: prod.splits)
next
  case (Some p)
  then have "\<not> pn_matched p \<Longrightarrow> ''archive_evidence_not_eligible'' \<in> set (pn_reasons p)"
    unfolding classified_def Let_def by (auto simp: bind_eq_Some_conv split: prod.splits)
  with Some assms show ?thesis by (simp add: classify_def)
qed

lemma classified_matched:
  assumes "classified oe sources observations clock hours f st r = Some p" "pn_matched p"
  obtains e links initial after h where "st = FileStat Regular links initial" "r = ReadAs after h"
    "path_contained (oe_cwd oe) (cd_path f) (cd_root f)" "e \<in> set (find_entries oe f sources)" "evidence_bound (oe_env oe) e f after h = Some True"
    "js_get (pn_binding p) ''contentHash'' = JStr h" "js_get (pn_binding p) ''statFingerprint'' = fp_value after" "pn_bytes p = fp_size after"
    "js_get (pn_binding p) ''archiveVersionId'' = or_null (js_get e ''archiveVersionId'')"
    "hash_or_null (oe_env oe) (js_get e ''receipt'') = Some (js_get (pn_binding p) ''receiptHash'')"
    "''current_authenticated_authority_unavailable'' \<in> set (pn_reasons p)"
proof -
  obtain fp hash err reasons where observed: "observed_of (path_contained (oe_cwd oe) (cd_path f) (cd_root f)) st r = (fp, hash, err, reasons)"
    by (metis prod_cases4)
  obtain display digest where identity: "file_identity oe f = (display, digest)" by fastforce
  obtain e where e: "chosen_entry oe f fp hash (find_entries oe f sources) = Some e" "entry_matched oe f fp hash e = Some True"
    and b: "file_binding oe digest fp hash err e = Some (pn_binding p)" "pn_bytes p = (case fp of Some x \<Rightarrow> fp_size x | None \<Rightarrow> 0)"
      "''current_authenticated_authority_unavailable'' \<in> set (pn_reasons p)"
    using assms unfolding classified_def Let_def observed identity by (auto simp: bind_eq_Some_conv)
  obtain x h where xh: "fp = Some x" "hash = Some h" "evidence_bound (oe_env oe) e f x h = Some True"
    using e(2) by (auto simp: entry_matched_def split: option.splits)
  from observed_hash [OF observed [unfolded xh]] obtain links initial where
    "st = FileStat Regular links initial" "r = ReadAs x h" "path_contained (oe_cwd oe) (cd_path f) (cd_root f)" by auto
  with that chosen_entry_mem [OF e(1)] evidence_bound_facts(1) [OF xh(3)] xh b(2,3) file_binding_fields [OF b(1)] show thesis by simp
qed

text \<open>The entry of a planned file: it is of the same path and of the same transcript, and its manifest, receipt and
  verified restore are of the digest and the size that were read.\<close>

definition entry_names :: "offload_env \<Rightarrow> js \<Rightarrow> candidate \<Rightarrow> fingerprint \<Rightarrow> string \<Rightarrow> bool" where
  "entry_names oe e f after h \<longleftrightarrow>
     (\<exists>path. js_get e ''sourcePath'' = JStr path \<and> path_resolve (oe_cwd oe) path = path_resolve (oe_cwd oe) (cd_path f)) \<and>
     exact_identity e f \<and> fp_same (fp_value after) (js_get e ''statFingerprint'') \<and>
     field_in [''restore_verified'', ''eviction_eligible''] (js_get e ''state'') \<and>
     manifest_ok (oe_env oe) (js_get e ''manifest'') \<and> receipt_ok (oe_env oe) (js_get e ''receipt'') \<and>
     js_get (js_get e ''manifest'') ''contentHash'' = JStr h \<and> js_get (js_get e ''manifest'') ''byteSize'' = jint (int (fp_size after)) \<and>
     js_get (js_get e ''receipt'') ''contentHash'' = JStr h \<and>
     js_get (js_get e ''receipt'') ''verificationStatus'' = JStr ''replication_confirmed'' \<and>
     js_get (js_get e ''verification'') ''contentHash'' = JStr h"

lemma found_entry_names:
  assumes "e \<in> set (find_entries oe f sources)" "evidence_bound (oe_env oe) e f after h = Some True"
  shows "e \<in> set (map snd (js_entries sources)) \<and> entry_names oe e f after h"
proof -
  have "exact_identity e f" using assms(2) by (simp add: evidence_bound_def)
  with assms(1) evidence_bound_facts [OF assms(2)] show ?thesis
    by (auto simp: find_entries_def entry_names_def split: js.splits)
qed

text \<open>C17. Evidence is matched to the right file and the right bytes.  Each planned file stands for one of the files
  that were found: it shows that file's provider and the hash of that file's path.  If its evidence is said to
  match, that very file is a regular file inside its root that was read in a stable snapshot, the plan binds
  the digest, the fingerprint and the size of this read, and the ledger has an entry for the same path and the
  same transcript, in a verified state, with a valid manifest and receipt, whose fingerprint, manifest,
  receipt and verified restore all name what was read; the plan binds that entry's version and receipt.
  If it is not said to match, the file is blocked for the lack of eligible evidence, or its planning failed.\<close>

theorem planner_binds_evidence:
  assumes "p \<in> set (op_files (build_plan oe sources observations clock ttl hours uploads cap files unsupported failures warnings))"
  shows "\<exists>f st r. (f, st, r) \<in> set files \<and> p = classify oe sources observations clock hours f st r \<and>
    pn_provider p = cd_cli f \<and> pn_path_hash p = path_hash (oe_env oe) (path_resolve (oe_cwd oe) (cd_path f)) \<and>
    js_get (pn_binding p) ''pathHash'' = JStr (pn_path_hash p) \<and>
    (if pn_matched p
     then \<exists>links initial after h e.
       st = FileStat Regular links initial \<and> r = ReadAs after h \<and> path_contained (oe_cwd oe) (cd_path f) (cd_root f) \<and>
       js_get (pn_binding p) ''contentHash'' = JStr h \<and> js_get (pn_binding p) ''statFingerprint'' = fp_value after \<and> pn_bytes p = fp_size after \<and>
       e \<in> set (map snd (js_entries sources)) \<and> entry_names oe e f after h \<and>
       js_get (pn_binding p) ''archiveVersionId'' = or_null (js_get e ''archiveVersionId'') \<and>
       hash_or_null (oe_env oe) (js_get e ''receipt'') = Some (js_get (pn_binding p) ''receiptHash'')
     else ''archive_evidence_not_eligible'' \<in> set (pn_reasons p) \<or> ''planning_error'' \<in> set (pn_reasons p))"
proof -
  obtain f st r where f: "(f, st, r) \<in> set files" "p = classify oe sources observations clock hours f st r"
    using assms by (auto simp: planned_of_files)
  have matched: "\<exists>links initial after h e.
       st = FileStat Regular links initial \<and> r = ReadAs after h \<and> path_contained (oe_cwd oe) (cd_path f) (cd_root f) \<and>
       js_get (pn_binding p) ''contentHash'' = JStr h \<and> js_get (pn_binding p) ''statFingerprint'' = fp_value after \<and> pn_bytes p = fp_size after \<and>
       e \<in> set (map snd (js_entries sources)) \<and> entry_names oe e f after h \<and>
       js_get (pn_binding p) ''archiveVersionId'' = or_null (js_get e ''archiveVersionId'') \<and>
       hash_or_null (oe_env oe) (js_get e ''receipt'') = Some (js_get (pn_binding p) ''receiptHash'')" if "pn_matched p"
  proof -
    have "classified oe sources observations clock hours f st r = Some p"
      using that f(2) by (auto simp: classify_def planning_failed_def split: option.splits prod.splits)
    from this that show ?thesis by (rule classified_matched) (use found_entry_names in blast)
  qed
  show ?thesis
    by (rule exI [of _ f], rule exI [of _ st], rule exI [of _ r])
      (use f(1) planned_identity [of oe sources observations clock hours f st r, folded f(2)] f(2)
        planned_unmatched [of oe sources observations clock hours f st r, folded f(2)] matched in simp)
qed

text \<open>The archived sample, planned.\<close>

definition sample_fp :: fingerprint where
  "sample_fp = \<lparr>fp_device = ''1'', fp_inode = ''2'', fp_size = 1, fp_mtime = ''0'', fp_ctime = ''0''\<rparr>"

definition planner_entry :: js where
  "planner_entry = spread (sample_source ''restore_verified'' []) [(''statFingerprint'', fp_value sample_fp)]"

definition sample_candidate :: candidate where
  "sample_candidate =
     \<lparr>cd_cli = ''d'', cd_path = ''/x'', cd_root = ''/'', cd_brain = JStr ''b'', cd_session = JStr ''1'', cd_confidence = JStr ''encoded_path'',
      cd_stat = fp_value sample_fp, cd_size = jint 1\<rparr>"

definition sample_planner :: offload_env where
  "sample_planner = \<lparr>oe_env = sample_env, oe_cwd = ''/'', oe_locale = compare_code_units\<rparr>"

lemma sample_given [simp]:
  "cd_cli sample_candidate = ''d''" "cd_path sample_candidate = ''/x''" "cd_root sample_candidate = ''/''" "cd_brain sample_candidate = JStr ''b''"
  "cd_session sample_candidate = JStr ''1''" "cd_stat sample_candidate = fp_value sample_fp"
  "oe_env sample_planner = sample_env" "oe_cwd sample_planner = ''/''"
  by (simp_all add: sample_candidate_def sample_planner_def)

lemma planner_entry_fields:
  "js_get planner_entry k = (if k = ''statFingerprint'' then fp_value sample_fp else js_get (sample_source ''restore_verified'' []) k)"
  by (simp add: planner_entry_def js_get_spread)

lemma planner_bound: "evidence_bound sample_env planner_entry sample_candidate sample_fp sample_digest = Some True"
proof -
  have identity: "js_get (js_get sample_receipt ''logicalIdentity'') ''brainId'' = JStr ''b''"
      "js_get (js_get sample_receipt ''logicalIdentity'') ''provider'' = JStr ''d''"
      "js_get (js_get sample_receipt ''logicalIdentity'') ''sessionId'' = JStr ''1''"
    by (simp_all add: sample_receipt_def sample_identity_fields_def sample_facts_def)
  have manifest: "validate_archive_manifest unary_text (\<lambda>_. sample_digest) (\<lambda>_. Fin 0) (\<lambda>_. ''2026-01-01T00:00:00'') (sample_manifest ''x'') = Some []"
    using sample_manifest_ok by (simp add: manifest_ok_def)
  have fp: "fp_complete (fp_value sample_fp)" "fp_same (fp_value sample_fp) (fp_value sample_fp)"
    by (simp_all add: fp_complete_def fp_same_def fp_value_def sample_fp_def same_value_def max_safe_integer_def)
  have exact: "exact_identity planner_entry sample_candidate"
    by (simp add: exact_identity_def Let_def planner_entry_fields sample_source_fields sample_manifest_fields identity same_value_def
      del: js_get.simps)
  have trust: "js_get sample_trust ''receiptHash'' = JStr sample_digest" "js_get sample_trust ''manifestHash'' = JStr sample_digest"
      "js_get sample_trust ''archiveVersionId'' = sample_address" "js_get sample_trust ''contentHash'' = JStr sample_digest"
      "js_get sample_trust ''byteSize'' = jint 1" "js_get sample_trust ''storageGeneration'' = JStr ''g''" "js_get sample_trust ''brainId'' = JStr ''b''"
      "js_get sample_trust ''provider'' = JStr ''d''" "js_get sample_trust ''sessionId'' = JStr ''1''" "js_get sample_trust ''sourceMachineId'' = JStr ''d''"
      "js_get sample_trust ''manifestLookup'' = JStr ''authoritative_match''"
      "js_get sample_trust ''durabilityPolicy'' = JStr ''versioned_replicated_confirmed''"
      "js_get sample_trust ''serverTimePolicy'' = JStr ''authenticated_store_time''"
      "js_get sample_trust ''bindingPolicy'' = JStr ''exact_manifest_content_size_generation''"
    by (simp_all add: sample_trust_def sample_facts_def sample_identity_fields_def)
  have receipt: "receipt_holds planner_entry sample_digest 1"
    by (simp add: receipt_holds_def Let_def storage_generation_def planner_entry_fields sample_source_fields sample_manifest_fields sample_address_def
      same_value_def del: js_get.simps)
      (simp add: sample_receipt_def sample_facts_def sample_address_def)
  have verification: "verification_holds planner_entry sample_digest 1"
    by (simp add: verification_holds_def Let_def storage_generation_def planner_entry_fields sample_source_fields sample_manifest_fields sample_address_def
      same_value_def del: js_get.simps)
      (simp add: sample_verification_def sample_facts_def sample_address_def)
  have truthy: "truthy planner_entry" by (simp add: planner_entry_def spread_def)
  have size: "fp_size sample_fp = 1" by (simp add: sample_fp_def)
  show ?thesis
    by (simp add: evidence_bound_def truthy size manifest fp exact receipt verification planner_entry_fields sample_source_fields sample_receipt_ok
        sample_verification_ok manifest_holds_def trust_holds_def hash_equals_def sample_hash sample_serializable Let_def trust same_value_def
        storage_generation_def sample_manifest_fields sample_address_def field_in_def del: js_get.simps One_nat_def)
qed

lemma sample_planned:
  "pn_matched (classify sample_planner (JObj [(''s'', planner_entry)]) [] 0 24 sample_candidate (FileStat Regular 1 sample_fp) (ReadAs sample_fp sample_digest))"
proof -
  have path: "path_contained ''/'' ''/x'' ''/''" by code_simp
  have resolve: "path_resolve ''/'' ''/x'' = ''/x''" by code_simp
  have entries: "find_entries sample_planner sample_candidate (JObj [(''s'', planner_entry)]) = [planner_entry]"
    by (simp add: find_entries_def planner_entry_fields sample_source_fields resolve sort_by_def del: js_get.simps)
  have hashes: "hash_or_null sample_env sample_receipt = Some (JStr sample_digest)" "hash_or_null sample_env sample_trust = Some (JStr sample_digest)"
      "hash_or_null sample_env sample_verification = Some (JStr sample_digest)"
    by (simp_all add: hash_or_null_def sample_hash sample_truthy sample_serializable)
      (simp_all add: sample_trust_def sample_verification_def sample_facts_def sample_identity_fields_def sample_address_def sample_time_def evidence_schema_def)
  have chosen: "chosen_entry sample_planner sample_candidate (Some sample_fp) (Some sample_digest) [planner_entry] = Some planner_entry"
    by (simp add: chosen_entry_def planner_bound)
  have "is_digit_char (CHR ''0'')" by (simp add: is_digit_char_def)
  then have age: "\<exists>a. age_reasons 0 24 (Some sample_fp) = Some a" by (simp add: age_reasons_def sample_fp_def big_int_def)
  show ?thesis using age
    by (auto simp: classify_def classified_def Let_def observed_of_def file_binding_def entry_matched_def entries chosen
        planner_bound hashes path planner_entry_fields sample_source_fields split: prod.splits simp del: js_get.simps)
qed

theorem planner_binds_evidence_witness:
  "\<exists>p. op_files (build_plan sample_planner (JObj [(''s'', planner_entry)]) [] 0 900000 24 3 256
        [(sample_candidate, FileStat Regular 1 sample_fp, ReadAs sample_fp sample_digest)] [] [] []) = [p] \<and>
     pn_matched p \<and> js_get (pn_binding p) ''contentHash'' = JStr sample_digest \<and>
     entry_names sample_planner planner_entry sample_candidate sample_fp sample_digest"
proof -
  let ?p = "classify sample_planner (JObj [(''s'', planner_entry)]) [] 0 24 sample_candidate (FileStat Regular 1 sample_fp) (ReadAs sample_fp sample_digest)"
  have files: "op_files (build_plan sample_planner (JObj [(''s'', planner_entry)]) [] 0 900000 24 3 256
        [(sample_candidate, FileStat Regular 1 sample_fp, ReadAs sample_fp sample_digest)] [] [] []) = [?p]"
    by (simp add: planned_of_files sort_by_def)
  have "?p \<in> set (op_files (build_plan sample_planner (JObj [(''s'', planner_entry)]) [] 0 900000 24 3 256
        [(sample_candidate, FileStat Regular 1 sample_fp, ReadAs sample_fp sample_digest)] [] [] []))"
    unfolding files by simp
  from planner_binds_evidence [OF this] sample_planned
  have "js_get (pn_binding ?p) ''contentHash'' = JStr sample_digest \<and> entry_names sample_planner planner_entry sample_candidate sample_fp sample_digest"
    by auto
  with sample_planned files show ?thesis by blast
qed

end
