(* ===== verification/SyncState.thy ===== *)
theory SyncState
  imports MemoryConflict GlobalConfig
begin

text \<open>
  The sync state of transcript uploads, \<^verbatim>\<open>lib/sync-state/sync-state.js\<close>: byte offsets, failures
  with their cooldowns, and the bounded ledger of redaction blocks.  A state is the JavaScript
  object that the callers pass around; a function that changes it returns the new one.  Parameters:
  \<open>nt\<close> the text of a number, \<open>dp\<close> \<^verbatim>\<open>Date.parse\<close>, \<open>stamp_of\<close> \<^verbatim>\<open>toISOString\<close>, the clock and the process
  environment.
\<close>

section \<open>Policy of the redaction ledger\<close>

datatype sync_error = UnhealthySetting string | LedgerCapacity | MissingEventField | StateReadFailed string | NotAnObject

definition bounded_positive_integer :: "js \<Rightarrow> rat \<Rightarrow> rat \<Rightarrow> string \<Rightarrow> rat \<Rightarrow> sync_error + rat" where
  "bounded_positive_integer value fallback hard_max name minimum =
     (if js_nullish value \<or> value = JStr [] then Inr fallback
      else case js_number value of
        Fin q \<Rightarrow>
          throw_if (\<not> js_is_safe_integer (JNum (Fin q)) \<or> q < minimum \<or> q > hard_max) (UnhealthySetting name) (Inr q)
      | _ \<Rightarrow> Inl (UnhealthySetting name))"

record ledger_policy =
  lp_retention_ms :: rat
  lp_max_entries :: rat
  lp_max_bytes :: rat

definition env_value :: "env \<Rightarrow> string \<Rightarrow> js" where
  "env_value env k = (case env k of None \<Rightarrow> JUndef | Some s \<Rightarrow> JStr s)"

definition redaction_ledger_policy :: "env \<Rightarrow> js \<Rightarrow> sync_error + ledger_policy" where
  "redaction_ledger_policy env options =
     bind_r (bounded_positive_integer
       (js_coalesce (js_get options ''retentionMs'') (env_value env ''AGENTBOOTUP_REDACTION_LEDGER_RETENTION_MS''))
       (8 * 24 * 60 * 60000) (31 * 24 * 60 * 60000) ''RETENTION_MS'' (7 * 24 * 60 * 60000)) (\<lambda>retention.
     bind_r (bounded_positive_integer
       (js_coalesce (js_get options ''maxEntries'') (env_value env ''AGENTBOOTUP_REDACTION_LEDGER_MAX_ENTRIES''))
       2000 10000 ''MAX_ENTRIES'' 1) (\<lambda>entries.
     bind_r (bounded_positive_integer
       (js_coalesce (js_get options ''maxBytes'') (env_value env ''AGENTBOOTUP_REDACTION_LEDGER_MAX_BYTES''))
       (1024 * 1024) (4 * 1024 * 1024) ''MAX_BYTES'' 1) (\<lambda>bytes.
     Inr \<lparr>lp_retention_ms = retention, lp_max_entries = entries, lp_max_bytes = bytes\<rparr>)))"

section \<open>The ledger\<close>

definition or_text :: "(jsnum \<Rightarrow> string) \<Rightarrow> js \<Rightarrow> string \<Rightarrow> string" where
  "or_text nt v dflt = js_to_string nt (js_or v (JStr dflt))"

definition block_event :: "string \<Rightarrow> string \<Rightarrow> string \<Rightarrow> string \<Rightarrow> bool \<Rightarrow> js" where
  "block_event stamp path cli code permanent =
     JObj [(''at'', JStr stamp), (''file'', JStr path), (''cli'', JStr cli), (''code'', JStr code),
           (''permanent'', JBool permanent)]"

definition normalize_entry ::
    "(jsnum \<Rightarrow> string) \<Rightarrow> (string \<Rightarrow> jsnum) \<Rightarrow> (rat \<Rightarrow> string) \<Rightarrow> js \<Rightarrow> js option" where
  "normalize_entry nt dp stamp_of e =
     (if \<not> (js_is_record e \<or> js_is_arr e) then None
      else let path = take 1024 (or_text nt (js_get e ''file'') []);
               cli = take 64 (or_text nt (js_get e ''cli'') []);
               code = take 128 (or_text nt (js_get e ''code'') [])
           in case dp (or_text nt (js_get e ''at'') []) of
                Fin t \<Rightarrow> if path = [] \<or> cli = [] \<or> code = [] then None
                        else Some (block_event (stamp_of t) path cli code (js_get e ''permanent'' = JBool True))
              | _ \<Rightarrow> None)"

definition normalize_ledger ::
    "(jsnum \<Rightarrow> string) \<Rightarrow> (string \<Rightarrow> jsnum) \<Rightarrow> (rat \<Rightarrow> string) \<Rightarrow> js \<Rightarrow> js list" where
  "normalize_ledger nt dp stamp_of v = List.map_filter (normalize_entry nt dp stamp_of) (js_elems v)"

definition entry_recent :: "(string \<Rightarrow> jsnum) \<Rightarrow> rat \<Rightarrow> js \<Rightarrow> bool" where
  "entry_recent dp cutoff e =
     (case js_get e ''at'' of JStr s \<Rightarrow> (case dp s of Fin t \<Rightarrow> cutoff \<le> t | PosInf \<Rightarrow> True | _ \<Rightarrow> False) | _ \<Rightarrow> False)"

definition ledger_fits :: "(jsnum \<Rightarrow> string) \<Rightarrow> ledger_policy \<Rightarrow> js list \<Rightarrow> bool" where
  "ledger_fits nt policy ledger \<longleftrightarrow>
     of_nat (length ledger) \<le> lp_max_entries policy \<and>
     of_nat (text_bytes (json_text nt (JArr ledger))) \<le> lp_max_bytes policy"

record sync_world =
  sw_nt :: "jsnum \<Rightarrow> string"
  sw_dp :: "string \<Rightarrow> jsnum"
  sw_iso :: "rat \<Rightarrow> string"
  sw_env :: env

definition bounded_ledger :: "sync_world \<Rightarrow> js \<Rightarrow> rat \<Rightarrow> js \<Rightarrow> sync_error + js list" where
  "bounded_ledger sw value now options =
     bind_r (redaction_ledger_policy (sw_env sw) options) (\<lambda>policy.
     let ledger = filter (entry_recent (sw_dp sw) (now - lp_retention_ms policy))
                    (normalize_ledger (sw_nt sw) (sw_dp sw) (sw_iso sw) value)
     in throw_if (\<not> ledger_fits (sw_nt sw) policy ledger) LedgerCapacity (Inr ledger))"

definition js_put :: "string \<Rightarrow> js \<Rightarrow> js \<Rightarrow> js" where
  "js_put k v st = JObj (AList.update k v (js_entries st))"

definition capacity_probe :: "(rat \<Rightarrow> string) \<Rightarrow> rat \<Rightarrow> js" where
  "capacity_probe stamp_of now = block_event (stamp_of now) (replicate 1024 nul) (replicate 64 nul) (replicate 128 nul) True"

definition reconcile_ledger_health :: "sync_world \<Rightarrow> js \<Rightarrow> rat \<Rightarrow> js \<Rightarrow> sync_error + bool \<times> js" where
  "reconcile_ledger_health sw st now options =
     bind_r (redaction_ledger_policy (sw_env sw) options) (\<lambda>policy.
     bind_r (bounded_ledger sw (js_get st ''redactionBlockLedger'') now options) (\<lambda>ledger.
     let before = json_text (sw_nt sw) (js_or (js_get st ''redactionBlockLedger'') (JArr []));
         st1 = js_put ''redactionBlockLedger'' (JArr ledger) st;
         changed = (before \<noteq> json_text (sw_nt sw) (JArr ledger))
     in if js_get st ''redactionLedgerUnhealthy'' \<noteq> JBool True then Inr (changed, st1)
        else if ledger_fits (sw_nt sw) policy (ledger @ [capacity_probe (sw_iso sw) now])
        then Inr (True, js_put ''redactionLedgerUnhealthy'' (JBool False) st1)
        else Inr (changed, st1)))"

text \<open>The ledger of the state has been replaced by its bounded form when the capacity error is thrown.\<close>

definition append_block_event :: "sync_world \<Rightarrow> js \<Rightarrow> js \<Rightarrow> rat \<Rightarrow> js \<Rightarrow> (sync_error + js) \<times> js" where
  "append_block_event sw st event now options =
     (case (redaction_ledger_policy (sw_env sw) options, bounded_ledger sw (js_get st ''redactionBlockLedger'') now options) of
        (Inl e, _) \<Rightarrow> (Inl e, st)
      | (_, Inl e) \<Rightarrow> (Inl e, st)
      | (Inr policy, Inr ledger) \<Rightarrow>
          (let nt = sw_nt sw;
               st1 = js_put ''redactionBlockLedger'' (JArr ledger) st;
               path = take 1024 (or_text nt (js_get event ''file'') []);
               cli = take 64 (or_text nt (js_get event ''cli'') []);
               code = take 128 (or_text nt (js_get event ''code'') ''redaction_failed'');
               entry = block_event (sw_iso sw now) path cli code (js_get event ''permanent'' = JBool True)
           in if path = [] \<or> cli = [] then (Inl MissingEventField, st1)
              else if \<not> ledger_fits nt policy (ledger @ [entry]) then (Inl LedgerCapacity, st1)
              else (Inr entry, js_put ''redactionBlockLedger'' (JArr (ledger @ [entry])) st)))"

section \<open>Offsets and their evidence\<close>

definition is_object :: "js \<Rightarrow> bool" where
  "is_object v \<longleftrightarrow> js_is_record v \<or> js_is_arr v"

fun flat_offset :: "js \<Rightarrow> js" where
  "flat_offset raw =
     (if is_object raw then (case js_get raw ''lastOffset'' of JNum n \<Rightarrow> JNum n | _ \<Rightarrow> raw) else raw)"

definition valid_offset :: "js \<Rightarrow> bool" where
  "valid_offset v = (case v of JNum (Fin q) \<Rightarrow> 0 \<le> q | _ \<Rightarrow> False)"

definition classify_legacy_offsets :: "js \<Rightarrow> (string \<times> js) list" where
  "classify_legacy_offsets offsets =
     map (\<lambda>(k, raw). (k, JObj [(''state'', JStr ''legacy_unverified''), (''byteOffset'', flat_offset raw),
                               (''authority'', JBool False), (''evictionEligible'', JBool False)]))
       (filter (\<lambda>(_, raw). valid_offset (flat_offset raw)) (js_spread (js_or offsets (JObj []))))"

definition canonical_transcript_offset_key :: "(jsnum \<Rightarrow> string) \<Rightarrow> js \<Rightarrow> js \<Rightarrow> string option" where
  "canonical_transcript_offset_key nt cli relative =
     (let cli_key = js_trim (or_text nt cli []);
          rel_key = js_trim (dropWhile (\<lambda>c. c = CHR ''/'')
                      (map (\<lambda>c. if c = CHR 0x5C then CHR ''/'' else c) (or_text nt relative [])))
      in if cli_key = [] \<or> rel_key = [] then None
         else Some (''transcript:'' @ cli_key @ '':'' @ rel_key))"

definition is_canonical_transcript_offset_key :: "js \<Rightarrow> bool" where
  "is_canonical_transcript_offset_key v = (case v of JStr s \<Rightarrow> starts_with s ''transcript:'' | _ \<Rightarrow> False)"

definition get_file_offset :: "js \<Rightarrow> string \<Rightarrow> js" where
  "get_file_offset st path =
     (let offsets = (if js_has_own st ''offsets'' then js_or (js_get st ''offsets'') (JObj []) else js_or st (JObj []));
          v = js_get offsets path
      in case (is_object v, js_get v ''lastOffset'') of
           (True, JNum n) \<Rightarrow> (case n of Fin q \<Rightarrow> if 0 \<le> q then JNum n else jint 0 | PosInf \<Rightarrow> JNum n | _ \<Rightarrow> jint 0)
         | _ \<Rightarrow> if valid_offset v then v else jint 0)"

section \<open>The state file\<close>

definition object_or_empty :: "js \<Rightarrow> js" where
  "object_or_empty v = (if is_object v then v else JObj [])"

definition empty_state :: js where
  "empty_state = JObj
     [(''offsets'', JObj []), (''transcriptFailures'', JObj []), (''transcriptPushFailures'', JObj []),
      (''redactionPartialOffsets'', JObj []), (''redactionBlockLedger'', JArr []),
      (''redactionLedgerUnhealthy'', JBool False)]"

text \<open>The structured state, as both the migration and the write normalise it.\<close>

definition structured_state :: "js \<Rightarrow> js list \<Rightarrow> js" where
  "structured_state v ledger =
     (let offsets = object_or_empty (js_get v ''offsets''); evidence = classify_legacy_offsets offsets in
      JObj ([(''offsets'', offsets), (''transcriptFailures'', object_or_empty (js_get v ''transcriptFailures'')),
             (''transcriptPushFailures'', object_or_empty (js_get v ''transcriptPushFailures'')),
             (''redactionPartialOffsets'', object_or_empty (js_get v ''redactionPartialOffsets'')),
             (''redactionBlockLedger'', JArr ledger),
             (''redactionLedgerUnhealthy'', JBool (js_get v ''redactionLedgerUnhealthy'' = JBool True))] @
            (if evidence \<noteq> [] then [(''legacyTranscriptEvidence'', JObj evidence)] else [])))"

definition bare_state :: "js \<Rightarrow> js" where
  "bare_state offsets = js_put ''offsets'' offsets empty_state"

definition migrate_sync_state :: "sync_world \<Rightarrow> rat \<Rightarrow> js \<Rightarrow> sync_error + js" where
  "migrate_sync_state sw now parsed =
     (if js_get parsed ''version'' = jint 2 \<or> js_get parsed ''version'' = jint 3
      then bind_r (bounded_ledger sw (js_get parsed ''redactionBlockLedger'') now (JObj [])) (\<lambda>ledger.
           Inr (structured_state parsed ledger))
      else throw_if (js_nullish parsed) NotAnObject (
           let rest = JObj (filter (\<lambda>(k, _). k \<noteq> ''version'') (js_spread parsed));
               evidence = classify_legacy_offsets rest
           in Inr (if evidence \<noteq> [] then JObj (js_entries (bare_state rest) @ [(''legacyTranscriptEvidence'', JObj evidence)])
                   else bare_state rest)))"

definition read_sync_state :: "sync_world \<Rightarrow> rat \<Rightarrow> config_file \<Rightarrow> sync_error + js" where
  "read_sync_state sw now f =
     (case f of
        MissingFile \<Rightarrow> Inr empty_state
      | UnparsableFile \<Rightarrow> Inr empty_state
      | ConfigDoc v \<Rightarrow> migrate_sync_state sw now v
      | BrokenFile code \<Rightarrow> Inl (StateReadFailed code))"

text \<open>The file as it is read back: the text that \<^verbatim>\<open>JSON.stringify\<close> writes, parsed.\<close>

definition write_sync_state :: "sync_world \<Rightarrow> rat \<Rightarrow> js \<Rightarrow> sync_error + config_file" where
  "write_sync_state sw now st =
     (if js_has_own st ''offsets''
      then bind_r (bounded_ledger sw (js_get st ''redactionBlockLedger'') now (JObj [])) (\<lambda>ledger.
           Inr (ConfigDoc (json_stored (JObj ((''version'', jint 2) # js_entries (structured_state st ledger))))))
      else Inr (ConfigDoc (json_stored (JObj ((''version'', jint 2) # js_entries (bare_state (js_or st (JObj []))))))))"

section \<open>Failures and cooldowns\<close>

text \<open>The brain failures and the push failures are two maps of the state, \<open>field\<close> names the map.\<close>

definition get_failure :: "string \<Rightarrow> js \<Rightarrow> string \<Rightarrow> js" where
  "get_failure field st key =
     (let entry = js_get (js_get st field) key in if key \<noteq> [] \<and> is_object entry then entry else JNull)"

definition cooling_down :: "sync_world \<Rightarrow> js \<Rightarrow> rat \<Rightarrow> bool" where
  "cooling_down sw failure now =
     (case sw_dp sw (or_text (sw_nt sw) (js_get failure ''cooldownUntil'') []) of Fin t \<Rightarrow> now < t | _ \<Rightarrow> False)"

definition is_brain_quarantined :: "sync_world \<Rightarrow> js \<Rightarrow> string \<Rightarrow> rat \<Rightarrow> bool" where
  "is_brain_quarantined sw st brain now =
     (let f = get_failure ''transcriptFailures'' st brain in f \<noteq> JNull \<and> cooling_down sw f now)"

definition is_push_quarantined :: "sync_world \<Rightarrow> js \<Rightarrow> string \<Rightarrow> rat \<Rightarrow> bool" where
  "is_push_quarantined sw st key now =
     (let f = get_failure ''transcriptPushFailures'' st key in
      f \<noteq> JNull \<and> (js_get f ''mode'' = JStr ''permanent'' \<or> cooling_down sw f now))"

definition plus_one :: "(jsnum \<Rightarrow> string) \<Rightarrow> js \<Rightarrow> js" where
  "plus_one nt v =
     (case js_or v (jint 0) of
        JNum (Fin q) \<Rightarrow> JNum (Fin (q + 1))
      | JNum n \<Rightarrow> JNum n
      | JBool _ \<Rightarrow> jint 2
      | w \<Rightarrow> JStr (js_to_string nt w @ ''1''))"

definition failure_entry :: "sync_world \<Rightarrow> js \<Rightarrow> js \<Rightarrow> rat \<Rightarrow> rat \<Rightarrow> (string \<times> js) list" where
  "failure_entry sw previous failure cooldown now =
     [(''status'', js_get failure ''status''), (''code'', js_or (js_get failure ''code'') (JStr ''unknown'')),
      (''message'', js_or (js_get failure ''message'') (JStr [])), (''failedAt'', JStr (sw_iso sw now)),
      (''cooldownUntil'', JStr (sw_iso sw (now + cooldown))),
      (''consecutiveFailures'', plus_one (sw_nt sw) (js_get previous ''consecutiveFailures''))]"

definition put_failure :: "string \<Rightarrow> string \<Rightarrow> js \<Rightarrow> js \<Rightarrow> js" where
  "put_failure field key entry st = js_put field (js_put key entry (object_or_empty (js_get st field))) st"

definition record_brain_failure :: "sync_world \<Rightarrow> js \<Rightarrow> string \<Rightarrow> js \<Rightarrow> rat \<Rightarrow> rat \<Rightarrow> js" where
  "record_brain_failure sw st brain failure cooldown now =
     put_failure ''transcriptFailures'' brain
       (JObj (failure_entry sw (get_failure ''transcriptFailures'' st brain) failure cooldown now)) st"

definition record_push_failure :: "sync_world \<Rightarrow> js \<Rightarrow> string \<Rightarrow> js \<Rightarrow> rat \<Rightarrow> rat \<Rightarrow> js \<Rightarrow> js" where
  "record_push_failure sw st key failure cooldown now metadata =
     (let previous = get_failure ''transcriptPushFailures'' st key in
      put_failure ''transcriptPushFailures'' key
        (JObj (failure_entry sw previous failure cooldown now @
          [(''mode'', js_or (js_get metadata ''mode'') (js_or (js_get previous ''mode'') (JStr ''backoff''))),
           (''retryAfterMs'', JNum (Fin cooldown))])) st)"

definition clear_failure :: "string \<Rightarrow> js \<Rightarrow> string \<Rightarrow> bool \<times> js" where
  "clear_failure field st key =
     (if js_has_own (js_get st field) key
      then (True, js_put field (JObj (filter (\<lambda>(k, _). k \<noteq> key) (js_entries (js_get st field)))) st)
      else (False, st))"

definition prune_failures :: "string \<Rightarrow> (js \<Rightarrow> bool) \<Rightarrow> js \<Rightarrow> bool \<times> js" where
  "prune_failures field keep st =
     (let m = js_get st field in
      if js_is_record m \<and> list_ex (\<lambda>(_, f). \<not> keep f) (js_entries m)
      then (True, js_put field (JObj (filter (\<lambda>(_, f). keep f) (js_entries m))) st)
      else (False, st))"

definition prune_brain_failures :: "sync_world \<Rightarrow> js \<Rightarrow> rat \<Rightarrow> bool \<times> js" where
  "prune_brain_failures sw st now = prune_failures ''transcriptFailures'' (\<lambda>f. cooling_down sw f now) st"

definition prune_push_failures :: "sync_world \<Rightarrow> js \<Rightarrow> rat \<Rightarrow> bool \<times> js" where
  "prune_push_failures sw st now =
     prune_failures ''transcriptPushFailures'' (\<lambda>f. js_get f ''mode'' = JStr ''permanent'' \<or> cooling_down sw f now) st"

section \<open>Sizes\<close>

lemma text_bytes_simps [simp]:
  "text_bytes [] = 0" "text_bytes (c # s) = unit_bytes (of_char c) + text_bytes s"
  "text_bytes (s @ t) = text_bytes s + text_bytes t"
  by (simp_all add: text_bytes_def utf8_codes)

lemma unit_bytes_small: "n < 128 \<Longrightarrow> unit_bytes n = 1" "n < 256 \<Longrightarrow> unit_bytes n \<le> 2"
  by (simp_all add: unit_bytes_def)

lemma text_bytes_units: "\<forall>n \<in> set ns. n < 256 \<Longrightarrow> text_bytes (map char_of ns) = (\<Sum>n\<leftarrow>ns. unit_bytes n)"
  by (induction ns) auto

lemma escape_units:
  "n < 32 \<Longrightarrow> (\<forall>m \<in> set (escape2 n). m < 128)"
  "short_escape n = Some e \<Longrightarrow> e < 128"
  by (auto simp: escape2_def hex_unit_def short_escape_def split: if_splits)

lemma quote_body_units:
  assumes "\<forall>n \<in> set ns. n < 256"
  shows "(\<forall>m \<in> set (quote_body ns). m < 256) \<and> (\<Sum>m\<leftarrow>quote_body ns. unit_bytes m) \<le> 6 * length ns"
  using assms
proof (induction ns)
  case (Cons n ns)
  have small: "(\<forall>m \<in> set ms. m < 128) \<Longrightarrow> (\<Sum>m\<leftarrow>ms. unit_bytes m) = length ms" for ms
    by (induction ms) (auto simp: unit_bytes_small)
  have no_surrogate: "\<not> high_surrogate n" "\<not> low_surrogate n"
    using Cons.prems by auto
  consider (short) e where "short_escape n = Some e" | (control) "short_escape n = None" "n \<le> 0x1f"
    | (plain) "short_escape n = None" "\<not> n \<le> 0x1f"
    by fastforce
  then show ?case
  proof cases
    case short
    with escape_units(2) [OF short] Cons show ?thesis by (auto simp: unit_bytes_small)
  next
    case control
    then have six: "\<forall>m \<in> set (escape2 n). m < 128" using escape_units(1) [of n] by simp
    then have "(\<Sum>m\<leftarrow>escape2 n. unit_bytes m) = 6" using small [OF six] by (simp add: escape2_def)
    with control six Cons show ?thesis by (force simp: no_surrogate)
  next
    case plain
    have "unit_bytes n \<le> 2" using Cons.prems by (simp add: unit_bytes_small)
    with plain Cons show ?thesis by (auto simp: no_surrogate)
  qed
qed simp

lemma codes_small: "\<forall>n \<in> set (codes s). n < 256"
  by (auto simp: codes_def)

lemma json_string_bytes: "text_bytes (json_string s) \<le> 2 + 6 * length s"
proof -
  have "text_bytes (json_string s) = 2 + (\<Sum>m\<leftarrow>quote_body (codes s). unit_bytes m)"
    using quote_body_units [OF codes_small [of s]] by (simp add: json_string_def quote_json_string_def text_bytes_units unit_bytes_small)
  with quote_body_units [OF codes_small [of s]] show ?thesis by (simp add: codes_def)
qed

lemma json_nuls_bytes: "text_bytes (json_string (replicate n nul)) = 2 + 6 * n"
proof -
  have "quote_body (replicate n 0) = concat (replicate n (escape2 0))" for n
    by (induction n) (simp_all add: short_escape_def)
  moreover have "codes (replicate n nul) = replicate n 0"
    by (simp add: codes_def nul_def)
  moreover have "text_bytes (map char_of (concat (replicate n (escape2 0)))) = 6 * n" for n
    by (induction n) (simp_all add: escape2_def hex_unit_def unit_bytes_small)
  ultimately show ?thesis
    by (simp add: json_string_def quote_json_string_def unit_bytes_small)
qed

text \<open>The size of an event: its texts, and 47 or 48 bytes for what surrounds them.\<close>

lemma block_event_bytes:
  "text_bytes (json_text nt (block_event stamp path cli code permanent)) =
     text_bytes (json_string stamp) + text_bytes (json_string path) + text_bytes (json_string cli) +
     text_bytes (json_string code) + (if permanent then 47 else 48)"
proof -
  have keys: "text_bytes (json_string ''at'') = 4" "text_bytes (json_string ''file'') = 6" "text_bytes (json_string ''cli'') = 5"
    "text_bytes (json_string ''code'') = 6" "text_bytes (json_string ''permanent'') = 11"
    by (simp_all add: json_string_def quote_json_string_def codes_def short_escape_def unit_bytes_def)
  show ?thesis by (simp add: block_event_def keys unit_bytes_def)
qed

definition joined_bytes :: "(jsnum \<Rightarrow> string) \<Rightarrow> js list \<Rightarrow> nat" where
  "joined_bytes nt vs = text_bytes (join_with '','' (map (json_text nt) vs))"

lemma joined_bytes_Cons:
  "joined_bytes nt (v # vs) = text_bytes (json_text nt v) + (if vs = [] then 0 else 1 + joined_bytes nt vs)"
  by (cases vs) (simp_all add: joined_bytes_def unit_bytes_def)

lemma joined_bytes_snoc:
  "joined_bytes nt (vs @ [v]) = (if vs = [] then 0 else joined_bytes nt vs + 1) + text_bytes (json_text nt v)"
  by (induction vs) (simp_all add: joined_bytes_Cons joined_bytes_def [of nt "[]"])

lemma joined_bytes_filter: "joined_bytes nt (filter P vs) \<le> joined_bytes nt vs"
  by (induction vs) (auto simp: joined_bytes_Cons joined_bytes_def [of nt "[]"] Cons_eq_filter_iff filter_empty_conv)

lemma array_bytes: "text_bytes (json_text nt (JArr vs)) = 2 + joined_bytes nt vs"
  by (simp add: joined_bytes_def unit_bytes_def)

lemma fits_filter: "ledger_fits nt policy vs \<Longrightarrow> ledger_fits nt policy (filter P vs)"
  unfolding ledger_fits_def array_bytes
  using joined_bytes_filter [of nt P vs] length_filter_le [of P vs]
  by (meson add_left_mono of_nat_mono order_trans)

lemma fits_replace_last:
  assumes "ledger_fits nt policy (vs @ [v])" and "text_bytes (json_text nt w) \<le> text_bytes (json_text nt v)"
  shows "ledger_fits nt policy (vs @ [w])"
proof -
  have "joined_bytes nt (vs @ [w]) \<le> joined_bytes nt (vs @ [v])"
    using assms(2) by (simp add: joined_bytes_snoc)
  then have "(of_nat (2 + joined_bytes nt (vs @ [w])) :: rat) \<le> of_nat (2 + joined_bytes nt (vs @ [v]))"
    by (intro of_nat_mono) simp
  with assms(1) show ?thesis unfolding ledger_fits_def array_bytes by (auto intro: order_trans)
qed

section \<open>Normalised ledgers\<close>

text \<open>What the code relies on of dates: the stamp of a parsed time parses to that time.\<close>

definition dates_agree :: "sync_world \<Rightarrow> bool" where
  "dates_agree sw \<longleftrightarrow> (\<forall>s t. sw_dp sw s = Fin t \<longrightarrow> sw_dp sw (sw_iso sw t) = Fin t)"

definition normal_entry :: "sync_world \<Rightarrow> js \<Rightarrow> bool" where
  "normal_entry sw e \<longleftrightarrow> normalize_entry (sw_nt sw) (sw_dp sw) (sw_iso sw) e = Some e"

lemma or_text_str [simp]: "or_text nt (JStr s) [] = s"
  by (cases s) (simp_all add: or_text_def js_or_def)

lemma normalized_again:
  assumes "dates_agree sw" and "normalize_entry (sw_nt sw) (sw_dp sw) (sw_iso sw) v = Some e"
  shows "normal_entry sw e"
proof -
  obtain t path cli code b where t: "sw_dp sw (or_text (sw_nt sw) (js_get v ''at'') []) = Fin t"
    and e: "e = block_event (sw_iso sw t) (take 1024 path) (take 64 cli) (take 128 code) b"
    and ne: "take 1024 path \<noteq> []" "take 64 cli \<noteq> []" "take 128 code \<noteq> []"
    using assms(2) by (auto simp: normalize_entry_def Let_def split: if_splits jsnum.splits)
  have "sw_dp sw (sw_iso sw t) = Fin t" using assms(1) t by (auto simp: dates_agree_def)
  then show ?thesis
    using ne by (simp add: normal_entry_def normalize_entry_def e block_event_def Let_def del: take_eq_Nil)
qed

lemma normalized_normal:
  "dates_agree sw \<Longrightarrow> e \<in> set (normalize_ledger (sw_nt sw) (sw_dp sw) (sw_iso sw) v) \<Longrightarrow> normal_entry sw e"
  by (auto simp: normalize_ledger_def map_filter_def dest: normalized_again)

lemma normalize_normal: "\<forall>e \<in> set es. normal_entry sw e \<Longrightarrow> normalize_ledger (sw_nt sw) (sw_dp sw) (sw_iso sw) (JArr es) = es"
  by (induction es) (simp_all add: normalize_ledger_def map_filter_def normal_entry_def)

lemma bounded_Inr:
  "bounded_ledger sw v now options = Inr ledger \<longleftrightarrow>
    (\<exists>policy. redaction_ledger_policy (sw_env sw) options = Inr policy \<and>
       ledger = filter (entry_recent (sw_dp sw) (now - lp_retention_ms policy))
                  (normalize_ledger (sw_nt sw) (sw_dp sw) (sw_iso sw) v) \<and> ledger_fits (sw_nt sw) policy ledger)"
  by (auto simp: bounded_ledger_def Let_def)

lemma bounded_normal:
  assumes "dates_agree sw" and "bounded_ledger sw v now options = Inr ledger"
  shows "normalize_ledger (sw_nt sw) (sw_dp sw) (sw_iso sw) (JArr ledger) = ledger"
proof (rule normalize_normal)
  show "\<forall>e \<in> set ledger. normal_entry sw e"
    using assms(2) by (auto simp: bounded_Inr intro: normalized_normal [OF assms(1)])
qed

text \<open>A bounded ledger is bounded at any other time, under the same policy, and unchanged now.\<close>

lemma bounded_later:
  assumes "dates_agree sw" and "bounded_ledger sw v now options = Inr ledger"
  shows "\<exists>ledger'. bounded_ledger sw (JArr ledger) later options = Inr ledger'"
proof -
  obtain policy where "redaction_ledger_policy (sw_env sw) options = Inr policy" and "ledger_fits (sw_nt sw) policy ledger"
    using assms(2) by (auto simp: bounded_Inr)
  then show ?thesis by (simp add: bounded_Inr bounded_normal [OF assms] fits_filter)
qed

lemma bounded_again:
  assumes "dates_agree sw" and "bounded_ledger sw v now options = Inr ledger"
  shows "bounded_ledger sw (JArr ledger) now options = Inr ledger"
proof -
  obtain policy where "redaction_ledger_policy (sw_env sw) options = Inr policy" and "ledger_fits (sw_nt sw) policy ledger"
    and "filter (entry_recent (sw_dp sw) (now - lp_retention_ms policy)) ledger = ledger"
    using assms(2) by (auto simp: bounded_Inr)
  then show ?thesis by (simp add: bounded_Inr bounded_normal [OF assms])
qed

section \<open>Properties\<close>

lemma put_get: "js_get (js_put k v st) k' = (if k' = k then v else js_get st k')"
  by (cases st) (auto simp: js_put_def update_conv')

lemma structured_get:
  "js_get (structured_state v ledger) ''offsets'' = object_or_empty (js_get v ''offsets'')"
  "js_get (structured_state v ledger) ''transcriptFailures'' = object_or_empty (js_get v ''transcriptFailures'')"
  "js_get (structured_state v ledger) ''transcriptPushFailures'' = object_or_empty (js_get v ''transcriptPushFailures'')"
  "js_get (structured_state v ledger) ''redactionBlockLedger'' = JArr ledger"
  by (simp_all add: structured_state_def Let_def)

lemma object_entry: "js_get (object_or_empty v) k = js_get v k"
  by (cases v) (simp_all add: object_or_empty_def is_object_def)

lemma offset_of_structured:
  assumes "js_has_own st ''offsets''" and "js_has_own st' ''offsets''"
    and "js_get st' ''offsets'' = object_or_empty (js_get st ''offsets'')"
  shows "get_file_offset st' path = get_file_offset st path"
proof -
  have "js_get (js_or (object_or_empty v) (JObj [])) path = js_get (js_or v (JObj [])) path" for v
    by (cases v) (auto simp: object_or_empty_def is_object_def js_or_def)
  with assms show ?thesis by (simp add: get_file_offset_def)
qed

text \<open>A state that JSON can hold: none of its three maps has an undefined value, a NaN or an infinity in
  it.  Every state that was read from a file is one.\<close>

definition storable :: "js \<Rightarrow> bool" where
  "storable st \<longleftrightarrow>
     list_all (\<lambda>k. json_stored (js_get st k) = js_get st k) [''offsets'', ''transcriptFailures'', ''transcriptPushFailures'']"

lemma bounded_stored:
  assumes "bounded_ledger sw v now options = Inr ledger"
  shows "json_stored (JArr ledger) = JArr ledger"
proof -
  have "json_stored e = e \<and> e \<noteq> JUndef" if e: "e \<in> set ledger" for e
  proof -
    obtain x where "normalize_entry (sw_nt sw) (sw_dp sw) (sw_iso sw) x = Some e"
      using e assms by (auto simp: bounded_Inr normalize_ledger_def map_filter_def)
    then obtain stamp path cli code b where "e = block_event stamp path cli code b"
      by (auto simp: normalize_entry_def Let_def split: if_splits jsnum.splits)
    then show ?thesis by (simp add: block_event_def)
  qed
  then show ?thesis by (simp add: map_idI)
qed

lemma written_fields:
  assumes "bounded_ledger sw (js_get st ''redactionBlockLedger'') now (JObj []) = Inr ledger"
    and D: "D = json_stored (JObj ((''version'', jint 2) # js_entries (structured_state st ledger)))"
  shows "js_get D ''version'' = jint 2" "js_get D ''redactionBlockLedger'' = JArr ledger"
    "js_get D ''offsets'' = json_stored (object_or_empty (js_get st ''offsets''))"
    "js_get D ''transcriptFailures'' = json_stored (object_or_empty (js_get st ''transcriptFailures''))"
    "js_get D ''transcriptPushFailures'' = json_stored (object_or_empty (js_get st ''transcriptPushFailures''))"
proof -
  let ?E = "JObj ((''version'', jint 2) # js_entries (structured_state st ledger))"
  have "distinct (js_keys ?E)" by (simp add: structured_state_def Let_def)
  from js_get_stored [OF this] have get: "js_get D k = json_stored (js_get ?E k)" for k by (simp only: D)
  have doc: "js_get ?E k = (if k = ''version'' then jint 2 else js_get (structured_state st ledger) k)" for k
    by (simp add: structured_state_def Let_def)
  show "js_get D ''version'' = jint 2" unfolding get doc by simp
  show "js_get D ''redactionBlockLedger'' = JArr ledger"
    unfolding get doc using bounded_stored [OF assms(1)] by (simp add: structured_get del: js_get.simps json_stored.simps)
  show "js_get D ''offsets'' = json_stored (object_or_empty (js_get st ''offsets''))"
    "js_get D ''transcriptFailures'' = json_stored (object_or_empty (js_get st ''transcriptFailures''))"
    "js_get D ''transcriptPushFailures'' = json_stored (object_or_empty (js_get st ''transcriptPushFailures''))"
    unfolding get doc by (simp_all add: structured_get del: js_get.simps json_stored.simps)
qed

lemma stored_or_empty: "json_stored v = v \<Longrightarrow> json_stored (object_or_empty v) = object_or_empty v"
  by (simp add: object_or_empty_def)

text \<open>C29. A structured state that JSON can hold and that was written can be read again at any later time,
  and means the same: every file has the byte offset it had, and every brain and file is quarantined
  exactly when it was.\<close>

theorem written_state_reads_back:
  assumes "dates_agree sw" and "js_has_own st ''offsets''" and "storable st" and "write_sync_state sw now st = Inr f"
  shows "\<exists>st'. read_sync_state sw later f = Inr st' \<and>
    (\<forall>path. get_file_offset st' path = get_file_offset st path) \<and>
    (\<forall>brain t. is_brain_quarantined sw st' brain t = is_brain_quarantined sw st brain t) \<and>
    (\<forall>key t. is_push_quarantined sw st' key t = is_push_quarantined sw st key t)"
proof -
  obtain ledger where l: "bounded_ledger sw (js_get st ''redactionBlockLedger'') now (JObj []) = Inr ledger"
    and f: "f = ConfigDoc (json_stored (JObj ((''version'', jint 2) # js_entries (structured_state st ledger))))"
    using assms(2,4) by (auto simp: write_sync_state_def simp del: json_stored.simps)
  define D where "D = json_stored (JObj ((''version'', jint 2) # js_entries (structured_state st ledger)))"
  note written = written_fields [OF l D_def]
  have stored: "json_stored (object_or_empty (js_get st k)) = object_or_empty (js_get st k)"
    if "k \<in> {''offsets'', ''transcriptFailures'', ''transcriptPushFailures''}" for k
    using that assms(3) by (auto simp: storable_def simp del: js_get.simps intro!: stored_or_empty)
  obtain ledger' where "bounded_ledger sw (JArr ledger) later (JObj []) = Inr ledger'"
    using bounded_later [OF assms(1) l] by blast
  then have read: "read_sync_state sw later f = Inr (structured_state D ledger')"
    unfolding f D_def [symmetric] read_sync_state_def migrate_sync_state_def by (simp add: written del: js_get.simps)
  let ?st = "structured_state D ledger'"
  have twice: "object_or_empty (object_or_empty v) = object_or_empty v" for v
    by (simp add: object_or_empty_def is_object_def)
  have fields: "js_get ?st ''offsets'' = object_or_empty (js_get st ''offsets'')"
    "js_get ?st ''transcriptFailures'' = object_or_empty (js_get st ''transcriptFailures'')"
    "js_get ?st ''transcriptPushFailures'' = object_or_empty (js_get st ''transcriptPushFailures'')"
    by (simp_all add: structured_get written stored twice del: js_get.simps json_stored.simps)
  have "js_has_own ?st ''offsets''" by (simp add: structured_state_def Let_def)
  from offset_of_structured [OF assms(2) this fields(1)]
  have "get_file_offset ?st path = get_file_offset st path" for path .
  moreover have "get_failure ''transcriptFailures'' ?st k = get_failure ''transcriptFailures'' st k"
    and "get_failure ''transcriptPushFailures'' ?st k = get_failure ''transcriptPushFailures'' st k" for k
    unfolding get_failure_def fields object_entry by simp_all
  ultimately show ?thesis
    using read by (auto simp: is_brain_quarantined_def is_push_quarantined_def)
qed

text \<open>Without it the offset of a file can change: an infinite one is written as null.\<close>

theorem infinite_offset_is_lost:
  assumes "dates_agree sw" and "write_sync_state sw now (JObj [(''offsets'', JObj [(p, JObj [(''lastOffset'', JNum PosInf)])])]) = Inr f"
  shows "get_file_offset (JObj [(''offsets'', JObj [(p, JObj [(''lastOffset'', JNum PosInf)])])]) p = JNum PosInf \<and>
    (\<exists>st'. read_sync_state sw later f = Inr st' \<and> get_file_offset st' p = jint 0)"
proof -
  let ?st = "JObj [(''offsets'', JObj [(p, JObj [(''lastOffset'', JNum PosInf)])])]"
  obtain ledger where l: "bounded_ledger sw (js_get ?st ''redactionBlockLedger'') now (JObj []) = Inr ledger"
    and f: "f = ConfigDoc (json_stored (JObj ((''version'', jint 2) # js_entries (structured_state ?st ledger))))"
    using assms(2) by (auto simp: write_sync_state_def simp del: json_stored.simps)
  define D where "D = json_stored (JObj ((''version'', jint 2) # js_entries (structured_state ?st ledger)))"
  note written = written_fields [OF l D_def]
  have offsets: "js_get D ''offsets'' = JObj [(p, JObj [(''lastOffset'', JNull)])]"
    unfolding written by (simp add: object_or_empty_def is_object_def)
  obtain ledger' where "bounded_ledger sw (JArr ledger) later (JObj []) = Inr ledger'"
    using bounded_later [OF assms(1) l] by blast
  then have "read_sync_state sw later f = Inr (structured_state D ledger')"
    unfolding f D_def [symmetric] read_sync_state_def migrate_sync_state_def by (simp add: written(1,2) del: js_get.simps)
  moreover have "js_get (structured_state D ledger') ''offsets'' = JObj [(p, JObj [(''lastOffset'', JNull)])]"
    unfolding structured_get offsets by (simp add: object_or_empty_def is_object_def)
  moreover have "js_has_own (structured_state D ledger') ''offsets''" by (simp add: structured_state_def Let_def)
  ultimately show ?thesis
    by (auto simp: get_file_offset_def js_or_def is_object_def valid_offset_def Let_def)
qed

text \<open>The reserve.  Once the ledger has been declared healthy again, the next block is durable: an
  event that names a file and a tool is appended, not refused, if it is permanent, whatever
  characters its texts are made of.\<close>

theorem recovered_ledger_takes_permanent_block:
  assumes "dates_agree sw" and "reconcile_ledger_health sw st now options = Inr (changed, st1)"
    and "js_get st ''redactionLedgerUnhealthy'' = JBool True" and "js_get st1 ''redactionLedgerUnhealthy'' = JBool False"
    and "js_get event ''file'' = JStr (c # path)" and "js_get event ''cli'' = JStr (d # cli)"
    and "js_get event ''permanent'' = JBool True"
  shows "is_ok (fst (append_block_event sw st1 event now options))"
proof -
  obtain policy ledger where policy: "redaction_ledger_policy (sw_env sw) options = Inr policy"
    and l: "bounded_ledger sw (js_get st ''redactionBlockLedger'') now options = Inr ledger"
    and fits: "ledger_fits (sw_nt sw) policy (ledger @ [capacity_probe (sw_iso sw) now])"
    and st1: "js_get st1 ''redactionBlockLedger'' = JArr ledger"
    using assms(2-4) by (auto simp: reconcile_ledger_health_def Let_def put_get split: if_splits)
  define code where "code = take 128 (or_text (sw_nt sw) (js_get event ''code'') ''redaction_failed'')"
  let ?entry = "block_event (sw_iso sw now) (take 1024 (c # path)) (take 64 (d # cli)) code True"
  have q: "text_bytes (json_string (take n s)) \<le> 2 + 6 * n" for n s
    using json_string_bytes [of "take n s"] by (simp add: min_def split: if_splits)
  have "text_bytes (json_text nt ?entry) \<le> text_bytes (json_text nt (capacity_probe (sw_iso sw) now))" for nt
    using q [of 1024 "c # path"] q [of 64 "d # cli"] q [of 128] unfolding capacity_probe_def block_event_bytes json_nuls_bytes code_def
    by (metis (no_types, lifting) add_mono le_refl)
  then have "ledger_fits (sw_nt sw) policy (ledger @ [?entry])"
    using fits by (rule fits_replace_last [rotated])
  moreover have "or_text nt (JStr (x # xs)) [] = x # xs" for nt x xs by simp
  ultimately show ?thesis
    using bounded_again [OF assms(1) l]
    by (simp add: append_block_event_def policy st1 assms(5-7) Let_def code_def [symmetric])
qed

definition utc_world :: sync_world where
  "utc_world = \<lparr>sw_nt = (\<lambda>_. ''1''), sw_dp = (\<lambda>_. Fin 0), sw_iso = (\<lambda>_. ''2026-01-01T00:00:00.000Z''), sw_env = (\<lambda>_. None)\<rparr>"

lemma utc_dates: "dates_agree utc_world"
  by (simp add: dates_agree_def utc_world_def)

definition pushed_state :: js where
  "pushed_state = JObj
     [(''offsets'', JObj [(''/t'', jint 7)]), (''transcriptFailures'', JObj []),
      (''transcriptPushFailures'', JObj [(''/t'', JObj [(''mode'', JStr ''permanent'')])])]"

lemma default_policy:
  "redaction_ledger_policy (\<lambda>_. None) (JObj []) =
     Inr \<lparr>lp_retention_ms = 691200000, lp_max_entries = 2000, lp_max_bytes = 1048576\<rparr>"
  by (simp add: redaction_ledger_policy_def bounded_positive_integer_def js_coalesce_def env_value_def)

theorem written_state_reads_back_witness:
  "\<exists>f st'. write_sync_state utc_world 0 pushed_state = Inr f \<and> read_sync_state utc_world 1 f = Inr st' \<and>
     get_file_offset st' ''/t'' = jint 7 \<and> is_push_quarantined utc_world st' ''/t'' 0"
proof -
  have "bounded_ledger utc_world JUndef 0 (JObj []) = Inr []"
    by (simp add: bounded_ledger_def utc_world_def default_policy normalize_ledger_def map_filter_def ledger_fits_def
        text_bytes_def utf8_codes unit_bytes_def)
  then obtain f where f: "write_sync_state utc_world 0 pushed_state = Inr f"
    by (simp add: write_sync_state_def pushed_state_def)
  have "js_has_own pushed_state ''offsets''" by (simp add: pushed_state_def)
  moreover have "storable pushed_state" by (simp add: pushed_state_def storable_def)
  ultimately obtain st' where
    "read_sync_state utc_world 1 f = Inr st'" "get_file_offset st' ''/t'' = get_file_offset pushed_state ''/t''"
    "is_push_quarantined utc_world st' ''/t'' 0 = is_push_quarantined utc_world pushed_state ''/t'' 0"
    using written_state_reads_back [OF utc_dates _ _ f, of 1] by blast
  moreover have "get_file_offset pushed_state ''/t'' = jint 7" "is_push_quarantined utc_world pushed_state ''/t'' 0"
    by (simp_all add: pushed_state_def get_file_offset_def js_or_def is_object_def valid_offset_def
        is_push_quarantined_def get_failure_def)
  ultimately show ?thesis using f by auto
qed

text \<open>The tightest bound under which the reserve still fits an empty ledger: 7377 bytes.\<close>

definition tight_options :: js where
  "tight_options = JObj [(''maxBytes'', jint 7377)]"

definition tight_state :: js where
  "tight_state = JObj [(''redactionLedgerUnhealthy'', JBool True)]"

definition nul_event :: "bool \<Rightarrow> js" where
  "nul_event permanent = JObj
     [(''file'', JStr (replicate 1024 nul)), (''cli'', JStr (replicate 64 nul)), (''code'', JStr (replicate 128 nul)),
      (''permanent'', JBool permanent)]"

lemma tight_policy:
  "redaction_ledger_policy (\<lambda>_. None) tight_options =
     Inr \<lparr>lp_retention_ms = 691200000, lp_max_entries = 2000, lp_max_bytes = 7377\<rparr>"
  by (simp add: redaction_ledger_policy_def bounded_positive_integer_def js_coalesce_def env_value_def tight_options_def
      max_safe_integer_def)

lemma utc_policy:
  "redaction_ledger_policy (sw_env utc_world) tight_options =
     Inr \<lparr>lp_retention_ms = 691200000, lp_max_entries = 2000, lp_max_bytes = 7377\<rparr>"
  by (simp add: utc_world_def tight_policy)

lemma stamp_bytes: "text_bytes (json_string ''2026-01-01T00:00:00.000Z'') = 26"
  by (simp add: json_string_def quote_json_string_def codes_def short_escape_def unit_bytes_def)

lemma one_event_bytes:
  "text_bytes (json_text nt (JArr [block_event ''2026-01-01T00:00:00.000Z'' (replicate 1024 nul) (replicate 64 nul)
     (replicate 128 nul) b])) = (if b then 7377 else 7378)"
proof -
  have one: "text_bytes (json_text nt (JArr [v])) = 2 + text_bytes (json_text nt v)" for v
    by (simp add: unit_bytes_def)
  show ?thesis unfolding one block_event_bytes json_nuls_bytes stamp_bytes by simp
qed

lemma tight_recovers:
  "\<exists>st1. reconcile_ledger_health utc_world tight_state 0 tight_options = Inr (True, st1) \<and>
     js_get st1 ''redactionBlockLedger'' = JArr [] \<and> js_get st1 ''redactionLedgerUnhealthy'' = JBool False"
proof -
  have "ledger_fits nt \<lparr>lp_retention_ms = 691200000, lp_max_entries = 2000, lp_max_bytes = 7377\<rparr>
      [capacity_probe (sw_iso utc_world) 0]" for nt
    unfolding ledger_fits_def capacity_probe_def by (simp only: utc_world_def sync_world.simps one_event_bytes) simp
  moreover have "bounded_ledger utc_world JUndef 0 tight_options = Inr []"
    by (simp add: bounded_ledger_def utc_world_def tight_policy normalize_ledger_def map_filter_def ledger_fits_def
        text_bytes_def utf8_codes unit_bytes_def)
  moreover have "js_get tight_state ''redactionBlockLedger'' = JUndef" "js_get tight_state ''redactionLedgerUnhealthy'' = JBool True"
    by (simp_all add: tight_state_def)
  ultimately have "reconcile_ledger_health utc_world tight_state 0 tight_options =
      Inr (True, js_put ''redactionLedgerUnhealthy'' (JBool False) (js_put ''redactionBlockLedger'' (JArr []) tight_state))"
    by (simp add: reconcile_ledger_health_def utc_policy Let_def del: js_get.simps)
  then show ?thesis by (simp add: put_get)
qed

theorem recovered_ledger_takes_permanent_block_witness:
  "\<exists>st1. reconcile_ledger_health utc_world tight_state 0 tight_options = Inr (True, st1) \<and>
     is_ok (fst (append_block_event utc_world st1 (nul_event True) 0 tight_options))"
proof -
  obtain st1 where st1: "reconcile_ledger_health utc_world tight_state 0 tight_options = Inr (True, st1)"
    "js_get st1 ''redactionLedgerUnhealthy'' = JBool False"
    using tight_recovers by blast
  have "js_get tight_state ''redactionLedgerUnhealthy'' = JBool True" by (simp add: tight_state_def)
  moreover have "replicate 1024 nul = nul # replicate 1023 nul" "replicate 64 nul = nul # replicate 63 nul"
    by (simp_all flip: replicate_Suc)
  then have "js_get (nul_event True) ''file'' = JStr (nul # replicate 1023 nul)"
    "js_get (nul_event True) ''cli'' = JStr (nul # replicate 63 nul)" "js_get (nul_event True) ''permanent'' = JBool True"
    by (simp_all add: nul_event_def)
  ultimately show ?thesis
    using recovered_ledger_takes_permanent_block [OF utc_dates st1(1)] st1 by blast
qed

text \<open>C39. The reserve is one byte short.  Its probe is a permanent block, and \<^verbatim>\<open>false\<close> is longer than
  \<^verbatim>\<open>true\<close>: with a ledger that has just been declared healthy, a block that is not permanent and whose
  texts are of the worst kind is refused for lack of capacity.\<close>

theorem reserve_is_one_byte_short:
  "\<exists>st1. reconcile_ledger_health utc_world tight_state 0 tight_options = Inr (True, st1) \<and>
     js_get st1 ''redactionLedgerUnhealthy'' = JBool False \<and>
     fst (append_block_event utc_world st1 (nul_event False) 0 tight_options) = Inl LedgerCapacity"
proof -
  obtain st1 where st1: "reconcile_ledger_health utc_world tight_state 0 tight_options = Inr (True, st1)"
    "js_get st1 ''redactionBlockLedger'' = JArr []" "js_get st1 ''redactionLedgerUnhealthy'' = JBool False"
    using tight_recovers by blast
  have none: "bounded_ledger utc_world (JArr []) 0 tight_options = Inr []"
    by (simp add: bounded_ledger_def utc_world_def tight_policy normalize_ledger_def map_filter_def ledger_fits_def
        text_bytes_def utf8_codes unit_bytes_def)
  have fields: "or_text nt (js_get (nul_event False) ''file'') [] = replicate 1024 nul"
    "or_text nt (js_get (nul_event False) ''cli'') [] = replicate 64 nul"
    "or_text nt (js_get (nul_event False) ''code'') dflt = replicate 128 nul"
    "js_get (nul_event False) ''permanent'' = JBool False" for nt dflt
    by (simp_all add: nul_event_def or_text_def js_or_def)
  have "\<not> ledger_fits nt \<lparr>lp_retention_ms = 691200000, lp_max_entries = 2000, lp_max_bytes = 7377\<rparr>
      [block_event (sw_iso utc_world 0) (replicate 1024 nul) (replicate 64 nul) (replicate 128 nul) False]" for nt
    unfolding ledger_fits_def by (simp only: utc_world_def sync_world.simps one_event_bytes) simp
  then have "fst (append_block_event utc_world st1 (nul_event False) 0 tight_options) = Inl LedgerCapacity"
    by (simp add: append_block_event_def utc_policy st1(2) none fields Let_def del: js_get.simps)
  with st1 show ?thesis by blast
qed

end
