(* ===== verification/Freshness.thy ===== *)
theory Freshness
  imports PosixPath ConvergeRunner
begin

text \<open>
  Freshness of a memory store, \<^verbatim>\<open>lib/memory/freshness.js\<close>: the publisher heads as they are read, the
  age of unpublished local changes, the classification, the assessment and the doctor's verdict; and
  how the convergence runner reads the report.  Parameters: \<open>dp\<close> \<^verbatim>\<open>Date.parse\<close>, \<open>nt\<close> the text of a
  number, the clock, and what the file system and the store answer.
\<close>

section \<open>Numbers and names\<close>

definition finite_ms :: "(string \<Rightarrow> jsnum) \<Rightarrow> js \<Rightarrow> rat option" where
  "finite_ms dp v =
     (case (case v of JStr s \<Rightarrow> dp s | _ \<Rightarrow> js_number v) of Fin q \<Rightarrow> Some q | _ \<Rightarrow> None)"

definition positive_or :: "js \<Rightarrow> rat \<Rightarrow> rat" where
  "positive_or v fallback = (case js_number v of Fin q \<Rightarrow> if q > 0 then q else fallback | _ \<Rightarrow> fallback)"

definition hours_to_ms :: "jsnum \<Rightarrow> rat \<Rightarrow> rat" where
  "hours_to_ms h fallback = (case h of Fin q \<Rightarrow> if q > 0 then q * 60 * 60 * 1000 else fallback | _ \<Rightarrow> fallback)"

definition round_half_up :: "rat \<Rightarrow> rat" where
  "round_half_up q = of_int \<lfloor>q + 1 / 2\<rfloor>"

definition format_duration_ms :: "(jsnum \<Rightarrow> string) \<Rightarrow> (string \<Rightarrow> jsnum) \<Rightarrow> js \<Rightarrow> string" where
  "format_duration_ms nt dp v =
     (case finite_ms dp v of
        None \<Rightarrow> ''unknown''
      | Some ms \<Rightarrow>
          (let part = (\<lambda>unit suffix. nt (Fin (round_half_up (ms / unit))) @ suffix) in
           if ms < 1000 then part 1 ''ms''
           else if ms < 60000 then part 1000 ''s''
           else if ms < 3600000 then part 60000 ''m''
           else if ms < 86400000 then part 3600000 ''h''
           else part 86400000 ''d''))"

definition assert_safe_relative_memory_path :: "string \<Rightarrow> string option" where
  "assert_safe_relative_memory_path value =
     (if \<not> starts_with value ''memory/'' \<or> path_is_absolute value \<or> nul \<in> set value then None
      else let n = posix_normalize value in
           if \<not> starts_with n ''memory/'' \<or> has_sub n ''../'' then None else Some n)"

definition safe_head_filename :: "string \<Rightarrow> bool" where
  "safe_head_filename s \<longleftrightarrow>
     ends_with s ''.json'' \<and> CHR ''/'' \<notin> set s \<and> CHR 0x5C \<notin> set s \<and> nul \<notin> set s"

definition memory_store_agent_id :: "string \<Rightarrow> string option" where
  "memory_store_agent_id value =
     (if value = [] \<or> value = ''.'' \<or> value = ''..'' \<or> CHR ''/'' \<in> set value \<or> CHR 0x5C \<in> set value \<or> nul \<in> set value
      then None else Some value)"

section \<open>Age of unpublished local changes\<close>

definition baseline_updated_at :: "(string \<Rightarrow> jsnum) \<Rightarrow> js option \<Rightarrow> rat option" where
  "baseline_updated_at dp doc =
     (case doc of
        None \<Rightarrow> None
      | Some b \<Rightarrow> if js_elems (js_get b ''pages'') = [] then None else finite_ms dp (js_get b ''updated_at''))"

text \<open>\<open>matched\<close> is the comparison with the own head, \<open>None\<close> when it fails; the modification times
  are those of the collected files that can be read and of the memory directory.\<close>

definition local_dirty_age ::
    "bool option \<Rightarrow> rat list \<Rightarrow> rat option \<Rightarrow> rat option \<Rightarrow> rat \<Rightarrow> rat option" where
  "local_dirty_age matched mtimes dir_mtime baseline now =
     (if matched \<noteq> Some False then None
      else let times = mtimes @ (case dir_mtime of None \<Rightarrow> [] | Some t \<Rightarrow> [t]) in
           case (if times = [] then baseline else Some (fold max times (hd times))) of
             None \<Rightarrow> None | Some latest \<Rightarrow> Some (max 0 (now - latest)))"

section \<open>Publisher heads\<close>

definition head_value :: "string \<Rightarrow> bool \<Rightarrow> rat \<Rightarrow> rat \<Rightarrow> rat \<Rightarrow> js" where
  "head_value publisher retired updated observed skew =
     JObj [(''publisherId'', JStr publisher), (''retired'', JBool retired), (''updatedAtMs'', JNum (Fin updated)),
           (''storeObservedAtMs'', JNum (Fin observed)), (''clockSkewMs'', JNum (Fin skew))]"

text \<open>A file of the heads directory: name, content when it parses, modification time.\<close>

fun read_file_heads :: "(string \<Rightarrow> jsnum) \<Rightarrow> (string \<times> js option \<times> rat) list \<Rightarrow> js list option" where
  "read_file_heads dp [] = Some []"
| "read_file_heads dp ((name, content, mtime) # rest) =
     (if \<not> ends_with name ''.json'' then read_file_heads dp rest
      else if \<not> safe_head_filename name then None
      else case content of
        None \<Rightarrow> read_file_heads dp rest
      | Some h \<Rightarrow>
          (let stamp = finite_ms dp (js_get h ''updated_at'');
               updated = (case stamp of None \<Rightarrow> mtime | Some t \<Rightarrow> t);
               skew = (case stamp of None \<Rightarrow> 0 | Some t \<Rightarrow> \<bar>t - mtime\<bar>);
               retired = (truthy (js_get h ''retired'') \<or> truthy (js_get (js_get h ''retirement'') ''retired_at'') \<or>
                          truthy (js_get (js_get h ''markers'') ''__retired''))
           in map_option (Cons (head_value (take (length name - 5) name) retired updated mtime skew))
                (read_file_heads dp rest)))"

definition base_without_json :: "string \<Rightarrow> string" where
  "base_without_json p =
     (let b = last (split_on (CHR ''/'') p) in if ends_with b ''.json'' \<and> b \<noteq> ''.json'' then take (length b - 5) b else b)"

definition read_server_heads :: "(string \<Rightarrow> jsnum) \<Rightarrow> js list \<Rightarrow> js list" where
  "read_server_heads dp files =
     List.map_filter (\<lambda>f.
       case js_get f ''path'' of
         JStr p \<Rightarrow>
           if starts_with p ''memory-store/heads/'' \<and> ends_with p ''.json''
           then (case finite_ms dp (js_coalesce (js_get f ''synced_at'') (js_get f ''updated_at'')) of
                   None \<Rightarrow> None
                 | Some t \<Rightarrow> if base_without_json p = [] then None else Some (head_value (base_without_json p) False t t 0))
           else None
       | _ \<Rightarrow> None) files"

section \<open>Classification\<close>

record freshness_input =
  fi_heads :: "js list"
  fi_now :: rat
  fi_hours :: js
  fi_days :: js
  fi_dirty :: "rat option"

record active_head =
  ah_id :: string
  ah_retired :: bool
  ah_updated :: rat
  ah_age :: rat

definition normalize_head :: "(jsnum \<Rightarrow> string) \<Rightarrow> (string \<Rightarrow> jsnum) \<Rightarrow> rat \<Rightarrow> js \<Rightarrow> active_head option" where
  "normalize_head nt dp now h =
     (case finite_ms dp (js_coalesce (js_coalesce (js_get h ''updatedAtMs'') (js_get h ''updated_at_ms'')) (js_get h ''updated_at'')) of
        None \<Rightarrow> None
      | Some t \<Rightarrow>
          (let ident = js_to_string nt (js_coalesce (js_coalesce (js_get h ''publisherId'') (js_get h ''publisher_id'')) (JStr []))
           in if ident = [] then None
              else Some \<lparr>ah_id = ident, ah_retired = truthy (js_get h ''retired''), ah_updated = t, ah_age = max 0 (now - t)\<rparr>))"

definition active_head_value :: "active_head \<Rightarrow> js" where
  "active_head_value h =
     JObj [(''publisherId'', JStr (ah_id h)), (''retired'', JBool (ah_retired h)), (''updatedAtMs'', JNum (Fin (ah_updated h))),
           (''ageMs'', JNum (Fin (ah_age h)))]"

definition active_heads :: "(jsnum \<Rightarrow> string) \<Rightarrow> (string \<Rightarrow> jsnum) \<Rightarrow> freshness_input \<Rightarrow> active_head list" where
  "active_heads nt dp i = filter (\<lambda>h. \<not> ah_retired h) (List.map_filter (normalize_head nt dp (fi_now i)) (fi_heads i))"

definition freshness_ms :: "freshness_input \<Rightarrow> rat" where
  "freshness_ms i =
     hours_to_ms (js_number (if fi_hours i = JUndef then jint 48 else fi_hours i)) (48 * 60 * 60 * 1000)"

fun times_24 :: "jsnum \<Rightarrow> jsnum" where
  "times_24 (Fin q) = Fin (q * 24)"
| "times_24 n = n"

definition retirement_ms :: "freshness_input \<Rightarrow> rat" where
  "retirement_ms i =
     hours_to_ms (times_24 (js_number (if fi_days i = JUndef then jint 30 else fi_days i))) (30 * 24 * 60 * 60 * 1000)"

definition freshness_report :: "string \<Rightarrow> bool \<Rightarrow> bool \<Rightarrow> active_head list \<Rightarrow> active_head list \<Rightarrow> js list \<Rightarrow> js \<Rightarrow> (string \<times> js) list" where
  "freshness_report st degraded idle stale fresh candidates reason =
     [(''state'', JStr st), (''degraded'', JBool degraded), (''idle'', JBool idle),
      (''staleHeads'', JArr (map active_head_value stale)), (''freshHeads'', JArr (map active_head_value fresh)),
      (''retirementCandidates'', JArr candidates), (''reason'', reason)]"

definition retirement_candidate :: "active_head \<Rightarrow> js" where
  "retirement_candidate h =
     JObj [(''publisherId'', JStr (ah_id h)), (''exactCommand'', JStr (''agentbootup memory retire-head '' @ ah_id h)),
           (''ageMs'', JNum (Fin (ah_age h)))]"

definition classify_memory_freshness ::
    "(jsnum \<Rightarrow> string) \<Rightarrow> (string \<Rightarrow> jsnum) \<Rightarrow> freshness_input \<Rightarrow> (string \<times> js) list" where
  "classify_memory_freshness nt dp i =
     (let active = active_heads nt dp i;
          fresh = filter (\<lambda>h. ah_age h \<le> freshness_ms i) active;
          stale = filter (\<lambda>h. ah_age h > freshness_ms i) active;
          dirty_stale = (case fi_dirty i of None \<Rightarrow> False | Some a \<Rightarrow> a > freshness_ms i);
          divergent = (stale \<noteq> [] \<and> fresh \<noteq> []);
          degraded = (divergent \<or> dirty_stale);
          idle = (\<not> degraded \<and> fresh = []);
          candidates = (if fresh = [] then []
                        else map retirement_candidate (filter (\<lambda>h. ah_age h > retirement_ms i) stale))
      in if active = []
         then freshness_report ''never_synced'' False False [] [] [] (JStr ''no active publisher heads recorded'')
         else freshness_report (if degraded then ''stale'' else if idle then ''idle'' else ''ok'') degraded idle stale fresh candidates
           (if degraded
            then JStr (if divergent then ''publisher known but stale while a sibling head is fresh''
                       else ''local unpublished memory changes are older than the freshness window'')
            else if idle then JStr ''all publisher heads are equally old and local memory is clean'' else JNull))"

section \<open>Assessment\<close>

definition clock_skew :: "(string \<Rightarrow> jsnum) \<Rightarrow> js list \<Rightarrow> rat" where
  "clock_skew dp heads =
     foldl (\<lambda>m h. max m (case finite_ms dp (js_get h ''clockSkewMs'') of None \<Rightarrow> 0 | Some s \<Rightarrow> s)) 0 heads"

definition clock_skew_status :: "rat \<Rightarrow> string" where
  "clock_skew_status skew = (if skew > 5 * 60000 then ''degraded'' else if skew > 30000 then ''warn'' else ''ok'')"

definition setting_or :: "env \<Rightarrow> string \<Rightarrow> rat \<Rightarrow> js" where
  "setting_or env k dflt = JNum (Fin (positive_or (case env k of None \<Rightarrow> JUndef | Some s \<Rightarrow> JStr s) dflt))"

definition assess_memory_freshness ::
    "(jsnum \<Rightarrow> string) \<Rightarrow> (string \<Rightarrow> jsnum) \<Rightarrow> env \<Rightarrow> rat \<Rightarrow> js list \<Rightarrow> rat option \<Rightarrow> js" where
  "assess_memory_freshness nt dp env now heads dirty =
     (let hours = setting_or env ''AGENTBOOTUP_MEMORY_FRESHNESS_HOURS'' 48;
          days = setting_or env ''AGENTBOOTUP_MEMORY_RETIREMENT_DAYS'' 30;
          skew = clock_skew dp heads
      in JObj (classify_memory_freshness nt dp
                 \<lparr>fi_heads = heads, fi_now = now, fi_hours = hours, fi_days = days, fi_dirty = dirty\<rparr> @
               [(''headCount'', jint (int (length heads))), (''heads'', JArr heads),
                (''localDirtyAgeMs'', case dirty of None \<Rightarrow> JNull | Some a \<Rightarrow> JNum (Fin a)),
                (''freshnessHours'', hours), (''retirementDays'', days), (''maxClockSkewMs'', JNum (Fin skew)),
                (''clockSkewStatus'', JStr (clock_skew_status skew))]))"

definition check_details :: "(jsnum \<Rightarrow> string) \<Rightarrow> (string \<Rightarrow> jsnum) \<Rightarrow> js \<Rightarrow> string list" where
  "check_details nt dp a =
     (let skew = format_duration_ms nt dp (js_get a ''maxClockSkewMs'');
          candidates = js_elems (js_get a ''retirementCandidates'')
      in (if truthy (js_get a ''reason'') then [js_to_string nt (js_get a ''reason'')] else []) @
         (if js_get a ''localDirtyAgeMs'' \<noteq> JNull
          then [''local unpublished memory age '' @ format_duration_ms nt dp (js_get a ''localDirtyAgeMs'')] else []) @
         (if js_get a ''clockSkewStatus'' = JStr ''warn'' then [''clock skew warning ('' @ skew @ '')'']
          else if js_get a ''clockSkewStatus'' = JStr ''degraded'' then [''clock skew exceeds 5m ('' @ skew @ '')''] else []) @
         (if candidates \<noteq> []
          then [''retirement candidates: '' @ join_with '', '' (map (\<lambda>c. js_to_string nt (js_get c ''exactCommand'')) candidates)]
          else []))"

definition build_freshness_check_result :: "(jsnum \<Rightarrow> string) \<Rightarrow> (string \<Rightarrow> jsnum) \<Rightarrow> js \<Rightarrow> js" where
  "build_freshness_check_result nt dp a =
     (let details = check_details nt dp a;
          bad = (js_get a ''state'' \<in> {JStr ''stale'', JStr ''never_synced''} \<or> js_get a ''clockSkewStatus'' = JStr ''degraded'')
      in JObj
        [(''state'', JStr (if bad then ''fail'' else ''pass'')),
         (''severity'', JStr (if bad \<or> js_get a ''clockSkewStatus'' = JStr ''warn'' then ''warning'' else ''info'')),
         (''category'', JStr ''memory''),
         (''message'', JStr (''memory freshness '' @ js_to_string nt (js_get a ''state'') @
            (if details \<noteq> [] then '': '' @ join_with ''; '' details else []))),
         (''details'', a)])"

section \<open>What the runner reads in an assessment\<close>

definition stale_sibling :: "(jsnum \<Rightarrow> string) \<Rightarrow> (string \<Rightarrow> jsnum) \<Rightarrow> freshness_input \<Rightarrow> bool" where
  "stale_sibling nt dp i \<longleftrightarrow>
     list_ex (\<lambda>h. ah_age h \<le> freshness_ms i) (active_heads nt dp i) \<and>
     (list_ex (\<lambda>h. freshness_ms i < ah_age h) (active_heads nt dp i) \<or>
      (case fi_dirty i of None \<Rightarrow> False | Some age \<Rightarrow> freshness_ms i < age))"

definition env_input :: "env \<Rightarrow> rat \<Rightarrow> js list \<Rightarrow> rat option \<Rightarrow> freshness_input" where
  "env_input env now heads dirty =
     \<lparr>fi_heads = heads, fi_now = now, fi_hours = setting_or env ''AGENTBOOTUP_MEMORY_FRESHNESS_HOURS'' 48,
      fi_days = setting_or env ''AGENTBOOTUP_MEMORY_RETIREMENT_DAYS'' 30, fi_dirty = dirty\<rparr>"

lemma list_ex_filter [simp]: "filter P xs \<noteq> [] \<longleftrightarrow> list_ex P xs"
  by (induction xs) auto

lemma active_head_value_fields [simp]:
  "js_nullish (active_head_value h) \<longleftrightarrow> False"
  "js_get (active_head_value h) ''ageMs'' = JNum (Fin (ah_age h))"
  by (simp_all add: active_head_value_def)

lemma report_fields:
  "map_of (freshness_report st degraded idle stale fresh candidates reason @ rest) ''state'' = Some (JStr st)"
  "map_of (freshness_report st degraded idle stale fresh candidates reason @ rest) ''freshHeads'' =
     Some (JArr (map active_head_value fresh))"
  by (simp_all add: freshness_report_def)

lemma classified_fields:
  fixes nt dp i
  defines "active \<equiv> active_heads nt dp i"
  defines "fresh \<equiv> filter (\<lambda>h. ah_age h \<le> freshness_ms i) active"
  shows "map_of (classify_memory_freshness nt dp i @ rest) ''freshHeads'' = Some (JArr (map active_head_value fresh))"
    and "map_of (classify_memory_freshness nt dp i @ rest) ''state'' = Some (JStr ''stale'') \<longleftrightarrow>
      filter (\<lambda>h. ah_age h > freshness_ms i) active \<noteq> [] \<and> fresh \<noteq> [] \<or>
      active \<noteq> [] \<and> (case fi_dirty i of None \<Rightarrow> False | Some age \<Rightarrow> age > freshness_ms i)"
proof -
  have "fresh = []" if "active = []" using that by (simp add: fresh_def)
  then show "map_of (classify_memory_freshness nt dp i @ rest) ''freshHeads'' = Some (JArr (map active_head_value fresh))"
    by (cases "active = []") (simp_all only: classify_memory_freshness_def active_def [symmetric] fresh_def [symmetric]
        Let_def report_fields if_True if_False list.map simp_thms)
  have split: "(if b then x else y) = z \<longleftrightarrow> (if b then x = z else y = z)" for b and x y z :: string by simp
  show "map_of (classify_memory_freshness nt dp i @ rest) ''state'' = Some (JStr ''stale'') \<longleftrightarrow>
      filter (\<lambda>h. ah_age h > freshness_ms i) active \<noteq> [] \<and> fresh \<noteq> [] \<or>
      active \<noteq> [] \<and> (case fi_dirty i of None \<Rightarrow> False | Some age \<Rightarrow> age > freshness_ms i)"
    by (cases "active = []") (simp_all only: classify_memory_freshness_def active_def [symmetric] fresh_def [symmetric]
        Let_def report_fields if_True if_False split option.inject js.inject list.inject char.inject list.distinct
        simp_thms filter.simps, auto)
qed

lemma assessment_field:
  "js_get (assess_memory_freshness nt dp env now heads dirty) k =
     (case map_of (classify_memory_freshness nt dp (env_input env now heads dirty) @
        drop 7 (js_entries (assess_memory_freshness nt dp env now heads dirty))) k of None \<Rightarrow> JUndef | Some v \<Rightarrow> v)"
proof -
  have "length (classify_memory_freshness nt dp i) = 7" for i
    by (simp add: classify_memory_freshness_def freshness_report_def Let_def)
  then show ?thesis
    by (simp only: assess_memory_freshness_def Let_def env_input_def js_get.simps js_entries.simps drop_append) simp
qed

lemma stale_evidence_iff:
  "stale_evidence (assess_memory_freshness nt dp env now heads dirty) \<longleftrightarrow> stale_sibling nt dp (env_input env now heads dirty)"
proof -
  have read_text: "(case m of None \<Rightarrow> JUndef | Some v \<Rightarrow> v) = JStr t \<longleftrightarrow> m = Some (JStr t)" for m t
    by (cases m) simp_all
  have "js_get (assess_memory_freshness nt dp env now heads dirty) ''state'' = JStr ''stale'' \<longleftrightarrow>
      map_of (classify_memory_freshness nt dp (env_input env now heads dirty) @
        drop 7 (js_entries (assess_memory_freshness nt dp env now heads dirty))) ''state'' = Some (JStr ''stale'')"
    unfolding assessment_field by (rule read_text)
  then have state: "js_get (assess_memory_freshness nt dp env now heads dirty) ''state'' = JStr ''stale'' \<longleftrightarrow>
      list_ex (\<lambda>h. ah_age h > freshness_ms i) (active_heads nt dp i) \<and>
      list_ex (\<lambda>h. ah_age h \<le> freshness_ms i) (active_heads nt dp i) \<or>
      active_heads nt dp i \<noteq> [] \<and> (case fi_dirty i of None \<Rightarrow> False | Some age \<Rightarrow> age > freshness_ms i)"
    if "i = env_input env now heads dirty" for i
    unfolding that by (simp only: classified_fields list_ex_filter)
  have fresh: "js_elems (js_get (assess_memory_freshness nt dp env now heads dirty) ''freshHeads'') =
      map active_head_value (filter (\<lambda>h. ah_age h \<le> freshness_ms i) (active_heads nt dp i))"
    if "i = env_input env now heads dirty" for i
    unfolding that assessment_field classified_fields by simp
  define i where "i = env_input env now heads dirty"
  show ?thesis
    unfolding stale_evidence_def stale_sibling_def state [OF i_def] fresh [OF i_def] i_def [symmetric]
    by (auto simp: list_ex_iff)
qed

lemma assessment_never_throws: "\<not> freshness_throws (assess_memory_freshness nt dp env now heads dirty)"
  unfolding freshness_throws_def assessment_field classified_fields by (simp add: list_ex_iff)

text \<open>Stale publications.  A cycle that reads the assessment of the store goes on to compare and
  publish, once the refresh has succeeded, exactly when it is not a startup pass and the report shows
  no stale publication: no fresh active head beside a stale one, and none beside local changes older
  than the freshness window.  A stale publication closes the gate of a live cycle at once.\<close>

theorem stale_publication_iff_fresh_sibling:
  "let stale = stale_sibling nt dp (env_input env now heads dirty);
       read = freshness_done (Some (assess_memory_freshness nt dp env now heads dirty)) has_queue r c
   in (cy_at (snd (refresh_done lc to_text env t run queue r2 (snd read))) = AtMatch \<longleftrightarrow>
        live r2 (snd read) \<and> co_exit run = 0 \<and> \<not> stale \<and> \<not> cy_startup c) \<and>
      (rn_gate_open (fst read) \<longleftrightarrow> rn_gate_open r \<and> \<not> (live r c \<and> stale))"
proof -
  have "cy_stale (snd (freshness_done (Some f) has_queue r c)) = stale_evidence f"
    and "cy_startup (snd (freshness_done (Some f) has_queue r c)) = cy_startup c"
    and "rn_gate_open (fst (freshness_done (Some f) has_queue r c)) \<longleftrightarrow> rn_gate_open r \<and> \<not> (live r c \<and> stale_evidence f)"
    if "\<not> freshness_throws f" for f
    using that by (simp_all add: freshness_done_def Let_def)
  note read = this [OF assessment_never_throws, unfolded stale_evidence_iff]
  have "cy_at (snd (refresh_done lc to_text env t run queue r2 d)) = AtMatch \<longleftrightarrow>
      live r2 d \<and> co_exit run = 0 \<and> \<not> cy_stale d \<and> \<not> cy_startup d" for d
    by (simp add: refresh_done_def finish_def)
  then show ?thesis unfolding Let_def by (simp only: read)
qed

end
