(* ===== verification/Spec2Isabelle.thy ===== *)
theory Spec2Isabelle
  imports ConvergeSafety ConvergenceFailure Tombstones SyncLock FileLock CycleProgress ApplyBinding ApprovalReceipts
    ReplayQueue PortRegistry ConnectorHandler ArchiveLifecycle BootstrapPlan OffloadPlan SyncState Freshness BackupSelection GlobMatch
begin

text \<open>
  Verification development of agentbootup, the command-line program and daemon that transport,
  restore and synchronise the portable assets of a brain (memory pages, transcripts, skills) between
  machines.

  \<^bold>\<open>The program and its parts.\<close>  The command line (\<^verbatim>\<open>bin/\<close>, \<^verbatim>\<open>lib/*/cli.js\<close>) and the daemon
  (\<^verbatim>\<open>lib/daemon/\<close>) move files between a brain directory, a store of snapshots and a server.  What may be
  moved, by whom, and what survives is decided in a core of small modules, and it is this core that is
  modelled.  Memory: a cycle of the daemon takes the sync mutex, publishes or merges snapshots, records
  conflicts and failures, and may push raw memory only while its gate is open.  Networking: a plan to add
  a machine is approved by a signed receipt and bound to a lease.  Sessions: a server talks to the
  native agent sessions of a machine through a connector with an extension lane.  Archive: transcripts
  become content-addressed generations with receipts and evidence, and a ledger decides when a local
  file may go.

  \<^bold>\<open>Theories and sources\<close> (all under \<^verbatim>\<open>src/lib/\<close>).

  \<^item> \<open>JsPrelude\<close>: JavaScript values and the library functions the code uses, errors as sums, sorting
    with comparators, transition systems and the locales shared by the components.
  \<^item> \<open>PosixPath\<close>: \<^verbatim>\<open>util/contained-path.js\<close> with \<^verbatim>\<open>path.posix.normalize\<close>.
  \<^item> \<open>ConvergeSafety\<close>: \<^verbatim>\<open>memory/converge-safety.js\<close>.  \<open>MemoryConflict\<close>: \<^verbatim>\<open>memory/conflict.js\<close>.
    \<open>ConvergenceFailure\<close>: \<^verbatim>\<open>memory/convergence-failure.js\<close>.  \<open>Tombstones\<close>: \<^verbatim>\<open>memory/tombstones.js\<close>.
    \<open>Freshness\<close>: \<^verbatim>\<open>memory/freshness.js\<close>.
  \<^item> \<open>SyncLock\<close>: \<^verbatim>\<open>memory/sync-lock.js\<close>.  \<open>FileLock\<close>: \<^verbatim>\<open>util/file-lock.js\<close>.
  \<^item> \<open>ConvergeRunner\<close>: \<^verbatim>\<open>createConvergeRunner\<close> of \<^verbatim>\<open>daemon/memory-converge.mjs\<close>; \<open>CycleProgress\<close>: its
    cycles come to an end.
  \<^item> \<open>GlobMatch\<close>, \<open>BackupSelection\<close>: \<^verbatim>\<open>memory/brain-backup-selection.js\<close> and \<^verbatim>\<open>config/brain-id.js\<close>.
  \<^item> \<open>ReplayQueue\<close>: \<^verbatim>\<open>memory/replay-queue.js\<close>.
  \<^item> \<open>CanonicalJson\<close>, \<open>ApprovalReceipts\<close>: \<^verbatim>\<open>network/machine-approval-receipts.js\<close>.
    \<open>ApplyBinding\<close>: \<^verbatim>\<open>network/machine-apply-binding.js\<close>.
  \<^item> \<open>GlobalConfig\<close>: \<^verbatim>\<open>config/config.js\<close>.  \<open>PortRegistry\<close>: \<^verbatim>\<open>brain/port-registry.js\<close>.
  \<^item> \<open>SyncState\<close>: \<^verbatim>\<open>sync-state/sync-state.js\<close>.
  \<^item> \<open>SessionRegistry\<close>: \<^verbatim>\<open>daemon/remote-local-native-session-registry.mjs\<close>.  \<open>HostRelay\<close>:
    \<^verbatim>\<open>daemon/host-extension-relay-handler.mjs\<close>.  \<open>ConnectorHandler\<close>:
    \<^verbatim>\<open>daemon/remote-local-connector-handler.mjs\<close>, composed of the two.
  \<^item> \<open>ArchiveContracts\<close>: \<^verbatim>\<open>transcript-archive/contracts.js\<close>.  \<open>ArchiveLedger\<close>:
    \<^verbatim>\<open>transcript-archive/ledger.js\<close>; \<open>ArchiveLifecycle\<close>: what its operations do to a source.
    \<open>ArchiveConfig\<close>: \<^verbatim>\<open>transcript-archive/config.js\<close> and the constructor of the ledger.
    \<open>StableSnapshot\<close>: \<^verbatim>\<open>transcript-archive/snapshot.js\<close>.  \<open>OffloadPlan\<close>: \<^verbatim>\<open>transcript-archive/offload.js\<close>.
  \<^item> \<open>BootstrapPlan\<close>: \<^verbatim>\<open>network/bootstrap-plan.js\<close>.

  \<^bold>\<open>How code becomes definitions.\<close>  A pure function is a function of the same name in snake case; a throw
  is an \<open>Inl\<close> or \<open>None\<close>, an early return a branch.  The closure variables of a factory (the runner, the
  registry, the relay, the connector) are a record; a method is a function of that record that returns
  its result with the record it leaves.  Code between two awaits is one step; what is suspended at an
  await is part of the state, and an \<open>inductive\<close> relation lets the suspended parts go on in any order.
  Locks are relations on the lock file, with one step per system call or reading of the clock, so that what was
  read can be out of date when it is used;
  the snapshot reader sees a disk that is a function of time, one moment per call.  Files are their contents: a
  value of JSON or a text.  History variables (what was sent, that a pass completed) record events and
  influence nothing; \<open>rn_converged\<close> of the runner is one.

  \<^bold>\<open>Interfaces.\<close>  \<open>guarded_system\<close> (an inductive invariant holds in every reachable state) is interpreted
  for the runner, the registry, the relay, the connector and the evidence of the archive ledger;
  \<open>owned_lock\<close> extends it to mutual exclusion for both locks; \<open>settling\<close> (a measure that every move uses up)
  for the convergence cycle; \<open>comparator\<close> and \<open>separating_comparator\<close> for the orders that the code sorts
  by; \<open>owned_snapshot\<close> for the validators that copy what they accept.

  \<^bold>\<open>What the lemmas show.\<close>  Locks: the verdict on a stale holder is right; at most one holder, as long
  as every rename of a stale lock hits the file that was judged, and runs in which it does not and two
  processes enter.  Runner: the push gate is open only after a pass that completed since the last cycle
  that found convergence off;
  segments of an abandoned cycle change nothing; every cycle ends.  Records: normalised conflicts and
  failures are accepted by their validators, and the hand-written escaper is correct JSON.  Tombstones,
  selection and glob matching: exact characterisations of the decisions.  Queue: a refinement
  of a sorted queue.  Approvals: an accepted approval is signed by a registered identity, in force and of this plan;
  a created receipt verifies; the preflight gives back the lease it took or binds exactly what it acquired.  Sessions: a handle never changes its
  meaning, a lost transport hears nothing, bounds on turns, tasks and memory.  Archive: an address names
  the generation, a created manifest validates, the pattern of recorded paths is what it is, line separators included; a source that may be
  deleted is backed by a verified, replicated generation, its deletion is recorded only with proof, and
  the evidence stays through every sequence of operations but the write of a whole new ledger; a snapshot and the parts read after it are of
  one generation of the file; the planner matches each file to evidence for that file and the bytes it read.  Plans: what is created validates, what was validated is stable.  Ports: no two
  daemons of one machine share a port unless two allocations interleave.  Where the code does not do what
  it says, the theorem states what it does.

  \<^bold>\<open>Bounds.\<close>  Recursion is structural or has a measure; there is no fuel.  The bounds that appear are those of
  the code: 32 sessions, 8 turns, one extension task, 256 remembered correlations, 100 conflicts,
  the 64 KiB of a conflict record, the state bound of the matcher, the caps of queue and ledger.

  \<^bold>\<open>Parameters.\<close>  \<^verbatim>\<open>Date.parse\<close>, \<^verbatim>\<open>toISOString\<close>, the text of a number, \<^verbatim>\<open>localeCompare\<close>, random bytes, clocks,
  SHA-256, Ed25519 and the answers of injected functions, of the file system and of a transport are
  arguments.  Hypotheses on them state documented behaviour (a digest has 64 hexadecimal digits; the
  texts of different numbers differ) and every property that has one is applied to an instance.

  \<^bold>\<open>Not modelled.\<close>  Numbers are rationals, so rounding to doubles and the sign of zero are left out; strings
  are code units below 256 except where a theory works on code units; prototypes, accessors, symbols and
  array holes are not values.  Not modelled as components: the store backends, the installer and the
  command lines (copying of trees, HTTP, printing), the processes around the runner (timers, spawning),
  the lock of the archive ledger (its operations are one step each, and what a failing write leaves is not part of
  their value) and the uploads, the doctor's probes, authentication, skill projection, sharing, and
  the TypeScript server and agent runtime.
\<close>

end
